(* ===== verification/Go_Base.thy ===== *)
theory Go_Base
  imports Main "HOL-Library.Word"
begin

unbundle bit_operations_syntax

text \<open>
  The shared prelude of the development: the Go types the models use, the outcome of a Go
  call, byte slices with a capacity, and the generic lemmas on words and lists that the
  component theories rely on.

  A fixed-width Go integer is a word of its width; a signed one (int32, int64) is the same
  word read with sint. A Go int is a HOL int, and where a computation can leave the 64-bit
  range the wrap-around is written out with \<open>go_int\<close>. A float32 or float64 that is only
  moved around is its IEEE 754 bit pattern, a word.
\<close>

type_synonym u8 = "8 word"
type_synonym u16 = "16 word"
type_synonym u32 = "32 word"
type_synonym u64 = "64 word"
type_synonym i32 = "32 word"
type_synonym i64 = "64 word"
type_synonym bytes = "8 word list"

text \<open>Rules that rewrite byte-level reads and writes to arithmetic.\<close>

named_theorems wire_simps

text \<open>Rules that step through calls that may fail.\<close>

named_theorems gres_simps


section \<open>The outcome of a Go call\<close>

text \<open>
  A call returns a value, returns a non-nil error, panics, or is still running when the fuel
  of the model is used up. \<open>OutOfFuel\<close> is not an outcome of the program: a theorem that the
  code returns shows that some fuel gives another outcome.
\<close>

datatype ('e, 'a) gres = Ok 'a | Err 'e | Panic | OutOfFuel

fun gbind :: "('e, 'a) gres \<Rightarrow> ('a \<Rightarrow> ('e, 'b) gres) \<Rightarrow> ('e, 'b) gres" where
  "gbind (Ok x) f = f x"
| "gbind (Err e) f = Err e"
| "gbind Panic f = Panic"
| "gbind OutOfFuel f = OutOfFuel"

fun gmap :: "('a \<Rightarrow> 'b) \<Rightarrow> ('e, 'a) gres \<Rightarrow> ('e, 'b) gres" where
  "gmap f (Ok x) = Ok (f x)"
| "gmap f (Err e) = Err e"
| "gmap f Panic = Panic"
| "gmap f OutOfFuel = OutOfFuel"

lemma gbind_cong [fundef_cong]:
  assumes "m = m'" and "\<And>x. m' = Ok x \<Longrightarrow> f x = f' x"
  shows "gbind m f = gbind m' f'"
  using assms by (cases m') auto

lemma gbind_Ok_iff: "gbind m f = Ok y \<longleftrightarrow> (\<exists>x. m = Ok x \<and> f x = Ok y)"
  by (cases m) auto

lemma gbind_assoc: "gbind (gbind m f) g = gbind m (\<lambda>x. gbind (f x) g)"
  by (cases m) auto

lemma gmap_gbind: "gmap f m = gbind m (\<lambda>x. Ok (f x))"
  by (cases m) simp_all

lemma gmap_Ok_iff: "gmap f m = Ok y \<longleftrightarrow> (\<exists>x. m = Ok x \<and> y = f x)"
  by (cases m) auto

text \<open>The call returns, with a value or with an error: it neither panics nor runs on.\<close>

definition returns :: "('e, 'a) gres \<Rightarrow> bool" where
  "returns m \<longleftrightarrow> m \<noteq> Panic \<and> m \<noteq> OutOfFuel"

lemma returns_simps [simp]: "returns (Ok x)" "returns (Err e)" "\<not> returns Panic" "\<not> returns OutOfFuel"
  by (simp_all add: returns_def)

lemma returns_gmap [simp]: "returns (gmap f m) \<longleftrightarrow> returns m"
  by (cases m) simp_all

lemma returns_gbind: "returns m \<Longrightarrow> (\<And>x. m = Ok x \<Longrightarrow> returns (f x)) \<Longrightarrow> returns (gbind m f)"
  by (cases m) simp_all

lemma returns_cases: "returns m \<longleftrightarrow> (\<exists>x. m = Ok x) \<or> (\<exists>e. m = Err e)"
  by (cases m) simp_all


section \<open>Loops that keep an invariant\<close>

text \<open>A loop over a list of inputs whose body may fail.\<close>

fun gfold :: "('i \<Rightarrow> 's \<Rightarrow> ('e, 's) gres) \<Rightarrow> 'i list \<Rightarrow> 's \<Rightarrow> ('e, 's) gres" where
  "gfold step [] s = Ok s"
| "gfold step (i # is) s = gbind (step i s) (gfold step is)"

text \<open>The results of a body that may fail, for every input.\<close>

fun gmapM :: "('a \<Rightarrow> ('e, 'b) gres) \<Rightarrow> 'a list \<Rightarrow> ('e, 'b list) gres" where
  "gmapM f [] = Ok []"
| "gmapM f (x # xs) = gbind (f x) (\<lambda>y. gmap (Cons y) (gmapM f xs))"

text \<open>The contract of a handler that succeeds in every state of its invariant and keeps it.\<close>

locale invariant_step =
  fixes step :: "'i \<Rightarrow> 's \<Rightarrow> ('e, 's) gres" and inv :: "'s \<Rightarrow> bool"
  assumes keeps: "inv s \<Longrightarrow> \<exists>s'. step i s = Ok s' \<and> inv s'"
begin

lemma gfold_keeps: "inv s \<Longrightarrow> \<exists>s'. gfold step is s = Ok s' \<and> inv s'"
proof (induction "is" arbitrary: s)
  case (Cons i "is")
  then obtain s' where "step i s = Ok s'" "inv s'" using keeps by blast
  with Cons.IH show ?case by auto
qed simp

lemma step_returns: "inv s \<Longrightarrow> returns (step i s)"
  using keeps [of s i] by auto

lemma step_inv: "inv s \<Longrightarrow> step i s = Ok s' \<Longrightarrow> inv s'"
  using keeps [of s i] by auto

end

section \<open>Go's 64-bit int\<close>

definition go_int :: "int \<Rightarrow> int" where
  "go_int x = signed_take_bit 63 x"

lemma go_int_id [simp]: "- (2 ^ 63) \<le> x \<Longrightarrow> x < 2 ^ 63 \<Longrightarrow> go_int x = x"
  by (simp add: go_int_def signed_take_bit_int_eq_self)

lemma go_int_bounds: "- (2 ^ 63) \<le> go_int x \<and> go_int x < 2 ^ 63"
  using signed_take_bit_int_greater_eq_minus_exp [of 63 x] signed_take_bit_int_less_exp [of 63 x]
  by (simp add: go_int_def)

text \<open>Go's conversion int(v) of a uint64: two's complement reinterpretation.\<close>

definition int_of_u64 :: "u64 \<Rightarrow> int" where
  "int_of_u64 v = sint v"

lemma int_of_u64_small: "unat v < 2 ^ 63 \<Longrightarrow> int_of_u64 v = int (unat v)"
proof -
  assume "unat v < 2 ^ 63"
  then have "int (unat v) < int (2 ^ 63)"
    by (simp only: of_nat_less_iff)
  then have "uint v < 2 ^ 63"
    by simp
  then have "signed_take_bit 63 (uint v) = uint v"
    by (intro signed_take_bit_int_eq_self) (simp_all add: order_trans [of _ 0])
  then show ?thesis
    by (simp add: int_of_u64_def sint_uint)
qed

lemma int_of_u64_of_nat: "n < 2 ^ 63 \<Longrightarrow> int_of_u64 (of_nat n) = int n"
  by (subst int_of_u64_small) (simp_all add: unat_of_nat)


section \<open>Byte slices\<close>

text \<open>
  A Go byte slice: the bytes up to its length and, beyond them, the bytes of the same
  backing array up to its capacity. Slicing \<open>s[a:b]\<close> is checked against the capacity, so it
  can reach the spare bytes; indexing is checked against the length.
\<close>

record slice =
  elems :: bytes
  spare :: bytes

definition slice_of :: "bytes \<Rightarrow> slice" where
  "slice_of xs = \<lparr>elems = xs, spare = []\<rparr>"

definition slice_len :: "slice \<Rightarrow> int" where
  "slice_len s = int (length (elems s))"

definition slice_index :: "slice \<Rightarrow> int \<Rightarrow> ('e, u8) gres" where
  "slice_index s i =
     (if 0 \<le> i \<and> i < slice_len s then Ok (elems s ! nat i) else Panic)"

definition slice_sub :: "slice \<Rightarrow> int \<Rightarrow> int \<Rightarrow> ('e, slice) gres" where
  "slice_sub s a b =
     (if 0 \<le> a \<and> a \<le> b \<and> b \<le> int (length (elems s @ spare s))
      then Ok \<lparr>elems = take (nat b - nat a) (drop (nat a) (elems s @ spare s)),
               spare = drop (nat b) (elems s @ spare s)\<rparr>
      else Panic)"

lemma slice_index_nth:
  assumes "elems s = pre @ b # post" and "i = int (length pre)"
  shows "slice_index s i = Ok b"
  using assms by (simp add: slice_index_def slice_len_def nth_append)

lemma slice_sub_mid:
  assumes "elems s = pre @ mid @ post" and "a = int (length pre)"
    and "b = int (length pre + length mid)"
  shows "slice_sub s a b = Ok \<lparr>elems = mid, spare = post @ spare s\<rparr>"
  using assms by (simp add: slice_sub_def nat_add_distrib)


section \<open>Words as numbers\<close>

lemma unat_less_pow [simp]: "unat (x :: 8 word) < 256"
  using unsigned_less [of x, where ?'a = nat] by simp

lemma unat_drop_bit: "unat (drop_bit k (v :: 'a::len word)) = unat v div 2 ^ k"
  unfolding unat_drop_bit_eq by (rule drop_bit_eq_div)

lemma unat_ucast_u8: "unat (ucast (v :: 'a::len word) :: u8) = unat v mod 256"
  by (simp add: unsigned_ucast_eq take_bit_eq_mod)

lemma u8_of_nat_unat [simp]: "(of_nat (unat (x :: u8)) :: u8) = x"
  by simp

lemma word_eqI_unat: "unat (x :: 'a::len word) = unat y \<Longrightarrow> x = y"
  by (simp add: word_unat_eq_iff)

lemma unat_ucast_up [simp]:
  assumes "LENGTH('a::len) \<le> LENGTH('b::len)"
  shows "unat (ucast (t :: 'a word) :: 'b word) = unat t"
proof -
  have "unat t < 2 ^ LENGTH('a)" by simp
  also have "\<dots> \<le> 2 ^ LENGTH('b)" using assms by simp
  finally show ?thesis
    by (simp add: unsigned_ucast_eq take_bit_nat_eq_self)
qed

lemma unat_and7: "unat ((t :: 8 word) AND 7) = unat t mod 8"
proof -
  have "t AND 7 = take_bit 3 t" by (simp add: take_bit_eq_mask mask_eq_exp_minus_1)
  then have "unat (t AND 7) = take_bit 3 (unat t)" by (simp only: unsigned_take_bit_eq)
  then show ?thesis by (simp only: take_bit_eq_mod) simp
qed

lemma unat_push_bit3: "unat (push_bit 3 (w :: u64)) = 8 * (unat w mod 2 ^ 61)"
proof -
  have "unat (push_bit 3 w) = take_bit 64 (push_bit 3 (unat w))"
    by (simp add: unsigned_push_bit_eq)
  also have "\<dots> = (8 * unat w) mod (8 * 2 ^ 61)"
    by (simp add: take_bit_eq_mod push_bit_eq_mult mult.commute)
  finally show ?thesis by (simp only: mult_mod_right)
qed

lemma add_below_8_less: "8 * a + b < (2::nat) ^ k \<longleftrightarrow> 8 * a < 2 ^ k" if "3 \<le> k" "b < 8"
proof -
  from that obtain j where "k = 3 + j" by (metis le_Suc_ex)
  then have k: "(2::nat) ^ k = 8 * 2 ^ j" by (simp add: power_add)
  have "8 * a + b < 8 * c \<longleftrightarrow> 8 * a < 8 * c" for c
    using that by presburger
  then show ?thesis unfolding k .
qed

lemma u64_less_pow: "k < 64 \<Longrightarrow> (v :: u64) < 2 ^ k \<longleftrightarrow> unat v < 2 ^ k"
proof -
  assume "k < 64"
  then have "(2 :: nat) ^ k < 2 ^ 64"
    by (rule power_strict_increasing) simp
  then have "unat (of_nat (2 ^ k) :: u64) = 2 ^ k"
    by (subst unat_of_nat) (simp only: mod_less len_num0 len_bit0 len_num1 mult_1_right, simp)
  then show ?thesis by (simp add: word_less_nat_alt)
qed

end
