(* ===== verification/Wire_Writer.thy ===== *)
theory Wire_Writer
  imports Go_Base
begin

text \<open>
  The write side of the Gremlin runtime, \<^verbatim>\<open>shared/gremlin_go/writer.go\<close>, and the wire types of
  \<^verbatim>\<open>shared/gremlin_go/reader.go\<close>. A \<open>writer\<close> is the buffer of bytes written so far with the
  capacity \<^verbatim>\<open>NewWriter\<close> allocated: \<^verbatim>\<open>writeBytes\<close> reslices the buffer instead of growing it,
  so a write beyond the capacity panics. Each \<^verbatim>\<open>Append\<close> method has the \<^verbatim>\<open>Size\<close> function the
  generated code uses to compute the capacity, and the lemmas show that the two agree:
  an append succeeds exactly when the announced size fits, and appends that many bytes.
\<close>

section \<open>Wire types\<close>

type_synonym wire_type = "8 word"
type_synonym wire_number = "32 word"

definition VarIntType :: wire_type where "VarIntType = 0"
definition Fixed64Type :: wire_type where "Fixed64Type = 1"
definition BytesType :: wire_type where "BytesType = 2"
definition StartGroupType :: wire_type where "StartGroupType = 3"
definition EndGroupType :: wire_type where "EndGroupType = 4"
definition Fixed32Type :: wire_type where "Fixed32Type = 5"

lemmas wire_type_defs =
  VarIntType_def Fixed64Type_def BytesType_def StartGroupType_def EndGroupType_def
  Fixed32Type_def


section \<open>The writer and its raw writes\<close>

record writer =
  wbuf :: bytes
  wcap :: nat

text \<open>A write that does not fit the capacity panics: the result is \<open>None\<close>.\<close>

type_synonym wres = "writer option"

definition NewWriter :: "int \<Rightarrow> wres" where
  "NewWriter sz = (if sz < 0 then None else Some \<lparr>wbuf = [], wcap = nat sz\<rparr>)"

definition writeBytes :: "writer \<Rightarrow> bytes \<Rightarrow> wres" where
  "writeBytes p data =
     (let m = length (wbuf p)
      in if m + length data \<le> wcap p then Some (p\<lparr>wbuf := wbuf p @ data\<rparr>) else None)"

definition writeByte :: "writer \<Rightarrow> bytes \<Rightarrow> wres" where
  "writeByte p data = writeBytes p data"

definition Bytes :: "writer \<Rightarrow> bytes" where
  "Bytes p = take (length (wbuf p)) (wbuf p)"


section \<open>Varints\<close>

text \<open>The two byte expressions of the source: \<^verbatim>\<open>byte((v>>k)&0x7f | 0x80)\<close> and \<^verbatim>\<open>byte(v>>k)\<close>.\<close>

definition cont_byte :: "u64 \<Rightarrow> nat \<Rightarrow> u8" where
  "cont_byte v k = ucast ((drop_bit k v AND 0x7f) OR 0x80)"

definition last_byte :: "u64 \<Rightarrow> nat \<Rightarrow> u8" where
  "last_byte v k = ucast (drop_bit k v)"

definition VarIntToBytes :: "u64 \<Rightarrow> bytes" where
  "VarIntToBytes v =
     (if v < 2 ^ 7 then [last_byte v 0]
      else if v < 2 ^ 14 then [cont_byte v 0, last_byte v 7]
      else if v < 2 ^ 21 then [cont_byte v 0, cont_byte v 7, last_byte v 14]
      else if v < 2 ^ 28 then
        [cont_byte v 0, cont_byte v 7, cont_byte v 14, last_byte v 21]
      else if v < 2 ^ 35 then
        [cont_byte v 0, cont_byte v 7, cont_byte v 14, cont_byte v 21, last_byte v 28]
      else if v < 2 ^ 42 then
        [cont_byte v 0, cont_byte v 7, cont_byte v 14, cont_byte v 21, cont_byte v 28,
          last_byte v 35]
      else if v < 2 ^ 49 then
        [cont_byte v 0, cont_byte v 7, cont_byte v 14, cont_byte v 21, cont_byte v 28,
          cont_byte v 35, last_byte v 42]
      else if v < 2 ^ 56 then
        [cont_byte v 0, cont_byte v 7, cont_byte v 14, cont_byte v 21, cont_byte v 28,
          cont_byte v 35, cont_byte v 42, last_byte v 49]
      else if v < 2 ^ 63 then
        [cont_byte v 0, cont_byte v 7, cont_byte v 14, cont_byte v 21, cont_byte v 28,
          cont_byte v 35, cont_byte v 42, cont_byte v 49, last_byte v 56]
      else
        [cont_byte v 0, cont_byte v 7, cont_byte v 14, cont_byte v 21, cont_byte v 28,
          cont_byte v 35, cont_byte v 42, cont_byte v 49, cont_byte v 56, 1])"

definition appendVarInt :: "writer \<Rightarrow> u64 \<Rightarrow> wres" where
  "appendVarInt p v =
     (if v < 2 ^ 7 then writeByte p [last_byte v 0]
      else if v < 2 ^ 14 then writeByte p [cont_byte v 0, last_byte v 7]
      else if v < 2 ^ 21 then writeByte p [cont_byte v 0, cont_byte v 7, last_byte v 14]
      else if v < 2 ^ 28 then
        writeByte p [cont_byte v 0, cont_byte v 7, cont_byte v 14, last_byte v 21]
      else if v < 2 ^ 35 then
        writeByte p [cont_byte v 0, cont_byte v 7, cont_byte v 14, cont_byte v 21, last_byte v 28]
      else if v < 2 ^ 42 then
        writeByte p [cont_byte v 0, cont_byte v 7, cont_byte v 14, cont_byte v 21, cont_byte v 28,
          last_byte v 35]
      else if v < 2 ^ 49 then
        writeByte p [cont_byte v 0, cont_byte v 7, cont_byte v 14, cont_byte v 21, cont_byte v 28,
          cont_byte v 35, last_byte v 42]
      else if v < 2 ^ 56 then
        writeByte p [cont_byte v 0, cont_byte v 7, cont_byte v 14, cont_byte v 21, cont_byte v 28,
          cont_byte v 35, cont_byte v 42, last_byte v 49]
      else if v < 2 ^ 63 then
        writeByte p [cont_byte v 0, cont_byte v 7, cont_byte v 14, cont_byte v 21, cont_byte v 28,
          cont_byte v 35, cont_byte v 42, cont_byte v 49, last_byte v 56]
      else
        writeByte p [cont_byte v 0, cont_byte v 7, cont_byte v 14, cont_byte v 21, cont_byte v 28,
          cont_byte v 35, cont_byte v 42, cont_byte v 49, cont_byte v 56, 1])"

definition SizeVarInt :: "u64 \<Rightarrow> nat" where
  "SizeVarInt v =
     (if v < 2 ^ 7 then 1
      else if v < 2 ^ 14 then 2
      else if v < 2 ^ 21 then 3
      else if v < 2 ^ 28 then 4
      else if v < 2 ^ 35 then 5
      else if v < 2 ^ 42 then 6
      else if v < 2 ^ 49 then 7
      else if v < 2 ^ 56 then 8
      else if v < 2 ^ 63 then 9
      else 10)"

text \<open>The zigzag image of a signed value: \<^verbatim>\<open>uint64(v<<1) ^ uint64(v>>63)\<close>, the second shift
  arithmetic because \<^verbatim>\<open>v\<close> is an int64.\<close>

definition appendSignedVarInt :: "writer \<Rightarrow> i64 \<Rightarrow> wres" where
  "appendSignedVarInt p v =
     (let value = push_bit 1 v XOR signed_drop_bit 63 v in appendVarInt p value)"

definition sizeSignedVarInt :: "i64 \<Rightarrow> nat" where
  "sizeSignedVarInt v =
     (let value = push_bit 1 v XOR signed_drop_bit 63 v in SizeVarInt value)"


section \<open>Tags and fixed-width values\<close>

definition appendTag :: "writer \<Rightarrow> wire_number \<Rightarrow> wire_type \<Rightarrow> wres" where
  "appendTag p tag protoType =
     (let tagVarInt = push_bit 3 (scast tag) OR ucast (protoType AND 7)
      in appendVarInt p tagVarInt)"

definition SizeTag :: "wire_number \<Rightarrow> nat" where
  "SizeTag tag =
     (let tagVarInt = push_bit 3 (scast tag) OR (0 AND 7) in SizeVarInt tagVarInt)"

definition appendFixed32 :: "writer \<Rightarrow> u32 \<Rightarrow> wres" where
  "appendFixed32 p v =
     writeByte p [ucast (drop_bit 0 v), ucast (drop_bit 8 v),
                  ucast (drop_bit 16 v), ucast (drop_bit 24 v)]"

definition sizeFixed32 :: nat where
  "sizeFixed32 = 4"

definition appendFixed64 :: "writer \<Rightarrow> u64 \<Rightarrow> wres" where
  "appendFixed64 p v =
     writeByte p [ucast (drop_bit 0 v), ucast (drop_bit 8 v),
                  ucast (drop_bit 16 v), ucast (drop_bit 24 v),
                  ucast (drop_bit 32 v), ucast (drop_bit 40 v),
                  ucast (drop_bit 48 v), ucast (drop_bit 56 v)]"

definition sizeFixed64 :: nat where
  "sizeFixed64 = 8"


section \<open>The typed append methods and their sizes\<close>

text \<open>
  \<^verbatim>\<open>AppendString\<close> inlines the body of \<^verbatim>\<open>writeBytes\<close>; a Go string is its bytes.
\<close>

definition AppendString :: "writer \<Rightarrow> wire_number \<Rightarrow> bytes \<Rightarrow> wres" where
  "AppendString p tag data =
     (let bytesLen = length data
      in Option.bind (appendTag p tag BytesType) (\<lambda>p.
         Option.bind (appendVarInt p (of_nat bytesLen)) (\<lambda>p.
         let m = length (wbuf p)
         in if m + bytesLen \<le> wcap p then Some (p\<lparr>wbuf := wbuf p @ data\<rparr>) else None)))"

definition SizeString :: "bytes \<Rightarrow> nat" where
  "SizeString data = length data"

definition AppendBytesTag :: "writer \<Rightarrow> wire_number \<Rightarrow> nat \<Rightarrow> wres" where
  "AppendBytesTag p tag len =
     Option.bind (appendTag p tag BytesType) (\<lambda>p. appendVarInt p (of_nat len))"

definition AppendBytes :: "writer \<Rightarrow> wire_number \<Rightarrow> bytes \<Rightarrow> wres" where
  "AppendBytes p tag data =
     Option.bind (appendTag p tag BytesType) (\<lambda>p.
     Option.bind (appendVarInt p (of_nat (length data))) (\<lambda>p.
     writeBytes p data))"

definition SizeBytes :: "bytes \<Rightarrow> nat" where
  "SizeBytes data = length data"

definition AppendBoolWithoutTag :: "writer \<Rightarrow> bool \<Rightarrow> wres" where
  "AppendBoolWithoutTag p data = (if data then appendVarInt p 1 else appendVarInt p 0)"

definition AppendBool :: "writer \<Rightarrow> wire_number \<Rightarrow> bool \<Rightarrow> wres" where
  "AppendBool p tag data =
     Option.bind (appendTag p tag VarIntType) (\<lambda>p. AppendBoolWithoutTag p data)"

definition SizeBool :: "bool \<Rightarrow> nat" where
  "SizeBool data = 1"

text \<open>The conversion uint64(data) of an int32 sign-extends, that of a uint32 zero-extends.\<close>

definition AppendInt32WithoutTag :: "writer \<Rightarrow> i32 \<Rightarrow> wres" where
  "AppendInt32WithoutTag p data = appendVarInt p (scast data)"

definition AppendInt32 :: "writer \<Rightarrow> wire_number \<Rightarrow> i32 \<Rightarrow> wres" where
  "AppendInt32 p tag data =
     Option.bind (appendTag p tag VarIntType) (\<lambda>p. AppendInt32WithoutTag p data)"

definition SizeInt32 :: "i32 \<Rightarrow> nat" where
  "SizeInt32 data = SizeVarInt (scast data)"

definition AppendInt64WithoutTag :: "writer \<Rightarrow> i64 \<Rightarrow> wres" where
  "AppendInt64WithoutTag p data = appendVarInt p data"

definition AppendInt64 :: "writer \<Rightarrow> wire_number \<Rightarrow> i64 \<Rightarrow> wres" where
  "AppendInt64 p tag data =
     Option.bind (appendTag p tag VarIntType) (\<lambda>p. AppendInt64WithoutTag p data)"

definition SizeInt64 :: "i64 \<Rightarrow> nat" where
  "SizeInt64 data = SizeVarInt data"

definition AppendUint32WithoutTag :: "writer \<Rightarrow> u32 \<Rightarrow> wres" where
  "AppendUint32WithoutTag p data = appendVarInt p (ucast data)"

definition AppendUint32 :: "writer \<Rightarrow> wire_number \<Rightarrow> u32 \<Rightarrow> wres" where
  "AppendUint32 p tag data =
     Option.bind (appendTag p tag VarIntType) (\<lambda>p. AppendUint32WithoutTag p data)"

definition SizeUint32 :: "u32 \<Rightarrow> nat" where
  "SizeUint32 data = SizeVarInt (ucast data)"

definition AppendUint64WithoutTag :: "writer \<Rightarrow> u64 \<Rightarrow> wres" where
  "AppendUint64WithoutTag p data = appendVarInt p data"

definition AppendUint64 :: "writer \<Rightarrow> wire_number \<Rightarrow> u64 \<Rightarrow> wres" where
  "AppendUint64 p tag data =
     Option.bind (appendTag p tag VarIntType) (\<lambda>p. AppendUint64WithoutTag p data)"

definition SizeUint64 :: "u64 \<Rightarrow> nat" where
  "SizeUint64 data = SizeVarInt data"

definition AppendSInt32WithoutTag :: "writer \<Rightarrow> i32 \<Rightarrow> wres" where
  "AppendSInt32WithoutTag p data = appendSignedVarInt p (scast data)"

definition AppendSInt32 :: "writer \<Rightarrow> wire_number \<Rightarrow> i32 \<Rightarrow> wres" where
  "AppendSInt32 p tag data =
     Option.bind (appendTag p tag VarIntType) (\<lambda>p. AppendSInt32WithoutTag p data)"

definition SizeSInt32 :: "i32 \<Rightarrow> nat" where
  "SizeSInt32 data = sizeSignedVarInt (scast data)"

definition AppendSInt64WithoutTag :: "writer \<Rightarrow> i64 \<Rightarrow> wres" where
  "AppendSInt64WithoutTag p data = appendSignedVarInt p data"

definition AppendSInt64 :: "writer \<Rightarrow> wire_number \<Rightarrow> i64 \<Rightarrow> wres" where
  "AppendSInt64 p tag data =
     Option.bind (appendTag p tag VarIntType) (\<lambda>p. AppendSInt64WithoutTag p data)"

definition SizeSInt64 :: "i64 \<Rightarrow> nat" where
  "SizeSInt64 data = sizeSignedVarInt data"

definition AppendFixed32WithoutTag :: "writer \<Rightarrow> u32 \<Rightarrow> wres" where
  "AppendFixed32WithoutTag p data = appendFixed32 p data"

definition AppendFixed32 :: "writer \<Rightarrow> wire_number \<Rightarrow> u32 \<Rightarrow> wres" where
  "AppendFixed32 p tag data =
     Option.bind (appendTag p tag Fixed32Type) (\<lambda>p. AppendFixed32WithoutTag p data)"

definition SizeFixed32 :: "u32 \<Rightarrow> nat" where
  "SizeFixed32 data = sizeFixed32"

definition AppendFixed64WithoutTag :: "writer \<Rightarrow> u64 \<Rightarrow> wres" where
  "AppendFixed64WithoutTag p data = appendFixed64 p data"

definition AppendFixed64 :: "writer \<Rightarrow> wire_number \<Rightarrow> u64 \<Rightarrow> wres" where
  "AppendFixed64 p tag data =
     Option.bind (appendTag p tag Fixed64Type) (\<lambda>p. AppendFixed64WithoutTag p data)"

definition SizeFixed64 :: "u64 \<Rightarrow> nat" where
  "SizeFixed64 data = sizeFixed64"

definition AppendSFixed32WithoutTag :: "writer \<Rightarrow> i32 \<Rightarrow> wres" where
  "AppendSFixed32WithoutTag p data = appendFixed32 p data"

definition AppendSFixed32 :: "writer \<Rightarrow> wire_number \<Rightarrow> i32 \<Rightarrow> wres" where
  "AppendSFixed32 p tag data =
     Option.bind (appendTag p tag Fixed32Type) (\<lambda>p. AppendSFixed32WithoutTag p data)"

definition SizeSFixed32 :: "i32 \<Rightarrow> nat" where
  "SizeSFixed32 data = sizeFixed32"

definition AppendSFixed64WithoutTag :: "writer \<Rightarrow> i64 \<Rightarrow> wres" where
  "AppendSFixed64WithoutTag p data = appendFixed64 p data"

definition AppendSFixed64 :: "writer \<Rightarrow> wire_number \<Rightarrow> i64 \<Rightarrow> wres" where
  "AppendSFixed64 p tag data =
     Option.bind (appendTag p tag Fixed64Type) (\<lambda>p. AppendSFixed64WithoutTag p data)"

definition SizeSFixed64 :: "i64 \<Rightarrow> nat" where
  "SizeSFixed64 data = sizeFixed64"

text \<open>A float is its bit pattern, so \<^verbatim>\<open>math.Float32bits\<close> is the identity of the model.\<close>

definition AppendFloat32WithoutTag :: "writer \<Rightarrow> u32 \<Rightarrow> wres" where
  "AppendFloat32WithoutTag p data = appendFixed32 p data"

definition AppendFloat32 :: "writer \<Rightarrow> wire_number \<Rightarrow> u32 \<Rightarrow> wres" where
  "AppendFloat32 p tag data =
     Option.bind (appendTag p tag Fixed32Type) (\<lambda>p. AppendFloat32WithoutTag p data)"

definition SizeFloat32 :: "u32 \<Rightarrow> nat" where
  "SizeFloat32 data = sizeFixed32"

definition AppendFloat64WithoutTag :: "writer \<Rightarrow> u64 \<Rightarrow> wres" where
  "AppendFloat64WithoutTag p data = appendFixed64 p data"

definition AppendFloat64 :: "writer \<Rightarrow> wire_number \<Rightarrow> u64 \<Rightarrow> wres" where
  "AppendFloat64 p tag data =
     Option.bind (appendTag p tag Fixed64Type) (\<lambda>p. AppendFloat64WithoutTag p data)"

definition SizeFloat64 :: "u64 \<Rightarrow> nat" where
  "SizeFloat64 data = sizeFixed64"


section \<open>Reference encoding\<close>

text \<open>
  The base-128 encoding of a number, least significant group first: the specification that
  the unrolled switch statements of the source implement.
\<close>

fun leb128 :: "nat \<Rightarrow> bytes" where
  "leb128 n =
     (if n < 128 then [of_nat n] else of_nat (n mod 128 + 128) # leb128 (n div 128))"

declare leb128.simps [simp del]

definition tag_bytes :: "wire_number \<Rightarrow> wire_type \<Rightarrow> bytes" where
  "tag_bytes tag t = VarIntToBytes (push_bit 3 (scast tag) OR ucast (t AND 7))"

definition zigzag :: "i64 \<Rightarrow> u64" where
  "zigzag v = push_bit 1 v XOR signed_drop_bit 63 v"

definition fixed32_bytes :: "u32 \<Rightarrow> bytes" where
  "fixed32_bytes v = [ucast (drop_bit 0 v), ucast (drop_bit 8 v),
                      ucast (drop_bit 16 v), ucast (drop_bit 24 v)]"

definition fixed64_bytes :: "u64 \<Rightarrow> bytes" where
  "fixed64_bytes v = [ucast (drop_bit 0 v), ucast (drop_bit 8 v),
                      ucast (drop_bit 16 v), ucast (drop_bit 24 v),
                      ucast (drop_bit 32 v), ucast (drop_bit 40 v),
                      ucast (drop_bit 48 v), ucast (drop_bit 56 v)]"

definition len_bytes :: "bytes \<Rightarrow> bytes" where
  "len_bytes data = VarIntToBytes (of_nat (length data)) @ data"

lemma cont_byte_nat: "cont_byte v k = of_nat (unat v div 2 ^ k mod 128 + 128)"
proof -
  let ?x = "drop_bit k v AND 0x7f"
  have a: "unat ?x = unat v div 2 ^ k mod 128"
  proof -
    have "?x = take_bit 7 (drop_bit k v)"
      by (simp add: take_bit_eq_mask mask_eq_exp_minus_1)
    then have "unat ?x = take_bit 7 (unat (drop_bit k v))"
      by (simp add: unsigned_take_bit_eq)
    then show ?thesis by (simp add: unat_drop_bit take_bit_eq_mod)
  qed
  have disj: "?x OR 0x80 = ?x + 0x80"
  proof (rule disjunctive_add [symmetric])
    have "(0x7f :: u64) = mask 7" and "(0x80 :: u64) = push_bit 7 1"
      by (simp_all add: mask_eq_exp_minus_1)
    then show "\<not> bit ?x n \<or> \<not> bit (0x80 :: u64) n" for n
      by (simp only: bit_and_iff bit_mask_iff bit_push_bit_iff bit_1_iff) auto
  qed
  have "unat (?x OR 0x80) = unat v div 2 ^ k mod 128 + 128"
    unfolding disj using a
    by (simp add: unat_word_ariths)
  then have "ucast (?x OR 0x80) = (of_nat (unat v div 2 ^ k mod 128 + 128) :: u8)"
    by (metis of_nat_unat)
  then show ?thesis by (simp only: cont_byte_def)
qed

lemma last_byte_nat: "last_byte v k = of_nat (unat v div 2 ^ k)"
  unfolding last_byte_def by (metis of_nat_unat unat_drop_bit)

lemma leb128_last: "n < 128 \<Longrightarrow> leb128 n = [of_nat n]"
  by (simp add: leb128.simps)

lemma leb128_cont: "128 \<le> n \<Longrightarrow> leb128 n = of_nat (n mod 128 + 128) # leb128 (n div 128)"
  by (subst leb128.simps) simp

lemmas leb128_unroll = leb128_last leb128_cont div_mult2_eq [symmetric]
  div_less_iff_less_mult less_eq_div_iff_mult_less_eq

lemma VarIntToBytes_leb128 [wire_simps]: "VarIntToBytes v = leb128 (unat v)"
proof -
  have "unat v < 2 ^ 64" using unsigned_less [of v, where ?'a = nat] by simp
  moreover from this have "\<not> unat v < 2 ^ 63 \<Longrightarrow> unat v div 2 ^ 63 = 1"
    by (intro div_nat_eqI) simp_all
  ultimately show ?thesis
    by (simp add: VarIntToBytes_def cont_byte_nat last_byte_nat word_less_nat_alt leb128_unroll)
qed

lemma SizeVarInt_length: "SizeVarInt v = length (VarIntToBytes v)"
  by (simp add: SizeVarInt_def VarIntToBytes_def)

lemma appendVarInt_writeBytes [wire_simps]: "appendVarInt p v = writeBytes p (VarIntToBytes v)"
  by (simp add: appendVarInt_def VarIntToBytes_def writeByte_def)


section \<open>Sequences of writes\<close>

lemma writeBytes_bind [wire_simps]:
  "Option.bind (writeBytes p a) (\<lambda>p. writeBytes p b) = writeBytes p (a @ b)"
  by (simp add: writeBytes_def Let_def)

lemma writeBytes_Nil [simp]: "length (wbuf p) \<le> wcap p \<Longrightarrow> writeBytes p [] = Some p"
  by (simp add: writeBytes_def)

lemma writeBytes_Some_iff:
  "writeBytes p bs = Some q \<longleftrightarrow>
     length (wbuf p) + length bs \<le> wcap p \<and> q = p\<lparr>wbuf := wbuf p @ bs\<rparr>"
  by (auto simp: writeBytes_def Let_def)

lemma writeBytes_None_iff:
  "writeBytes p bs = None \<longleftrightarrow> wcap p < length (wbuf p) + length bs"
  by (auto simp: writeBytes_def Let_def)

lemma Bytes_wbuf [simp]: "Bytes p = wbuf p"
  by (simp add: Bytes_def)

text \<open>A writer never holds more than its capacity; every operation keeps that.\<close>

definition writer_ok :: "writer \<Rightarrow> bool" where
  "writer_ok p \<longleftrightarrow> length (wbuf p) \<le> wcap p"

lemma NewWriter_ok: "NewWriter n = Some p \<Longrightarrow> writer_ok p"
  by (auto simp: NewWriter_def writer_ok_def split: if_splits)

lemma writeBytes_ok: "writeBytes p bs = Some q \<Longrightarrow> writer_ok q"
  by (auto simp: writeBytes_Some_iff writer_ok_def)

fun write_all :: "(writer \<Rightarrow> 'a \<Rightarrow> wres) \<Rightarrow> writer \<Rightarrow> 'a list \<Rightarrow> wres" where
  "write_all f p [] = Some p"
| "write_all f p (x # xs) = Option.bind (f p x) (\<lambda>p. write_all f p xs)"

lemma appendTag_writeBytes [wire_simps]: "appendTag p tag t = writeBytes p (tag_bytes tag t)"
  by (simp add: appendTag_def tag_bytes_def Let_def appendVarInt_writeBytes)

lemma tag_word_add:
  "push_bit 3 (w :: u64) OR ucast ((t :: wire_type) AND 7) = push_bit 3 w + ucast (t AND 7)"
proof (rule disjunctive_add [symmetric])
  fix n
  have m: "(7 :: wire_type) = mask 3" by (simp add: mask_eq_exp_minus_1)
  show "\<not> bit (push_bit 3 w) n \<or> \<not> bit (ucast (t AND 7) :: u64) n"
    by (simp only: m bit_push_bit_iff bit_ucast_iff bit_and_iff bit_mask_iff) auto
qed

lemma unat_tag_word:
  "unat (push_bit 3 (w :: u64) OR ucast ((t :: wire_type) AND 7)) =
     8 * (unat w mod 2 ^ 61) + unat t mod 8"
proof -
  have "unat t mod 8 < 8" by simp
  moreover have "unat w mod 2 ^ 61 < 2 ^ 61" by simp
  ultimately have "8 * (unat w mod 2 ^ 61) + unat t mod 8 < 2 ^ 64" by simp
  then show ?thesis
    by (simp add: tag_word_add unat_word_ariths unat_push_bit3 unat_and7)
qed

text \<open>The wire type does not change the size of a tag, as the source's comment says.\<close>

lemma SizeTag_length [wire_simps]: "SizeTag tag = length (tag_bytes tag t)"
proof -
  let ?a = "unat (scast tag :: u64) mod 2 ^ 61"
  have w: "unat (push_bit 3 (scast tag) :: u64) = 8 * ?a"
    by (rule unat_push_bit3)
  have same: "(push_bit 3 (scast tag) OR ucast (t AND 7) < (2 :: u64) ^ k) =
      (push_bit 3 (scast tag) < (2 :: u64) ^ k)" if "3 \<le> k" "k < 64" for k
    using that by (simp add: u64_less_pow unat_tag_word w add_below_8_less)
  have "SizeVarInt (push_bit 3 (scast tag) OR ucast (t AND 7)) = SizeVarInt (push_bit 3 (scast tag))"
    unfolding SizeVarInt_def using same [of 7] same [of 14] same [of 21] same [of 28] same [of 35]
      same [of 42] same [of 49] same [of 56] same [of 63] by simp
  then show ?thesis
    by (simp add: SizeTag_def Let_def tag_bytes_def SizeVarInt_length)
qed


section \<open>The contract of an append method\<close>

text \<open>
  What the generated code relies on for each scalar type: the method appends one fixed byte
  string \<open>enc x\<close> or panics when it does not fit, and the \<^verbatim>\<open>Size\<close> function announces its
  length. The tagged method writes the tag first.
\<close>

locale sized_append =
  fixes append :: "writer \<Rightarrow> 'a \<Rightarrow> wres"
    and size_of :: "'a \<Rightarrow> nat"
    and enc :: "'a \<Rightarrow> bytes"
  assumes append_enc: "append p x = writeBytes p (enc x)"
    and size_enc: "size_of x = length (enc x)"
begin

lemma append_fits:
  "length (wbuf p) + size_of x \<le> wcap p \<Longrightarrow> append p x = Some (p\<lparr>wbuf := wbuf p @ enc x\<rparr>)"
  by (simp add: append_enc size_enc writeBytes_def)

lemma append_panics_iff: "append p x = None \<longleftrightarrow> wcap p < length (wbuf p) + size_of x"
  by (simp add: append_enc size_enc writeBytes_None_iff)

lemma write_all_enc:
  "length (wbuf p) \<le> wcap p \<Longrightarrow> write_all append p xs = writeBytes p (concat (map enc xs))"
proof (induction xs arbitrary: p)
  case (Cons x xs)
  have "Option.bind (writeBytes p (enc x)) (\<lambda>q. write_all append q xs) =
      Option.bind (writeBytes p (enc x)) (\<lambda>q. writeBytes q (concat (map enc xs)))"
    by (rule Option.bind_cong) (auto simp: writeBytes_Some_iff intro!: Cons.IH)
  then show ?case by (simp add: append_enc [of p x] writeBytes_bind)
qed simp

lemma sum_sizes: "sum_list (map size_of xs) = length (concat (map enc xs))"
  by (induction xs) (simp_all add: size_enc)

end

locale sized_field = sized_append append size_of enc
  for append :: "writer \<Rightarrow> 'a \<Rightarrow> wres" and size_of enc +
  fixes tagged :: "writer \<Rightarrow> wire_number \<Rightarrow> 'a \<Rightarrow> wres"
    and wt :: wire_type
  assumes tagged_def: "tagged p tag x = Option.bind (appendTag p tag wt) (\<lambda>p. append p x)"
begin

lemma tagged_enc: "tagged p tag x = writeBytes p (tag_bytes tag wt @ enc x)"
  by (simp add: tagged_def append_enc appendTag_writeBytes writeBytes_bind)

lemma tagged_size: "SizeTag tag + size_of x = length (tag_bytes tag wt @ enc x)"
  using SizeTag_length [of tag wt] by (simp add: size_enc)

end

lemmas varint_defs = appendVarInt_writeBytes SizeVarInt_length

interpretation f_bool: sized_field AppendBoolWithoutTag SizeBool
  "\<lambda>b. VarIntToBytes (if b then 1 else 0)" AppendBool VarIntType
  by unfold_locales
    (simp_all add: AppendBoolWithoutTag_def SizeBool_def AppendBool_def varint_defs VarIntToBytes_def)

interpretation f_int32: sized_field AppendInt32WithoutTag SizeInt32
  "\<lambda>d. VarIntToBytes (scast d)" AppendInt32 VarIntType
  by unfold_locales
    (simp_all add: AppendInt32WithoutTag_def SizeInt32_def AppendInt32_def varint_defs)

interpretation f_int64: sized_field AppendInt64WithoutTag SizeInt64
  VarIntToBytes AppendInt64 VarIntType
  by unfold_locales
    (simp_all add: AppendInt64WithoutTag_def SizeInt64_def AppendInt64_def varint_defs)

interpretation f_uint32: sized_field AppendUint32WithoutTag SizeUint32
  "\<lambda>d. VarIntToBytes (ucast d)" AppendUint32 VarIntType
  by unfold_locales
    (simp_all add: AppendUint32WithoutTag_def SizeUint32_def AppendUint32_def varint_defs)

interpretation f_uint64: sized_field AppendUint64WithoutTag SizeUint64
  VarIntToBytes AppendUint64 VarIntType
  by unfold_locales
    (simp_all add: AppendUint64WithoutTag_def SizeUint64_def AppendUint64_def varint_defs)

lemmas zigzag_defs = appendSignedVarInt_def sizeSignedVarInt_def zigzag_def Let_def varint_defs

interpretation f_sint32: sized_field AppendSInt32WithoutTag SizeSInt32
  "\<lambda>d. VarIntToBytes (zigzag (scast d))" AppendSInt32 VarIntType
  by unfold_locales
    (simp_all add: AppendSInt32WithoutTag_def SizeSInt32_def AppendSInt32_def zigzag_defs)

interpretation f_sint64: sized_field AppendSInt64WithoutTag SizeSInt64
  "\<lambda>d. VarIntToBytes (zigzag d)" AppendSInt64 VarIntType
  by unfold_locales
    (simp_all add: AppendSInt64WithoutTag_def SizeSInt64_def AppendSInt64_def zigzag_defs)

lemmas fixed_defs = appendFixed32_def sizeFixed32_def fixed32_bytes_def
  appendFixed64_def sizeFixed64_def fixed64_bytes_def writeByte_def

interpretation f_fixed32: sized_field AppendFixed32WithoutTag SizeFixed32
  fixed32_bytes AppendFixed32 Fixed32Type
  by unfold_locales
    (simp_all add: AppendFixed32WithoutTag_def SizeFixed32_def AppendFixed32_def fixed_defs)

interpretation f_fixed64: sized_field AppendFixed64WithoutTag SizeFixed64
  fixed64_bytes AppendFixed64 Fixed64Type
  by unfold_locales
    (simp_all add: AppendFixed64WithoutTag_def SizeFixed64_def AppendFixed64_def fixed_defs)

interpretation f_sfixed32: sized_field AppendSFixed32WithoutTag SizeSFixed32
  fixed32_bytes AppendSFixed32 Fixed32Type
  by unfold_locales
    (simp_all add: AppendSFixed32WithoutTag_def SizeSFixed32_def AppendSFixed32_def fixed_defs)

interpretation f_sfixed64: sized_field AppendSFixed64WithoutTag SizeSFixed64
  fixed64_bytes AppendSFixed64 Fixed64Type
  by unfold_locales
    (simp_all add: AppendSFixed64WithoutTag_def SizeSFixed64_def AppendSFixed64_def fixed_defs)

interpretation f_float32: sized_field AppendFloat32WithoutTag SizeFloat32
  fixed32_bytes AppendFloat32 Fixed32Type
  by unfold_locales
    (simp_all add: AppendFloat32WithoutTag_def SizeFloat32_def AppendFloat32_def fixed_defs)

interpretation f_float64: sized_field AppendFloat64WithoutTag SizeFloat64
  fixed64_bytes AppendFloat64 Fixed64Type
  by unfold_locales
    (simp_all add: AppendFloat64WithoutTag_def SizeFloat64_def AppendFloat64_def fixed_defs)

text \<open>
  Strings and byte slices have no method without a tag; the payload of the tagged method is
  the length varint followed by the data, and the generated code announces
  \<^verbatim>\<open>SizeString(data) + SizeUint64(uint64(SizeString(data)))\<close> for it.
\<close>

interpretation f_string: sized_field "\<lambda>p d. writeBytes p (len_bytes d)"
  "\<lambda>d. SizeString d + SizeUint64 (of_nat (SizeString d))" len_bytes AppendString BytesType
proof unfold_locales
  fix p :: writer and tag :: wire_number and d :: bytes
  show "AppendString p tag d =
      Option.bind (appendTag p tag BytesType) (\<lambda>p. writeBytes p (len_bytes d))"
    unfolding AppendString_def Let_def
    by (simp add: appendVarInt_writeBytes len_bytes_def writeBytes_def [of _ d, symmetric, unfolded Let_def]
        flip: writeBytes_bind)
qed (simp_all add: len_bytes_def SizeString_def SizeUint64_def SizeVarInt_length)

interpretation f_bytes: sized_field "\<lambda>p d. writeBytes p (len_bytes d)"
  "\<lambda>d. SizeBytes d + SizeUint64 (of_nat (SizeBytes d))" len_bytes AppendBytes BytesType
  by unfold_locales
    (simp_all add: len_bytes_def AppendBytes_def SizeBytes_def SizeUint64_def SizeVarInt_length
      appendVarInt_writeBytes writeBytes_bind)

lemma AppendBytesTag_writeBytes [wire_simps]:
  "AppendBytesTag p tag n = writeBytes p (tag_bytes tag BytesType @ VarIntToBytes (of_nat n))"
  by (simp add: AppendBytesTag_def appendTag_writeBytes appendVarInt_writeBytes writeBytes_bind)

end
