(* ===== verification/Wire_Reader.thy ===== *)
theory Wire_Reader
  imports Wire_Writer
begin

text \<open>
  The read side of the Gremlin runtime, \<^verbatim>\<open>shared/gremlin_go/reader.go\<close> and \<^verbatim>\<open>reading.go\<close>.
  A reader is a byte slice; every method takes an offset into it. Offsets and sizes are Go
  ints with their wrap-around, an index outside the slice panics, and the loops that the
  source runs over the buffer take fuel: \<open>OutOfFuel\<close> means that the loop has not ended yet.
  The lemmas give the value each method reads where the matching append method wrote, and
  what the methods do on any other input: where they can panic, and that \<^verbatim>\<open>SkipData\<close> can move
  backwards.
\<close>

section \<open>The reader\<close>

record reader =
  rbuf :: slice

datatype wire_err =
    InvalidTag
  | TagNumberOutOfRange
  | InvalidVarint
  | VarintNotEnoughBytes
  | InvalidWireType wire_type

definition NewReader :: "slice \<Rightarrow> reader" where
  "NewReader data = \<lparr>rbuf = data\<rparr>"

text \<open>A nil reader is \<open>None\<close>, a nil result the empty slice.\<close>

definition Reader_Bytes :: "reader option \<Rightarrow> slice" where
  "Reader_Bytes p = (case p of None \<Rightarrow> slice_of [] | Some r \<Rightarrow> rbuf r)"

definition HasNext :: "reader \<Rightarrow> int \<Rightarrow> int \<Rightarrow> bool" where
  "HasNext p offset sz = (go_int (offset + sz) < slice_len (rbuf p))"


section \<open>Varints and fixed-width words\<close>

definition readVarIntAt :: "reader \<Rightarrow> int \<Rightarrow> (wire_err, u64 \<times> int) gres" where
  "readVarIntAt p offset =
     (if \<not> HasNext p offset 0 then Ok (0, - 1)
      else gbind (slice_index (rbuf p) (go_int (offset + 0))) (\<lambda>b. let v = ucast b in
      if v < 0x80 then Ok (v, 1)
      else let v = v - 0x80 in

      if \<not> HasNext p offset 1 then Ok (0, - 1)
      else gbind (slice_index (rbuf p) (go_int (offset + 1))) (\<lambda>b. let y = ucast b; v = v + push_bit 7 y in
      if y < 0x80 then Ok (v, 2)
      else let v = v - push_bit 7 0x80 in

      if \<not> HasNext p offset 2 then Ok (0, - 1)
      else gbind (slice_index (rbuf p) (go_int (offset + 2))) (\<lambda>b. let y = ucast b; v = v + push_bit 14 y in
      if y < 0x80 then Ok (v, 3)
      else let v = v - push_bit 14 0x80 in

      if \<not> HasNext p offset 3 then Ok (0, - 1)
      else gbind (slice_index (rbuf p) (go_int (offset + 3))) (\<lambda>b. let y = ucast b; v = v + push_bit 21 y in
      if y < 0x80 then Ok (v, 4)
      else let v = v - push_bit 21 0x80 in

      if \<not> HasNext p offset 4 then Ok (0, - 1)
      else gbind (slice_index (rbuf p) (go_int (offset + 4))) (\<lambda>b. let y = ucast b; v = v + push_bit 28 y in
      if y < 0x80 then Ok (v, 5)
      else let v = v - push_bit 28 0x80 in

      if \<not> HasNext p offset 5 then Ok (0, - 1)
      else gbind (slice_index (rbuf p) (go_int (offset + 5))) (\<lambda>b. let y = ucast b; v = v + push_bit 35 y in
      if y < 0x80 then Ok (v, 6)
      else let v = v - push_bit 35 0x80 in

      if \<not> HasNext p offset 6 then Ok (0, - 1)
      else gbind (slice_index (rbuf p) (go_int (offset + 6))) (\<lambda>b. let y = ucast b; v = v + push_bit 42 y in
      if y < 0x80 then Ok (v, 7)
      else let v = v - push_bit 42 0x80 in

      if \<not> HasNext p offset 7 then Ok (0, - 1)
      else gbind (slice_index (rbuf p) (go_int (offset + 7))) (\<lambda>b. let y = ucast b; v = v + push_bit 49 y in
      if y < 0x80 then Ok (v, 8)
      else let v = v - push_bit 49 0x80 in

      if \<not> HasNext p offset 8 then Ok (0, - 1)
      else gbind (slice_index (rbuf p) (go_int (offset + 8))) (\<lambda>b. let y = ucast b; v = v + push_bit 56 y in
      if y < 0x80 then Ok (v, 9)
      else let v = v - push_bit 56 0x80 in

      if \<not> HasNext p offset 9 then Ok (0, - 1)
      else gbind (slice_index (rbuf p) (go_int (offset + 9))) (\<lambda>b. let y = ucast b; v = v + push_bit 63 y in
      if y < 2 then Ok (v, 10)
      else Ok (0, - 1))))))))))))"

function getVarIntSize_loop :: "reader \<Rightarrow> int \<Rightarrow> nat \<Rightarrow> (wire_err, int) gres" where
  "getVarIntSize_loop p offset i =
     (if i < 10 then
        (if \<not> HasNext p offset (int i) then Err VarintNotEnoughBytes
         else gbind (slice_index (rbuf p) (go_int (offset + int i))) (\<lambda>b.
           if b < 0x80 then Ok (int i + 1) else getVarIntSize_loop p offset (Suc i)))
      else Ok 10)"
  by pat_completeness auto
termination
  by (relation "measure (\<lambda>(p, offset, i). 10 - i)") auto

declare getVarIntSize_loop.simps [simp del]

definition getVarIntSize :: "reader \<Rightarrow> int \<Rightarrow> (wire_err, int) gres" where
  "getVarIntSize p offset = getVarIntSize_loop p offset 0"

definition readSignedVarIntAt :: "reader \<Rightarrow> int \<Rightarrow> (wire_err, i64 \<times> int) gres" where
  "readSignedVarIntAt p offset =
     gbind (readVarIntAt p offset) (\<lambda>(v, n).
       if n < 0 then Ok (0, n)
       else Ok (drop_bit 1 v XOR signed_drop_bit 63 (push_bit 63 v), n))"

text \<open>The byte at an offset, converted to uint64 and shifted: \<^verbatim>\<open>uint64(p.buf[offset+i])<<k\<close>.\<close>

definition byte_at :: "reader \<Rightarrow> int \<Rightarrow> nat \<Rightarrow> (wire_err, u64) gres" where
  "byte_at p i k = gmap (\<lambda>b. push_bit k (ucast b)) (slice_index (rbuf p) (go_int i))"

definition readFixed32At :: "reader \<Rightarrow> int \<Rightarrow> (wire_err, u64) gres" where
  "readFixed32At p offset =
     gbind (byte_at p offset 0) (\<lambda>b0. gbind (byte_at p (offset + 1) 8) (\<lambda>b1.
     gbind (byte_at p (offset + 2) 16) (\<lambda>b2. gbind (byte_at p (offset + 3) 24) (\<lambda>b3.
     Ok (((b0 OR b1) OR b2) OR b3)))))"

definition readFixed64At :: "reader \<Rightarrow> int \<Rightarrow> (wire_err, u64) gres" where
  "readFixed64At p offset =
     gbind (byte_at p offset 0) (\<lambda>b0. gbind (byte_at p (offset + 1) 8) (\<lambda>b1.
     gbind (byte_at p (offset + 2) 16) (\<lambda>b2. gbind (byte_at p (offset + 3) 24) (\<lambda>b3.
     gbind (byte_at p (offset + 4) 32) (\<lambda>b4. gbind (byte_at p (offset + 5) 40) (\<lambda>b5.
     gbind (byte_at p (offset + 6) 48) (\<lambda>b6. gbind (byte_at p (offset + 7) 56) (\<lambda>b7.
     Ok (((((((b0 OR b1) OR b2) OR b3) OR b4) OR b5) OR b6) OR b7)))))))))"


section \<open>Tags and skipping\<close>

definition ReadTagAt :: "reader \<Rightarrow> int \<Rightarrow> (wire_err, wire_number \<times> wire_type \<times> int) gres" where
  "ReadTagAt p offset =
     gbind (readVarIntAt p offset) (\<lambda>(tagData, tagSize).
       if tagSize < 0 then Err InvalidTag
       else if drop_bit 3 tagData > 0x7fffffff then Err TagNumberOutOfRange
       else Ok (ucast (drop_bit 3 tagData), ucast (tagData AND 7), tagSize))"

text \<open>
  \<^verbatim>\<open>SkipData\<close> calls itself inside the loop over the members of a group; the loop is
  \<open>SkipGroup\<close>. Only groups use more than one unit of fuel.
\<close>

fun SkipData :: "nat \<Rightarrow> reader \<Rightarrow> int \<Rightarrow> wire_type \<Rightarrow> (wire_err, int) gres"
  and SkipGroup :: "nat \<Rightarrow> reader \<Rightarrow> int \<Rightarrow> (wire_err, int) gres" where
  "SkipData 0 p offset protoType = OutOfFuel"
| "SkipData (Suc fuel) p offset protoType =
     (if protoType = VarIntType then
        gbind (getVarIntSize p offset) (\<lambda>varIntSize. Ok (go_int (offset + varIntSize)))
      else if protoType = Fixed32Type then Ok (go_int (offset + 4))
      else if protoType = Fixed64Type then Ok (go_int (offset + 8))
      else if protoType = BytesType then
        gbind (readVarIntAt p offset) (\<lambda>(sz, sizeSize).
          if sizeSize < 0 then Err InvalidVarint
          else Ok (go_int (offset + sizeSize + int_of_u64 sz)))
      else if protoType = StartGroupType then SkipGroup fuel p offset
      else Err (InvalidWireType protoType))"
| "SkipGroup 0 p offset = OutOfFuel"
| "SkipGroup (Suc fuel) p offset =
     gbind (ReadTagAt p offset) (\<lambda>(tag, cType, tagSize).
       let offset = go_int (offset + tagSize) in
       if cType = EndGroupType then Ok offset
       else gbind (SkipData fuel p offset cType) (\<lambda>offset. SkipGroup fuel p offset))"


section \<open>The typed read methods\<close>

definition SizedReadBytes :: "reader \<Rightarrow> int \<Rightarrow> (wire_err, slice \<times> int) gres" where
  "SizedReadBytes p offset =
     gbind (readVarIntAt p offset) (\<lambda>(sz, sizeSize).
       gbind (slice_sub (rbuf p) (go_int (offset + sizeSize))
           (go_int (offset + sizeSize + int_of_u64 sz))) (\<lambda>s.
         Ok (s, go_int (sizeSize + int_of_u64 sz))))"

definition ReadBytes :: "reader \<Rightarrow> int \<Rightarrow> (wire_err, slice) gres" where
  "ReadBytes p offset =
     gbind (readVarIntAt p offset) (\<lambda>(sz, sizeSize).
       slice_sub (rbuf p) (go_int (offset + sizeSize))
         (go_int (offset + sizeSize + int_of_u64 sz)))"

text \<open>The conversion to string copies the bytes up to the length.\<close>

definition ReadString :: "reader \<Rightarrow> int \<Rightarrow> (wire_err, bytes) gres" where
  "ReadString p offset = gmap elems (ReadBytes p offset)"

definition SizedReadString :: "reader \<Rightarrow> int \<Rightarrow> (wire_err, bytes \<times> int) gres" where
  "SizedReadString p offset = gmap (\<lambda>(v, n). (elems v, n)) (SizedReadBytes p offset)"

definition ReadVarInt :: "reader \<Rightarrow> int \<Rightarrow> (wire_err, u64) gres" where
  "ReadVarInt p offset = gmap fst (readVarIntAt p offset)"

definition SizedReadVarInt :: "reader \<Rightarrow> int \<Rightarrow> (wire_err, u64 \<times> int) gres" where
  "SizedReadVarInt p offset = readVarIntAt p offset"

definition ReadUint64 :: "reader \<Rightarrow> int \<Rightarrow> (wire_err, u64) gres" where
  "ReadUint64 p offset = ReadVarInt p offset"

definition SizedReadUint64 :: "reader \<Rightarrow> int \<Rightarrow> (wire_err, u64 \<times> int) gres" where
  "SizedReadUint64 p offset = SizedReadVarInt p offset"

definition ReadUint32 :: "reader \<Rightarrow> int \<Rightarrow> (wire_err, u32) gres" where
  "ReadUint32 p offset = gmap ucast (ReadVarInt p offset)"

definition SizedReadUint32 :: "reader \<Rightarrow> int \<Rightarrow> (wire_err, u32 \<times> int) gres" where
  "SizedReadUint32 p offset = gmap (\<lambda>(res, n). (ucast res, n)) (SizedReadVarInt p offset)"

definition ReadInt64 :: "reader \<Rightarrow> int \<Rightarrow> (wire_err, i64) gres" where
  "ReadInt64 p offset = ReadVarInt p offset"

definition SizedReadInt64 :: "reader \<Rightarrow> int \<Rightarrow> (wire_err, i64 \<times> int) gres" where
  "SizedReadInt64 p offset = readVarIntAt p offset"

definition ReadSInt64 :: "reader \<Rightarrow> int \<Rightarrow> (wire_err, i64) gres" where
  "ReadSInt64 p offset = gmap fst (readSignedVarIntAt p offset)"

definition SizedReadSInt64 :: "reader \<Rightarrow> int \<Rightarrow> (wire_err, i64 \<times> int) gres" where
  "SizedReadSInt64 p offset = readSignedVarIntAt p offset"

definition ReadInt32 :: "reader \<Rightarrow> int \<Rightarrow> (wire_err, i32) gres" where
  "ReadInt32 p offset = gmap ucast (ReadVarInt p offset)"

definition SizedReadInt32 :: "reader \<Rightarrow> int \<Rightarrow> (wire_err, i32 \<times> int) gres" where
  "SizedReadInt32 p offset = gmap (\<lambda>(res, n). (ucast res, n)) (readVarIntAt p offset)"

definition ReadSInt32 :: "reader \<Rightarrow> int \<Rightarrow> (wire_err, i32) gres" where
  "ReadSInt32 p offset = gmap (\<lambda>(res, n). ucast res) (readSignedVarIntAt p offset)"

definition SizedReadSInt32 :: "reader \<Rightarrow> int \<Rightarrow> (wire_err, i32 \<times> int) gres" where
  "SizedReadSInt32 p offset = gmap (\<lambda>(res, n). (ucast res, n)) (readSignedVarIntAt p offset)"

definition ReadBool :: "reader \<Rightarrow> int \<Rightarrow> (wire_err, bool) gres" where
  "ReadBool p offset = gmap (\<lambda>v. v \<noteq> 0) (ReadVarInt p offset)"

definition SizedReadBool :: "reader \<Rightarrow> int \<Rightarrow> (wire_err, bool \<times> int) gres" where
  "SizedReadBool p offset = gmap (\<lambda>(res, n). (res \<noteq> 0, n)) (SizedReadVarInt p offset)"

definition ReadFloat32 :: "reader \<Rightarrow> int \<Rightarrow> (wire_err, u32) gres" where
  "ReadFloat32 p offset = gmap ucast (readFixed32At p offset)"

definition SizedReadFloat32 :: "reader \<Rightarrow> int \<Rightarrow> (wire_err, u32 \<times> int) gres" where
  "SizedReadFloat32 p offset = gmap (\<lambda>v. (ucast v, 4)) (readFixed32At p offset)"

definition ReadFloat64 :: "reader \<Rightarrow> int \<Rightarrow> (wire_err, u64) gres" where
  "ReadFloat64 p offset = readFixed64At p offset"

definition SizedReadFloat64 :: "reader \<Rightarrow> int \<Rightarrow> (wire_err, u64 \<times> int) gres" where
  "SizedReadFloat64 p offset = gmap (\<lambda>v. (v, 8)) (readFixed64At p offset)"

definition ReadFixed32 :: "reader \<Rightarrow> int \<Rightarrow> (wire_err, u32) gres" where
  "ReadFixed32 p offset = gmap ucast (readFixed32At p offset)"

definition SizedReadFixed32 :: "reader \<Rightarrow> int \<Rightarrow> (wire_err, u32 \<times> int) gres" where
  "SizedReadFixed32 p offset = gmap (\<lambda>v. (ucast v, 4)) (readFixed32At p offset)"

definition ReadFixed64 :: "reader \<Rightarrow> int \<Rightarrow> (wire_err, u64) gres" where
  "ReadFixed64 p offset = readFixed64At p offset"

definition SizedReadFixed64 :: "reader \<Rightarrow> int \<Rightarrow> (wire_err, u64 \<times> int) gres" where
  "SizedReadFixed64 p offset = gmap (\<lambda>v. (v, 8)) (readFixed64At p offset)"

definition ReadSFixed32 :: "reader \<Rightarrow> int \<Rightarrow> (wire_err, i32) gres" where
  "ReadSFixed32 p offset = gmap ucast (readFixed32At p offset)"

definition SizedReadSFixed32 :: "reader \<Rightarrow> int \<Rightarrow> (wire_err, i32 \<times> int) gres" where
  "SizedReadSFixed32 p offset = gmap (\<lambda>v. (ucast v, 4)) (readFixed32At p offset)"

definition ReadSFixed64 :: "reader \<Rightarrow> int \<Rightarrow> (wire_err, i64) gres" where
  "ReadSFixed64 p offset = readFixed64At p offset"

definition SizedReadSFixed64 :: "reader \<Rightarrow> int \<Rightarrow> (wire_err, i64 \<times> int) gres" where
  "SizedReadSFixed64 p offset = gmap (\<lambda>v. (v, 8)) (readFixed64At p offset)"


section \<open>Reading a varint\<close>

text \<open>The unrolled source as a loop: \<open>rv_loop k\<close> runs the last \<open>k\<close> steps before the tenth.\<close>

fun rv_loop :: "nat \<Rightarrow> reader \<Rightarrow> int \<Rightarrow> u64 \<Rightarrow> (wire_err, u64 \<times> int) gres" where
  "rv_loop 0 p offset v =
     (if \<not> HasNext p offset 9 then Ok (0, - 1)
      else gbind (slice_index (rbuf p) (go_int (offset + 9))) (\<lambda>b.
        if ucast b < (2 :: u64) then Ok (v + push_bit 63 (ucast b), 10) else Ok (0, - 1)))"
| "rv_loop (Suc k) p offset v =
     (let i = 8 - k in
      if \<not> HasNext p offset (int i) then Ok (0, - 1)
      else gbind (slice_index (rbuf p) (go_int (offset + int i))) (\<lambda>b.
        if ucast b < (0x80 :: u64) then Ok (v + push_bit (7 * i) (ucast b), int i + 1)
        else rv_loop k p offset (v + push_bit (7 * i) (ucast b) - push_bit (7 * i) 0x80)))"

lemma readVarIntAt_loop: "readVarIntAt p offset = rv_loop 9 p offset 0"
proof -
  have "(9 :: nat) = Suc (Suc (Suc (Suc (Suc (Suc (Suc (Suc (Suc 0))))))))" by simp
  then have "rv_loop 9 p offset 0 =
      rv_loop (Suc (Suc (Suc (Suc (Suc (Suc (Suc (Suc (Suc 0))))))))) p offset 0"
    by (rule arg_cong)
  also have "\<dots> = readVarIntAt p offset"
    by (simp add: readVarIntAt_def Let_def cong: if_cong)
  finally show ?thesis ..
qed

text \<open>Where the buffer holds \<open>pre @ bs @ post\<close>, the reads at the offset of \<open>bs\<close>.\<close>

definition reads_at :: "reader \<Rightarrow> int \<Rightarrow> bytes \<Rightarrow> bool" where
  "reads_at p offset bs \<longleftrightarrow>
     (\<exists>pre post. elems (rbuf p) = pre @ bs @ post \<and> offset = int (length pre)) \<and>
     slice_len (rbuf p) < 2 ^ 62"

lemma reads_atI:
  "elems (rbuf p) = pre @ bs @ post \<Longrightarrow> offset = int (length pre) \<Longrightarrow>
    slice_len (rbuf p) < 2 ^ 62 \<Longrightarrow> reads_at p offset bs"
  unfolding reads_at_def by blast

lemma reads_at_append1: "reads_at p offset (a @ b) \<Longrightarrow> reads_at p offset a"
  unfolding reads_at_def by auto

lemma reads_at_append2: "reads_at p offset (a @ b) \<Longrightarrow> reads_at p (offset + int (length a)) b"
  unfolding reads_at_def by (metis append.assoc length_append of_nat_add)

lemma reads_at_bounds:
  assumes "reads_at p offset bs"
  shows "0 \<le> offset" and "offset + int (length bs) \<le> slice_len (rbuf p)"
    and "offset + int (length bs) < 2 ^ 62"
  using assms by (auto simp: reads_at_def slice_len_def)

lemma reads_at_HasNext:
  assumes "reads_at p offset bs" and "i < length bs"
  shows "HasNext p offset (int i)"
  using reads_at_bounds [OF assms(1)] assms(2) by (simp add: HasNext_def)

lemma reads_at_index:
  assumes "reads_at p offset bs" and "i < length bs"
  shows "slice_index (rbuf p) (go_int (offset + int i)) = Ok (bs ! i)"
proof -
  from assms obtain pre post where e: "elems (rbuf p) = pre @ bs @ post" "offset = int (length pre)"
    by (auto simp: reads_at_def)
  then have "go_int (offset + int i) = int (length pre + i)"
    using reads_at_bounds [OF assms(1)] assms(2) by simp
  with e assms(2) show ?thesis
    by (simp add: slice_index_def slice_len_def nth_append nat_add_distrib)
qed

lemma ucast_byte_of_nat: "n < 256 \<Longrightarrow> (ucast (of_nat n :: u8) :: u64) = of_nat n"
  by (rule word_eqI_unat) (simp add: unat_of_nat)

lemma varint_acc:
  "(of_nat (n mod 2 ^ j) :: u64) + push_bit j (of_nat (n div 2 ^ j mod 128 + 128)) - push_bit j 0x80 =
     of_nat (n mod 2 ^ (j + 7))"
proof -
  have "n mod 2 ^ (j + 7) = 2 ^ j * (n div 2 ^ j mod 128) + n mod 2 ^ j"
    by (simp add: power_add mod_mult2_eq)
  then show ?thesis
    by (simp add: push_bit_eq_mult algebra_simps)
qed

lemma varint_acc_last:
  "(of_nat (n mod 2 ^ j) :: u64) + push_bit j (of_nat (n div 2 ^ j)) = of_nat n"
proof -
  have "n = n mod 2 ^ j + n div 2 ^ j * 2 ^ j" by (rule mod_div_mult_eq [symmetric])
  then have "(of_nat n :: u64) = of_nat (n mod 2 ^ j) + of_nat (n div 2 ^ j) * 2 ^ j"
    by (metis of_nat_add of_nat_mult of_nat_numeral of_nat_power)
  then show ?thesis by (simp add: push_bit_eq_mult)
qed

lemma leb128_length_pos [simp]: "0 < length (leb128 n)"
  by (subst leb128.simps) simp

lemma leb128_nonempty [simp]: "leb128 n \<noteq> []"
  by (subst leb128.simps) simp

lemma leb128_nth0: "leb128 n ! 0 = of_nat (if n < 128 then n else n mod 128 + 128)"
  by (subst leb128.simps) simp

lemma rv_loop_leb128:
  assumes "k \<le> 9" and "i = 9 - k" and "n < 2 ^ 64"
    and "reads_at p (offset + int i) (leb128 (n div 2 ^ (7 * i)))"
    and "0 \<le> offset"
  shows "rv_loop k p offset (of_nat (n mod 2 ^ (7 * i))) =
    Ok (of_nat n, int i + int (length (leb128 (n div 2 ^ (7 * i)))))"
  using assms
proof (induction k arbitrary: i)
  case 0
  define m where "m = n div 2 ^ 63"
  from 0 have i: "i = 9" by simp
  have m: "m < 2" using 0(3) by (simp add: m_def div_less_iff_less_mult)
  then have enc: "leb128 m = [of_nat m]" by (simp add: leb128_last)
  have r: "reads_at p (offset + 9) [of_nat m]" using 0(4) i enc by (simp add: m_def)
  have h: "HasNext p offset 9"
    using reads_at_HasNext [OF r, of 0] by (simp add: HasNext_def)
  have x: "slice_index (rbuf p) (go_int (offset + 9)) = Ok (of_nat m)"
    using reads_at_index [OF r, of 0] by simp
  have u: "ucast (of_nat m :: u8) = (of_nat m :: u64)" using m by (simp add: ucast_byte_of_nat)
  have lt: "(of_nat m :: u64) < 2"
    using m by (simp add: word_less_nat_alt unat_of_nat)
  show ?case
    using varint_acc_last [of n 63] by (simp add: i h x u lt enc m_def [simplified, symmetric])
next
  case (Suc k)
  let ?m = "n div 2 ^ (7 * i)"
  from Suc.prems have i: "i = 8 - k" and k: "k \<le> 8" by simp_all
  have r: "reads_at p (offset + int i) (leb128 ?m)" by fact
  have h: "HasNext p offset (int i)"
    using reads_at_HasNext [OF r, of 0] by (simp add: HasNext_def)
  have x: "slice_index (rbuf p) (go_int (offset + int i)) = Ok (leb128 ?m ! 0)"
    using reads_at_index [OF r, of 0] by simp
  show ?case
  proof (cases "?m < 128")
    case True
    then have u: "ucast (leb128 ?m ! 0) = (of_nat ?m :: u64)"
      by (simp add: leb128_nth0 ucast_byte_of_nat)
    from True have "(of_nat ?m :: u64) < 0x80"
      by (simp add: word_less_nat_alt unat_of_nat)
    then have "rv_loop (Suc k) p offset (of_nat (n mod 2 ^ (7 * i))) =
        Ok (of_nat (n mod 2 ^ (7 * i)) + push_bit (7 * i) (of_nat ?m), int i + 1)"
      unfolding rv_loop.simps Let_def i [symmetric] x by (simp only: gbind.simps h u) simp
    with True show ?thesis
      using varint_acc_last [of n "7 * i"] by (simp add: leb128_last)
  next
    case False
    let ?b = "?m mod 128 + 128"
    have b: "?b < 256" by (simp add: less_Suc_eq_le)
    from False have u: "ucast (leb128 ?m ! 0) = (of_nat ?b :: u64)"
      using b by (simp only: leb128_nth0 if_False ucast_byte_of_nat)
    have nb: "\<not> (of_nat ?b :: u64) < 0x80"
      using b by (subst word_less_nat_alt, subst unat_of_nat) simp
    have dd: "n div 2 ^ (7 * Suc i) = ?m div 128"
      by (simp add: power_add div_mult2_eq [symmetric] mult.commute)
    have enc: "leb128 ?m = of_nat ?b # leb128 (n div 2 ^ (7 * Suc i))"
      unfolding dd using False leb128_cont [of ?m] by simp
    have r': "reads_at p (offset + int (Suc i)) (leb128 (n div 2 ^ (7 * Suc i)))"
      using reads_at_append2 [of p "offset + int i" "[of_nat ?b]"] r enc by (simp add: ac_simps)
    have IH: "rv_loop k p offset (of_nat (n mod 2 ^ (7 * Suc i))) =
        Ok (of_nat n, int (Suc i) + int (length (leb128 (n div 2 ^ (7 * Suc i)))))"
      using k i by (intro Suc.IH r') (use Suc.prems in simp_all)
    have acc: "of_nat (n mod 2 ^ (7 * i)) + push_bit (7 * i) (of_nat ?b) - push_bit (7 * i) 0x80 =
        (of_nat (n mod 2 ^ (7 * Suc i)) :: u64)"
      using varint_acc [of n "7 * i"] by (simp add: add.commute)
    have "rv_loop (Suc k) p offset (of_nat (n mod 2 ^ (7 * i))) =
        rv_loop k p offset (of_nat (n mod 2 ^ (7 * Suc i)))"
      unfolding rv_loop.simps Let_def i [symmetric] x
      by (simp only: gbind.simps h u nb acc not_True_eq_False if_False)
    with IH show ?thesis by (simp add: enc)
  qed
qed

lemma readVarIntAt_enc [wire_simps]:
  assumes "reads_at p offset (VarIntToBytes v)"
  shows "readVarIntAt p offset = Ok (v, int (length (VarIntToBytes v)))"
proof -
  have "unat v < 2 ^ 64" using unsigned_less [of v, where ?'a = nat] by simp
  then have "rv_loop 9 p offset (of_nat (unat v mod 2 ^ (7 * 0))) =
      Ok (of_nat (unat v), int 0 + int (length (leb128 (unat v div 2 ^ (7 * 0)))))"
    using assms reads_at_bounds [OF assms]
    by (intro rv_loop_leb128) (simp_all add: VarIntToBytes_leb128)
  then show ?thesis by (simp add: readVarIntAt_loop VarIntToBytes_leb128)
qed

lemma leb128_bytes: "i < length (leb128 n) \<Longrightarrow> leb128 n ! i < 0x80 \<longleftrightarrow> Suc i = length (leb128 n)"
proof (induction n arbitrary: i rule: leb128.induct)
  case (1 n)
  show ?case
  proof (cases "n < 128")
    case True
    with 1(2) show ?thesis by (simp add: leb128_last word_less_nat_alt unat_of_nat)
  next
    case False
    have "\<not> (of_nat (n mod 128 + 128) :: u8) < 0x80"
      by (subst word_less_nat_alt, subst unat_of_nat) simp
    with False 1 show ?thesis
      by (cases i) (simp_all add: leb128_cont)
  qed
qed

lemma length_VarIntToBytes: "length (VarIntToBytes v) \<le> 10"
  by (simp add: VarIntToBytes_def)

lemma getVarIntSize_enc:
  assumes "reads_at p offset (VarIntToBytes v)"
  shows "getVarIntSize p offset = Ok (int (length (VarIntToBytes v)))"
proof -
  let ?bs = "VarIntToBytes v"
  have "getVarIntSize_loop p offset i = Ok (int (length ?bs))" if "i < length ?bs" for i
    using that
  proof (induction "length ?bs - i" arbitrary: i)
    case (Suc d)
    have *: "HasNext p offset (int i)"
        "(slice_index (rbuf p) (go_int (offset + int i)) :: (wire_err, u8) gres) = Ok (?bs ! i)"
      using reads_at_HasNext [OF assms Suc.prems] reads_at_index [OF assms Suc.prems] by simp_all
    have "i < 10" using Suc.prems length_VarIntToBytes [of v] by simp
    moreover have "Suc i < length ?bs \<Longrightarrow> getVarIntSize_loop p offset (Suc i) = Ok (int (length ?bs))"
      using Suc.hyps by (intro Suc.hyps(1)) simp_all
    moreover have "?bs ! i < 0x80 \<longleftrightarrow> Suc i = length ?bs"
      using Suc.prems by (simp add: VarIntToBytes_leb128 leb128_bytes)
    ultimately show ?case
      using Suc.prems * by (subst getVarIntSize_loop.simps) (auto simp: not_less_eq)
  qed simp
  moreover have "0 < length ?bs" by (simp add: VarIntToBytes_leb128)
  ultimately show ?thesis unfolding getVarIntSize_def by simp
qed

lemma bit_zigzag: "bit (zigzag v) n \<longleftrightarrow> n < 64 \<and> ((0 < n \<and> bit v (n - 1)) \<noteq> bit v 63)"
  unfolding zigzag_def bit_xor_iff bit_push_bit_iff bit_signed_drop_bit_iff
  by (cases "n = 0") (auto simp: min_def dest: bit_imp_le_length)

lemma unzigzag: "drop_bit 1 (zigzag v) XOR signed_drop_bit 63 (push_bit 63 (zigzag v)) = v"
proof (rule bit_word_eqI)
  fix n assume "n < LENGTH(64)"
  then have "n < 64" by simp
  then show "bit (drop_bit 1 (zigzag v) XOR signed_drop_bit 63 (push_bit 63 (zigzag v))) n = bit v n"
    unfolding bit_xor_iff bit_push_bit_iff bit_signed_drop_bit_iff bit_drop_bit_eq
    by (cases "n = 63") (auto simp: bit_zigzag bit_push_bit_iff)
qed

lemma scast_ucast_i32 [simp]: "ucast (scast (x :: i32) :: u64) = x"
  by (rule bit_word_eqI) (simp add: bit_simps)

lemma byte_at_enc:
  assumes "reads_at p offset bs" and "i < length bs"
  shows "byte_at p (offset + int i) k = Ok (push_bit k (ucast (bs ! i)))"
  unfolding byte_at_def reads_at_index [OF assms] by simp

lemma bytes_step:
  "take_bit k (v :: u64) OR push_bit k (ucast (ucast (drop_bit k v) :: u8)) = take_bit (k + 8) v"
  by (rule bit_word_eqI) (auto simp: bit_simps not_less dest: bit_imp_le_length)

lemma bytes_first: "push_bit 0 (ucast (ucast (drop_bit 0 v) :: u8)) = take_bit 8 (v :: u64)"
  by (rule bit_word_eqI) (auto simp: bit_simps not_less dest: bit_imp_le_length)

lemma ucast_drop_bit_u32: "(ucast (drop_bit k (v :: u32)) :: u8) = ucast (drop_bit k (ucast v :: u64))"
  by (rule bit_word_eqI) (auto simp: bit_simps not_less dest: bit_imp_le_length)

lemma readFixed32At_enc:
  assumes "reads_at p offset (fixed32_bytes v)"
  shows "readFixed32At p offset = Ok (ucast v)"
proof -
  have "i < 4 \<Longrightarrow> byte_at p (offset + int i) k = Ok (push_bit k (ucast (fixed32_bytes v ! i)))" for i k
    using assms by (intro byte_at_enc) (simp_all add: fixed32_bytes_def)
  from this [of 0 0] this [of 1 8] this [of 2 16] this [of 3 24]
  have "readFixed32At p offset = Ok (take_bit 32 (ucast v))"
    unfolding readFixed32At_def fixed32_bytes_def ucast_drop_bit_u32
    using bytes_step [of 8 "ucast v"] bytes_step [of 16 "ucast v"] bytes_step [of 24 "ucast v"]
    by (simp add: bytes_first del: push_bit_0_id drop_bit_0)
  also have "take_bit 32 (ucast v :: u64) = ucast v"
    by (rule bit_word_eqI) (auto simp: bit_simps not_less dest: bit_imp_le_length)
  finally show ?thesis .
qed

lemma readFixed64At_enc:
  assumes "reads_at p offset (fixed64_bytes v)"
  shows "readFixed64At p offset = Ok v"
proof -
  have "i < 8 \<Longrightarrow> byte_at p (offset + int i) k = Ok (push_bit k (ucast (fixed64_bytes v ! i)))" for i k
    using assms by (intro byte_at_enc) (simp_all add: fixed64_bytes_def)
  from this [of 0 0] this [of 1 8] this [of 2 16] this [of 3 24]
    this [of 4 32] this [of 5 40] this [of 6 48] this [of 7 56]
  have "readFixed64At p offset = Ok (take_bit 64 v)"
    unfolding readFixed64At_def fixed64_bytes_def
    using bytes_step [of 8 v] bytes_step [of 16 v] bytes_step [of 24 v] bytes_step [of 32 v]
      bytes_step [of 40 v] bytes_step [of 48 v] bytes_step [of 56 v]
    by (simp add: bytes_first del: push_bit_0_id drop_bit_0)
  then show ?thesis by (simp add: take_bit_word_eq_self)
qed

section \<open>Tags and skipping of written data\<close>

text \<open>A field number the generator can emit: protobuf numbers are positive int32 values.\<close>

definition tag_ok :: "wire_number \<Rightarrow> bool" where
  "tag_ok tag \<longleftrightarrow> unat tag < 2 ^ 31"

lemma scast_tag: "tag_ok tag \<Longrightarrow> (scast tag :: u64) = ucast tag"
proof -
  assume "tag_ok tag"
  then have "int (unat tag) < int (2 ^ 31)" unfolding tag_ok_def by (simp only: of_nat_less_iff)
  then have "uint tag < 2 ^ 31" by simp
  then have "sint tag = uint tag"
    unfolding sint_uint by (intro signed_take_bit_int_eq_self) (simp_all add: order_trans [of _ 0])
  then show ?thesis by (metis of_int_sint of_int_uint)
qed

lemma unat_tag_word_ok:
  assumes "tag_ok tag"
  shows "unat (push_bit 3 (scast tag :: u64) OR ucast ((t :: wire_type) AND 7)) =
    8 * unat tag + unat t mod 8"
proof -
  have "unat tag < 2 ^ 61" using assms by (simp add: tag_ok_def)
  then show ?thesis by (simp add: unat_tag_word scast_tag assms)
qed

lemma unat_and7_u64: "unat ((w :: u64) AND 7) = unat w mod 8"
proof -
  have "w AND 7 = take_bit 3 w" by (simp add: take_bit_eq_mask mask_eq_exp_minus_1)
  then have "unat (w AND 7) = take_bit 3 (unat w)" by (simp only: unsigned_take_bit_eq)
  then show ?thesis by (simp only: take_bit_eq_mod) simp
qed

lemma ReadTagAt_enc:
  assumes r: "reads_at p offset (tag_bytes tag t)" and tag: "tag_ok tag" and t: "unat t < 8"
  shows "ReadTagAt p offset = Ok (tag, t, int (length (tag_bytes tag t)))"
proof -
  let ?w = "push_bit 3 (scast tag :: u64) OR ucast (t AND 7)"
  have w: "unat ?w = 8 * unat tag + unat t" using unat_tag_word_ok [OF tag, of t] t by simp
  have d: "unat (drop_bit 3 ?w) = unat tag" using t by (simp only: unat_drop_bit w) simp
  have a: "unat (?w AND 7) = unat t" using t by (simp only: unat_and7_u64 w) simp
  have "\<not> drop_bit 3 ?w > 0x7fffffff"
    using tag d by (simp add: word_less_nat_alt tag_ok_def)
  moreover have "(ucast (drop_bit 3 ?w) :: wire_number) = tag"
  proof (rule word_eqI_unat)
    show "unat (ucast (drop_bit 3 ?w) :: wire_number) = unat tag"
      unfolding unsigned_ucast_eq take_bit_eq_mod d using tag by (simp add: tag_ok_def)
  qed
  moreover have "(ucast (?w AND 7) :: wire_type) = t"
    by (rule word_eqI_unat) (simp add: unat_ucast_u8 a)
  moreover have "readVarIntAt p offset = Ok (?w, int (length (tag_bytes tag t)))"
    using readVarIntAt_enc r unfolding tag_bytes_def by blast
  ultimately show ?thesis by (simp add: ReadTagAt_def)
qed

lemma SkipData_varint:
  assumes "reads_at p offset (VarIntToBytes v)"
  shows "SkipData (Suc f) p offset VarIntType = Ok (offset + int (length (VarIntToBytes v)))"
  using getVarIntSize_enc [OF assms] reads_at_bounds [OF assms] by simp

lemma SkipData_fixed32:
  assumes "reads_at p offset (fixed32_bytes v)"
  shows "SkipData (Suc f) p offset Fixed32Type = Ok (offset + int (length (fixed32_bytes v)))"
  using reads_at_bounds [OF assms] by (simp add: wire_type_defs fixed32_bytes_def)

lemma SkipData_fixed64:
  assumes "reads_at p offset (fixed64_bytes v)"
  shows "SkipData (Suc f) p offset Fixed64Type = Ok (offset + int (length (fixed64_bytes v)))"
  using reads_at_bounds [OF assms] by (simp add: wire_type_defs fixed64_bytes_def)

lemma int_of_u64_of_int_less: "int n < 2 ^ 63 \<Longrightarrow> int_of_u64 (of_nat n) = int n"
proof -
  assume "int n < 2 ^ 63"
  then have "int n < int (2 ^ 63)" by simp
  then show ?thesis by (intro int_of_u64_of_nat) (simp only: of_nat_less_iff)
qed

lemma len_bytes_size:
  assumes "reads_at p offset (len_bytes d)"
  shows "readVarIntAt p offset = Ok (of_nat (length d), int (length (VarIntToBytes (of_nat (length d)))))"
    and "int_of_u64 (of_nat (length d)) = int (length d)"
proof -
  show "readVarIntAt p offset = Ok (of_nat (length d), int (length (VarIntToBytes (of_nat (length d)))))"
    using assms unfolding len_bytes_def by (rule readVarIntAt_enc [OF reads_at_append1])
  have "length d \<le> length (len_bytes d)" by (simp add: len_bytes_def)
  then have "int (length d) < 2 ^ 62"
    using reads_at_bounds [OF assms] by linarith
  then show "int_of_u64 (of_nat (length d)) = int (length d)" by (intro int_of_u64_of_int_less) simp
qed

lemma SkipData_bytes:
  assumes "reads_at p offset (len_bytes d)"
  shows "SkipData (Suc f) p offset BytesType = Ok (offset + int (length (len_bytes d)))"
  using len_bytes_size [OF assms] reads_at_bounds [OF assms]
  by (simp add: wire_type_defs len_bytes_def add.assoc)

lemma slice_sub_reads_at:
  assumes "reads_at p offset (a @ d)"
  shows "\<exists>s. slice_sub (rbuf p) (go_int (offset + int (length a)))
      (go_int (offset + int (length a) + int (length d))) = Ok s \<and> elems s = d"
proof -
  from assms obtain pre post
    where e: "elems (rbuf p) = pre @ (a @ d) @ post" "offset = int (length pre)"
    by (auto simp: reads_at_def)
  have "slice_sub (rbuf p) (int (length (pre @ a))) (int (length (pre @ a) + length d)) =
      Ok \<lparr>elems = d, spare = post @ spare (rbuf p)\<rparr>"
    using e by (intro slice_sub_mid [where pre = "pre @ a"]) simp_all
  moreover have "int (length (pre @ a)) = offset + int (length a)"
    "int (length (pre @ a) + length d) = offset + int (length a) + int (length d)"
    using e by simp_all
  moreover have "go_int (offset + int (length a)) = offset + int (length a)"
    "go_int (offset + int (length a) + int (length d)) = offset + int (length a) + int (length d)"
    using reads_at_bounds [OF assms] by simp_all
  ultimately show ?thesis by (metis slice.select_convs(1))
qed

lemma SizedReadBytes_enc:
  assumes "reads_at p offset (len_bytes d)"
  shows "\<exists>s. SizedReadBytes p offset = Ok (s, int (length (len_bytes d))) \<and>
    ReadBytes p offset = Ok s \<and> elems s = d"
proof -
  obtain s where
    "(slice_sub (rbuf p) (go_int (offset + int (length (VarIntToBytes (of_nat (length d))))))
      (go_int (offset + int (length (VarIntToBytes (of_nat (length d)))) + int (length d)))
        :: (wire_err, slice) gres) = Ok s"
    "elems s = d"
    using slice_sub_reads_at assms unfolding len_bytes_def by blast
  moreover have "int (length (len_bytes d)) < 2 ^ 62"
    using reads_at_bounds [OF assms] by linarith
  ultimately show ?thesis
    using len_bytes_size [OF assms]
    by (simp add: SizedReadBytes_def ReadBytes_def len_bytes_def)
qed

section \<open>The contract of a wire codec\<close>

text \<open>
  What the generated readers rely on: where the encoding of \<open>x\<close> stands in the buffer, the
  read method returns \<open>x\<close>, the sized read method also returns the number of bytes, and
  \<^verbatim>\<open>SkipData\<close> with the codec's wire type moves past them.
\<close>

locale wire_codec = sized_field append size_of enc tagged wt
  for append :: "writer \<Rightarrow> 'a \<Rightarrow> wres" and size_of enc tagged wt +
  fixes read :: "reader \<Rightarrow> int \<Rightarrow> (wire_err, 'a) gres"
    and sized_read :: "reader \<Rightarrow> int \<Rightarrow> (wire_err, 'a \<times> int) gres"
  assumes wt_small: "unat wt < 8"
    and read_enc: "reads_at p offset (enc x) \<Longrightarrow> read p offset = Ok x"
    and sized_read_enc:
      "reads_at p offset (enc x) \<Longrightarrow> sized_read p offset = Ok (x, int (length (enc x)))"
    and skip_enc:
      "reads_at p offset (enc x) \<Longrightarrow>
        SkipData (Suc f) p offset wt = Ok (offset + int (length (enc x)))"
begin

text \<open>A tagged field is read back: first the tag, then the value, or it is skipped.\<close>

lemma field_enc:
  assumes "reads_at p offset (tag_bytes tag wt @ enc x)" and "tag_ok tag"
  shows "ReadTagAt p offset = Ok (tag, wt, int (length (tag_bytes tag wt)))"
    and "read p (offset + int (length (tag_bytes tag wt))) = Ok x"
    and "SkipData (Suc f) p (offset + int (length (tag_bytes tag wt))) wt =
      Ok (offset + int (length (tag_bytes tag wt @ enc x)))"
  using ReadTagAt_enc [OF reads_at_append1 [OF assms(1)] assms(2) wt_small]
    read_enc [OF reads_at_append2 [OF assms(1)]] skip_enc [OF reads_at_append2 [OF assms(1)]]
  by (simp_all add: add.assoc)

text \<open>Writing a field into a buffer and reading it back from the finished message.\<close>

lemma write_read:
  assumes "tagged p tag x = Some q" and "tag_ok tag" and "wcap q < 2 ^ 62"
  shows "\<exists>n. ReadTagAt (NewReader (slice_of (wbuf q))) (int (length (wbuf p))) = Ok (tag, wt, n) \<and>
    read (NewReader (slice_of (wbuf q))) (int (length (wbuf p)) + n) = Ok x"
proof -
  have q: "wbuf q = wbuf p @ tag_bytes tag wt @ enc x" "wcap p = wcap q" "length (wbuf q) \<le> wcap q"
    using assms(1) by (auto simp: tagged_enc writeBytes_Some_iff)
  have "int (length (wbuf q)) < int (2 ^ 62)"
    using assms(3) q(3) by (simp only: of_nat_less_iff)
  then have "reads_at (NewReader (slice_of (wbuf q))) (int (length (wbuf p))) (tag_bytes tag wt @ enc x)"
    using q(1) by (intro reads_atI [where post = "[]"]) (simp_all add: NewReader_def slice_of_def slice_len_def)
  from field_enc(1,2) [OF this assms(2)] show ?thesis by blast
qed

end

lemma ucast_ucast_u32 [simp]: "ucast (ucast (x :: u32) :: u64) = x"
  by (rule bit_word_eqI) (auto simp: bit_simps dest: bit_imp_le_length)

lemmas varint_reads = readVarIntAt_enc SkipData_varint ReadVarInt_def SizedReadVarInt_def
  readSignedVarIntAt_def unzigzag unzigzag [simplified]

text \<open>
  A varint read at an offset inside 62 bits never panics: it yields a value with a size of
  1 to 10 bytes that lie in the buffer, or the size -1.
\<close>

lemma rv_loop_total:
  assumes "0 \<le> offset" and "offset < 2 ^ 62" and "k \<le> 9"
  shows "\<exists>w n. rv_loop k p offset v = Ok (w, n) \<and>
    (n = - 1 \<or> 1 \<le> n \<and> n \<le> 10 \<and> offset + n \<le> slice_len (rbuf p))"
  using assms(3)
proof (induction k arbitrary: v)
  case 0
  then show ?case using assms by (auto simp: HasNext_def slice_index_def)
next
  case (Suc k)
  show ?case
  proof (cases "HasNext p offset (int (8 - k))")
    case False
    then show ?thesis by (simp add: Let_def)
  next
    case True
    have g: "go_int (offset + int (8 - k)) = offset + int (8 - k)" using assms by simp
    with True have x: "(slice_index (rbuf p) (offset + int (8 - k)) :: (wire_err, u8) gres) =
        Ok (elems (rbuf p) ! nat (offset + int (8 - k)))"
      and le: "offset + int (8 - k) + 1 \<le> slice_len (rbuf p)"
      using assms(1) by (simp_all add: HasNext_def slice_index_def)
    show ?thesis
      unfolding rv_loop.simps Let_def g x
      using True le Suc.IH Suc.prems by (simp add: add.assoc)
  qed
qed

lemma readVarIntAt_total:
  assumes "0 \<le> offset" and "offset < 2 ^ 62"
  shows "\<exists>v n. readVarIntAt p offset = Ok (v, n) \<and>
    (n = - 1 \<or> 1 \<le> n \<and> n \<le> 10 \<and> offset + n \<le> slice_len (rbuf p))"
  unfolding readVarIntAt_loop by (rule rv_loop_total [OF assms]) simp

lemma wire_type_small [simp]:
  "unat VarIntType < 8" "unat Fixed64Type < 8" "unat BytesType < 8" "unat Fixed32Type < 8"
  by (simp_all add: wire_type_defs)

interpretation w_bool: wire_codec AppendBoolWithoutTag SizeBool
  "\<lambda>b. VarIntToBytes (if b then 1 else 0)" AppendBool VarIntType ReadBool SizedReadBool
  by unfold_locales
    (simp_all add: ReadBool_def SizedReadBool_def varint_reads del: SkipData.simps)

interpretation w_int32: wire_codec AppendInt32WithoutTag SizeInt32
  "\<lambda>d. VarIntToBytes (scast d)" AppendInt32 VarIntType ReadInt32 SizedReadInt32
  by unfold_locales
    (simp_all add: ReadInt32_def SizedReadInt32_def varint_reads del: SkipData.simps)

interpretation w_int64: wire_codec AppendInt64WithoutTag SizeInt64
  VarIntToBytes AppendInt64 VarIntType ReadInt64 SizedReadInt64
  by unfold_locales
    (simp_all add: ReadInt64_def SizedReadInt64_def varint_reads del: SkipData.simps)

interpretation w_uint32: wire_codec AppendUint32WithoutTag SizeUint32
  "\<lambda>d. VarIntToBytes (ucast d)" AppendUint32 VarIntType ReadUint32 SizedReadUint32
  by unfold_locales
    (simp_all add: ReadUint32_def SizedReadUint32_def varint_reads del: SkipData.simps)

interpretation w_uint64: wire_codec AppendUint64WithoutTag SizeUint64
  VarIntToBytes AppendUint64 VarIntType ReadUint64 SizedReadUint64
  by unfold_locales
    (simp_all add: ReadUint64_def SizedReadUint64_def varint_reads del: SkipData.simps)

interpretation w_sint32: wire_codec AppendSInt32WithoutTag SizeSInt32
  "\<lambda>d. VarIntToBytes (zigzag (scast d))" AppendSInt32 VarIntType ReadSInt32 SizedReadSInt32
  by unfold_locales
    (simp_all add: ReadSInt32_def SizedReadSInt32_def varint_reads del: SkipData.simps)

interpretation w_sint64: wire_codec AppendSInt64WithoutTag SizeSInt64
  "\<lambda>d. VarIntToBytes (zigzag d)" AppendSInt64 VarIntType ReadSInt64 SizedReadSInt64
  by unfold_locales
    (simp_all add: ReadSInt64_def SizedReadSInt64_def varint_reads del: SkipData.simps)

lemmas fixed_reads = readFixed32At_enc readFixed64At_enc SkipData_fixed32 SkipData_fixed64

lemma length_fixed [simp]: "length (fixed32_bytes v) = 4" "length (fixed64_bytes w) = 8"
  by (simp_all add: fixed32_bytes_def fixed64_bytes_def)

interpretation w_fixed32: wire_codec AppendFixed32WithoutTag SizeFixed32
  fixed32_bytes AppendFixed32 Fixed32Type ReadFixed32 SizedReadFixed32
  by unfold_locales
    (simp_all add: ReadFixed32_def SizedReadFixed32_def fixed_reads del: SkipData.simps)

interpretation w_fixed64: wire_codec AppendFixed64WithoutTag SizeFixed64
  fixed64_bytes AppendFixed64 Fixed64Type ReadFixed64 SizedReadFixed64
  by unfold_locales
    (simp_all add: ReadFixed64_def SizedReadFixed64_def fixed_reads del: SkipData.simps)

interpretation w_sfixed32: wire_codec AppendSFixed32WithoutTag SizeSFixed32
  fixed32_bytes AppendSFixed32 Fixed32Type ReadSFixed32 SizedReadSFixed32
  by unfold_locales
    (simp_all add: ReadSFixed32_def SizedReadSFixed32_def fixed_reads del: SkipData.simps)

interpretation w_sfixed64: wire_codec AppendSFixed64WithoutTag SizeSFixed64
  fixed64_bytes AppendSFixed64 Fixed64Type ReadSFixed64 SizedReadSFixed64
  by unfold_locales
    (simp_all add: ReadSFixed64_def SizedReadSFixed64_def fixed_reads del: SkipData.simps)

interpretation w_float32: wire_codec AppendFloat32WithoutTag SizeFloat32
  fixed32_bytes AppendFloat32 Fixed32Type ReadFloat32 SizedReadFloat32
  by unfold_locales
    (simp_all add: ReadFloat32_def SizedReadFloat32_def fixed_reads del: SkipData.simps)

interpretation w_float64: wire_codec AppendFloat64WithoutTag SizeFloat64
  fixed64_bytes AppendFloat64 Fixed64Type ReadFloat64 SizedReadFloat64
  by unfold_locales
    (simp_all add: ReadFloat64_def SizedReadFloat64_def fixed_reads del: SkipData.simps)

text \<open>The byte slice a read returns shares the buffer; its contents are what was written.\<close>

lemma ReadBytes_elems:
  assumes "reads_at p offset (len_bytes d)"
  shows "gmap elems (ReadBytes p offset) = Ok d"
    and "gmap (\<lambda>(v, n). (elems v, n)) (SizedReadBytes p offset) = Ok (d, int (length (len_bytes d)))"
  using SizedReadBytes_enc [OF assms] by auto

interpretation w_string: wire_codec "\<lambda>p d. writeBytes p (len_bytes d)"
  "\<lambda>d. SizeString d + SizeUint64 (of_nat (SizeString d))" len_bytes AppendString BytesType
  ReadString SizedReadString
  by unfold_locales
    (simp_all add: ReadString_def SizedReadString_def ReadBytes_elems SkipData_bytes del: SkipData.simps)

interpretation w_bytes: wire_codec "\<lambda>p d. writeBytes p (len_bytes d)"
  "\<lambda>d. SizeBytes d + SizeUint64 (of_nat (SizeBytes d))" len_bytes AppendBytes BytesType
  "\<lambda>p offset. gmap elems (ReadBytes p offset)"
  "\<lambda>p offset. gmap (\<lambda>(v, n). (elems v, n)) (SizedReadBytes p offset)"
  by unfold_locales (simp_all add: ReadBytes_elems SkipData_bytes del: SkipData.simps)

end
