(* ===== verification/Proto_Fields.thy ===== *)
theory Proto_Fields
  imports Wire_Reader
begin

text \<open>
  The field templates of the Go generator, \<^verbatim>\<open>gremlinc/internal/generators/golang/fields\<close>: for
  every kind of field, what the Go code that the template prints computes. A template method
  that prints an expression or statements over a Go variable is a function of the value of
  that variable; where a template embeds the code of another type (the element of a list, the
  value of a map) the function takes that type.

  The values of all message fields share one type \<open>gval\<close>, and the Go static types are the
  predicate \<open>conforms\<close> of the theory of messages; the projections below are only applied to
  values of the right shape there. A nil slice and an empty slice are one value, and a map is
  the list of its entries in some iteration order.
\<close>

section \<open>Values and field types\<close>

datatype scalar =
    PString | PBytes | PBool | PDouble | PFloat | PInt32 | PInt64 | PUint32 | PUint64
  | PSint32 | PSint64 | PFixed32 | PFixed64 | PSfixed32 | PSfixed64

datatype gval =
    VBool bool
  | V32 u32
  | V64 u64
  | VBytes bytes
  | VMsg "gval list option"
  | VList "gval list"
  | VMap "(gval \<times> gval) list"

fun as_bool :: "gval \<Rightarrow> bool" where
  "as_bool (VBool b) = b"
| "as_bool _ = False"

fun as_32 :: "gval \<Rightarrow> u32" where
  "as_32 (V32 w) = w"
| "as_32 _ = 0"

fun as_64 :: "gval \<Rightarrow> u64" where
  "as_64 (V64 w) = w"
| "as_64 _ = 0"

fun as_bytes :: "gval \<Rightarrow> bytes" where
  "as_bytes (VBytes b) = b"
| "as_bytes _ = []"

fun as_msg :: "gval \<Rightarrow> gval list option" where
  "as_msg (VMsg m) = m"
| "as_msg _ = None"

fun as_list :: "gval \<Rightarrow> gval list" where
  "as_list (VList xs) = xs"
| "as_list _ = []"

fun as_map :: "gval \<Rightarrow> (gval \<times> gval) list" where
  "as_map (VMap kvs) = kvs"
| "as_map _ = []"

text \<open>
  The types a field, a list element or a map value can have: \<^verbatim>\<open>goBasicValueType\<close>,
  \<^verbatim>\<open>goEnumValueType\<close> and \<^verbatim>\<open>goStructValueType\<close>, with \<^verbatim>\<open>DefaultValue\<close> as the value of the
  printed literal (\<open>None\<close> for the empty string) and \<^verbatim>\<open>Required\<close>.
\<close>

datatype go_value_type =
    GoBasic scalar "gval option" bool
  | GoEnum "u32 option" bool
  | GoStruct string bool

datatype go_field_type =
    GoValue go_value_type
  | GoRepeated go_value_type bool
  | GoRepeatedPacked go_value_type bool
  | GoMap go_value_type go_value_type


section \<open>The tables of the basic types\<close>

fun bufBasicTypesWriters :: "scalar \<Rightarrow> writer \<Rightarrow> wire_number \<Rightarrow> gval \<Rightarrow> wres" where
  "bufBasicTypesWriters PString p tag v = AppendString p tag (as_bytes v)"
| "bufBasicTypesWriters PBytes p tag v = AppendBytes p tag (as_bytes v)"
| "bufBasicTypesWriters PBool p tag v = AppendBool p tag (as_bool v)"
| "bufBasicTypesWriters PDouble p tag v = AppendFloat64 p tag (as_64 v)"
| "bufBasicTypesWriters PFloat p tag v = AppendFloat32 p tag (as_32 v)"
| "bufBasicTypesWriters PInt32 p tag v = AppendInt32 p tag (as_32 v)"
| "bufBasicTypesWriters PInt64 p tag v = AppendInt64 p tag (as_64 v)"
| "bufBasicTypesWriters PUint32 p tag v = AppendUint32 p tag (as_32 v)"
| "bufBasicTypesWriters PUint64 p tag v = AppendUint64 p tag (as_64 v)"
| "bufBasicTypesWriters PSint32 p tag v = AppendSInt32 p tag (as_32 v)"
| "bufBasicTypesWriters PSint64 p tag v = AppendSInt64 p tag (as_64 v)"
| "bufBasicTypesWriters PFixed32 p tag v = AppendFixed32 p tag (as_32 v)"
| "bufBasicTypesWriters PFixed64 p tag v = AppendFixed64 p tag (as_64 v)"
| "bufBasicTypesWriters PSfixed32 p tag v = AppendSFixed32 p tag (as_32 v)"
| "bufBasicTypesWriters PSfixed64 p tag v = AppendSFixed64 p tag (as_64 v)"

text \<open>The names of the table followed by \<^verbatim>\<open>WithoutTag\<close>; strings and bytes have no such method.\<close>

fun bufWritersWithoutTag :: "scalar \<Rightarrow> writer \<Rightarrow> gval \<Rightarrow> wres" where
  "bufWritersWithoutTag PString p v = None"
| "bufWritersWithoutTag PBytes p v = None"
| "bufWritersWithoutTag PBool p v = AppendBoolWithoutTag p (as_bool v)"
| "bufWritersWithoutTag PDouble p v = AppendFloat64WithoutTag p (as_64 v)"
| "bufWritersWithoutTag PFloat p v = AppendFloat32WithoutTag p (as_32 v)"
| "bufWritersWithoutTag PInt32 p v = AppendInt32WithoutTag p (as_32 v)"
| "bufWritersWithoutTag PInt64 p v = AppendInt64WithoutTag p (as_64 v)"
| "bufWritersWithoutTag PUint32 p v = AppendUint32WithoutTag p (as_32 v)"
| "bufWritersWithoutTag PUint64 p v = AppendUint64WithoutTag p (as_64 v)"
| "bufWritersWithoutTag PSint32 p v = AppendSInt32WithoutTag p (as_32 v)"
| "bufWritersWithoutTag PSint64 p v = AppendSInt64WithoutTag p (as_64 v)"
| "bufWritersWithoutTag PFixed32 p v = AppendFixed32WithoutTag p (as_32 v)"
| "bufWritersWithoutTag PFixed64 p v = AppendFixed64WithoutTag p (as_64 v)"
| "bufWritersWithoutTag PSfixed32 p v = AppendSFixed32WithoutTag p (as_32 v)"
| "bufWritersWithoutTag PSfixed64 p v = AppendSFixed64WithoutTag p (as_64 v)"

fun bufBasicTypesSizers :: "scalar \<Rightarrow> gval \<Rightarrow> nat" where
  "bufBasicTypesSizers PString v = SizeString (as_bytes v)"
| "bufBasicTypesSizers PBytes v = SizeBytes (as_bytes v)"
| "bufBasicTypesSizers PBool v = SizeBool (as_bool v)"
| "bufBasicTypesSizers PDouble v = SizeFloat64 (as_64 v)"
| "bufBasicTypesSizers PFloat v = SizeFloat32 (as_32 v)"
| "bufBasicTypesSizers PInt32 v = SizeInt32 (as_32 v)"
| "bufBasicTypesSizers PInt64 v = SizeInt64 (as_64 v)"
| "bufBasicTypesSizers PUint32 v = SizeUint32 (as_32 v)"
| "bufBasicTypesSizers PUint64 v = SizeUint64 (as_64 v)"
| "bufBasicTypesSizers PSint32 v = SizeSInt32 (as_32 v)"
| "bufBasicTypesSizers PSint64 v = SizeSInt64 (as_64 v)"
| "bufBasicTypesSizers PFixed32 v = SizeFixed32 (as_32 v)"
| "bufBasicTypesSizers PFixed64 v = SizeFixed64 (as_64 v)"
| "bufBasicTypesSizers PSfixed32 v = SizeSFixed32 (as_32 v)"
| "bufBasicTypesSizers PSfixed64 v = SizeSFixed64 (as_64 v)"

text \<open>A \<^verbatim>\<open>[]byte\<close> result is the contents of the slice it returns.\<close>

fun bufBasicTypesReaders :: "scalar \<Rightarrow> reader \<Rightarrow> int \<Rightarrow> (wire_err, gval) gres" where
  "bufBasicTypesReaders PString p wo = gmap VBytes (ReadString p wo)"
| "bufBasicTypesReaders PBytes p wo = gmap (\<lambda>s. VBytes (elems s)) (ReadBytes p wo)"
| "bufBasicTypesReaders PBool p wo = gmap VBool (ReadBool p wo)"
| "bufBasicTypesReaders PDouble p wo = gmap V64 (ReadFloat64 p wo)"
| "bufBasicTypesReaders PFloat p wo = gmap V32 (ReadFloat32 p wo)"
| "bufBasicTypesReaders PInt32 p wo = gmap V32 (ReadInt32 p wo)"
| "bufBasicTypesReaders PInt64 p wo = gmap V64 (ReadInt64 p wo)"
| "bufBasicTypesReaders PUint32 p wo = gmap V32 (ReadUint32 p wo)"
| "bufBasicTypesReaders PUint64 p wo = gmap V64 (ReadUint64 p wo)"
| "bufBasicTypesReaders PSint32 p wo = gmap V32 (ReadSInt32 p wo)"
| "bufBasicTypesReaders PSint64 p wo = gmap V64 (ReadSInt64 p wo)"
| "bufBasicTypesReaders PFixed32 p wo = gmap V32 (ReadFixed32 p wo)"
| "bufBasicTypesReaders PFixed64 p wo = gmap V64 (ReadFixed64 p wo)"
| "bufBasicTypesReaders PSfixed32 p wo = gmap V32 (ReadSFixed32 p wo)"
| "bufBasicTypesReaders PSfixed64 p wo = gmap V64 (ReadSFixed64 p wo)"

text \<open>The names of the table after \<^verbatim>\<open>Sized\<close>.\<close>

fun bufSizedReaders :: "scalar \<Rightarrow> reader \<Rightarrow> int \<Rightarrow> (wire_err, gval \<times> int) gres" where
  "bufSizedReaders PString p wo = gmap (map_prod VBytes id) (SizedReadString p wo)"
| "bufSizedReaders PBytes p wo = gmap (map_prod (\<lambda>s. VBytes (elems s)) id) (SizedReadBytes p wo)"
| "bufSizedReaders PBool p wo = gmap (map_prod VBool id) (SizedReadBool p wo)"
| "bufSizedReaders PDouble p wo = gmap (map_prod V64 id) (SizedReadFloat64 p wo)"
| "bufSizedReaders PFloat p wo = gmap (map_prod V32 id) (SizedReadFloat32 p wo)"
| "bufSizedReaders PInt32 p wo = gmap (map_prod V32 id) (SizedReadInt32 p wo)"
| "bufSizedReaders PInt64 p wo = gmap (map_prod V64 id) (SizedReadInt64 p wo)"
| "bufSizedReaders PUint32 p wo = gmap (map_prod V32 id) (SizedReadUint32 p wo)"
| "bufSizedReaders PUint64 p wo = gmap (map_prod V64 id) (SizedReadUint64 p wo)"
| "bufSizedReaders PSint32 p wo = gmap (map_prod V32 id) (SizedReadSInt32 p wo)"
| "bufSizedReaders PSint64 p wo = gmap (map_prod V64 id) (SizedReadSInt64 p wo)"
| "bufSizedReaders PFixed32 p wo = gmap (map_prod V32 id) (SizedReadFixed32 p wo)"
| "bufSizedReaders PFixed64 p wo = gmap (map_prod V64 id) (SizedReadFixed64 p wo)"
| "bufSizedReaders PSfixed32 p wo = gmap (map_prod V32 id) (SizedReadSFixed32 p wo)"
| "bufSizedReaders PSfixed64 p wo = gmap (map_prod V64 id) (SizedReadSFixed64 p wo)"

fun canBePacked :: "scalar \<Rightarrow> bool" where
  "canBePacked PString = False"
| "canBePacked PBytes = False"
| "canBePacked _ = True"


section \<open>Zero values, defaults and emptiness\<close>

text \<open>Comparison of Go floats by their bit patterns: NaN is unequal to everything, and the two
  zeros are equal.\<close>

definition float32_eq :: "u32 \<Rightarrow> u32 \<Rightarrow> bool" where
  "float32_eq a b =
     (let nan = (\<lambda>x. (x AND 0x7fffffff) > 0x7f800000); zero = (\<lambda>x. x AND 0x7fffffff = 0)
      in \<not> nan a \<and> \<not> nan b \<and> (a = b \<or> zero a \<and> zero b))"

definition float64_eq :: "u64 \<Rightarrow> u64 \<Rightarrow> bool" where
  "float64_eq a b =
     (let nan = (\<lambda>x. (x AND 0x7fffffffffffffff) > 0x7ff0000000000000);
          zero = (\<lambda>x. x AND 0x7fffffffffffffff = 0)
      in \<not> nan a \<and> \<not> nan b \<and> (a = b \<or> zero a \<and> zero b))"

text \<open>The operator \<^verbatim>\<open>==\<close> (for bytes, \<^verbatim>\<open>bytes.Equal\<close>) at the Go type of a basic type.\<close>

fun go_eq :: "scalar \<Rightarrow> gval \<Rightarrow> gval \<Rightarrow> bool" where
  "go_eq PFloat v d = float32_eq (as_32 v) (as_32 d)"
| "go_eq PDouble v d = float64_eq (as_64 v) (as_64 d)"
| "go_eq _ v d = (v = d)"

fun zero_value :: "scalar \<Rightarrow> gval" where
  "zero_value PString = VBytes []"
| "zero_value PBytes = VBytes []"
| "zero_value PBool = VBool False"
| "zero_value PDouble = V64 0"
| "zero_value PInt64 = V64 0"
| "zero_value PUint64 = V64 0"
| "zero_value PSint64 = V64 0"
| "zero_value PFixed64 = V64 0"
| "zero_value PSfixed64 = V64 0"
| "zero_value _ = V32 0"

fun DefaultReturn :: "go_value_type \<Rightarrow> gval" where
  "DefaultReturn (GoBasic s d r) = (case d of Some d \<Rightarrow> d | None \<Rightarrow> zero_value s)"
| "DefaultReturn (GoEnum d r) = V32 (case d of Some d \<Rightarrow> d | None \<Rightarrow> 0)"
| "DefaultReturn (GoStruct n r) = VMsg None"

definition goBasic_EntryIsNotEmpty :: "scalar \<Rightarrow> gval option \<Rightarrow> bool \<Rightarrow> gval \<Rightarrow> bool" where
  [simp]: "goBasic_EntryIsNotEmpty s d r v =
     (if r then True
      else if s = PString \<or> s = PBytes then
        (case d of None \<Rightarrow> as_bytes v \<noteq> [] | Some d \<Rightarrow> \<not> go_eq s v d)
      else if s = PBool then
        (case d of None \<Rightarrow> as_bool v | Some d \<Rightarrow> \<not> go_eq s v d)
      else (case d of None \<Rightarrow> \<not> go_eq s v (zero_value s) | Some d \<Rightarrow> \<not> go_eq s v d))"

definition goEnum_EntryIsNotEmpty :: "u32 option \<Rightarrow> bool \<Rightarrow> gval \<Rightarrow> bool" where
  [simp]: "goEnum_EntryIsNotEmpty d r v =
     (if r then True else as_32 v \<noteq> (case d of None \<Rightarrow> 0 | Some d \<Rightarrow> d))"

definition goStruct_EntryIsNotEmpty :: "bool \<Rightarrow> gval \<Rightarrow> bool" where
  [simp]: "goStruct_EntryIsNotEmpty r v = (if r then True else as_msg v \<noteq> None)"

fun EntryIsNotEmpty_value :: "go_value_type \<Rightarrow> gval \<Rightarrow> bool" where
  "EntryIsNotEmpty_value (GoBasic s d r) v = goBasic_EntryIsNotEmpty s d r v"
| "EntryIsNotEmpty_value (GoEnum d r) v = goEnum_EntryIsNotEmpty d r v"
| "EntryIsNotEmpty_value (GoStruct n r) v = goStruct_EntryIsNotEmpty r v"

definition goRepeated_EntryIsNotEmpty :: "bool \<Rightarrow> gval \<Rightarrow> bool" where
  [simp]: "goRepeated_EntryIsNotEmpty r v = (if r then True else length (as_list v) > 0)"

definition goRepeatedPacked_EntryIsNotEmpty :: "bool \<Rightarrow> gval \<Rightarrow> bool" where
  [simp]: "goRepeatedPacked_EntryIsNotEmpty r v = (if r then True else length (as_list v) > 0)"

definition goMap_EntryIsNotEmpty :: "gval \<Rightarrow> bool" where
  [simp]: "goMap_EntryIsNotEmpty v = (length (as_map v) > 0)"

fun EntryIsNotEmpty :: "go_field_type \<Rightarrow> gval \<Rightarrow> bool" where
  "EntryIsNotEmpty (GoValue t) v = EntryIsNotEmpty_value t v"
| "EntryIsNotEmpty (GoRepeated t r) v = goRepeated_EntryIsNotEmpty r v"
| "EntryIsNotEmpty (GoRepeatedPacked t r) v = goRepeatedPacked_EntryIsNotEmpty r v"
| "EntryIsNotEmpty (GoMap k t) v = goMap_EntryIsNotEmpty v"


section \<open>Sizes\<close>

text \<open>
  The first argument is the method \<^verbatim>\<open>XXX_PbContentSize\<close> of the generated struct types, by the
  name of the struct and on a possibly nil pointer.
\<close>

type_synonym msg_size = "string \<Rightarrow> gval list option \<Rightarrow> nat"

definition goBasic_EntryFullSizeWithTag :: "scalar \<Rightarrow> wire_number \<Rightarrow> gval \<Rightarrow> nat" where
  [simp]: "goBasic_EntryFullSizeWithTag s tag v =
     (if s = PBytes \<or> s = PString then
        let sz = bufBasicTypesSizers s v in sz + (SizeUint64 (of_nat sz) + SizeTag tag)
      else SizeTag tag + bufBasicTypesSizers s v)"

definition goEnum_EntryFullSizeWithTag :: "wire_number \<Rightarrow> gval \<Rightarrow> nat" where
  [simp]: "goEnum_EntryFullSizeWithTag tag v = SizeTag tag + SizeInt32 (as_32 v)"

definition goStruct_EntryFullSizeWithTag :: "msg_size \<Rightarrow> string \<Rightarrow> wire_number \<Rightarrow> gval \<Rightarrow> nat" where
  [simp]: "goStruct_EntryFullSizeWithTag csize n tag v =
     (let sz = csize n (as_msg v) in sz + (SizeUint64 (of_nat sz) + SizeTag tag))"

fun FullSizeWithTag_value :: "msg_size \<Rightarrow> go_value_type \<Rightarrow> wire_number \<Rightarrow> gval \<Rightarrow> nat" where
  "FullSizeWithTag_value csize (GoBasic s d r) tag v = goBasic_EntryFullSizeWithTag s tag v"
| "FullSizeWithTag_value csize (GoEnum d r) tag v = goEnum_EntryFullSizeWithTag tag v"
| "FullSizeWithTag_value csize (GoStruct n r) tag v = goStruct_EntryFullSizeWithTag csize n tag v"

definition goBasic_EntryFullSizeWithoutTag :: "scalar \<Rightarrow> gval \<Rightarrow> nat" where
  [simp]: "goBasic_EntryFullSizeWithoutTag s v =
     (if s = PBytes \<or> s = PString then
        let sz = bufBasicTypesSizers s v in sz + SizeUint64 (of_nat sz)
      else bufBasicTypesSizers s v)"

definition goEnum_EntryFullSizeWithoutTag :: "gval \<Rightarrow> nat" where
  [simp]: "goEnum_EntryFullSizeWithoutTag v = SizeInt32 (as_32 v)"

definition goStruct_EntryFullSizeWithoutTag :: "msg_size \<Rightarrow> string \<Rightarrow> gval \<Rightarrow> nat" where
  [simp]: "goStruct_EntryFullSizeWithoutTag csize n v =
     (let sz = csize n (as_msg v) in sz + SizeUint64 (of_nat sz))"

fun FullSizeWithoutTag_value :: "msg_size \<Rightarrow> go_value_type \<Rightarrow> gval \<Rightarrow> nat" where
  "FullSizeWithoutTag_value csize (GoBasic s d r) v = goBasic_EntryFullSizeWithoutTag s v"
| "FullSizeWithoutTag_value csize (GoEnum d r) v = goEnum_EntryFullSizeWithoutTag v"
| "FullSizeWithoutTag_value csize (GoStruct n r) v = goStruct_EntryFullSizeWithoutTag csize n v"

definition mapEntryKeyTag :: wire_number where "mapEntryKeyTag = 1"
definition mapEntryValueTag :: wire_number where "mapEntryValueTag = 2"

definition goRepeated_EntryFullSizeWithTag :: "msg_size \<Rightarrow> go_value_type \<Rightarrow> wire_number \<Rightarrow> gval \<Rightarrow> nat" where
  [simp]: "goRepeated_EntryFullSizeWithTag csize t tag v =
     sum_list (map (FullSizeWithTag_value csize t tag) (as_list v))"

definition goRepeatedPacked_EntryFullSizeWithTag ::
    "msg_size \<Rightarrow> go_value_type \<Rightarrow> wire_number \<Rightarrow> gval \<Rightarrow> nat" where
  [simp]: "goRepeatedPacked_EntryFullSizeWithTag csize t tag v =
     (let xs = as_list v in
      if length xs > 1 then
        let listBytesSize = sum_list (map (FullSizeWithoutTag_value csize t) xs)
        in SizeUint64 (of_nat listBytesSize) + SizeTag tag + listBytesSize
      else if length xs = 1 then FullSizeWithTag_value csize t tag (xs ! 0)
      else 0)"

definition goMap_EntryFullSizeWithTag ::
    "msg_size \<Rightarrow> go_value_type \<Rightarrow> go_value_type \<Rightarrow> wire_number \<Rightarrow> gval \<Rightarrow> nat" where
  [simp]: "goMap_EntryFullSizeWithTag csize kt vt tag v =
     sum_list (map (\<lambda>(k, v).
       let keySize = FullSizeWithTag_value csize kt mapEntryKeyTag k;
           valueSize = FullSizeWithTag_value csize vt mapEntryValueTag v;
           mapEntrySize = keySize + valueSize
       in mapEntrySize + SizeTag tag + SizeUint64 (of_nat mapEntrySize)) (as_map v))"

fun EntryFullSizeWithTag :: "msg_size \<Rightarrow> go_field_type \<Rightarrow> wire_number \<Rightarrow> gval \<Rightarrow> nat" where
  "EntryFullSizeWithTag csize (GoValue t) tag v = FullSizeWithTag_value csize t tag v"
| "EntryFullSizeWithTag csize (GoRepeated t r) tag v = goRepeated_EntryFullSizeWithTag csize t tag v"
| "EntryFullSizeWithTag csize (GoRepeatedPacked t r) tag v =
     goRepeatedPacked_EntryFullSizeWithTag csize t tag v"
| "EntryFullSizeWithTag csize (GoMap kt vt) tag v = goMap_EntryFullSizeWithTag csize kt vt tag v"


section \<open>Writers\<close>

text \<open>Likewise \<^verbatim>\<open>MarshalTo\<close> of the generated struct types.\<close>

type_synonym msg_write = "string \<Rightarrow> gval list option \<Rightarrow> writer \<Rightarrow> wres"

definition goBasic_EntryWriter :: "scalar \<Rightarrow> wire_number \<Rightarrow> writer \<Rightarrow> gval \<Rightarrow> wres" where
  [simp]: "goBasic_EntryWriter s tag p v = bufBasicTypesWriters s p tag v"

definition goEnum_EntryWriter :: "wire_number \<Rightarrow> writer \<Rightarrow> gval \<Rightarrow> wres" where
  [simp]: "goEnum_EntryWriter tag p v = AppendInt32 p tag (as_32 v)"

definition goStruct_EntryWriter ::
    "msg_size \<Rightarrow> msg_write \<Rightarrow> string \<Rightarrow> wire_number \<Rightarrow> writer \<Rightarrow> gval \<Rightarrow> wres" where
  [simp]: "goStruct_EntryWriter csize mw n tag p v =
     (let structSize = csize n (as_msg v) in
      Option.bind (AppendBytesTag p tag structSize) (mw n (as_msg v)))"

fun EntryWriter_value ::
    "msg_size \<Rightarrow> msg_write \<Rightarrow> go_value_type \<Rightarrow> wire_number \<Rightarrow> writer \<Rightarrow> gval \<Rightarrow> wres" where
  "EntryWriter_value csize mw (GoBasic s d r) tag p v = goBasic_EntryWriter s tag p v"
| "EntryWriter_value csize mw (GoEnum d r) tag p v = goEnum_EntryWriter tag p v"
| "EntryWriter_value csize mw (GoStruct n r) tag p v = goStruct_EntryWriter csize mw n tag p v"

text \<open>On a struct type the template method stops the generator, so no such code exists.\<close>

definition goBasic_PackedEntryWriter :: "scalar \<Rightarrow> writer \<Rightarrow> gval \<Rightarrow> wres" where
  [simp]: "goBasic_PackedEntryWriter s p v = bufWritersWithoutTag s p v"

definition goEnum_PackedEntryWriter :: "writer \<Rightarrow> gval \<Rightarrow> wres" where
  [simp]: "goEnum_PackedEntryWriter p v = AppendInt32WithoutTag p (as_32 v)"

fun PackedEntryWriter_value :: "go_value_type \<Rightarrow> writer \<Rightarrow> gval \<Rightarrow> wres" where
  "PackedEntryWriter_value (GoBasic s d r) p v = goBasic_PackedEntryWriter s p v"
| "PackedEntryWriter_value (GoEnum d r) p v = goEnum_PackedEntryWriter p v"
| "PackedEntryWriter_value (GoStruct n r) p v = None"

definition goRepeated_EntryWriter ::
    "msg_size \<Rightarrow> msg_write \<Rightarrow> go_value_type \<Rightarrow> wire_number \<Rightarrow> writer \<Rightarrow> gval \<Rightarrow> wres" where
  [simp]: "goRepeated_EntryWriter csize mw t tag p v =
     write_all (EntryWriter_value csize mw t tag) p (as_list v)"

definition goRepeatedPacked_EntryWriter ::
    "msg_size \<Rightarrow> msg_write \<Rightarrow> go_value_type \<Rightarrow> wire_number \<Rightarrow> writer \<Rightarrow> gval \<Rightarrow> wres" where
  [simp]: "goRepeatedPacked_EntryWriter csize mw t tag p v =
     (let xs = as_list v in
      if length xs > 1 then
        let listBytesSize = sum_list (map (FullSizeWithoutTag_value csize t) xs)
        in Option.bind (AppendBytesTag p tag listBytesSize)
             (\<lambda>p. write_all (PackedEntryWriter_value t) p xs)
      else if length xs = 1 then EntryWriter_value csize mw t tag p (xs ! 0)
      else Some p)"

definition goMap_EntryWriter ::
    "msg_size \<Rightarrow> msg_write \<Rightarrow> go_value_type \<Rightarrow> go_value_type \<Rightarrow> wire_number \<Rightarrow> writer \<Rightarrow> gval \<Rightarrow> wres" where
  [simp]: "goMap_EntryWriter csize mw kt vt tag p v =
     write_all (\<lambda>p (k, v).
       let keySize = FullSizeWithTag_value csize kt mapEntryKeyTag k;
           valueSize = FullSizeWithTag_value csize vt mapEntryValueTag v;
           mapEntrySize = keySize + valueSize
       in Option.bind (AppendBytesTag p tag mapEntrySize) (\<lambda>p.
          Option.bind (EntryWriter_value csize mw kt mapEntryKeyTag p k) (\<lambda>p.
          EntryWriter_value csize mw vt mapEntryValueTag p v))) p (as_map v)"

fun EntryWriter ::
    "msg_size \<Rightarrow> msg_write \<Rightarrow> go_field_type \<Rightarrow> wire_number \<Rightarrow> writer \<Rightarrow> gval \<Rightarrow> wres" where
  "EntryWriter csize mw (GoValue t) tag p v = EntryWriter_value csize mw t tag p v"
| "EntryWriter csize mw (GoRepeated t r) tag p v = goRepeated_EntryWriter csize mw t tag p v"
| "EntryWriter csize mw (GoRepeatedPacked t r) tag p v = goRepeatedPacked_EntryWriter csize mw t tag p v"
| "EntryWriter csize mw (GoMap kt vt) tag p v = goMap_EntryWriter csize mw kt vt tag p v"

end
