(* ===== verification/Message_Codec.thy ===== *)
theory Message_Codec
  imports Proto_Fields "HOL-Library.AList"
begin

text \<open>
  The methods the Go generator prints for a message type
  (\<^verbatim>\<open>gremlinc/internal/generators/golang/types/structs.go\<close> and \<^verbatim>\<open>fields.go\<close>), over the field
  templates of the theory \<open>Proto_Fields\<close>: \<^verbatim>\<open>XXX_PbContentSize\<close>, \<^verbatim>\<open>MarshalTo\<close> and \<^verbatim>\<open>Marshal\<close> of
  the struct, and \<^verbatim>\<open>Unmarshal\<close>, the getters and \<^verbatim>\<open>ToStruct\<close> of its reader. One definition stands
  for the method of every generated struct: the schema is an argument. The loops over the
  input take fuel.
\<close>

section \<open>Schemas\<close>

text \<open>
  A schema gives for every generated struct its fields in order, with the wire number and the
  Go field type. Struct types refer to each other by name and may be recursive.
\<close>

record go_field =
  field_tag :: wire_number
  field_type :: go_field_type

type_synonym schema = "(string \<times> go_field list) list"

definition struct_fields :: "schema \<Rightarrow> string \<Rightarrow> go_field list" where
  "struct_fields env n = (case map_of env n of None \<Rightarrow> [] | Some fs \<Rightarrow> fs)"

text \<open>The pointers to structs directly under a value: in itself, in its list or in its map.\<close>

definition sub_ptrs :: "gval \<Rightarrow> gval list option list" where
  "sub_ptrs v = as_msg v # map as_msg (as_list v) @
     concat (map (\<lambda>(k, v). [as_msg k, as_msg v]) (as_map v))"

fun ptr_size :: "gval list option \<Rightarrow> nat" where
  "ptr_size None = 0"
| "ptr_size (Some vs) = Suc (size_list size vs)"

lemma as_msg_size: "ptr_size (as_msg v) \<le> size v"
proof (cases v)
  case (VMsg m)
  then show ?thesis by (cases m) auto
qed auto

lemma sub_ptrs_size: "m \<in> set (sub_ptrs v) \<Longrightarrow> ptr_size m \<le> size v"
proof -
  assume "m \<in> set (sub_ptrs v)"
  then consider "m = as_msg v" | x where "m = as_msg x" "x \<in> set (as_list v)"
    | k x where "m = as_msg k \<or> m = as_msg x" "(k, x) \<in> set (as_map v)"
    by (auto simp: sub_ptrs_def)
  then show ?thesis
  proof cases
    case 1
    then show ?thesis by (simp add: as_msg_size)
  next
    case 2
    then obtain xs where v: "v = VList xs" "x \<in> set xs" by (cases v) auto
    have "size x \<le> size_list size xs" by (rule size_list_estimation' [OF v(2)]) simp
    with 2 v as_msg_size [of x] show ?thesis by simp
  next
    case 3
    then obtain kvs where v: "v = VMap kvs" "(k, x) \<in> set kvs" by (cases v) auto
    have "size_prod size size (k, x) \<le> size_list (size_prod size size) kvs"
      by (rule size_list_estimation' [OF v(2)]) simp
    with 3 v as_msg_size [of x] as_msg_size [of k] show ?thesis by auto
  qed
qed

lemma field_ptr_size:
  assumes "(f, v) \<in> set (zip fs vs)" and "m \<in> set (sub_ptrs v)"
  shows "ptr_size m < ptr_size (Some vs)"
proof -
  have "v \<in> set vs" using assms(1) by (rule set_zip_rightD)
  then have "size v \<le> size_list size vs" by (rule size_list_estimation') simp
  with sub_ptrs_size [OF assms(2)] show ?thesis by simp
qed

text \<open>The generated code of a field calls the methods of other structs only on these pointers.\<close>

lemma FullSizeWithTag_value_cong:
  assumes "\<And>n. csize n (as_msg v) = csize' n (as_msg v)"
  shows "FullSizeWithTag_value csize t tag v = FullSizeWithTag_value csize' t tag v"
  using assms by (cases t) simp_all

lemma FullSizeWithoutTag_value_cong:
  assumes "\<And>n. csize n (as_msg v) = csize' n (as_msg v)"
  shows "FullSizeWithoutTag_value csize t v = FullSizeWithoutTag_value csize' t v"
  using assms by (cases t) simp_all

lemma EntryWriter_value_cong:
  assumes "\<And>n. csize n (as_msg v) = csize' n (as_msg v)" and "\<And>n p. mw n (as_msg v) p = mw' n (as_msg v) p"
  shows "EntryWriter_value csize mw t tag p v = EntryWriter_value csize' mw' t tag p v"
  using assms by (cases t) (simp_all cong: Option.bind_cong)

lemma EntryFullSizeWithTag_cong [fundef_cong]:
  assumes "ft = ft'" and "tag = tag'" and "v = v'"
    and "\<And>n m. m \<in> set (sub_ptrs v') \<Longrightarrow> csize n m = csize' n m"
  shows "EntryFullSizeWithTag csize ft tag v = EntryFullSizeWithTag csize' ft' tag' v'"
proof -
  have "\<And>x n. x \<in> set (as_list v') \<Longrightarrow> csize n (as_msg x) = csize' n (as_msg x)"
    and "\<And>n. csize n (as_msg v') = csize' n (as_msg v')"
    and "\<And>k x n. (k, x) \<in> set (as_map v') \<Longrightarrow> csize n (as_msg k) = csize' n (as_msg k)"
    and "\<And>k x n. (k, x) \<in> set (as_map v') \<Longrightarrow> csize n (as_msg x) = csize' n (as_msg x)"
    by (force intro!: assms(4) simp: sub_ptrs_def)+
  note c = this
  have packed: "map (FullSizeWithoutTag_value csize t) (as_list v') =
      map (FullSizeWithoutTag_value csize' t) (as_list v')" for t
    by (intro map_cong FullSizeWithoutTag_value_cong c refl)
  have kv: "FullSizeWithTag_value csize t tag k = FullSizeWithTag_value csize' t tag k"
      "FullSizeWithTag_value csize t tag x = FullSizeWithTag_value csize' t tag x"
    if "(k, x) \<in> set (as_map v')" for t tag k x
    using c(3,4) [OF that] by (blast intro: FullSizeWithTag_value_cong)+
  show ?thesis
    unfolding assms(1-3)
    by (cases ft') (auto simp: Let_def c packed kv
        intro!: arg_cong [where f = sum_list] map_cong FullSizeWithTag_value_cong)
qed

lemma write_all_cong [fundef_cong]:
  assumes "p = q" and "xs = ys" and "\<And>p x. x \<in> set ys \<Longrightarrow> f p x = g p x"
  shows "write_all f p xs = write_all g q ys"
  using assms(3) unfolding assms(1,2)
  by (induction ys arbitrary: q) (auto cong: Option.bind_cong)

lemma EntryWriter_cong [fundef_cong]:
  assumes "csize = csize'" and "ft = ft'" and "tag = tag'" and "p = p'" and "v = v'"
    and "\<And>n m p. m \<in> set (sub_ptrs v') \<Longrightarrow> mw n m p = mw' n m p"
  shows "EntryWriter csize mw ft tag p v = EntryWriter csize' mw' ft' tag' p' v'"
proof -
  have "\<And>x n p. x \<in> set (as_list v') \<Longrightarrow> mw n (as_msg x) p = mw' n (as_msg x) p"
    and "\<And>n p. mw n (as_msg v') p = mw' n (as_msg v') p"
    and "\<And>k x n p. (k, x) \<in> set (as_map v') \<Longrightarrow> mw n (as_msg k) p = mw' n (as_msg k) p"
    and "\<And>k x n p. (k, x) \<in> set (as_map v') \<Longrightarrow> mw n (as_msg x) p = mw' n (as_msg x) p"
    by (force intro!: assms(6) simp: sub_ptrs_def)+
  note c = this
  show ?thesis
    unfolding assms(1-5)
    by (cases ft') (auto simp: Let_def c intro!: write_all_cong EntryWriter_value_cong Option.bind_cong)
qed


section \<open>The generated struct methods: sizes and writing\<close>

function XXX_PbContentSize :: "schema \<Rightarrow> string \<Rightarrow> gval list option \<Rightarrow> nat" where
  "XXX_PbContentSize env n None = 0"
| "XXX_PbContentSize env n (Some vs) =
     sum_list (map (\<lambda>(f, v).
       if EntryIsNotEmpty (field_type f) v
       then EntryFullSizeWithTag (XXX_PbContentSize env) (field_type f) (field_tag f) v
       else 0) (zip (struct_fields env n) vs))"
  by pat_completeness auto
termination
  by (relation "measure (\<lambda>(env, n, m). ptr_size m)") (auto dest: field_ptr_size simp del: ptr_size.simps)

function MarshalTo :: "schema \<Rightarrow> string \<Rightarrow> gval list option \<Rightarrow> writer \<Rightarrow> wres" where
  "MarshalTo env n None res = Some res"
| "MarshalTo env n (Some vs) res =
     write_all (\<lambda>res (f, v).
       if EntryIsNotEmpty (field_type f) v
       then EntryWriter (XXX_PbContentSize env) (MarshalTo env) (field_type f) (field_tag f) res v
       else Some res) res (zip (struct_fields env n) vs)"
  by pat_completeness auto
termination
  by (relation "measure (\<lambda>(env, n, m, res). ptr_size m)") (auto dest: field_ptr_size simp del: ptr_size.simps)

text \<open>The result is the byte slice, or \<open>None\<close> where a write panics.\<close>

definition Marshal :: "schema \<Rightarrow> string \<Rightarrow> gval list option \<Rightarrow> bytes option" where
  "Marshal env n s =
     (if s = None then Some []
      else let size = XXX_PbContentSize env n s in
        if size = 0 then Some []
        else Option.bind (NewWriter (int size)) (\<lambda>res.
          map_option Bytes (MarshalTo env n s res)))"

declare XXX_PbContentSize.simps [simp del] MarshalTo.simps [simp del]


section \<open>The generated readers\<close>

text \<open>
  The offset fields of a reader: \<^verbatim>\<open>int\<close> for a single value (0 while unset), \<^verbatim>\<open>[]int\<close> for lists
  and maps, and for packable lists the parallel slices of offsets and wire types, which are
  only ever appended to together.
\<close>

datatype foffset =
    Offset int
  | Offsets "int list"
  | OffsetsTyped "(int \<times> wire_type) list"

text \<open>
  A reader object: the struct it reads, its buffer (nil before \<^verbatim>\<open>Unmarshal\<close>), one offset field
  per message field, and the pair \<^verbatim>\<open>data\<close>/\<^verbatim>\<open>parsed\<close> of each field as an option. What a getter
  returns is a value, a pointer to a reader, a slice or a map of these.
\<close>

datatype msg_reader =
    MsgReader (rstruct: string) (rbuffer: "reader option") (roffsets: "foffset list")
      (rparsed: "rval option list")
and rval =
    RVal gval
  | RMsg "msg_reader option"
  | RList "rval list"
  | RMap "(rval \<times> rval) list"

fun OffsetsType :: "go_field_type \<Rightarrow> foffset" where
  "OffsetsType (GoValue t) = Offset 0"
| "OffsetsType (GoRepeated t r) = Offsets []"
| "OffsetsType (GoRepeatedPacked t r) = OffsetsTyped []"
| "OffsetsType (GoMap k t) = Offsets []"

definition NewMsgReader :: "schema \<Rightarrow> string \<Rightarrow> msg_reader" where
  "NewMsgReader env n =
     MsgReader n None (map (\<lambda>f. OffsetsType (field_type f)) (struct_fields env n))
       (map (\<lambda>f. None) (struct_fields env n))"

fun EntryUnmarshalSaveOffsets :: "foffset \<Rightarrow> int \<Rightarrow> wire_type \<Rightarrow> foffset" where
  "EntryUnmarshalSaveOffsets (Offset o') offset wire = Offset offset"
| "EntryUnmarshalSaveOffsets (Offsets os) offset wire = Offsets (os @ [offset])"
| "EntryUnmarshalSaveOffsets (OffsetsTyped os) offset wire = OffsetsTyped (os @ [(offset, wire)])"

text \<open>The switch over the tag: the case of the field with that number, if there is one.\<close>

fun save_offset ::
    "go_field list \<Rightarrow> wire_number \<Rightarrow> int \<Rightarrow> wire_type \<Rightarrow> foffset list \<Rightarrow> foffset list" where
  "save_offset (f # fs) tag offset wire (os # oss) =
     (if tag = field_tag f then EntryUnmarshalSaveOffsets os offset wire # oss
      else os # save_offset fs tag offset wire oss)"
| "save_offset fs tag offset wire oss = oss"

text \<open>
  The loop of \<^verbatim>\<open>Unmarshal\<close>. An error ends it and is returned beside the state reached; the
  offsets saved before stay.
\<close>

fun Unmarshal_loop ::
    "nat \<Rightarrow> go_field list \<Rightarrow> reader \<Rightarrow> int \<Rightarrow> foffset list
      \<Rightarrow> (wire_err, foffset list \<times> wire_err option) gres" where
  "Unmarshal_loop 0 fs p offset oss = OutOfFuel"
| "Unmarshal_loop (Suc fuel) fs p offset oss =
     (if \<not> HasNext p offset 0 then Ok (oss, None)
      else (case ReadTagAt p offset of
          Err e \<Rightarrow> Ok (oss, Some e)
        | Panic \<Rightarrow> Panic
        | OutOfFuel \<Rightarrow> OutOfFuel
        | Ok (tag, wire, tagSize) \<Rightarrow>
            (let offset = go_int (offset + tagSize);
                 oss = save_offset fs tag offset wire oss
             in (case SkipData (Suc fuel) p offset wire of
                  Err e \<Rightarrow> Ok (oss, Some e)
                | Panic \<Rightarrow> Panic
                | OutOfFuel \<Rightarrow> OutOfFuel
                | Ok offset \<Rightarrow> Unmarshal_loop fuel fs p offset oss))))"

definition Unmarshal ::
    "nat \<Rightarrow> schema \<Rightarrow> msg_reader \<Rightarrow> slice \<Rightarrow> (wire_err, msg_reader \<times> wire_err option) gres" where
  "Unmarshal fuel env m data =
     (let p = NewReader data in
      gmap (\<lambda>(oss, err). (MsgReader (rstruct m) (Some p) oss (rparsed m), err))
        (Unmarshal_loop fuel (struct_fields env (rstruct m)) p 0 (roffsets m)))"

definition SourceBytes :: "msg_reader option \<Rightarrow> slice" where
  "SourceBytes s = (case s of None \<Rightarrow> slice_of [] | Some m \<Rightarrow> Reader_Bytes (rbuffer m))"

text \<open>A method call on the buffer, which panics on a nil buffer.\<close>

definition on_buf :: "reader option \<Rightarrow> (reader \<Rightarrow> ('e, 'a) gres) \<Rightarrow> ('e, 'a) gres" where
  "on_buf b f = (case b of None \<Rightarrow> Panic | Some p \<Rightarrow> f p)"

text \<open>The code of the struct template for the bytes of a nested message: an error of the nested
  \<^verbatim>\<open>Unmarshal\<close> is dropped, and no bytes give a nil reader.\<close>

definition read_struct :: "nat \<Rightarrow> schema \<Rightarrow> string \<Rightarrow> slice \<Rightarrow> (wire_err, rval) gres" where
  "read_struct fuel env n data =
     (if slice_len data > 0
      then gmap (\<lambda>(m, err). RMsg (Some m)) (Unmarshal fuel env (NewMsgReader env n) data)
      else Ok (RMsg None))"

definition goBasic_EntryReader ::
    "reader option \<Rightarrow> scalar \<Rightarrow> gval option \<Rightarrow> int \<Rightarrow> (wire_err, rval) gres" where
  [simp]: "goBasic_EntryReader b s d wOffset =
     (if wOffset > 0 then on_buf b (\<lambda>p. gmap RVal (bufBasicTypesReaders s p wOffset))
      else Ok (RVal (case d of None \<Rightarrow> zero_value s | Some d \<Rightarrow> d)))"

definition goEnum_EntryReader ::
    "reader option \<Rightarrow> u32 option \<Rightarrow> int \<Rightarrow> (wire_err, rval) gres" where
  [simp]: "goEnum_EntryReader b d wOffset =
     (if wOffset > 0 then on_buf b (\<lambda>p. gmap (\<lambda>rawEntry. RVal (V32 rawEntry)) (ReadInt32 p wOffset))
      else Ok (RVal (V32 (case d of None \<Rightarrow> 0 | Some d \<Rightarrow> d))))"

definition goStruct_EntryReader ::
    "nat \<Rightarrow> schema \<Rightarrow> reader option \<Rightarrow> string \<Rightarrow> int \<Rightarrow> (wire_err, rval) gres" where
  [simp]: "goStruct_EntryReader fuel env b n wOffset =
     (if wOffset > 0 then on_buf b (\<lambda>p. gbind (ReadBytes p wOffset) (read_struct fuel env n))
      else Ok (RMsg None))"

fun EntryReader_value ::
    "nat \<Rightarrow> schema \<Rightarrow> reader option \<Rightarrow> go_value_type \<Rightarrow> int \<Rightarrow> (wire_err, rval) gres" where
  "EntryReader_value fuel env b (GoBasic s d r) wOffset = goBasic_EntryReader b s d wOffset"
| "EntryReader_value fuel env b (GoEnum d r) wOffset = goEnum_EntryReader b d wOffset"
| "EntryReader_value fuel env b (GoStruct n r) wOffset = goStruct_EntryReader fuel env b n wOffset"

definition goBasic_EntrySizedReader ::
    "reader option \<Rightarrow> scalar \<Rightarrow> gval option \<Rightarrow> int \<Rightarrow> (wire_err, rval \<times> int) gres" where
  [simp]: "goBasic_EntrySizedReader b s d wOffset =
     (if wOffset > 0 then on_buf b (\<lambda>p. gmap (map_prod RVal id) (bufSizedReaders s p wOffset))
      else Ok (RVal (case d of None \<Rightarrow> zero_value s | Some d \<Rightarrow> d), 0))"

definition goEnum_EntrySizedReader ::
    "reader option \<Rightarrow> u32 option \<Rightarrow> int \<Rightarrow> (wire_err, rval \<times> int) gres" where
  [simp]: "goEnum_EntrySizedReader b d wOffset =
     (if wOffset > 0
      then on_buf b (\<lambda>p. gmap (\<lambda>(rawEntry, sz). (RVal (V32 rawEntry), sz)) (SizedReadInt32 p wOffset))
      else Ok (RVal (V32 (case d of None \<Rightarrow> 0 | Some d \<Rightarrow> d)), 0))"

definition goStruct_EntrySizedReader ::
    "nat \<Rightarrow> schema \<Rightarrow> reader option \<Rightarrow> string \<Rightarrow> int \<Rightarrow> (wire_err, rval \<times> int) gres" where
  [simp]: "goStruct_EntrySizedReader fuel env b n wOffset =
     (if wOffset > 0
      then on_buf b (\<lambda>p. gbind (SizedReadBytes p wOffset) (\<lambda>(data, sz).
        gmap (\<lambda>v. (v, sz)) (read_struct fuel env n data)))
      else Ok (RMsg None, 0))"

fun EntrySizedReader_value ::
    "nat \<Rightarrow> schema \<Rightarrow> reader option \<Rightarrow> go_value_type \<Rightarrow> int \<Rightarrow> (wire_err, rval \<times> int) gres" where
  "EntrySizedReader_value fuel env b (GoBasic s d r) wOffset = goBasic_EntrySizedReader b s d wOffset"
| "EntrySizedReader_value fuel env b (GoEnum d r) wOffset = goEnum_EntrySizedReader b d wOffset"
| "EntrySizedReader_value fuel env b (GoStruct n r) wOffset = goStruct_EntrySizedReader fuel env b n wOffset"

text \<open>The zero value of a Go variable of a value type.\<close>

fun zero_rval :: "go_value_type \<Rightarrow> rval" where
  "zero_rval (GoBasic s d r) = RVal (zero_value s)"
| "zero_rval (GoEnum d r) = RVal (V32 0)"
| "zero_rval (GoStruct n r) = RMsg None"

fun packed_loop ::
    "nat \<Rightarrow> schema \<Rightarrow> reader option \<Rightarrow> go_value_type \<Rightarrow> int \<Rightarrow> int \<Rightarrow> int \<Rightarrow> (wire_err, rval list) gres" where
  "packed_loop 0 env b t start sz offset = OutOfFuel"
| "packed_loop (Suc fuel) env b t start sz offset =
     (if offset < sz then
        gbind (EntrySizedReader_value fuel env b t (go_int (start + offset))) (\<lambda>(listEntry, listEntrySize).
          gmap (\<lambda>es. listEntry # es)
            (packed_loop fuel env b t start sz (go_int (offset + listEntrySize))))
      else Ok [])"

definition packed_entries ::
    "nat \<Rightarrow> schema \<Rightarrow> reader option \<Rightarrow> go_value_type \<Rightarrow> int \<times> wire_type \<Rightarrow> (wire_err, rval list) gres" where
  "packed_entries fuel env b t =
     (\<lambda>(wOffset, wType).
       if wType = BytesType then
         gbind (on_buf b (\<lambda>p. SizedReadVarInt p wOffset)) (\<lambda>(sz, sizeSize).
           packed_loop fuel env b t (go_int (wOffset + sizeSize)) (int_of_u64 sz) 0)
       else gmap (\<lambda>e. [e]) (EntryReader_value fuel env b t wOffset))"

text \<open>
  The entries of a map field. The errors of \<^verbatim>\<open>ReadTagAt\<close> and \<^verbatim>\<open>SkipData\<close> are dropped: the first
  leaves tag, wire type and size 0, the second sets the offset to 0.
\<close>

fun map_loop ::
    "nat \<Rightarrow> schema \<Rightarrow> reader option \<Rightarrow> go_value_type \<Rightarrow> go_value_type \<Rightarrow> int \<Rightarrow> int \<Rightarrow> rval \<Rightarrow> rval
      \<Rightarrow> (wire_err, rval \<times> rval) gres" where
  "map_loop 0 env b kt vt wOffset endOffset keyData valueData = OutOfFuel"
| "map_loop (Suc fuel) env b kt vt wOffset endOffset keyData valueData =
     (if wOffset < endOffset then
        gbind (on_buf b (\<lambda>p. case ReadTagAt p wOffset of Err e \<Rightarrow> Ok (0, 0, 0) | r \<Rightarrow> r))
          (\<lambda>(tag, wireType, tagSize).
          let wOffset = go_int (wOffset + tagSize) in
          if tag = mapEntryKeyTag then
            gbind (EntrySizedReader_value fuel env b kt wOffset) (\<lambda>(keyEntry, keyEntrySize).
              map_loop fuel env b kt vt (go_int (wOffset + keyEntrySize)) endOffset keyEntry valueData)
          else if tag = mapEntryValueTag then
            gbind (EntrySizedReader_value fuel env b vt wOffset) (\<lambda>(valueEntry, valueEntrySize).
              map_loop fuel env b kt vt (go_int (wOffset + valueEntrySize)) endOffset keyData valueEntry)
          else
            gbind (on_buf b (\<lambda>p. case SkipData (Suc fuel) p wOffset wireType of Err e \<Rightarrow> Ok 0 | r \<Rightarrow> r))
              (\<lambda>wOffset. map_loop fuel env b kt vt wOffset endOffset keyData valueData))
      else Ok (keyData, valueData))"

definition map_entry ::
    "nat \<Rightarrow> schema \<Rightarrow> reader option \<Rightarrow> go_value_type \<Rightarrow> go_value_type \<Rightarrow> int \<Rightarrow> (wire_err, rval \<times> rval) gres" where
  "map_entry fuel env b kt vt wOffset =
     gbind (on_buf b (\<lambda>p. SizedReadVarInt p wOffset)) (\<lambda>(entrySize, entrySizeSize).
       let endOffset = go_int (wOffset + entrySizeSize + int_of_u64 entrySize);
           wOffset = go_int (wOffset + entrySizeSize)
       in map_loop fuel env b kt vt wOffset endOffset (zero_rval kt) (zero_rval vt))"

definition goRepeated_EntryReader ::
    "nat \<Rightarrow> schema \<Rightarrow> reader option \<Rightarrow> go_value_type \<Rightarrow> int list \<Rightarrow> (wire_err, rval) gres" where
  [simp]: "goRepeated_EntryReader fuel env b t wOffset =
     gmap RList (gmapM (EntryReader_value fuel env b t) wOffset)"

definition goRepeatedPacked_EntryReader ::
    "nat \<Rightarrow> schema \<Rightarrow> reader option \<Rightarrow> go_value_type \<Rightarrow> (int \<times> wire_type) list \<Rightarrow> (wire_err, rval) gres" where
  [simp]: "goRepeatedPacked_EntryReader fuel env b t wOffset =
     gmap (\<lambda>ess. RList (concat ess)) (gmapM (packed_entries fuel env b t) wOffset)"

definition goMap_EntryReader ::
    "nat \<Rightarrow> schema \<Rightarrow> reader option \<Rightarrow> go_value_type \<Rightarrow> go_value_type \<Rightarrow> int list \<Rightarrow> (wire_err, rval) gres" where
  [simp]: "goMap_EntryReader fuel env b kt vt wOffset =
     gmap (\<lambda>es. RMap (fold (\<lambda>(k, v) m. AList.update k v m) es []))
       (gmapM (map_entry fuel env b kt vt) wOffset)"

fun EntryReader ::
    "nat \<Rightarrow> schema \<Rightarrow> reader option \<Rightarrow> go_field_type \<Rightarrow> foffset \<Rightarrow> (wire_err, rval) gres" where
  "EntryReader fuel env b (GoValue t) (Offset wOffset) = EntryReader_value fuel env b t wOffset"
| "EntryReader fuel env b (GoRepeated t r) (Offsets os) = goRepeated_EntryReader fuel env b t os"
| "EntryReader fuel env b (GoRepeatedPacked t r) (OffsetsTyped os) =
     goRepeatedPacked_EntryReader fuel env b t os"
| "EntryReader fuel env b (GoMap kt vt) (Offsets os) = goMap_EntryReader fuel env b kt vt os"
| "EntryReader fuel env b _ _ = Panic"

text \<open>The getter of the field at position \<open>i\<close>, with the cached value of an earlier call.\<close>

definition read_field :: "nat \<Rightarrow> schema \<Rightarrow> msg_reader \<Rightarrow> nat \<Rightarrow> (wire_err, rval \<times> msg_reader) gres" where
  "read_field fuel env m i =
     (case rparsed m ! i of
        Some v \<Rightarrow> Ok (v, m)
      | None \<Rightarrow>
          gmap (\<lambda>entry. (entry, MsgReader (rstruct m) (rbuffer m) (roffsets m) ((rparsed m)[i := Some entry])))
            (EntryReader fuel env (rbuffer m) (field_type (struct_fields env (rstruct m) ! i))
              (roffsets m ! i)))"

text \<open>
  \<^verbatim>\<open>ToStruct\<close> of a non-nil reader calls every getter in turn. A nested reader is turned into a
  struct by its own \<^verbatim>\<open>ToStruct\<close>; the values its getters cache there are not read again.
\<close>

fun ToStruct_fields ::
    "(msg_reader \<Rightarrow> nat \<Rightarrow> (wire_err, rval \<times> msg_reader) gres) \<Rightarrow> (rval \<Rightarrow> (wire_err, gval) gres)
      \<Rightarrow> msg_reader \<Rightarrow> nat list \<Rightarrow> (wire_err, gval list \<times> msg_reader) gres" where
  "ToStruct_fields get conv m [] = Ok ([], m)"
| "ToStruct_fields get conv m (i # is) =
     gbind (get m i) (\<lambda>(data, m). gbind (conv data) (\<lambda>v.
       gmap (\<lambda>(vs, m). (v # vs, m)) (ToStruct_fields get conv m is)))"

text \<open>The conversions of the templates, for a value and for a field.\<close>

fun ToStruct_value :: "(msg_reader \<Rightarrow> (wire_err, gval list) gres) \<Rightarrow> rval \<Rightarrow> (wire_err, gval) gres" where
  "ToStruct_value ts (RVal v) = Ok v"
| "ToStruct_value ts (RMsg None) = Ok (VMsg None)"
| "ToStruct_value ts (RMsg (Some m)) = gmap (\<lambda>vs. VMsg (Some vs)) (ts m)"
| "ToStruct_value ts (RList xs) = Panic"
| "ToStruct_value ts (RMap xs) = Panic"

fun ToStruct_field :: "(msg_reader \<Rightarrow> (wire_err, gval list) gres) \<Rightarrow> rval \<Rightarrow> (wire_err, gval) gres" where
  "ToStruct_field ts (RList xs) = gmap VList (gmapM (ToStruct_value ts) xs)"
| "ToStruct_field ts (RMap kvs) =
     gmap VMap (gmapM (\<lambda>(k, v). gbind (ToStruct_value ts k) (\<lambda>k. gmap (\<lambda>v. (k, v)) (ToStruct_value ts v))) kvs)"
| "ToStruct_field ts r = ToStruct_value ts r"

fun ToStruct :: "nat \<Rightarrow> schema \<Rightarrow> msg_reader \<Rightarrow> (wire_err, gval list \<times> msg_reader) gres" where
  "ToStruct 0 env m = OutOfFuel"
| "ToStruct (Suc fuel) env m =
     ToStruct_fields (read_field fuel env) (ToStruct_field (\<lambda>m. gmap fst (ToStruct fuel env m))) m
       [0..<length (struct_fields env (rstruct m))]"

end
