(* ===== verification/Message_Write.thy ===== *)
theory Message_Write
  imports Message_Codec
begin

text \<open>
  The encoding of a message as a list of entries, independent of the generated code, and the
  proof that the generated \<^verbatim>\<open>XXX_PbContentSize\<close> and \<^verbatim>\<open>MarshalTo\<close> agree with it: the announced
  size is the length of the encoding, and the encoding is what is written.
\<close>

section \<open>The encoding of a message\<close>

fun basic_enc :: "scalar \<Rightarrow> gval \<Rightarrow> bytes" where
  "basic_enc PString v = len_bytes (as_bytes v)"
| "basic_enc PBytes v = len_bytes (as_bytes v)"
| "basic_enc PBool v = VarIntToBytes (if as_bool v then 1 else 0)"
| "basic_enc PDouble v = fixed64_bytes (as_64 v)"
| "basic_enc PFloat v = fixed32_bytes (as_32 v)"
| "basic_enc PInt32 v = VarIntToBytes (scast (as_32 v))"
| "basic_enc PInt64 v = VarIntToBytes (as_64 v)"
| "basic_enc PUint32 v = VarIntToBytes (ucast (as_32 v))"
| "basic_enc PUint64 v = VarIntToBytes (as_64 v)"
| "basic_enc PSint32 v = VarIntToBytes (zigzag (scast (as_32 v)))"
| "basic_enc PSint64 v = VarIntToBytes (zigzag (as_64 v))"
| "basic_enc PFixed32 v = fixed32_bytes (as_32 v)"
| "basic_enc PFixed64 v = fixed64_bytes (as_64 v)"
| "basic_enc PSfixed32 v = fixed32_bytes (as_32 v)"
| "basic_enc PSfixed64 v = fixed64_bytes (as_64 v)"

fun basic_wt :: "scalar \<Rightarrow> wire_type" where
  "basic_wt PString = BytesType"
| "basic_wt PBytes = BytesType"
| "basic_wt PDouble = Fixed64Type"
| "basic_wt PFloat = Fixed32Type"
| "basic_wt PFixed32 = Fixed32Type"
| "basic_wt PFixed64 = Fixed64Type"
| "basic_wt PSfixed32 = Fixed32Type"
| "basic_wt PSfixed64 = Fixed64Type"
| "basic_wt _ = VarIntType"

text \<open>One entry of a message: the field number, the wire type and the bytes after the tag.\<close>

type_synonym entry = "wire_number \<times> wire_type \<times> bytes"

definition entry_bytes :: "entry \<Rightarrow> bytes" where
  "entry_bytes = (\<lambda>(tag, wt, payload). tag_bytes tag wt @ payload)"

lemma entry_bytes_tuple: "entry_bytes (tag, wt, payload) = tag_bytes tag wt @ payload"
  by (simp add: entry_bytes_def)

type_synonym msg_enc = "string \<Rightarrow> gval list option \<Rightarrow> bytes"

fun val_wt :: "go_value_type \<Rightarrow> wire_type" where
  "val_wt (GoBasic s d r) = basic_wt s"
| "val_wt (GoEnum d r) = VarIntType"
| "val_wt (GoStruct n r) = BytesType"

fun val_enc :: "msg_enc \<Rightarrow> go_value_type \<Rightarrow> gval \<Rightarrow> bytes" where
  "val_enc me (GoBasic s d r) v = basic_enc s v"
| "val_enc me (GoEnum d r) v = VarIntToBytes (scast (as_32 v))"
| "val_enc me (GoStruct n r) v = len_bytes (me n (as_msg v))"

definition val_entry :: "msg_enc \<Rightarrow> go_value_type \<Rightarrow> wire_number \<Rightarrow> gval \<Rightarrow> entry" where
  "val_entry me t tag v = (tag, val_wt t, val_enc me t v)"

definition kv_bytes :: "msg_enc \<Rightarrow> go_value_type \<Rightarrow> go_value_type \<Rightarrow> gval \<times> gval \<Rightarrow> bytes" where
  "kv_bytes me kt vt = (\<lambda>(k, v). entry_bytes (val_entry me kt mapEntryKeyTag k) @
     entry_bytes (val_entry me vt mapEntryValueTag v))"

fun field_entries :: "msg_enc \<Rightarrow> go_field_type \<Rightarrow> wire_number \<Rightarrow> gval \<Rightarrow> entry list" where
  "field_entries me (GoValue t) tag v = [val_entry me t tag v]"
| "field_entries me (GoRepeated t r) tag v = map (val_entry me t tag) (as_list v)"
| "field_entries me (GoRepeatedPacked t r) tag v =
     (if length (as_list v) > 1
      then [(tag, BytesType, len_bytes (concat (map (val_enc me t) (as_list v))))]
      else map (val_entry me t tag) (as_list v))"
| "field_entries me (GoMap kt vt) tag v =
     map (\<lambda>kv. (tag, BytesType, len_bytes (kv_bytes me kt vt kv))) (as_map v)"

lemma val_enc_cong:
  assumes "\<And>n. me n (as_msg v) = me' n (as_msg v)"
  shows "val_enc me t v = val_enc me' t v"
  using assms by (cases t) simp_all

lemma sub_ptrs_simps:
  "as_msg v \<in> set (sub_ptrs v)"
  "x \<in> set (as_list v) \<Longrightarrow> as_msg x \<in> set (sub_ptrs v)"
  "(k, x) \<in> set (as_map v) \<Longrightarrow> as_msg k \<in> set (sub_ptrs v)"
  "(k, x) \<in> set (as_map v) \<Longrightarrow> as_msg x \<in> set (sub_ptrs v)"
  by (force simp: sub_ptrs_def)+

lemma field_entries_cong [fundef_cong]:
  assumes "ft = ft'" and "tag = tag'" and "v = v'"
    and "\<And>n m. m \<in> set (sub_ptrs v') \<Longrightarrow> me n m = me' n m"
  shows "field_entries me ft tag v = field_entries me' ft' tag' v'"
proof -
  note c = assms(4) [OF sub_ptrs_simps(1)] assms(4) [OF sub_ptrs_simps(2)]
    assms(4) [OF sub_ptrs_simps(3)] assms(4) [OF sub_ptrs_simps(4)]
  have "x \<in> set (as_list v') \<Longrightarrow> val_enc me t x = val_enc me' t x" for x t
    by (intro val_enc_cong c)
  moreover have "(k, x) \<in> set (as_map v') \<Longrightarrow> val_enc me t k = val_enc me' t k"
    "(k, x) \<in> set (as_map v') \<Longrightarrow> val_enc me t x = val_enc me' t x" for k x t
    using c(3,4) by (auto intro!: val_enc_cong)
  moreover have "val_enc me t v' = val_enc me' t v'" for t
    by (intro val_enc_cong c)
  ultimately show ?thesis
    unfolding assms(1-3)
    by (cases ft') (auto simp: val_entry_def kv_bytes_def cong: map_cong)
qed

function msg_enc :: "schema \<Rightarrow> string \<Rightarrow> gval list option \<Rightarrow> bytes" where
  "msg_enc env n None = []"
| "msg_enc env n (Some vs) =
     concat (map entry_bytes (concat (map (\<lambda>(f, v).
       if EntryIsNotEmpty (field_type f) v
       then field_entries (msg_enc env) (field_type f) (field_tag f) v else [])
       (zip (struct_fields env n) vs))))"
  by pat_completeness auto
termination
  by (relation "measure (\<lambda>(env, n, m). ptr_size m)") (auto dest: field_ptr_size simp del: ptr_size.simps)

declare msg_enc.simps [simp del]

definition field_out :: "schema \<Rightarrow> go_field \<Rightarrow> gval \<Rightarrow> entry list" where
  "field_out env f v =
     (if EntryIsNotEmpty (field_type f) v
      then field_entries (msg_enc env) (field_type f) (field_tag f) v else [])"

definition msg_entries :: "schema \<Rightarrow> string \<Rightarrow> gval list option \<Rightarrow> entry list" where
  "msg_entries env n m =
     (case m of None \<Rightarrow> []
      | Some vs \<Rightarrow> concat (map (\<lambda>(f, v). field_out env f v) (zip (struct_fields env n) vs)))"

lemma msg_enc_entries: "msg_enc env n m = concat (map entry_bytes (msg_entries env n m))"
  by (cases m) (simp_all add: msg_enc.simps msg_entries_def field_out_def [abs_def])


section \<open>Sizes are exact\<close>

lemma sizers_length:
  "s \<noteq> PString \<Longrightarrow> s \<noteq> PBytes \<Longrightarrow> bufBasicTypesSizers s v = length (basic_enc s v)"
  by (cases s) (simp_all add: f_bool.size_enc f_int32.size_enc f_int64.size_enc f_uint32.size_enc
      f_uint64.size_enc f_sint32.size_enc f_sint64.size_enc f_fixed32.size_enc f_fixed64.size_enc
      f_sfixed32.size_enc f_sfixed64.size_enc f_float32.size_enc f_float64.size_enc)

lemma FullSizeWithoutTag_length:
  "FullSizeWithoutTag_value (\<lambda>n m. length (me n m)) t v = length (val_enc me t v)"
  by (cases t) (auto simp: sizers_length Let_def len_bytes_def SizeUint64_def SizeVarInt_length
      f_int32.size_enc SizeString_def SizeBytes_def)

lemma FullSizeWithoutTag_length_fun:
  "FullSizeWithoutTag_value (\<lambda>n m. length (me n m)) t = (\<lambda>v. length (val_enc me t v))"
  by (rule ext) (rule FullSizeWithoutTag_length)

lemma FullSizeWithTag_value_eq:
  "FullSizeWithTag_value csize t tag v = SizeTag tag + FullSizeWithoutTag_value csize t v"
  by (cases t) (simp_all add: Let_def)

lemma FullSizeWithTag_length:
  "FullSizeWithTag_value (\<lambda>n m. length (me n m)) t tag v = length (entry_bytes (val_entry me t tag v))"
  using SizeTag_length [of tag "val_wt t"]
  by (simp add: FullSizeWithTag_value_eq FullSizeWithoutTag_length entry_bytes_def val_entry_def)

lemma FullSizeWithTag_length_fun:
  "FullSizeWithTag_value (\<lambda>n m. length (me n m)) t tag = (\<lambda>v. length (entry_bytes (val_entry me t tag v)))"
  by (rule ext) (rule FullSizeWithTag_length)

lemma length_entries: "length (concat (map f xs)) = sum_list (map (\<lambda>x. length (f x)) xs)"
  by (induction xs) simp_all

lemma length_concat_entries:
  "length (concat (map e (concat (map g zs)))) = sum_list (map (\<lambda>z. length (concat (map e (g z)))) zs)"
  by (induction zs) simp_all

lemma EntryFullSize_length:
  "EntryFullSizeWithTag (\<lambda>n m. length (me n m)) ft tag v =
     length (concat (map entry_bytes (field_entries me ft tag v)))"
proof (cases ft)
  case (GoRepeated t r)
  then show ?thesis by (simp add: FullSizeWithTag_length_fun length_entries o_def)
next
  case (GoRepeatedPacked t r)
  obtain xs where xs: "xs = as_list v" by simp
  show ?thesis
  proof (cases "length xs > 1")
    case True
    then show ?thesis
      using xs GoRepeatedPacked SizeTag_length [of tag BytesType]
      by (simp add: Let_def entry_bytes_def len_bytes_def length_entries FullSizeWithoutTag_length_fun
          SizeUint64_def SizeVarInt_length)
  next
    case False
    then have "xs = [] \<or> (\<exists>x. xs = [x])" by (cases xs) auto
    then show ?thesis using xs [symmetric] GoRepeatedPacked by (auto simp: FullSizeWithTag_length)
  qed
qed (simp_all add: FullSizeWithTag_length length_entries o_def entry_bytes_def len_bytes_def
    SizeTag_length [of tag BytesType] SizeUint64_def SizeVarInt_length kv_bytes_def case_prod_unfold Let_def
    add_ac)

lemma XXX_PbContentSize_length: "XXX_PbContentSize env n m = length (msg_enc env n m)"
proof (induction env n m rule: XXX_PbContentSize.induct)
  case (2 env n vs)
  have "(if EntryIsNotEmpty (field_type f) v
        then EntryFullSizeWithTag (XXX_PbContentSize env) (field_type f) (field_tag f) v else 0) =
      length (concat (map entry_bytes (field_out env f v)))"
    if fv: "(f, v) \<in> set (zip (struct_fields env n) vs)" for f v
  proof (cases "EntryIsNotEmpty (field_type f) v")
    case True
    have "EntryFullSizeWithTag (XXX_PbContentSize env) (field_type f) (field_tag f) v =
        EntryFullSizeWithTag (\<lambda>n m. length (msg_enc env n m)) (field_type f) (field_tag f) v"
      by (intro EntryFullSizeWithTag_cong refl 2 [OF fv refl True])
    with True show ?thesis by (simp add: field_out_def EntryFullSize_length)
  qed (simp add: field_out_def)
  then have "XXX_PbContentSize env n (Some vs) =
      sum_list (map (\<lambda>(f, v). length (concat (map entry_bytes (field_out env f v))))
        (zip (struct_fields env n) vs))"
    unfolding XXX_PbContentSize.simps
    by (intro arg_cong [where f = sum_list] map_cong) auto
  also have "\<dots> = length (msg_enc env n (Some vs))"
    unfolding msg_enc_entries msg_entries_def
    by (simp add: length_concat_entries case_prod_unfold)
  finally show ?case .
qed (simp add: XXX_PbContentSize.simps msg_enc.simps)


section \<open>Writing\<close>

text \<open>The schemas the generator produces: only packable types have packed lists, and the numbers
  of the fields of a struct are distinct and in range (the Go compiler rejects a duplicate case).
  Map keys are the comparable basic types of protobuf.\<close>

fun basic_shape :: "scalar \<Rightarrow> gval \<Rightarrow> bool" where
  "basic_shape PString v = (case v of VBytes b \<Rightarrow> True | _ \<Rightarrow> False)"
| "basic_shape PBytes v = (case v of VBytes b \<Rightarrow> True | _ \<Rightarrow> False)"
| "basic_shape PBool v = (case v of VBool b \<Rightarrow> True | _ \<Rightarrow> False)"
| "basic_shape s v = (if zero_value s = V64 0 then (case v of V64 b \<Rightarrow> True | _ \<Rightarrow> False)
     else (case v of V32 b \<Rightarrow> True | _ \<Rightarrow> False))"

fun packable :: "go_value_type \<Rightarrow> bool" where
  "packable (GoBasic s d r) = canBePacked s"
| "packable (GoEnum d r) = True"
| "packable (GoStruct n r) = False"

fun map_key_ok :: "go_value_type \<Rightarrow> bool" where
  "map_key_ok (GoBasic s d r) = (s \<notin> {PBytes, PFloat, PDouble})"
| "map_key_ok _ = False"

fun field_type_ok :: "go_field_type \<Rightarrow> bool" where
  "field_type_ok (GoValue (GoBasic s (Some d) r)) = basic_shape s d"
| "field_type_ok (GoValue t) = True"
| "field_type_ok (GoRepeated t r) = True"
| "field_type_ok (GoRepeatedPacked t r) = packable t"
| "field_type_ok (GoMap kt vt) = map_key_ok kt"

definition struct_ok :: "go_field list \<Rightarrow> bool" where
  "struct_ok fs \<longleftrightarrow> distinct (map field_tag fs) \<and>
     list_all (\<lambda>f. tag_ok (field_tag f) \<and> field_type_ok (field_type f)) fs"

definition schema_ok :: "schema \<Rightarrow> bool" where
  "schema_ok env \<longleftrightarrow> list_all (\<lambda>(n, fs). struct_ok fs) env"

lemma schema_ok_fields: "schema_ok env \<Longrightarrow> struct_ok (struct_fields env n)"
  by (auto simp: schema_ok_def struct_fields_def list_all_iff struct_ok_def split: option.splits
      dest!: map_of_SomeD)

lemma writers_enc:
  "bufBasicTypesWriters s p tag v = writeBytes p (tag_bytes tag (basic_wt s) @ basic_enc s v)"
  by (cases s) (simp_all add: f_bool.tagged_enc f_int32.tagged_enc f_int64.tagged_enc f_uint32.tagged_enc
      f_uint64.tagged_enc f_sint32.tagged_enc f_sint64.tagged_enc f_fixed32.tagged_enc f_fixed64.tagged_enc
      f_sfixed32.tagged_enc f_sfixed64.tagged_enc f_float32.tagged_enc f_float64.tagged_enc
      f_string.tagged_enc f_bytes.tagged_enc)

lemma packed_writers_enc:
  "canBePacked s \<Longrightarrow> bufWritersWithoutTag s p v = writeBytes p (basic_enc s v)"
  by (cases s) (simp_all add: f_bool.append_enc f_int32.append_enc f_int64.append_enc f_uint32.append_enc
      f_uint64.append_enc f_sint32.append_enc f_sint64.append_enc f_fixed32.append_enc f_fixed64.append_enc
      f_sfixed32.append_enc f_sfixed64.append_enc f_float32.append_enc f_float64.append_enc)

lemma PackedEntryWriter_enc:
  "packable t \<Longrightarrow> PackedEntryWriter_value t p v = writeBytes p (val_enc me t v)"
  by (cases t) (simp_all add: packed_writers_enc f_int32.append_enc)

text \<open>A write of a struct appends the encoding, for a writer within its capacity.\<close>

lemma bind_write:
  assumes "\<And>q. writer_ok q \<Longrightarrow> f q = writeBytes q b"
  shows "Option.bind (writeBytes p a) f = writeBytes p (a @ b)"
proof -
  have "Option.bind (writeBytes p a) f = Option.bind (writeBytes p a) (\<lambda>q. writeBytes q b)"
    by (rule Option.bind_cong) (auto intro!: assms writeBytes_ok)
  then show ?thesis by (simp add: writeBytes_bind)
qed

lemma write_all_writeBytes:
  assumes "writer_ok p" and "\<And>p x. x \<in> set xs \<Longrightarrow> writer_ok p \<Longrightarrow> f p x = writeBytes p (enc x)"
  shows "write_all f p xs = writeBytes p (concat (map enc xs))"
  using assms
proof (induction xs arbitrary: p)
  case (Cons x xs)
  then have "\<And>q. writer_ok q \<Longrightarrow> write_all f q xs = writeBytes q (concat (map enc xs))"
    by simp
  with Cons.prems show ?case by (simp add: bind_write)
qed (simp add: writer_ok_def)

lemma EntryWriter_value_enc:
  assumes "writer_ok p"
    and "\<And>n p. writer_ok p \<Longrightarrow> mw n (as_msg v) p = writeBytes p (me n (as_msg v))"
  shows "EntryWriter_value (\<lambda>n m. length (me n m)) mw t tag p v =
    writeBytes p (entry_bytes (val_entry me t tag v))"
proof (cases t)
  case (GoStruct n r)
  then show ?thesis
    by (simp add: Let_def AppendBytesTag_writeBytes bind_write [OF assms(2)] entry_bytes_def val_entry_def
        len_bytes_def)
qed (simp_all add: writers_enc entry_bytes_def val_entry_def f_int32.tagged_enc)

lemma kv_write:
  assumes "\<And>n p. writer_ok p \<Longrightarrow> mw n (as_msg k) p = writeBytes p (me n (as_msg k))"
    and "\<And>n p. writer_ok p \<Longrightarrow> mw n (as_msg x) p = writeBytes p (me n (as_msg x))"
  shows "Option.bind (writeBytes q h) (\<lambda>q. Option.bind
      (EntryWriter_value (\<lambda>n m. length (me n m)) mw kt mapEntryKeyTag q k) (\<lambda>q.
      EntryWriter_value (\<lambda>n m. length (me n m)) mw vt mapEntryValueTag q x)) =
    writeBytes q (h @ kv_bytes me kt vt (k, x))"
  by (simp add: bind_write EntryWriter_value_enc assms kv_bytes_def)

lemma EntryWriter_enc:
  assumes p: "writer_ok p" and ok: "field_type_ok ft"
    and mw: "\<And>n m p. m \<in> set (sub_ptrs v) \<Longrightarrow> writer_ok p \<Longrightarrow> mw n m p = writeBytes p (me n m)"
  shows "EntryWriter (\<lambda>n m. length (me n m)) mw ft tag p v =
    writeBytes p (concat (map entry_bytes (field_entries me ft tag v)))"
proof -
  note c = mw [OF sub_ptrs_simps(1)] mw [OF sub_ptrs_simps(2)] mw [OF sub_ptrs_simps(3)]
    mw [OF sub_ptrs_simps(4)]
  show ?thesis
  proof (cases ft)
    case (GoValue t)
    with p c show ?thesis by (simp add: EntryWriter_value_enc)
  next
    case (GoRepeated t r)
    with p show ?thesis
      by (auto simp: o_def intro!: write_all_writeBytes EntryWriter_value_enc c(2))
  next
    case (GoRepeatedPacked t r)
    then have packed: "writer_ok q \<Longrightarrow> write_all (PackedEntryWriter_value t) q (as_list v) =
        writeBytes q (concat (map (val_enc me t) (as_list v)))" for q
      using ok by (intro write_all_writeBytes PackedEntryWriter_enc) simp_all
    consider "length (as_list v) > 1" | "as_list v = []" | x where "as_list v = [x]"
      by (cases "as_list v") auto
    then show ?thesis
    proof cases
      case 1
      with GoRepeatedPacked show ?thesis
        by (simp add: Let_def AppendBytesTag_writeBytes FullSizeWithoutTag_length_fun bind_write packed
            entry_bytes_def len_bytes_def length_entries)
    next
      case 3
      then have "EntryWriter_value (\<lambda>n m. length (me n m)) mw t tag p x =
          writeBytes p (entry_bytes (val_entry me t tag x))"
        by (intro EntryWriter_value_enc p c(2)) simp_all
      with 3 GoRepeatedPacked show ?thesis by simp
    qed (use p GoRepeatedPacked in \<open>simp add: writer_ok_def\<close>)
  next
    case (GoMap kt vt)
    have "length (entry_bytes (val_entry me kt mapEntryKeyTag k)) +
        length (entry_bytes (val_entry me vt mapEntryValueTag x)) = length (kv_bytes me kt vt (k, x))" for k x
      by (simp add: kv_bytes_def)
    moreover have "Option.bind (writeBytes q h) (\<lambda>q. Option.bind
        (EntryWriter_value (\<lambda>n m. length (me n m)) mw kt mapEntryKeyTag q k) (\<lambda>q.
        EntryWriter_value (\<lambda>n m. length (me n m)) mw vt mapEntryValueTag q x)) =
      writeBytes q (h @ kv_bytes me kt vt (k, x))" if "(k, x) \<in> set (as_map v)" for q h k x
      by (rule kv_write [OF c(3) [OF that] c(4) [OF that]])
    ultimately show ?thesis using p GoMap
      by (auto intro!: write_all_writeBytes simp: o_def Let_def FullSizeWithTag_length
          AppendBytesTag_writeBytes entry_bytes_tuple len_bytes_def
          simp del: of_nat_add)
  qed
qed

lemma concat_map_concat: "concat (map e (concat (map g zs))) = concat (map (\<lambda>z. concat (map e (g z))) zs)"
  by (induction zs) simp_all

lemma MarshalTo_enc:
  "schema_ok env \<Longrightarrow> writer_ok p \<Longrightarrow> MarshalTo env n m p = writeBytes p (msg_enc env n m)"
proof (induction env n m p rule: MarshalTo.induct)
  case (1 env n p)
  then show ?case by (simp add: MarshalTo.simps msg_enc.simps writer_ok_def)
next
  case (2 env n vs p)
  have size: "XXX_PbContentSize env = (\<lambda>n m. length (msg_enc env n m))"
    by (intro ext XXX_PbContentSize_length)
  have "(if EntryIsNotEmpty (field_type f) v
        then EntryWriter (XXX_PbContentSize env) (MarshalTo env) (field_type f) (field_tag f) q v
        else Some q) = writeBytes q (concat (map entry_bytes (field_out env f v)))"
    if fv: "(f, v) \<in> set (zip (struct_fields env n) vs)" and q: "writer_ok q" for f v q
  proof (cases "EntryIsNotEmpty (field_type f) v")
    case True
    have "f \<in> set (struct_fields env n)" using fv by (rule set_zip_leftD)
    then have "field_type_ok (field_type f)"
      using schema_ok_fields [OF 2(2), of n] by (simp add: struct_ok_def list_all_iff)
    then show ?thesis
      using True EntryWriter_enc [OF q _ 2(1) [OF fv refl True _ 2(2)]] by (simp add: field_out_def size)
  qed (use q in \<open>simp add: field_out_def writer_ok_def\<close>)
  then have "MarshalTo env n (Some vs) p = writeBytes p (concat (map (\<lambda>(f, v).
      concat (map entry_bytes (field_out env f v))) (zip (struct_fields env n) vs)))"
    unfolding MarshalTo.simps using 2(3) by (intro write_all_writeBytes) auto
  then show ?case
    by (simp add: msg_enc_entries msg_entries_def concat_map_concat case_prod_unfold)
qed

text \<open>\<^verbatim>\<open>Marshal\<close> never panics and fills its buffer exactly.\<close>

lemma Marshal_enc: "schema_ok env \<Longrightarrow> Marshal env n m = Some (msg_enc env n m)"
  by (cases m) (auto simp: Marshal_def Let_def NewWriter_def MarshalTo_enc XXX_PbContentSize_length
      writer_ok_def writeBytes_def msg_enc.simps(1))
end
