(* ===== verification/Message_Read.thy ===== *)
theory Message_Read
  imports Message_Write
begin

text \<open>
  Reading back what was written: for every schema and every well-typed message, the generated
  \<^verbatim>\<open>Unmarshal\<close> of the encoding succeeds and \<^verbatim>\<open>ToStruct\<close> of the reader gives the message with
  default-valued fields and empty nested messages normalised. The proof goes from a value
  over a field to a message, and by induction over the nesting of messages.
\<close>

section \<open>Typed values and what a round trip keeps of them\<close>

type_synonym msg_pred = "string \<Rightarrow> gval list option \<Rightarrow> bool"
type_synonym msg_map = "string \<Rightarrow> gval list option \<Rightarrow> gval list option"

fun val_conf :: "msg_pred \<Rightarrow> go_value_type \<Rightarrow> gval \<Rightarrow> bool" where
  "val_conf mc (GoBasic s d r) v = basic_shape s v"
| "val_conf mc (GoEnum d r) v = (case v of V32 w \<Rightarrow> True | _ \<Rightarrow> False)"
| "val_conf mc (GoStruct n r) v = (case v of VMsg m \<Rightarrow> mc n (as_msg v) | _ \<Rightarrow> False)"

fun field_conf :: "msg_pred \<Rightarrow> go_field_type \<Rightarrow> gval \<Rightarrow> bool" where
  "field_conf mc (GoValue t) v = val_conf mc t v"
| "field_conf mc (GoRepeated t r) v =
     (case v of VList xs \<Rightarrow> list_all (val_conf mc t) (as_list v) | _ \<Rightarrow> False)"
| "field_conf mc (GoRepeatedPacked t r) v =
     (case v of VList xs \<Rightarrow> list_all (val_conf mc t) (as_list v) | _ \<Rightarrow> False)"
| "field_conf mc (GoMap kt vt) v =
     (case v of VMap kvs \<Rightarrow> distinct (map fst kvs) \<and>
        list_all (\<lambda>(k, x). val_conf mc kt k \<and> val_conf mc vt x) (as_map v) | _ \<Rightarrow> False)"

fun val_norm :: "msg_map \<Rightarrow> go_value_type \<Rightarrow> gval \<Rightarrow> gval" where
  "val_norm mn (GoStruct n r) v = VMsg (mn n (as_msg v))"
| "val_norm mn t v = v"

fun field_norm :: "msg_map \<Rightarrow> go_field_type \<Rightarrow> gval \<Rightarrow> gval" where
  "field_norm mn (GoValue t) v = (if EntryIsNotEmpty_value t v then val_norm mn t v else DefaultReturn t)"
| "field_norm mn (GoRepeated t r) v = VList (map (val_norm mn t) (as_list v))"
| "field_norm mn (GoRepeatedPacked t r) v = VList (map (val_norm mn t) (as_list v))"
| "field_norm mn (GoMap kt vt) v = VMap (map (\<lambda>(k, x). (k, val_norm mn vt x)) (as_map v))"

lemma field_conf_cong [fundef_cong]:
  assumes "ft = ft'" and "v = v'" and "\<And>n m. m \<in> set (sub_ptrs v') \<Longrightarrow> mc n m = mc' n m"
  shows "field_conf mc ft v = field_conf mc' ft' v'"
proof -
  note c = assms(3) [OF sub_ptrs_simps(1)] assms(3) [OF sub_ptrs_simps(2)]
    assms(3) [OF sub_ptrs_simps(3)] assms(3) [OF sub_ptrs_simps(4)]
  have v: "val_conf mc t x = val_conf mc' t x" if "\<And>n. mc n (as_msg x) = mc' n (as_msg x)" for t x
    using that by (cases t) (auto split: gval.splits)
  have "x \<in> set (as_list v') \<Longrightarrow> val_conf mc t x = val_conf mc' t x" for x t
    by (intro v c)
  moreover have "(k, x) \<in> set (as_map v') \<Longrightarrow> val_conf mc t k = val_conf mc' t k"
    "(k, x) \<in> set (as_map v') \<Longrightarrow> val_conf mc t x = val_conf mc' t x" for k x t
    using c(3,4) by (auto intro!: v)
  moreover have "val_conf mc t v' = val_conf mc' t v'" for t
    by (intro v c)
  ultimately show ?thesis
    unfolding assms(1,2) by (cases ft') (auto simp: list_all_iff split: gval.splits)
qed

lemma field_norm_cong [fundef_cong]:
  assumes "ft = ft'" and "v = v'" and "\<And>n m. m \<in> set (sub_ptrs v') \<Longrightarrow> mn n m = mn' n m"
  shows "field_norm mn ft v = field_norm mn' ft' v'"
proof -
  note c = assms(3) [OF sub_ptrs_simps(1)] assms(3) [OF sub_ptrs_simps(2)]
    assms(3) [OF sub_ptrs_simps(3)] assms(3) [OF sub_ptrs_simps(4)]
  have v: "val_norm mn t x = val_norm mn' t x" if "\<And>n. mn n (as_msg x) = mn' n (as_msg x)" for t x
    using that by (cases t) auto
  have "x \<in> set (as_list v') \<Longrightarrow> val_norm mn t x = val_norm mn' t x" for x t
    by (intro v c)
  moreover have "(k, x) \<in> set (as_map v') \<Longrightarrow> val_norm mn t x = val_norm mn' t x" for k x t
    using c(4) by (auto intro!: v)
  moreover have "val_norm mn t v' = val_norm mn' t v'" for t
    by (intro v c)
  ultimately show ?thesis
    unfolding assms(1,2) by (cases ft') auto
qed

function conforms :: "schema \<Rightarrow> string \<Rightarrow> gval list option \<Rightarrow> bool" where
  "conforms env n None = True"
| "conforms env n (Some vs) =
     (length vs = length (struct_fields env n) \<and>
      list_all (\<lambda>(f, v). field_conf (conforms env) (field_type f) v) (zip (struct_fields env n) vs))"
  by pat_completeness auto
termination
  by (relation "measure (\<lambda>(env, n, m). ptr_size m)") (auto dest: field_ptr_size simp del: ptr_size.simps)

text \<open>
  What comes back: a field equal to its default is the default, and a nested message without
  content is nil.
\<close>

function normalise :: "schema \<Rightarrow> string \<Rightarrow> gval list option \<Rightarrow> gval list option" where
  "normalise env n None = None"
| "normalise env n (Some vs) =
     (if XXX_PbContentSize env n (Some vs) = 0 then None
      else Some (map (\<lambda>(f, v). field_norm (normalise env) (field_type f) v) (zip (struct_fields env n) vs)))"
  by pat_completeness auto
termination
  by (relation "measure (\<lambda>(env, n, m). ptr_size m)") (auto dest: field_ptr_size simp del: ptr_size.simps)

declare conforms.simps [simp del] normalise.simps [simp del]

definition norm_fields :: "schema \<Rightarrow> string \<Rightarrow> gval list \<Rightarrow> gval list" where
  "norm_fields env n vs =
     map (\<lambda>(f, v). field_norm (normalise env) (field_type f) v) (zip (struct_fields env n) vs)"


section \<open>Reading one value\<close>

lemma shape_value:
  "basic_shape PString v \<Longrightarrow> VBytes (as_bytes v) = v" "basic_shape PBytes v \<Longrightarrow> VBytes (as_bytes v) = v"
  "basic_shape PBool v \<Longrightarrow> VBool (as_bool v) = v"
  "s \<in> {PDouble, PInt64, PUint64, PSint64, PFixed64, PSfixed64} \<Longrightarrow> basic_shape s v \<Longrightarrow> V64 (as_64 v) = v"
  "s \<in> {PFloat, PInt32, PUint32, PSint32, PFixed32, PSfixed32} \<Longrightarrow> basic_shape s v \<Longrightarrow> V32 (as_32 v) = v"
  by (auto split: gval.splits)

lemma bytes_reads:
  assumes "reads_at p off (len_bytes d)"
  shows "gmap (\<lambda>s. VBytes (elems s)) (ReadBytes p off) = Ok (VBytes d)"
    and "gmap (map_prod (\<lambda>s. VBytes (elems s)) id) (SizedReadBytes p off) = Ok (VBytes d, int (length (len_bytes d)))"
  using SizedReadBytes_enc [OF assms] by auto

lemma readers_enc:
  assumes "basic_shape s v" and "reads_at p off (basic_enc s v)"
  shows "bufBasicTypesReaders s p off = Ok v \<and>
    bufSizedReaders s p off = Ok (v, int (length (basic_enc s v)))"
  using assms shape_value(4,5) [OF _ assms(1)]
  by (cases s) (simp_all add: bytes_reads [of p off "as_bytes v"]
      w_bool.read_enc [of p off "as_bool v"] w_bool.sized_read_enc [of p off "as_bool v"]
      w_int32.read_enc [of p off "as_32 v"] w_int32.sized_read_enc [of p off "as_32 v"]
      w_int64.read_enc [of p off "as_64 v"] w_int64.sized_read_enc [of p off "as_64 v"]
      w_uint32.read_enc [of p off "as_32 v"] w_uint32.sized_read_enc [of p off "as_32 v"]
      w_uint64.read_enc [of p off "as_64 v"] w_uint64.sized_read_enc [of p off "as_64 v"]
      w_sint32.read_enc [of p off "as_32 v"] w_sint32.sized_read_enc [of p off "as_32 v"]
      w_sint64.read_enc [of p off "as_64 v"] w_sint64.sized_read_enc [of p off "as_64 v"]
      w_fixed32.read_enc [of p off "as_32 v"] w_fixed32.sized_read_enc [of p off "as_32 v"]
      w_fixed64.read_enc [of p off "as_64 v"] w_fixed64.sized_read_enc [of p off "as_64 v"]
      w_sfixed32.read_enc [of p off "as_32 v"] w_sfixed32.sized_read_enc [of p off "as_32 v"]
      w_sfixed64.read_enc [of p off "as_64 v"] w_sfixed64.sized_read_enc [of p off "as_64 v"]
      w_float32.read_enc [of p off "as_32 v"] w_float32.sized_read_enc [of p off "as_32 v"]
      w_float64.read_enc [of p off "as_64 v"] w_float64.sized_read_enc [of p off "as_64 v"]
      w_string.read_enc [of p off "as_bytes v"] w_string.sized_read_enc [of p off "as_bytes v"] shape_value del: basic_shape.simps)


text \<open>
  The contract of a nested struct: its encoding can be unmarshalled, and \<^verbatim>\<open>ToStruct\<close> of the
  reader gives the normalised fields, with fuel above the number of bytes.
\<close>

definition parses :: "schema \<Rightarrow> string \<Rightarrow> gval list \<Rightarrow> bool" where
  "parses env n vs \<longleftrightarrow> (\<forall>data fuel fuel'.
     elems data = msg_enc env n (Some vs) \<longrightarrow> slice_len data < 2 ^ 62 \<longrightarrow>
     length (elems data) < fuel \<longrightarrow> length (elems data) < fuel' \<longrightarrow>
     (\<exists>m'. Unmarshal fuel env (NewMsgReader env n) data = Ok (m', None) \<and>
       gmap fst (ToStruct fuel' env m') = Ok (norm_fields env n vs)))"

definition parses_ptr :: "schema \<Rightarrow> gval \<Rightarrow> bool" where
  "parses_ptr env v \<longleftrightarrow> (\<forall>n vs. as_msg v = Some vs \<longrightarrow> conforms env n (Some vs) \<longrightarrow> parses env n vs)"

lemma VarIntToBytes_nonempty [simp]: "VarIntToBytes v \<noteq> []"
  by (simp add: VarIntToBytes_leb128)

lemma tag_bytes_nonempty [simp]: "tag_bytes tag wt \<noteq> []"
  by (simp add: tag_bytes_def)

lemma val_enc_nonempty [simp]: "val_enc me t v \<noteq> []"
proof (cases t)
  case (GoBasic s d r)
  then show ?thesis
    by (cases s) (simp_all add: len_bytes_def fixed32_bytes_def fixed64_bytes_def)
qed (simp_all add: len_bytes_def)

lemma normalise_Some:
  "normalise env n (Some vs) = (if msg_enc env n (Some vs) = [] then None else Some (norm_fields env n vs))"
  by (simp add: normalise.simps norm_fields_def XXX_PbContentSize_length)

lemma read_struct_enc:
  assumes "elems data = msg_enc env n m" and "slice_len data < 2 ^ 62"
    and "length (elems data) < fuel" and "length (elems data) < fuel'"
    and "conforms env n m" and "parses_ptr env (VMsg m)"
  shows "\<exists>r. read_struct fuel env n data = Ok r \<and>
    ToStruct_value (\<lambda>m. gmap fst (ToStruct fuel' env m)) r = Ok (VMsg (normalise env n m))"
proof (cases "elems data = []")
  case True
  then have "normalise env n m = None"
    using assms(1) by (cases m) (auto simp: normalise.simps(1) normalise_Some)
  with True show ?thesis by (simp add: read_struct_def slice_len_def)
next
  case False
  then obtain vs where m: "m = Some vs"
    using assms(1) by (cases m) (auto simp: msg_enc.simps)
  then have "parses env n vs" using assms(5,6) by (simp add: parses_ptr_def)
  then obtain m' where "Unmarshal fuel env (NewMsgReader env n) data = Ok (m', None)"
      "gmap fst (ToStruct fuel' env m') = Ok (norm_fields env n vs)"
    unfolding parses_def using assms(1-4) m by blast
  moreover have "normalise env n m = Some (norm_fields env n vs)"
    using False assms(1) m by (simp add: normalise_Some)
  ultimately show ?thesis
    using False by (auto simp: read_struct_def slice_len_def)
qed

lemma EntryReader_value_enc:
  assumes conf: "val_conf (conforms env) t v" and r: "reads_at p off (val_enc (msg_enc env) t v)"
    and "0 < off" and fuel: "length (val_enc (msg_enc env) t v) < fuel"
      "length (val_enc (msg_enc env) t v) < fuel'"
    and ptr: "parses_ptr env v"
  shows "\<exists>r. EntryReader_value fuel env (Some p) t off = Ok r \<and>
    EntrySizedReader_value fuel env (Some p) t off = Ok (r, int (length (val_enc (msg_enc env) t v))) \<and>
    ToStruct_value (\<lambda>m. gmap fst (ToStruct fuel' env m)) r = Ok (val_norm (normalise env) t v)"
proof (cases t)
  case (GoBasic s d r')
  then show ?thesis
    using conf r \<open>0 < off\<close> readers_enc [of s v p off] by (simp add: on_buf_def)
next
  case (GoEnum d r')
  then obtain w where "v = V32 w" using conf by (auto split: gval.splits)
  then show ?thesis
    using GoEnum r \<open>0 < off\<close> w_int32.read_enc [of p off w] w_int32.sized_read_enc [of p off w]
    by (simp add: on_buf_def)
next
  case (GoStruct n r')
  then obtain m where v: "v = VMsg m" "conforms env n m" using conf by (auto split: gval.splits)
  from GoStruct r v obtain s where s: "ReadBytes p off = Ok s" "elems s = msg_enc env n m"
      "SizedReadBytes p off = Ok (s, int (length (len_bytes (msg_enc env n m))))"
    using SizedReadBytes_enc [of p off "msg_enc env n m"] by auto
  have le: "length (msg_enc env n m) \<le> length (val_enc (msg_enc env) t v)"
    using GoStruct v by (simp add: len_bytes_def)
  then have "int (length (msg_enc env n m)) < 2 ^ 62"
    using reads_at_bounds [OF r] by linarith
  then obtain r where "read_struct fuel env n s = Ok r"
      "ToStruct_value (\<lambda>m. gmap fst (ToStruct fuel' env m)) r = Ok (VMsg (normalise env n m))"
    using read_struct_enc [of s env n m fuel fuel'] s le fuel v ptr by (auto simp: slice_len_def)
  then show ?thesis
    using GoStruct v s \<open>0 < off\<close> by (simp add: on_buf_def)
qed

section \<open>Reading one field\<close>

fun payload_offsets :: "int \<Rightarrow> entry list \<Rightarrow> int list" where
  "payload_offsets off [] = []"
| "payload_offsets off (e # es) =
     (off + int (length (tag_bytes (fst e) (fst (snd e))))) #
       payload_offsets (off + int (length (entry_bytes e))) es"

text \<open>The offset field of one message field after its entries among \<open>es\<close> were passed.\<close>

fun save_own :: "wire_number \<Rightarrow> int \<Rightarrow> entry list \<Rightarrow> foffset \<Rightarrow> foffset" where
  "save_own tag off [] st = st"
| "save_own tag off (e # es) st =
     save_own tag (off + int (length (entry_bytes e))) es
       (if fst e = tag
        then EntryUnmarshalSaveOffsets st (off + int (length (tag_bytes (fst e) (fst (snd e))))) (fst (snd e))
        else st)"

lemma length_payload_offsets [simp]: "length (payload_offsets off es) = length es"
  by (induction es arbitrary: off) simp_all

lemma entry_bytes_split: "entry_bytes e = tag_bytes (fst e) (fst (snd e)) @ snd (snd e)"
  by (simp add: entry_bytes_def case_prod_unfold)

lemma payload_reads:
  "reads_at p off (concat (map entry_bytes es)) \<Longrightarrow>
    list_all2 (\<lambda>o' e. reads_at p o' (snd (snd e)) \<and> 0 < o') (payload_offsets off es) es"
proof (induction es arbitrary: off)
  case (Cons e es)
  have r: "reads_at p off (tag_bytes (fst e) (fst (snd e)) @ snd (snd e) @ concat (map entry_bytes es))"
    using Cons.prems by (simp add: entry_bytes_split [of e])
  have "reads_at p (off + int (length (tag_bytes (fst e) (fst (snd e))))) (snd (snd e))"
    using reads_at_append1 [OF reads_at_append2 [OF r]] .
  moreover have "0 < off + int (length (tag_bytes (fst e) (fst (snd e))))"
    using reads_at_bounds(1) [OF r] by (simp add: add_nonneg_pos)
  moreover have "reads_at p (off + int (length (entry_bytes e))) (concat (map entry_bytes es))"
    using reads_at_append2 [of p off "entry_bytes e"] Cons.prems by simp
  ultimately show ?case using Cons.IH by simp
qed simp

lemma save_own_Offsets:
  "list_all (\<lambda>e. fst e = tag) es \<Longrightarrow> save_own tag off es (Offsets os) = Offsets (os @ payload_offsets off es)"
  by (induction es arbitrary: off os) simp_all

lemma save_own_OffsetsTyped:
  "list_all (\<lambda>e. fst e = tag) es \<Longrightarrow> save_own tag off es (OffsetsTyped os) =
     OffsetsTyped (os @ zip (payload_offsets off es) (map (\<lambda>e. fst (snd e)) es))"
  by (induction es arbitrary: off os) simp_all

lemma list_all2_mono_mem:
  assumes "list_all2 P xs ys" and "\<And>x y. y \<in> set ys \<Longrightarrow> P x y \<Longrightarrow> Q x y"
  shows "list_all2 Q xs ys"
  using assms by (induction rule: list_all2_induct) auto

lemma gmapM_all2:
  "list_all2 (\<lambda>x v. \<exists>y. f x = Ok y \<and> g y = Ok (h v)) xs vs \<Longrightarrow>
    \<exists>ys. gmapM f xs = Ok ys \<and> gmapM g ys = Ok (map h vs)"
proof (induction rule: list_all2_induct)
  case (Cons x xs v vs)
  then show ?case by auto
qed simp

lemma field_entries_tag: "list_all (\<lambda>e. fst e = tag) (field_entries me ft tag v)"
  by (cases ft) (auto simp: list_all_iff val_entry_def)

text \<open>Lists of strings, bytes and messages.\<close>

lemma repeated_enc:
  assumes "list_all (val_conf (conforms env) t) xs"
    and "reads_at p off (concat (map entry_bytes (map (val_entry (msg_enc env) t tag) xs)))"
    and "\<And>x. x \<in> set xs \<Longrightarrow> length (val_enc (msg_enc env) t x) < fuel"
    and "\<And>x. x \<in> set xs \<Longrightarrow> length (val_enc (msg_enc env) t x) < fuel'"
    and "\<And>x. x \<in> set xs \<Longrightarrow> parses_ptr env x"
  shows "\<exists>rs. gmapM (EntryReader_value fuel env (Some p) t)
        (payload_offsets off (map (val_entry (msg_enc env) t tag) xs)) = Ok rs \<and>
    gmapM (ToStruct_value (\<lambda>m. gmap fst (ToStruct fuel' env m))) rs = Ok (map (val_norm (normalise env) t) xs)"
proof (rule gmapM_all2)
  have "list_all2 (\<lambda>o' x. reads_at p o' (val_enc (msg_enc env) t x) \<and> 0 < o')
      (payload_offsets off (map (val_entry (msg_enc env) t tag) xs)) xs"
    using payload_reads [OF assms(2)] by (simp add: list_all2_map2 val_entry_def)
  then show "list_all2 (\<lambda>o' x. \<exists>r. EntryReader_value fuel env (Some p) t o' = Ok r \<and>
      ToStruct_value (\<lambda>m. gmap fst (ToStruct fuel' env m)) r = Ok (val_norm (normalise env) t x))
      (payload_offsets off (map (val_entry (msg_enc env) t tag) xs)) xs"
  proof (rule list_all2_mono_mem)
    fix o' x assume "x \<in> set xs" and "reads_at p o' (val_enc (msg_enc env) t x) \<and> 0 < o'"
    then show "\<exists>r. EntryReader_value fuel env (Some p) t o' = Ok r \<and>
        ToStruct_value (\<lambda>m. gmap fst (ToStruct fuel' env m)) r = Ok (val_norm (normalise env) t x)"
      using EntryReader_value_enc [of env t x p o' fuel fuel'] assms
      by (auto simp: list_all_iff)
  qed
qed


text \<open>Packed lists: the values stand one after the other in one length-delimited entry.\<close>

lemma packable_read:
  assumes "packable t" and "val_conf (conforms env) t v" and "reads_at p off (val_enc (msg_enc env) t v)"
    and "0 < off"
  shows "EntryReader_value fuel env (Some p) t off = Ok (RVal v)"
    and "EntrySizedReader_value fuel env (Some p) t off = Ok (RVal v, int (length (val_enc (msg_enc env) t v)))"
proof -
  have "EntryReader_value fuel env (Some p) t off = Ok (RVal v) \<and>
      EntrySizedReader_value fuel env (Some p) t off = Ok (RVal v, int (length (val_enc (msg_enc env) t v)))"
  proof (cases t)
    case (GoBasic s d r)
    with assms readers_enc [of s v p off] show ?thesis by (simp add: on_buf_def)
  next
    case (GoEnum d r)
    then obtain w where "v = V32 w" using assms(2) by (auto split: gval.splits)
    with GoEnum assms show ?thesis
      using w_int32.read_enc [of p off w] w_int32.sized_read_enc [of p off w] by (simp add: on_buf_def)
  qed (use assms(1) in simp)
  then show "EntryReader_value fuel env (Some p) t off = Ok (RVal v)"
    and "EntrySizedReader_value fuel env (Some p) t off = Ok (RVal v, int (length (val_enc (msg_enc env) t v)))"
    by simp_all
qed

lemma packed_loop_enc:
  assumes "packable t" and "list_all (val_conf (conforms env) t) xs"
    and "reads_at p (start + off) (concat (map (val_enc (msg_enc env) t) xs))"
    and "0 < start" and "0 \<le> off" and "length xs < fuel"
    and "sz = off + int (length (concat (map (val_enc (msg_enc env) t) xs)))"
  shows "packed_loop fuel env (Some p) t start sz off = Ok (map RVal xs)"
  using assms(2-)
proof (induction xs arbitrary: off fuel)
  case Nil
  then show ?case by (cases fuel) simp_all
next
  case (Cons x xs)
  let ?e = "val_enc (msg_enc env) t x"
  from Cons.prems obtain f where fuel: "fuel = Suc f" by (cases fuel) simp_all
  have r: "reads_at p (start + off) (?e @ concat (map (val_enc (msg_enc env) t) xs))"
    using Cons.prems(2) by simp
  have pos: "0 < int (length ?e)" by (simp only: of_nat_0_less_iff length_greater_0_conv) simp
  have b: "start + off + int (length ?e) < 2 ^ 62"
    using reads_at_bounds(3) [OF reads_at_append1 [OF r]] .
  have read: "EntrySizedReader_value f env (Some p) t (start + off) = Ok (RVal x, int (length ?e))"
    using Cons.prems assms(1) by (intro packable_read reads_at_append1 [OF r]) simp_all
  have "packed_loop f env (Some p) t start sz (off + int (length ?e)) = Ok (map RVal xs)"
    using Cons.prems fuel reads_at_append2 [OF r] by (intro Cons.IH) (simp_all add: add.assoc)
  moreover have "off < sz" using Cons.prems(6) pos by (simp del: of_nat_0_less_iff)
  moreover have "go_int (start + off) = start + off" "go_int (off + int (length ?e)) = off + int (length ?e)"
    using b pos Cons.prems(3,4) by simp_all
  ultimately show ?case using read by (simp add: fuel)
qed

lemma concat_length_le: "(\<And>x. x \<in> set xs \<Longrightarrow> f x \<noteq> []) \<Longrightarrow> length xs \<le> length (concat (map f xs))"
proof (induction xs)
  case (Cons x xs)
  then have "f x \<noteq> []" "length xs \<le> length (concat (map f xs))" by simp_all
  then show ?case by (cases "f x") simp_all
qed simp

lemma packed_entries_bytes:
  assumes "packable t" and "list_all (val_conf (conforms env) t) xs"
    and r: "reads_at p off (len_bytes (concat (map (val_enc (msg_enc env) t) xs)))" and "0 < off"
    and "length (len_bytes (concat (map (val_enc (msg_enc env) t) xs))) < fuel"
  shows "packed_entries fuel env (Some p) t (off, BytesType) = Ok (map RVal xs)"
proof -
  let ?bs = "concat (map (val_enc (msg_enc env) t) xs)"
  let ?n = "int (length (VarIntToBytes (of_nat (length ?bs))))"
  have "length xs \<le> length ?bs" by (rule concat_length_le) simp
  then have "packed_loop fuel env (Some p) t (off + ?n) (int (length ?bs)) 0 = Ok (map RVal xs)"
    using assms r unfolding len_bytes_def
    by (intro packed_loop_enc) (auto dest: reads_at_append2)
  moreover have "go_int (off + ?n) = off + ?n"
    using reads_at_bounds [OF r] \<open>0 < off\<close> by (simp add: len_bytes_def)
  ultimately show ?thesis
    using len_bytes_size [OF r] by (simp add: packed_entries_def on_buf_def SizedReadVarInt_def)
qed

lemma packed_entries_single:
  assumes "packable t" and "val_conf (conforms env) t v" and "reads_at p off (val_enc (msg_enc env) t v)"
    and "0 < off"
  shows "packed_entries fuel env (Some p) t (off, val_wt t) = Ok [RVal v]"
proof -
  have "val_wt t \<noteq> BytesType"
  proof (cases t)
    case (GoBasic s d r)
    with assms(1) show ?thesis by (cases s) (simp_all add: wire_type_defs)
  qed (use assms(1) in \<open>simp_all add: wire_type_defs\<close>)
  then show ?thesis using packable_read(1) [OF assms] by (simp add: packed_entries_def)
qed

text \<open>Maps: every entry is a message with a key and a value field.\<close>

lemma val_wt_small: "unat (val_wt t) < 8"
proof (cases t)
  case (GoBasic s d r)
  then show ?thesis by (cases s) simp_all
qed simp_all

lemma tag_read:
  assumes "reads_at p off (entry_bytes (val_entry me t tag v))" and "tag_ok tag"
  shows "ReadTagAt p off = Ok (tag, val_wt t, int (length (tag_bytes tag (val_wt t))))"
    and "reads_at p (off + int (length (tag_bytes tag (val_wt t)))) (val_enc me t v)"
    and "go_int (off + int (length (tag_bytes tag (val_wt t)))) = off + int (length (tag_bytes tag (val_wt t)))"
    and "go_int (off + int (length (tag_bytes tag (val_wt t))) + int (length (val_enc me t v))) =
      off + int (length (entry_bytes (val_entry me t tag v)))"
    and "0 < off + int (length (tag_bytes tag (val_wt t)))"
proof -
  have r: "reads_at p off (tag_bytes tag (val_wt t) @ val_enc me t v)"
    using assms(1) by (simp add: entry_bytes_def val_entry_def)
  show "ReadTagAt p off = Ok (tag, val_wt t, int (length (tag_bytes tag (val_wt t))))"
    by (rule ReadTagAt_enc [OF reads_at_append1 [OF r] assms(2) val_wt_small])
  show "reads_at p (off + int (length (tag_bytes tag (val_wt t)))) (val_enc me t v)"
    by (rule reads_at_append2 [OF r])
  show "go_int (off + int (length (tag_bytes tag (val_wt t)))) = off + int (length (tag_bytes tag (val_wt t)))"
    and "go_int (off + int (length (tag_bytes tag (val_wt t))) + int (length (val_enc me t v))) =
      off + int (length (entry_bytes (val_entry me t tag v)))"
    using reads_at_bounds [OF r] by (simp_all add: entry_bytes_def val_entry_def add.assoc)
  show "0 < off + int (length (tag_bytes tag (val_wt t)))"
    using reads_at_bounds(1) [OF r] by (simp add: add_nonneg_pos)
qed

lemma map_tags [simp]: "tag_ok mapEntryKeyTag" "tag_ok mapEntryValueTag" "mapEntryValueTag \<noteq> mapEntryKeyTag"
  by (simp_all add: tag_ok_def mapEntryKeyTag_def mapEntryValueTag_def)

lemma map_key_read:
  assumes "map_key_ok kt" and "val_conf (conforms env) kt k" and "reads_at p off (val_enc (msg_enc env) kt k)"
    and "0 < off"
  shows "EntrySizedReader_value fuel env (Some p) kt off = Ok (RVal k, int (length (val_enc (msg_enc env) kt k)))"
  using assms readers_enc by (cases kt) (auto simp: on_buf_def)

lemma kv_lengths:
  "length (val_enc me kt k) + length (val_enc me vt x) + 2 \<le> length (kv_bytes me kt vt (k, x))"
  "1 \<le> length (val_enc me t v)"
proof -
  have ge: "1 \<le> length bs" if "bs \<noteq> []" for bs :: bytes using that by (cases bs) simp_all
  then show "1 \<le> length (val_enc me t v)" by simp
  show "length (val_enc me kt k) + length (val_enc me vt x) + 2 \<le> length (kv_bytes me kt vt (k, x))"
    using ge [of "tag_bytes mapEntryKeyTag (val_wt kt)"] ge [of "tag_bytes mapEntryValueTag (val_wt vt)"]
    by (simp add: kv_bytes_def entry_bytes_def val_entry_def)
qed

lemma map_loop_enc:
  assumes "map_key_ok kt" and "val_conf (conforms env) kt k" and "val_conf (conforms env) vt x"
    and r: "reads_at p off (kv_bytes (msg_enc env) kt vt (k, x))"
    and fuel: "length (kv_bytes (msg_enc env) kt vt (k, x)) < fuel"
      "length (kv_bytes (msg_enc env) kt vt (k, x)) < fuel'"
    and "parses_ptr env x"
  shows "\<exists>rv. map_loop fuel env (Some p) kt vt off
        (off + int (length (kv_bytes (msg_enc env) kt vt (k, x)))) kd vd = Ok (RVal k, rv) \<and>
    ToStruct_value (\<lambda>m. gmap fst (ToStruct fuel' env m)) rv = Ok (val_norm (normalise env) vt x)"
proof -
  let ?K = "entry_bytes (val_entry (msg_enc env) kt mapEntryKeyTag k)"
  let ?V = "entry_bytes (val_entry (msg_enc env) vt mapEntryValueTag x)"
  let ?fin = "off + int (length (kv_bytes (msg_enc env) kt vt (k, x)))"
  have kv: "kv_bytes (msg_enc env) kt vt (k, x) = ?K @ ?V" by (simp add: kv_bytes_def)
  note len = kv_lengths(1) [of "msg_enc env" kt k vt x] kv_lengths(2) [of "msg_enc env" kt k]
  have "3 \<le> fuel" using len fuel by linarith
  then have "fuel = Suc (Suc (Suc (fuel - 3)))" by simp
  then obtain f where f: "fuel = Suc (Suc (Suc f))" by blast
  have rK: "reads_at p off ?K" and rV: "reads_at p (off + int (length ?K)) ?V"
    using r reads_at_append1 reads_at_append2 unfolding kv by blast+
  note K = tag_read [OF rK map_tags(1)] and V = tag_read [OF rV map_tags(2)]
  have "EntrySizedReader_value (Suc (Suc f)) env (Some p) kt (off + int (length (tag_bytes mapEntryKeyTag (val_wt kt)))) =
      Ok (RVal k, int (length (val_enc (msg_enc env) kt k)))"
    by (rule map_key_read [OF assms(1,2) K(2,5)])
  moreover have "kv_bytes (msg_enc env) kt vt (k, x) \<noteq> []"
    using len by (cases "kv_bytes (msg_enc env) kt vt (k, x)") simp_all
  ultimately have 1: "map_loop fuel env (Some p) kt vt off ?fin kd vd =
      map_loop (Suc (Suc f)) env (Some p) kt vt (off + int (length ?K)) ?fin (RVal k) vd"
    using K by (simp add: f on_buf_def)
  obtain rv where rv: "EntrySizedReader_value (Suc f) env (Some p) vt
        (off + int (length ?K) + int (length (tag_bytes mapEntryValueTag (val_wt vt)))) =
      Ok (rv, int (length (val_enc (msg_enc env) vt x)))"
    "ToStruct_value (\<lambda>m. gmap fst (ToStruct fuel' env m)) rv = Ok (val_norm (normalise env) vt x)"
    using EntryReader_value_enc [OF assms(3) V(2,5), of "Suc f" fuel'] assms(7) fuel len f by auto
  have "?V \<noteq> []" by (simp add: entry_bytes_def val_entry_def)
  then have "map_loop (Suc (Suc f)) env (Some p) kt vt (off + int (length ?K)) ?fin (RVal k) vd = Ok (RVal k, rv)"
    using V rv(1) by (simp add: on_buf_def kv)
  with 1 rv(2) show ?thesis by simp
qed


lemma map_entry_enc:
  assumes "map_key_ok kt" and "val_conf (conforms env) kt k" and "val_conf (conforms env) vt x"
    and r: "reads_at p off (len_bytes (kv_bytes (msg_enc env) kt vt (k, x)))" and "0 < off"
    and fuel: "length (len_bytes (kv_bytes (msg_enc env) kt vt (k, x))) < fuel"
      "length (len_bytes (kv_bytes (msg_enc env) kt vt (k, x))) < fuel'"
    and "parses_ptr env x"
  shows "\<exists>rv. map_entry fuel env (Some p) kt vt off = Ok (RVal k, rv) \<and>
    ToStruct_value (\<lambda>m. gmap fst (ToStruct fuel' env m)) rv = Ok (val_norm (normalise env) vt x)"
proof -
  let ?bs = "kv_bytes (msg_enc env) kt vt (k, x)"
  let ?n = "int (length (VarIntToBytes (of_nat (length ?bs))))"
  have "reads_at p (off + ?n) ?bs" using r reads_at_append2 unfolding len_bytes_def by blast
  then obtain rv where "map_loop fuel env (Some p) kt vt (off + ?n) (off + ?n + int (length ?bs))
        (zero_rval kt) (zero_rval vt) = Ok (RVal k, rv)"
      "ToStruct_value (\<lambda>m. gmap fst (ToStruct fuel' env m)) rv = Ok (val_norm (normalise env) vt x)"
    using map_loop_enc [OF assms(1-3), of p "off + ?n" fuel fuel'] assms fuel
    by (auto simp: len_bytes_def)
  moreover have "go_int (off + ?n) = off + ?n" "go_int (off + ?n + int (length ?bs)) = off + ?n + int (length ?bs)"
    using reads_at_bounds [OF r] \<open>0 < off\<close> by (simp_all add: len_bytes_def)
  ultimately show ?thesis
    using len_bytes_size [OF r] by (simp add: map_entry_def on_buf_def SizedReadVarInt_def)
qed

lemma update_fresh: "k \<notin> fst ` set m \<Longrightarrow> AList.update k v m = m @ [(k, v)]"
  by (induction m) (auto simp: image_iff)

lemma fold_update_distinct:
  "distinct (map fst (m @ es)) \<Longrightarrow> fold (\<lambda>(k, v) m. AList.update k v m) es m = m @ es"
proof (induction es arbitrary: m)
  case (Cons e es)
  then have "AList.update (fst e) (snd e) m = m @ [e]"
    by (subst update_fresh) auto
  with Cons show ?case by (simp add: case_prod_unfold)
qed simp

lemma map_field_enc:
  assumes "map_key_ok kt" and "list_all (\<lambda>(k, x). val_conf (conforms env) kt k \<and> val_conf (conforms env) vt x) kvs"
    and "distinct (map fst kvs)"
    and "es = map (\<lambda>kv. (tag, BytesType, len_bytes (kv_bytes (msg_enc env) kt vt kv))) kvs"
    and "reads_at p off (concat (map entry_bytes es))"
    and "\<And>e. e \<in> set es \<Longrightarrow> length (snd (snd e)) < fuel \<and> length (snd (snd e)) < fuel'"
    and "\<And>k x. (k, x) \<in> set kvs \<Longrightarrow> parses_ptr env x"
  shows "\<exists>r. EntryReader fuel env (Some p) (GoMap kt vt) (Offsets (payload_offsets off es)) = Ok r \<and>
    ToStruct_field (\<lambda>m. gmap fst (ToStruct fuel' env m)) r =
      Ok (VMap (map (\<lambda>(k, x). (k, val_norm (normalise env) vt x)) kvs))"
proof -
  let ?ts = "\<lambda>m. gmap fst (ToStruct fuel' env m)"
  let ?conv = "\<lambda>(k, v). gbind (ToStruct_value ?ts k) (\<lambda>k. gmap (\<lambda>v. (k, v)) (ToStruct_value ?ts v))"
  have "list_all2 (\<lambda>o' kv. \<exists>rv. map_entry fuel env (Some p) kt vt o' = Ok (RVal (fst kv), rv) \<and>
      ToStruct_value ?ts rv = Ok (val_norm (normalise env) vt (snd kv))) (payload_offsets off es) kvs"
  proof (rule list_all2_mono_mem)
    show "list_all2 (\<lambda>o' kv. reads_at p o' (len_bytes (kv_bytes (msg_enc env) kt vt kv)) \<and> 0 < o')
        (payload_offsets off es) kvs"
      using payload_reads [OF assms(5)] by (simp add: assms(4) list_all2_map2)
  next
    fix o' kv
    assume "kv \<in> set kvs" and "reads_at p o' (len_bytes (kv_bytes (msg_enc env) kt vt kv)) \<and> 0 < o'"
    moreover obtain k x where kv: "kv = (k, x)" by (cases kv)
    ultimately have kx: "(k, x) \<in> set kvs" "0 < o'"
        "reads_at p o' (len_bytes (kv_bytes (msg_enc env) kt vt (k, x)))" by simp_all
    then have "(tag, BytesType, len_bytes (kv_bytes (msg_enc env) kt vt (k, x))) \<in> set es"
      by (auto simp: assms(4))
    from assms(6) [OF this] kx assms(2,7) show "\<exists>rv. map_entry fuel env (Some p) kt vt o' = Ok (RVal (fst kv), rv) \<and>
        ToStruct_value ?ts rv = Ok (val_norm (normalise env) vt (snd kv))"
      unfolding kv fst_conv snd_conv list_all_iff by (intro map_entry_enc [OF assms(1)]) auto
  qed
  then have "\<exists>es'. gmapM (map_entry fuel env (Some p) kt vt) (payload_offsets off es) = Ok es' \<and>
      map fst es' = map (\<lambda>kv. RVal (fst kv)) kvs \<and>
      gmapM ?conv es' = Ok (map (\<lambda>(k, x). (k, val_norm (normalise env) vt x)) kvs)"
    by (induction rule: list_all2_induct) (auto simp: case_prod_unfold)
  then obtain es' where es': "gmapM (map_entry fuel env (Some p) kt vt) (payload_offsets off es) = Ok es'"
      "map fst es' = map (\<lambda>kv. RVal (fst kv)) kvs"
      "gmapM ?conv es' = Ok (map (\<lambda>(k, x). (k, val_norm (normalise env) vt x)) kvs)"
    by blast
  have "map (\<lambda>kv. RVal (fst kv)) kvs = map RVal (map fst kvs)" by simp
  then have "distinct (map fst es')"
    unfolding es'(2) using assms(3) by (simp only: distinct_map) (simp add: inj_on_def)
  then have "fold (\<lambda>(k, v) m. AList.update k v m) es' [] = es'"
    using fold_update_distinct [of "[]" es'] by simp
  with es' show ?thesis by simp
qed

lemma parses_ptr_cong: "as_msg x = as_msg y \<Longrightarrow> parses_ptr env x = parses_ptr env y"
  by (simp add: parses_ptr_def)

lemma packed_field_enc:
  assumes "packable t" and "list_all (val_conf (conforms env) t) xs"
    and "es = (if length xs > 1 then [(tag, BytesType, len_bytes (concat (map (val_enc (msg_enc env) t) xs)))]
               else map (val_entry (msg_enc env) t tag) xs)"
    and r: "reads_at p off (concat (map entry_bytes es))"
    and "\<And>e. e \<in> set es \<Longrightarrow> length (snd (snd e)) < fuel"
  shows "EntryReader fuel env (Some p) (GoRepeatedPacked t q)
      (OffsetsTyped (zip (payload_offsets off es) (map (\<lambda>e. fst (snd e)) es))) = Ok (RList (map RVal xs))"
proof -
  consider "length xs > 1" | "xs = []" | x where "xs = [x]" by (cases xs) auto
  then show ?thesis
  proof cases
    case 1
    then have "packed_entries fuel env (Some p) t (hd (payload_offsets off es), BytesType) = Ok (map RVal xs)"
      using assms payload_reads [OF r] by (intro packed_entries_bytes) auto
    with 1 assms(3) show ?thesis by simp
  next
    case 3
    then have "packed_entries fuel env (Some p) t (hd (payload_offsets off es), val_wt t) = Ok [RVal x]"
      using assms payload_reads [OF r] by (intro packed_entries_single) (auto simp: val_entry_def)
    with 3 assms(3) show ?thesis by (simp add: val_entry_def)
  qed (use assms(3) in simp)
qed

lemma packable_norm: "packable t \<Longrightarrow> val_norm mn t v = v"
  by (cases t) simp_all

lemma packable_ToStruct:
  "gmapM (ToStruct_value ts) (map RVal xs) = Ok xs"
  by (induction xs) simp_all

lemma field_read:
  assumes ok: "field_type_ok (field_type f)" and conf: "field_conf (conforms env) (field_type f) v"
    and r: "reads_at p off (concat (map entry_bytes (field_out env f v)))"
    and fuel: "\<And>e. e \<in> set (field_out env f v) \<Longrightarrow> length (snd (snd e)) < fuel \<and> length (snd (snd e)) < fuel'"
    and ptrs: "\<And>x. as_msg x \<in> set (sub_ptrs v) \<Longrightarrow> parses_ptr env x"
  shows "\<exists>r. EntryReader fuel env (Some p) (field_type f)
        (save_own (field_tag f) off (field_out env f v) (OffsetsType (field_type f))) = Ok r \<and>
    ToStruct_field (\<lambda>m. gmap fst (ToStruct fuel' env m)) r = Ok (field_norm (normalise env) (field_type f) v)"
proof -
  let ?es = "field_out env f v"
  have tags: "list_all (\<lambda>e. fst e = field_tag f) ?es"
    by (simp add: field_out_def field_entries_tag)
  note own = save_own_Offsets [OF tags] save_own_OffsetsTyped [OF tags]
  show ?thesis
  proof (cases "field_type f")
    case (GoValue t)
    show ?thesis
    proof (cases "EntryIsNotEmpty_value t v")
      case False
      then have "?es = []" using GoValue by (simp add: field_out_def)
      then show ?thesis using GoValue False by (cases t) simp_all
    next
      case True
      then have es: "?es = [(field_tag f, val_wt t, val_enc (msg_enc env) t v)]"
        using GoValue by (simp add: field_out_def val_entry_def)
      have "length (val_enc (msg_enc env) t v) < fuel \<and> length (val_enc (msg_enc env) t v) < fuel'"
        using fuel by (simp add: es)
      moreover have "val_conf (conforms env) t v" using conf GoValue by simp
      moreover have "parses_ptr env v" by (intro ptrs sub_ptrs_simps)
      ultimately obtain r where
        "EntryReader_value fuel env (Some p) t (off + int (length (tag_bytes (field_tag f) (val_wt t)))) = Ok r"
        "ToStruct_value (\<lambda>m. gmap fst (ToStruct fuel' env m)) r = Ok (val_norm (normalise env) t v)"
        using payload_reads [OF r] EntryReader_value_enc unfolding es by fastforce
      moreover from this(2) have "ToStruct_field (\<lambda>m. gmap fst (ToStruct fuel' env m)) r = Ok (val_norm (normalise env) t v)"
        by (cases r) simp_all
      ultimately show ?thesis using GoValue True es by simp
    qed
  next
    case (GoRepeated t q)
    then obtain xs where v: "v = VList xs" "list_all (val_conf (conforms env) t) xs"
      using conf by (auto split: gval.splits)
    have es: "?es = map (val_entry (msg_enc env) t (field_tag f)) xs"
      using GoRepeated v by (simp add: field_out_def)
    have "\<exists>rs. gmapM (EntryReader_value fuel env (Some p) t) (payload_offsets off ?es) = Ok rs \<and>
        gmapM (ToStruct_value (\<lambda>m. gmap fst (ToStruct fuel' env m))) rs = Ok (map (val_norm (normalise env) t) xs)"
      unfolding es
    proof (rule repeated_enc [OF v(2)])
      show "reads_at p off (concat (map entry_bytes (map (val_entry (msg_enc env) t (field_tag f)) xs)))"
        using r unfolding es .
      show "length (val_enc (msg_enc env) t x) < fuel" "length (val_enc (msg_enc env) t x) < fuel'"
        if "x \<in> set xs" for x
        using fuel [of "val_entry (msg_enc env) t (field_tag f) x"] that by (auto simp: es val_entry_def)
      show "parses_ptr env x" if "x \<in> set xs" for x
        using that v by (intro ptrs sub_ptrs_simps) simp
    qed
    then show ?thesis using GoRepeated v own by auto
  next
    case (GoRepeatedPacked t q)
    then obtain xs where v: "v = VList xs" "list_all (val_conf (conforms env) t) xs"
      using conf by (auto split: gval.splits)
    have es: "?es = (if length xs > 1
        then [(field_tag f, BytesType, len_bytes (concat (map (val_enc (msg_enc env) t) xs)))]
        else map (val_entry (msg_enc env) t (field_tag f)) xs)"
      using GoRepeatedPacked v by (simp add: field_out_def)
    have t: "packable t" using ok GoRepeatedPacked by simp
    have "EntryReader fuel env (Some p) (GoRepeatedPacked t q)
        (OffsetsTyped (zip (payload_offsets off ?es) (map (\<lambda>e. fst (snd e)) ?es))) = Ok (RList (map RVal xs))"
      using fuel by (intro packed_field_enc [OF t v(2) es r]) blast
    moreover have "map (val_norm (normalise env) t) xs = xs"
      by (rule map_idI) (rule packable_norm [OF t])
    ultimately show ?thesis
      using GoRepeatedPacked v own by (simp add: packable_ToStruct)
  next
    case (GoMap kt vt)
    then obtain kvs where v: "v = VMap kvs" "distinct (map fst kvs)"
        "list_all (\<lambda>(k, x). val_conf (conforms env) kt k \<and> val_conf (conforms env) vt x) kvs"
      using conf by (auto split: gval.splits)
    have es: "?es = map (\<lambda>kv. (field_tag f, BytesType, len_bytes (kv_bytes (msg_enc env) kt vt kv))) kvs"
      using GoMap v by (simp add: field_out_def)
    have kt: "map_key_ok kt" using ok GoMap by simp
    have "parses_ptr env x" if "(k, x) \<in> set kvs" for k x
      using that v by (intro ptrs sub_ptrs_simps) auto
    from map_field_enc [OF kt v(3,2) es r fuel this] show ?thesis
      using GoMap v own by simp
  qed
qed



section \<open>Reading a message\<close>

lemma val_skip:
  assumes "reads_at p off (val_enc me t v)"
  shows "SkipData (Suc f) p off (val_wt t) = Ok (off + int (length (val_enc me t v)))"
proof (cases t)
  case (GoBasic s d r)
  with assms show ?thesis
    by (cases s) (auto intro: SkipData_varint SkipData_fixed32 SkipData_fixed64 SkipData_bytes
        simp del: SkipData.simps length_fixed)
qed (use assms in \<open>auto intro: SkipData_varint SkipData_bytes simp del: SkipData.simps\<close>)

definition skippable :: "entry \<Rightarrow> bool" where
  "skippable e \<longleftrightarrow> unat (fst (snd e)) < 8 \<and> tag_ok (fst e) \<and>
     (\<forall>p off f. reads_at p off (snd (snd e)) \<longrightarrow>
       SkipData (Suc f) p off (fst (snd e)) = Ok (off + int (length (snd (snd e)))))"

lemma field_entries_skippable:
  "tag_ok tag \<Longrightarrow> list_all skippable (field_entries me ft tag v)"
  by (cases ft) (auto simp: list_all_iff skippable_def val_entry_def val_wt_small val_skip SkipData_bytes
      simp del: SkipData.simps)

fun save_entries :: "go_field list \<Rightarrow> int \<Rightarrow> entry list \<Rightarrow> foffset list \<Rightarrow> foffset list" where
  "save_entries fs off [] oss = oss"
| "save_entries fs off (e # es) oss =
     save_entries fs (off + int (length (entry_bytes e))) es
       (save_offset fs (fst e) (off + int (length (tag_bytes (fst e) (fst (snd e))))) (fst (snd e)) oss)"

lemma Unmarshal_loop_enc:
  assumes "reads_at p off (concat (map entry_bytes es))"
    and "off + int (length (concat (map entry_bytes es))) = slice_len (rbuf p)"
    and "list_all skippable es" and "length es < fuel"
  shows "Unmarshal_loop fuel fs p off oss = Ok (save_entries fs off es oss, None)"
  using assms
proof (induction es arbitrary: off oss fuel)
  case Nil
  then show ?case
    using reads_at_bounds [OF Nil(1)] by (cases fuel) (simp_all add: HasNext_def)
next
  case (Cons e es)
  then obtain f where fuel: "fuel = Suc f" by (cases fuel) simp_all
  let ?t = "tag_bytes (fst e) (fst (snd e))"
  have r: "reads_at p off (?t @ snd (snd e) @ concat (map entry_bytes es))"
    using Cons.prems(1) by (simp add: entry_bytes_split [of e])
  have "unat (fst (snd e)) < 8" "tag_ok (fst e)" using Cons.prems(3) by (simp_all add: skippable_def)
  then have tag: "ReadTagAt p off = Ok (fst e, fst (snd e), int (length ?t))"
    by (intro ReadTagAt_enc reads_at_append1 [OF r])
  have skip: "SkipData (Suc f) p (off + int (length ?t)) (fst (snd e)) =
      Ok (off + int (length (entry_bytes e)))"
    using Cons.prems(3) reads_at_append1 [OF reads_at_append2 [OF r]]
    by (simp add: skippable_def entry_bytes_split [of e] add.assoc del: SkipData.simps)
  have nxt: "reads_at p (off + int (length (entry_bytes e))) (concat (map entry_bytes es))"
    using reads_at_append2 [of p off "entry_bytes e"] Cons.prems(1) by simp
  have "go_int (off + int (length ?t)) = off + int (length ?t)"
    using reads_at_bounds [OF r] by simp
  moreover have "HasNext p off 0"
    using reads_at_HasNext [OF r, of 0] by simp
  moreover have "Unmarshal_loop f fs p (off + int (length (entry_bytes e))) oss' =
      Ok (save_entries fs (off + int (length (entry_bytes e))) es oss', None)" for oss'
    using Cons.prems fuel by (intro Cons.IH nxt) simp_all
  ultimately show ?case
    using tag skip by (simp add: fuel Let_def del: SkipData.simps)
qed

lemma length_save_offset [simp]: "length (save_offset fs tag off wt oss) = length oss"
  by (induction fs tag off wt oss rule: save_offset.induct) simp_all

lemma save_offset_nth:
  assumes "distinct (map field_tag fs)" and "length oss = length fs" and "i < length fs"
  shows "save_offset fs tag off wt oss ! i =
    (if tag = field_tag (fs ! i) then EntryUnmarshalSaveOffsets (oss ! i) off wt else oss ! i)"
  using assms
proof (induction fs tag off wt oss arbitrary: i rule: save_offset.induct)
  case (1 f fs tag off wt os oss)
  then show ?case by (cases i) (auto simp: nth_mem image_iff)
qed simp_all

lemma save_entries_nth:
  assumes "distinct (map field_tag fs)" and "length oss = length fs" and "i < length fs"
  shows "save_entries fs off es oss ! i = save_own (field_tag (fs ! i)) off es (oss ! i)"
  using assms(2)
  by (induction es arbitrary: off oss) (simp_all add: save_offset_nth assms(1,3))

lemma save_own_append:
  "save_own tag off (a @ b) st =
     save_own tag (off + int (length (concat (map entry_bytes a)))) b (save_own tag off a st)"
  by (induction a arbitrary: off st) (simp_all add: add.assoc)

lemma save_own_other: "\<forall>e\<in>set es. fst e \<noteq> tag \<Longrightarrow> save_own tag off es st = st"
  by (induction es arbitrary: off) simp_all


text \<open>A getter changes the cache of its own field only, so \<^verbatim>\<open>ToStruct\<close> reads every field from the
  saved offsets.\<close>

lemma ToStruct_fields_ok:
  assumes "distinct is"
    and "\<And>i. i \<in> set is \<Longrightarrow> i < length (rparsed m) \<and> rparsed m ! i = None"
    and "\<And>i. i \<in> set is \<Longrightarrow> \<exists>r. EntryReader fuel env (rbuffer m)
      (field_type (struct_fields env (rstruct m) ! i)) (roffsets m ! i) = Ok r \<and> conv r = Ok (g i)"
  shows "gmap fst (ToStruct_fields (read_field fuel env) conv m is) = Ok (map g is)"
  using assms
proof (induction "is" arbitrary: m)
  case (Cons i js)
  obtain r where r: "EntryReader fuel env (rbuffer m)
      (field_type (struct_fields env (rstruct m) ! i)) (roffsets m ! i) = Ok r" "conv r = Ok (g i)"
    using Cons.prems(3) [of i] by auto
  define m' where "m' = MsgReader (rstruct m) (rbuffer m) (roffsets m) ((rparsed m)[i := Some r])"
  have get: "read_field fuel env m i = Ok (r, m')"
    using r(1) Cons.prems(2) [of i] by (simp add: read_field_def m'_def)
  have "gmap fst (ToStruct_fields (read_field fuel env) conv m' js) = Ok (map g js)"
  proof (rule Cons.IH)
    show "distinct js" using Cons.prems(1) by simp
    show "j < length (rparsed m') \<and> rparsed m' ! j = None" if "j \<in> set js" for j
      using that Cons.prems(1,2) by (auto simp: m'_def nth_list_update)
    show "\<exists>r. EntryReader fuel env (rbuffer m') (field_type (struct_fields env (rstruct m') ! j))
        (roffsets m' ! j) = Ok r \<and> conv r = Ok (g j)" if "j \<in> set js" for j
      using that Cons.prems(3) by (simp add: m'_def)
  qed
  then obtain m'' where "ToStruct_fields (read_field fuel env) conv m' js = Ok (map g js, m'')"
    by (auto simp: gmap_Ok_iff)
  with get r(2) show ?case by simp
qed simp

lemma length_le_entries: "length es \<le> length (concat (map entry_bytes es))"
  by (rule concat_length_le) (simp add: entry_bytes_split)

lemma entry_le:
  "e \<in> set es \<Longrightarrow> length (snd (snd e)) < length (concat (map entry_bytes es))"
proof -
  assume "e \<in> set es"
  then obtain a b where "es = a @ e # b" by (auto dest: split_list)
  moreover have "0 < length (tag_bytes (fst e) (fst (snd e)))"
    by (simp only: length_greater_0_conv) simp
  ultimately show ?thesis by (simp add: entry_bytes_split [of e] trans_less_add2 add_less_mono1 del: length_greater_0_conv)
qed

text \<open>Where the entries of the field at position \<open>i\<close> stand, and what its offset field holds.\<close>

lemma field_offsets:
  assumes ok: "struct_ok fs" and len: "length vs = length fs" and i: "i < length fs"
    and es: "es = concat (map (\<lambda>(f, v). field_out env f v) (zip fs vs))"
    and r: "reads_at p 0 (concat (map entry_bytes es))"
  shows "\<exists>off. reads_at p off (concat (map entry_bytes (field_out env (fs ! i) (vs ! i)))) \<and>
    save_entries fs 0 es (map (\<lambda>f. OffsetsType (field_type f)) fs) ! i =
      save_own (field_tag (fs ! i)) off (field_out env (fs ! i) (vs ! i)) (OffsetsType (field_type (fs ! i))) \<and>
    set (field_out env (fs ! i) (vs ! i)) \<subseteq> set es"
proof -
  let ?g = "\<lambda>(f, v). field_out env f v"
  let ?zs = "zip fs vs"
  define a where "a = concat (map ?g (take i ?zs))"
  define b where "b = concat (map ?g (drop (Suc i) ?zs))"
  have zi: "?zs ! i = (fs ! i, vs ! i)" using i len by simp
  have "?zs = take i ?zs @ ?zs ! i # drop (Suc i) ?zs"
    using i len by (intro id_take_nth_drop) simp
  then have split: "es = a @ field_out env (fs ! i) (vs ! i) @ b"
    unfolding es a_def b_def zi by (metis (no_types, lifting) append.assoc case_prod_conv concat.simps(2)
        concat_append list.simps(9) map_append)
  have d: "distinct (map field_tag fs)" using ok by (simp add: struct_ok_def)
  have tag: "e \<in> set (field_out env f v) \<Longrightarrow> fst e = field_tag f" for e f v
    using field_entries_tag [of "field_tag f" "msg_enc env" "field_type f" v]
    by (auto simp: field_out_def list_all_iff split: if_splits)
  have other: "field_tag f \<noteq> field_tag (fs ! i)" if "(f, v) \<in> set (take i ?zs) \<union> set (drop (Suc i) ?zs)" for f v
  proof -
    from that have "f \<in> set (take i fs) \<union> set (drop (Suc i) fs)"
      by (auto simp: take_zip drop_zip dest: set_zip_leftD)
    moreover have "distinct (map field_tag (take i fs @ fs ! i # drop (Suc i) fs))"
      using d id_take_nth_drop [OF i] by simp
    ultimately show ?thesis by (force simp: image_iff)
  qed
  have "\<forall>e\<in>set a. fst e \<noteq> field_tag (fs ! i)" "\<forall>e\<in>set b. fst e \<noteq> field_tag (fs ! i)"
    using other tag by (force simp: a_def b_def)+
  then have "save_own (field_tag (fs ! i)) 0 es st =
      save_own (field_tag (fs ! i)) (int (length (concat (map entry_bytes a)))) (field_out env (fs ! i) (vs ! i)) st" for st
    by (simp add: split save_own_append save_own_other)
  moreover have "reads_at p (int (length (concat (map entry_bytes a))))
      (concat (map entry_bytes (field_out env (fs ! i) (vs ! i))))"
    using reads_at_append1 [OF reads_at_append2] r unfolding split by fastforce
  ultimately show ?thesis
    using i d by (auto simp: save_entries_nth split)
qed


lemma msg_entries_Some:
  "msg_entries env n (Some vs) = concat (map (\<lambda>(f, v). field_out env f v) (zip (struct_fields env n) vs))"
  by (simp add: msg_entries_def)

lemma schema_field_ok:
  assumes "schema_ok env" and "f \<in> set (struct_fields env n)"
  shows "tag_ok (field_tag f)" and "field_type_ok (field_type f)"
  using schema_ok_fields [OF assms(1), of n] assms(2) by (simp_all add: struct_ok_def list_all_iff)

lemma msg_entries_skippable:
  assumes "schema_ok env"
  shows "list_all skippable (msg_entries env n (Some vs))"
  using schema_field_ok(1) [OF assms] field_entries_skippable unfolding msg_entries_Some
  by (fastforce simp: list_all_iff field_out_def split: if_splits dest: set_zip_leftD)

lemma reader_reads_entries:
  assumes "elems data = msg_enc env n m" and "slice_len data < 2 ^ 62"
  shows "reads_at (NewReader data) 0 (concat (map entry_bytes (msg_entries env n m)))"
  using assms
  by (intro reads_atI [where pre = "[]" and post = "[]"]) (simp_all add: NewReader_def msg_enc_entries)

text \<open>The state after \<^verbatim>\<open>Unmarshal\<close> of an encoded message.\<close>

definition unmarshalled :: "schema \<Rightarrow> string \<Rightarrow> gval list \<Rightarrow> slice \<Rightarrow> msg_reader" where
  "unmarshalled env n vs data =
     MsgReader n (Some (NewReader data))
       (save_entries (struct_fields env n) 0 (msg_entries env n (Some vs))
         (map (\<lambda>f. OffsetsType (field_type f)) (struct_fields env n)))
       (map (\<lambda>f. None) (struct_fields env n))"

lemma Unmarshal_enc:
  assumes "schema_ok env" and d: "elems data = msg_enc env n (Some vs)" and "slice_len data < 2 ^ 62"
    and "length (elems data) < fuel"
  shows "Unmarshal fuel env (NewMsgReader env n) data = Ok (unmarshalled env n vs data, None)"
proof -
  let ?es = "msg_entries env n (Some vs)"
  have "Unmarshal_loop fuel (struct_fields env n) (NewReader data) 0 oss =
      Ok (save_entries (struct_fields env n) 0 ?es oss, None)" for oss
    using assms length_le_entries [of ?es] msg_entries_skippable [OF assms(1), of n vs] msg_enc_entries [of env n "Some vs"]
    by (intro Unmarshal_loop_enc reader_reads_entries) (simp_all add: NewReader_def slice_len_def)
  then show ?thesis by (simp add: Unmarshal_def NewMsgReader_def unmarshalled_def)
qed

lemma ToStruct_enc:
  assumes schema: "schema_ok env" and conf: "conforms env n (Some vs)"
    and d: "elems data = msg_enc env n (Some vs)" "slice_len data < 2 ^ 62" and fuel: "length (elems data) \<le> g"
    and ptrs: "\<And>f v x. (f, v) \<in> set (zip (struct_fields env n) vs) \<Longrightarrow> as_msg x \<in> set (sub_ptrs v) \<Longrightarrow>
      parses_ptr env x"
  shows "gmap fst (ToStruct (Suc g) env (unmarshalled env n vs data)) = Ok (norm_fields env n vs)"
proof -
  let ?fs = "struct_fields env n"
  let ?es = "msg_entries env n (Some vs)"
  have len: "length vs = length ?fs" using conf by (simp add: conforms.simps)
  have "gmap fst (ToStruct (Suc g) env (unmarshalled env n vs data)) =
      Ok (map (\<lambda>i. field_norm (normalise env) (field_type (?fs ! i)) (vs ! i)) [0..<length ?fs])"
    unfolding ToStruct.simps unmarshalled_def msg_reader.sel
  proof (intro ToStruct_fields_ok, unfold msg_reader.sel)
    fix i assume "i \<in> set [0..<length ?fs]"
    then have i: "i < length ?fs" by simp
    then have z: "(?fs ! i, vs ! i) \<in> set (zip ?fs vs)"
      using len by (metis in_set_zip fst_conv snd_conv)
    from field_offsets [OF schema_ok_fields [OF schema] len i msg_entries_Some reader_reads_entries [OF d]]
    obtain off where
      o: "reads_at (NewReader data) off (concat (map entry_bytes (field_out env (?fs ! i) (vs ! i))))"
        "save_entries ?fs 0 ?es (map (\<lambda>f. OffsetsType (field_type f)) ?fs) ! i = save_own (field_tag (?fs ! i)) off
          (field_out env (?fs ! i) (vs ! i)) (OffsetsType (field_type (?fs ! i)))"
        "set (field_out env (?fs ! i) (vs ! i)) \<subseteq> set ?es" by blast
    have "length (snd (snd e)) < g" if "e \<in> set (field_out env (?fs ! i) (vs ! i))" for e
      using entry_le [of e ?es] that o(3) fuel d(1) msg_enc_entries [of env n "Some vs"] by fastforce
    moreover have "field_conf (conforms env) (field_type (?fs ! i)) (vs ! i)"
      using conf z by (auto simp: conforms.simps list_all_iff)
    ultimately show "\<exists>r. EntryReader g env (Some (NewReader data)) (field_type (?fs ! i))
        (save_entries ?fs 0 ?es (map (\<lambda>f. OffsetsType (field_type f)) ?fs) ! i) = Ok r \<and>
        ToStruct_field (\<lambda>m. gmap fst (ToStruct g env m)) r =
          Ok (field_norm (normalise env) (field_type (?fs ! i)) (vs ! i))"
      using field_read [OF schema_field_ok(2) [OF schema] _ o(1), of n g g] i ptrs [OF z] o(2) by simp
  qed simp_all
  also have "map (\<lambda>i. field_norm (normalise env) (field_type (?fs ! i)) (vs ! i)) [0..<length ?fs] =
      norm_fields env n vs"
    using len by (intro nth_equalityI) (simp_all add: norm_fields_def)
  finally show ?thesis .
qed

lemma parses_all:
  assumes "schema_ok env"
  shows "conforms env n (Some vs) \<Longrightarrow> parses env n vs"
proof (induction "ptr_size (Some vs)" arbitrary: n vs rule: less_induct)
  case less
  have ptrs: "parses_ptr env x"
    if "(f, v) \<in> set (zip (struct_fields env n) vs)" "as_msg x \<in> set (sub_ptrs v)" for f v x
    unfolding parses_ptr_def
    using that by (auto intro!: less.hyps dest: field_ptr_size simp del: ptr_size.simps)
  show ?case
    unfolding parses_def
  proof (intro allI impI)
    fix data fuel fuel'
    assume d: "elems data = msg_enc env n (Some vs)" "slice_len data < 2 ^ 62"
      and fuel: "length (elems data) < fuel" "length (elems data) < fuel'"
    then obtain g where g: "fuel' = Suc g" "length (elems data) \<le> g" by (cases fuel') simp_all
    have "gmap fst (ToStruct fuel' env (unmarshalled env n vs data)) = Ok (norm_fields env n vs)"
      unfolding g(1) by (rule ToStruct_enc [OF assms less.prems d g(2)]) (rule ptrs)
    then show "\<exists>m'. Unmarshal fuel env (NewMsgReader env n) data = Ok (m', None) \<and>
        gmap fst (ToStruct fuel' env m') = Ok (norm_fields env n vs)"
      using Unmarshal_enc [OF assms d fuel(1)] by blast
  qed
qed

end
