(* ===== verification/Message_Getters.thy ===== *)
theory Message_Getters
  imports Message_Read
begin

text \<open>
  The getters of a generated reader one by one: after \<^verbatim>\<open>Unmarshal\<close> of an encoded message, the
  getter of a scalar field returns the field's value and the getter of a nested message returns
  its reader. Code that reads single fields of a message, as the drivers do, rests on these.
\<close>

section \<open>Getters\<close>

text \<open>Where the entry of a value field stands in the buffer.\<close>

lemma value_field_offset:
  assumes schema: "schema_ok env" and len: "length vs = length (struct_fields env n)"
    and d: "elems data = msg_enc env n (Some vs)" "slice_len data < 2 ^ 62"
    and i: "i < length (struct_fields env n)" and t: "field_type (struct_fields env n ! i) = GoValue t"
  shows "if EntryIsNotEmpty_value t (vs ! i)
    then \<exists>off. roffsets (unmarshalled env n vs data) ! i = Offset off \<and> 0 < off \<and>
      reads_at (NewReader data) off (val_enc (msg_enc env) t (vs ! i)) \<and>
      length (val_enc (msg_enc env) t (vs ! i)) < length (elems data)
    else roffsets (unmarshalled env n vs data) ! i = Offset 0"
proof -
  let ?f = "struct_fields env n ! i"
  let ?es = "msg_entries env n (Some vs)"
  from field_offsets [OF schema_ok_fields [OF schema] len i msg_entries_Some reader_reads_entries [OF d]]
  obtain off where
    o: "reads_at (NewReader data) off (concat (map entry_bytes (field_out env ?f (vs ! i))))"
      "roffsets (unmarshalled env n vs data) ! i =
        save_own (field_tag ?f) off (field_out env ?f (vs ! i)) (OffsetsType (field_type ?f))"
      "set (field_out env ?f (vs ! i)) \<subseteq> set ?es"
    by (auto simp: unmarshalled_def)
  show ?thesis
  proof (cases "EntryIsNotEmpty_value t (vs ! i)")
    case True
    then have es: "field_out env ?f (vs ! i) = [(field_tag ?f, val_wt t, val_enc (msg_enc env) t (vs ! i))]"
      using t by (simp add: field_out_def val_entry_def)
    have "length (val_enc (msg_enc env) t (vs ! i)) < length (elems data)"
      using entry_le [of "(field_tag ?f, val_wt t, val_enc (msg_enc env) t (vs ! i))" ?es] o(3) d(1)
        msg_enc_entries [of env n "Some vs"] by (simp add: es)
    with True o(2) payload_reads [OF o(1)] t show ?thesis by (simp add: es)
  next
    case False
    then have "field_out env ?f (vs ! i) = []" using t by (simp add: field_out_def)
    with False o(2) t show ?thesis by simp
  qed
qed

lemma basic_field_getter:
  assumes "schema_ok env" and conf: "conforms env n (Some vs)"
    and "elems data = msg_enc env n (Some vs)" and "slice_len data < 2 ^ 62"
    and i: "i < length (struct_fields env n)" and t: "field_type (struct_fields env n ! i) = GoValue t"
    and basic: "case t of GoStruct s r \<Rightarrow> False | _ \<Rightarrow> True"
  shows "EntryReader fuel env (Some (NewReader data)) (GoValue t) (roffsets (unmarshalled env n vs data) ! i) =
    Ok (RVal (field_norm (normalise env) (GoValue t) (vs ! i)))"
proof -
  have len: "length vs = length (struct_fields env n)" using conf by (simp add: conforms.simps)
  then have "(struct_fields env n ! i, vs ! i) \<in> set (zip (struct_fields env n) vs)"
    using i by (metis in_set_zip fst_conv snd_conv)
  then have c: "val_conf (conforms env) t (vs ! i)"
    using conf t by (auto simp: conforms.simps list_all_iff)
  note off = value_field_offset [OF assms(1) len assms(3,4) i t]
  show ?thesis
  proof (cases "EntryIsNotEmpty_value t (vs ! i)")
    case True
    with off obtain off where o: "roffsets (unmarshalled env n vs data) ! i = Offset off" "0 < off"
        "reads_at (NewReader data) off (val_enc (msg_enc env) t (vs ! i))" by auto
    show ?thesis
    proof (cases t)
      case (GoBasic s d r)
      then show ?thesis
        using o c True readers_enc [of s "vs ! i" "NewReader data" off] by (simp add: on_buf_def)
    next
      case (GoEnum d r)
      then obtain w where "vs ! i = V32 w" using c by (auto split: gval.splits)
      then show ?thesis
        using GoEnum o True w_int32.read_enc [of "NewReader data" off w] by (simp add: on_buf_def)
    qed (use basic in simp)
  next
    case False
    with off basic show ?thesis by (cases t) simp_all
  qed
qed

lemma struct_field_getter:
  assumes schema: "schema_ok env" and conf: "conforms env n (Some vs)"
    and d: "elems data = msg_enc env n (Some vs)" "slice_len data < 2 ^ 62"
    and i: "i < length (struct_fields env n)" and t: "field_type (struct_fields env n ! i) = GoValue (GoStruct sn False)"
    and fuel: "length (elems data) \<le> fuel"
  shows "case normalise env sn (as_msg (vs ! i)) of
      None \<Rightarrow> EntryReader fuel env (Some (NewReader data)) (GoValue (GoStruct sn False))
        (roffsets (unmarshalled env n vs data) ! i) = Ok (RMsg None)
    | Some _ \<Rightarrow> \<exists>ws sub. as_msg (vs ! i) = Some ws \<and> conforms env sn (Some ws) \<and>
        elems sub = msg_enc env sn (Some ws) \<and> length (elems sub) < length (elems data) \<and>
        EntryReader fuel env (Some (NewReader data)) (GoValue (GoStruct sn False))
          (roffsets (unmarshalled env n vs data) ! i) = Ok (RMsg (Some (unmarshalled env sn ws sub)))"
proof -
  have len: "length vs = length (struct_fields env n)" using conf by (simp add: conforms.simps)
  then have "(struct_fields env n ! i, vs ! i) \<in> set (zip (struct_fields env n) vs)"
    using i by (metis in_set_zip fst_conv snd_conv)
  then have c: "val_conf (conforms env) (GoStruct sn False) (vs ! i)"
    using conf t by (auto simp: conforms.simps list_all_iff)
  note off = value_field_offset [OF schema len d i t]
  show ?thesis
  proof (cases "as_msg (vs ! i)")
    case None
    with off c show ?thesis by (auto simp: normalise.simps split: gval.splits)
  next
    case (Some ws)
    then have v: "vs ! i = VMsg (Some ws)" using c by (auto split: gval.splits)
    with off obtain off where o: "roffsets (unmarshalled env n vs data) ! i = Offset off" "0 < off"
        "reads_at (NewReader data) off (len_bytes (msg_enc env sn (Some ws)))"
        "length (len_bytes (msg_enc env sn (Some ws))) < length (elems data)" by auto
    obtain sub where sub: "ReadBytes (NewReader data) off = Ok sub" "elems sub = msg_enc env sn (Some ws)"
      using SizedReadBytes_enc [OF o(3)] by auto
    have lt: "length (elems sub) < length (elems data)" using o(4) sub(2) by (simp add: len_bytes_def)
    have u: "Unmarshal fuel env (NewMsgReader env sn) sub = Ok (unmarshalled env sn ws sub, None)"
      using lt d(2) fuel by (intro Unmarshal_enc [OF schema sub(2)]) (simp_all add: slice_len_def)
    show ?thesis
      using Some v c o(1,2) sub u lt
      by (auto simp: normalise_Some on_buf_def read_struct_def slice_len_def)
  qed
qed

text \<open>The getter itself: it reads from the saved offsets where nothing is cached yet and leaves the
  other fields of the reader alone.\<close>

lemma read_field_fresh:
  assumes "rparsed m ! i = None"
    and "EntryReader fuel env (rbuffer m) (field_type (struct_fields env (rstruct m) ! i)) (roffsets m ! i) = Ok r"
  shows "read_field fuel env m i =
    Ok (r, MsgReader (rstruct m) (rbuffer m) (roffsets m) ((rparsed m)[i := Some r]))"
  using assms by (simp add: read_field_def)

lemma unmarshalled_sel [simp]:
  "rstruct (unmarshalled env n vs data) = n"
  "rbuffer (unmarshalled env n vs data) = Some (NewReader data)"
  "i < length (struct_fields env n) \<Longrightarrow> rparsed (unmarshalled env n vs data) ! i = None"
  "length (rparsed (unmarshalled env n vs data)) = length (struct_fields env n)"
  by (simp_all add: unmarshalled_def)


text \<open>The round trip of a whole message, for the clients of the codec.\<close>

lemma Marshal_roundtrip:
  assumes "schema_ok env" and "conforms env n (Some vs)"
    and "int (XXX_PbContentSize env n (Some vs)) < 2 ^ 62"
    and "XXX_PbContentSize env n (Some vs) < fuel"
  shows "\<exists>bs m. Marshal env n (Some vs) = Some bs \<and>
    Unmarshal fuel env (NewMsgReader env n) (slice_of bs) = Ok (m, None) \<and>
    gmap fst (ToStruct fuel env m) = Ok (norm_fields env n vs)"
proof -
  have "\<exists>m. Unmarshal fuel env (NewMsgReader env n) (slice_of (msg_enc env n (Some vs))) = Ok (m, None) \<and>
      gmap fst (ToStruct fuel env m) = Ok (norm_fields env n vs)"
    using parses_all [OF assms(1,2)] assms(3,4) XXX_PbContentSize_length [of env n "Some vs"]
    unfolding parses_def by (simp add: slice_of_def slice_len_def)
  then show ?thesis using Marshal_enc [OF assms(1), of n "Some vs"] by blast
qed


section \<open>Readers with cached values\<close>

definition encodes :: "schema \<Rightarrow> string \<Rightarrow> gval list \<Rightarrow> slice \<Rightarrow> bool" where
  "encodes env n vs data \<longleftrightarrow>
     schema_ok env \<and> conforms env n (Some vs) \<and> elems data = msg_enc env n (Some vs) \<and> slice_len data < 2 ^ 62"

text \<open>What the getter of a field reads where nothing is cached.\<close>

definition fresh_value :: "nat \<Rightarrow> schema \<Rightarrow> string \<Rightarrow> gval list \<Rightarrow> slice \<Rightarrow> nat \<Rightarrow> (wire_err, rval) gres" where
  "fresh_value fuel env n vs data i =
     EntryReader fuel env (Some (NewReader data)) (field_type (struct_fields env n ! i)) (roffsets (unmarshalled env n vs data) ! i)"

text \<open>A reader of an encoded message after any number of getter calls.\<close>

definition views :: "nat \<Rightarrow> schema \<Rightarrow> string \<Rightarrow> gval list \<Rightarrow> slice \<Rightarrow> msg_reader \<Rightarrow> bool" where
  "views fuel env n vs data m \<longleftrightarrow>
     rstruct m = n \<and> rbuffer m = Some (NewReader data) \<and> roffsets m = roffsets (unmarshalled env n vs data) \<and>
     length (rparsed m) = length (struct_fields env n) \<and>
     (\<forall>i < length (struct_fields env n). \<forall>r. rparsed m ! i = Some r \<longrightarrow> fresh_value fuel env n vs data i = Ok r)"

lemma views_unmarshalled: "views fuel env n vs data (unmarshalled env n vs data)"
  by (simp add: views_def)

lemma views_read:
  assumes "views fuel env n vs data m" and "i < length (struct_fields env n)" and "fresh_value fuel env n vs data i = Ok r"
  shows "\<exists>m'. read_field fuel env m i = Ok (r, m') \<and> views fuel env n vs data m'"
proof (cases "rparsed m ! i")
  case None
  then have "read_field fuel env m i = Ok (r, MsgReader (rstruct m) (rbuffer m) (roffsets m) ((rparsed m)[i := Some r]))"
    using assms by (intro read_field_fresh) (simp_all add: views_def fresh_value_def)
  moreover have "views fuel env n vs data (MsgReader (rstruct m) (rbuffer m) (roffsets m) ((rparsed m)[i := Some r]))"
    using assms by (auto simp: views_def nth_list_update)
  ultimately show ?thesis by blast
next
  case (Some r')
  then have "r' = r" using assms by (auto simp: views_def)
  with Some assms(1) show ?thesis by (simp add: read_field_def)
qed

definition basic_field :: "go_field \<Rightarrow> bool" where
  "basic_field f = (case field_type f of GoValue (GoBasic s d r) \<Rightarrow> True | GoValue (GoEnum d r) \<Rightarrow> True | _ \<Rightarrow> False)"

definition field_value :: "schema \<Rightarrow> string \<Rightarrow> gval list \<Rightarrow> nat \<Rightarrow> gval" where
  "field_value env n vs i = field_norm (normalise env) (field_type (struct_fields env n ! i)) (vs ! i)"

lemma views_basic:
  assumes "encodes env n vs data" and "views fuel env n vs data m" and "i < length (struct_fields env n)"
    and "basic_field (struct_fields env n ! i)"
  shows "\<exists>m'. read_field fuel env m i = Ok (RVal (field_value env n vs i), m') \<and> views fuel env n vs data m'"
proof (rule views_read [OF assms(2,3)])
  obtain t where t: "field_type (struct_fields env n ! i) = GoValue t" "case t of GoStruct s r \<Rightarrow> False | _ \<Rightarrow> True"
    using assms(4) by (auto simp: basic_field_def split: go_field_type.splits go_value_type.splits)
  from assms(1) basic_field_getter [of env n vs data i t fuel] t assms(3)
  show "fresh_value fuel env n vs data i = Ok (RVal (field_value env n vs i))"
    by (simp add: encodes_def fresh_value_def field_value_def)
qed

text \<open>A nested message, empty ones being nil.\<close>

lemma views_struct:
  assumes "encodes env n vs data" and "views fuel env n vs data m" and "i < length (struct_fields env n)"
    and "field_type (struct_fields env n ! i) = GoValue (GoStruct sn False)" and "length (elems data) \<le> fuel"
  shows "\<exists>m'. views fuel env n vs data m' \<and>
    (case as_msg (vs ! i) of
       None \<Rightarrow> read_field fuel env m i = Ok (RMsg None, m')
     | Some ws \<Rightarrow>
         if XXX_PbContentSize env sn (Some ws) = 0 then read_field fuel env m i = Ok (RMsg None, m')
         else \<exists>sub. encodes env sn ws sub \<and> length (elems sub) < length (elems data) \<and>
           read_field fuel env m i = Ok (RMsg (Some (unmarshalled env sn ws sub)), m'))"
proof -
  have e: "schema_ok env" "conforms env n (Some vs)" "elems data = msg_enc env n (Some vs)" "slice_len data < 2 ^ 62"
    using assms(1) by (simp_all add: encodes_def)
  note g = struct_field_getter [OF e assms(3,4,5)]
  show ?thesis
  proof (cases "normalise env sn (as_msg (vs ! i))")
    case None
    with g assms(4) have "fresh_value fuel env n vs data i = Ok (RMsg None)" by (simp add: fresh_value_def)
    from views_read [OF assms(2,3) this] None show ?thesis by (auto simp: normalise.simps split: option.splits if_splits)
  next
    case (Some a)
    with g assms(4) obtain ws sub where ws: "as_msg (vs ! i) = Some ws" "conforms env sn (Some ws)"
        "elems sub = msg_enc env sn (Some ws)" "length (elems sub) < length (elems data)"
        "fresh_value fuel env n vs data i = Ok (RMsg (Some (unmarshalled env sn ws sub)))" by (auto simp: fresh_value_def)
    moreover have "XXX_PbContentSize env sn (Some ws) \<noteq> 0" using Some ws(1) by (auto simp: normalise.simps split: if_splits)
    moreover have "encodes env sn ws sub" using ws(2-4) e(1,4) by (simp add: encodes_def slice_len_def)
    moreover obtain m' where "read_field fuel env m i = Ok (RMsg (Some (unmarshalled env sn ws sub)), m')"
        "views fuel env n vs data m'"
      using views_read [OF assms(2,3) ws(5)] by blast
    ultimately show ?thesis by (intro exI [of _ m']) auto
  qed
qed

end
