(* ===== verification/Message_Canonical.thy ===== *)
theory Message_Canonical
  imports Message_Getters
begin

text \<open>
  What a round trip keeps of a message, said without the generated code: every value stays the same,
  but a float that compares equal to its default becomes the default, and a nested message all of
  whose fields have their default becomes nil. The theorem \<open>norm_canonical\<close> shows that this is what the
  generated emptiness tests and sizes amount to.
\<close>

section \<open>Canonical messages\<close>

definition is_float :: "scalar \<Rightarrow> bool" where
  "is_float s \<longleftrightarrow> s = PFloat \<or> s = PDouble"

text \<open>Equality of values: as floats for the two float types, of the value itself otherwise.\<close>

definition same_number :: "scalar \<Rightarrow> gval \<Rightarrow> gval \<Rightarrow> bool" where
  "same_number s v w \<longleftrightarrow> (if is_float s then go_eq s v w else v = w)"

fun value_at_default :: "go_value_type \<Rightarrow> gval \<Rightarrow> bool" where
  "value_at_default (GoBasic s d r) v \<longleftrightarrow> \<not> r \<and> same_number s v (case d of None \<Rightarrow> zero_value s | Some w \<Rightarrow> w)"
| "value_at_default (GoEnum d r) v \<longleftrightarrow> \<not> r \<and> v = V32 (case d of None \<Rightarrow> 0 | Some w \<Rightarrow> w)"
| "value_at_default (GoStruct n r) v \<longleftrightarrow> \<not> r \<and> v = VMsg None"

fun field_at_default :: "go_field_type \<Rightarrow> gval \<Rightarrow> bool" where
  "field_at_default (GoValue t) v \<longleftrightarrow> value_at_default t v"
| "field_at_default (GoRepeated t r) v \<longleftrightarrow> v = VList []"
| "field_at_default (GoRepeatedPacked t r) v \<longleftrightarrow> v = VList []"
| "field_at_default (GoMap kt vt) v \<longleftrightarrow> v = VMap []"

fun field_canon :: "msg_map \<Rightarrow> go_field_type \<Rightarrow> gval \<Rightarrow> gval" where
  "field_canon mc (GoValue (GoBasic s d r)) v =
     (if is_float s \<and> value_at_default (GoBasic s d r) v then (case d of None \<Rightarrow> zero_value s | Some w \<Rightarrow> w) else v)"
| "field_canon mc (GoValue t) v = val_norm mc t v"
| "field_canon mc (GoRepeated t r) v = VList (map (val_norm mc t) (as_list v))"
| "field_canon mc (GoRepeatedPacked t r) v = VList (map (val_norm mc t) (as_list v))"
| "field_canon mc (GoMap kt vt) v = VMap (map (\<lambda>(k, x). (k, val_norm mc vt x)) (as_map v))"

lemma field_canon_cong [fundef_cong]:
  assumes "ft = ft'" and "v = v'" and "\<And>n m. m \<in> set (sub_ptrs v') \<Longrightarrow> mn n m = mn' n m"
  shows "field_canon mn ft v = field_canon mn' ft' v'"
proof -
  have eq: "field_norm mn ft' v' = field_norm mn' ft' v'" using field_norm_cong [OF refl refl, of v' mn mn' ft'] assms(3) by blast
  show ?thesis
  proof (cases ft')
    case (GoValue t)
    have "val_norm mn t v' = val_norm mn' t v'" using assms(3) [OF sub_ptrs_simps(1)] by (cases t) auto
    then show ?thesis unfolding assms(1,2) GoValue by (cases t) auto
  qed (use eq assms(1,2) in auto)
qed

function canonical :: "schema \<Rightarrow> string \<Rightarrow> gval list option \<Rightarrow> gval list option" where
  "canonical env n None = None"
| "canonical env n (Some vs) =
     (if list_all (\<lambda>(f, v). field_at_default (field_type f) v) (zip (struct_fields env n) vs) then None
      else Some (map (\<lambda>(f, v). field_canon (canonical env) (field_type f) v) (zip (struct_fields env n) vs)))"
  by pat_completeness auto
termination
  by (relation "measure (\<lambda>(env, n, m). ptr_size m)") (auto dest: field_ptr_size simp del: ptr_size.simps)

declare canonical.simps [simp del]

definition canonical_fields :: "schema \<Rightarrow> string \<Rightarrow> gval list \<Rightarrow> gval list" where
  "canonical_fields env n vs =
     map (\<lambda>(f, v). field_canon (canonical env) (field_type f) v) (zip (struct_fields env n) vs)"


section \<open>The generated code gives the canonical message\<close>

lemma value_empty_iff: "val_conf mc t v \<Longrightarrow> EntryIsNotEmpty_value t v \<longleftrightarrow> \<not> value_at_default t v"
proof (cases t)
  case (GoBasic s d r)
  assume "val_conf mc t v"
  then show ?thesis unfolding GoBasic
    by (cases s; cases d) (auto simp: same_number_def is_float_def split: gval.splits)
qed (auto split: gval.splits)

lemma size_varint_pos: "0 < SizeVarInt x"
  by (simp add: SizeVarInt_def)

lemma size_tag_pos: "0 < SizeTag tag" "0 < SizeUint64 x"
  by (simp_all add: SizeTag_def SizeUint64_def Let_def size_varint_pos)

lemma value_size_pos: "0 < FullSizeWithTag_value csize t tag v"
  by (cases t) (simp_all add: Let_def size_tag_pos)

lemma field_size_zero:
  "field_conf mc ft v \<Longrightarrow> (if EntryIsNotEmpty ft v then EntryFullSizeWithTag csize ft tag v else 0) = 0 \<longleftrightarrow> field_at_default ft v"
proof (cases ft)
  case (GoValue t)
  assume "field_conf mc ft v"
  then show ?thesis using value_empty_iff [of mc t v] value_size_pos [of csize t tag v] by (simp add: GoValue)
next
  case (GoRepeated t r)
  assume "field_conf mc ft v"
  then obtain xs where "v = VList xs" by (auto simp: GoRepeated split: gval.splits)
  then show ?thesis using value_size_pos [of csize t tag] by (cases xs) (auto simp: GoRepeated)
next
  case (GoRepeatedPacked t r)
  assume "field_conf mc ft v"
  then obtain xs where "v = VList xs" by (auto simp: GoRepeatedPacked split: gval.splits)
  then show ?thesis using value_size_pos [of csize t tag] size_tag_pos by (cases xs) (auto simp: GoRepeatedPacked Let_def)
next
  case (GoMap kt vt)
  assume "field_conf mc ft v"
  then obtain kvs where "v = VMap kvs" by (auto simp: GoMap split: gval.splits)
  moreover have "FullSizeWithTag_value csize kt mapEntryKeyTag k \<noteq> 0" for k using value_size_pos by simp
  ultimately show ?thesis by (cases kvs) (auto simp: GoMap Let_def)
qed

lemma val_norm_eq:
  assumes "val_conf (conforms env) t v" and "\<And>n m. m = as_msg v \<Longrightarrow> conforms env n m \<Longrightarrow> mn n m = cn n m"
  shows "val_norm mn t v = val_norm cn t v"
  using assms by (cases t) (auto split: gval.splits)

lemma list_norm_eq:
  assumes "\<And>n m. m \<in> set (sub_ptrs v) \<Longrightarrow> conforms env n m \<Longrightarrow> mn n m = cn n m" and "list_all (val_conf (conforms env) t) (as_list v)"
  shows "map (val_norm mn t) (as_list v) = map (val_norm cn t) (as_list v)"
  using assms(2) assms(1) [OF sub_ptrs_simps(2)] by (auto simp: list_all_iff intro!: val_norm_eq [of env])

lemma field_norm_canon:
  assumes "field_conf (conforms env) ft v"
    and eq: "\<And>n m. m \<in> set (sub_ptrs v) \<Longrightarrow> conforms env n m \<Longrightarrow> mn n m = cn n m"
    and "\<And>n. cn n None = None"
  shows "field_norm mn ft v = field_canon cn ft v"
proof (cases ft)
  case (GoValue t)
  then have conf: "val_conf (conforms env) t v" using assms(1) by simp
  have norm: "val_norm mn t v = val_norm cn t v"
    using val_norm_eq [OF conf] eq [OF sub_ptrs_simps(1)] by blast
  show ?thesis
  proof (cases t)
    case (GoBasic s d r)
    then show ?thesis using value_empty_iff [OF conf] GoValue
      by (auto simp: same_number_def split: option.splits)
  next
    case (GoEnum d r)
    then show ?thesis using value_empty_iff [OF conf] GoValue norm by (auto split: option.splits)
  next
    case (GoStruct n r)
    then show ?thesis using value_empty_iff [OF conf] GoValue norm assms(3) by auto
  qed
next
  case (GoMap kt vt)
  then obtain kvs where v: "v = VMap kvs" "\<forall>(k, x) \<in> set kvs. val_conf (conforms env) vt x"
    using assms(1) by (auto simp: list_all_iff split: gval.splits)
  have "val_norm mn vt x = val_norm cn vt x" if "(k, x) \<in> set kvs" for k x
  proof (rule val_norm_eq)
    show "val_conf (conforms env) vt x" using v that by blast
    fix n m assume "m = as_msg x" "conforms env n m"
    then show "mn n m = cn n m" using eq [OF sub_ptrs_simps(4) [of k x v]] that v(1) by simp
  qed
  then show ?thesis by (auto simp: GoMap v)
qed (use assms list_norm_eq [of v env mn cn] in \<open>auto split: gval.splits\<close>)

lemma conforms_field:
  "conforms env n (Some vs) \<Longrightarrow> (f, v) \<in> set (zip (struct_fields env n) vs) \<Longrightarrow> field_conf (conforms env) (field_type f) v"
  by (auto simp: conforms.simps list_all_iff)

lemma content_size_zero:
  assumes "conforms env n (Some vs)"
  shows "XXX_PbContentSize env n (Some vs) = 0 \<longleftrightarrow>
    list_all (\<lambda>(f, v). field_at_default (field_type f) v) (zip (struct_fields env n) vs)"
proof -
  have "(case x of (f, v) \<Rightarrow> if EntryIsNotEmpty (field_type f) v
      then EntryFullSizeWithTag (XXX_PbContentSize env) (field_type f) (field_tag f) v else 0) = 0 \<longleftrightarrow>
      (case x of (f, v) \<Rightarrow> field_at_default (field_type f) v)" if "x \<in> set (zip (struct_fields env n) vs)" for x
  proof -
    obtain f v where x: "x = (f, v)" by force
    show ?thesis using field_size_zero [OF conforms_field [OF assms], of f v] that by (simp add: x del: in_set_zip)
  qed
  then show ?thesis by (auto simp: list_all_iff XXX_PbContentSize.simps(2))
qed

theorem norm_canonical: "conforms env n m \<Longrightarrow> normalise env n m = canonical env n m"
proof (induction env n m rule: canonical.induct)
  case (1 env n)
  show ?case by (simp add: canonical.simps normalise.simps)
next
  case (2 env n vs)
  show ?case
  proof (cases "list_all (\<lambda>(f, v). field_at_default (field_type f) v) (zip (struct_fields env n) vs)")
    case False
    have IH: "normalise env n' m = canonical env n' m"
      if "(f, v) \<in> set (zip (struct_fields env n) vs)" "m \<in> set (sub_ptrs v)" "conforms env n' m" for f v m n'
      using 2 False that by simp
    have "field_norm (normalise env) (field_type f) v = field_canon (canonical env) (field_type f) v"
      if "(f, v) \<in> set (zip (struct_fields env n) vs)" for f v
      using field_norm_canon [OF conforms_field [OF 2(2) that]] IH [OF that] by (simp add: canonical.simps)
    then show ?thesis using content_size_zero [OF 2(2)] False by (auto simp: normalise.simps canonical.simps)
  qed (use content_size_zero [OF 2(2)] in \<open>simp add: normalise.simps canonical.simps\<close>)
qed

lemma norm_fields_canonical:
  assumes "conforms env n (Some vs)"
  shows "norm_fields env n vs = canonical_fields env n vs"
  unfolding norm_fields_def canonical_fields_def
  by (auto intro!: field_norm_canon [OF conforms_field [OF assms]] norm_canonical simp: canonical.simps)

end
