(* ===== verification/Message_Copy.thy ===== *)
theory Message_Copy
  imports Message_Canonical
begin

text \<open>
  The \<^verbatim>\<open>Copy\<close> method of the generated structs. A nested message is copied, a list of messages and a map get
  a new slice or map, and every other value is assigned. On values a copy is the message itself,
  which is what the theorem shows for every well-typed message; a copy shares the bytes and the
  scalar lists with its source, so that writing into one changes the other.
\<close>

fun JsonStructCanBeUsedDirectly :: "go_value_type \<Rightarrow> bool" where
  "JsonStructCanBeUsedDirectly (GoStruct n r) = False"
| "JsonStructCanBeUsedDirectly t = True"

fun value_EntryCopy :: "msg_map \<Rightarrow> go_value_type \<Rightarrow> gval \<Rightarrow> gval" where
  "value_EntryCopy cp (GoStruct n r) v = (if as_msg v \<noteq> None then VMsg (cp n (as_msg v)) else VMsg None)"
| "value_EntryCopy cp t v = v"

fun EntryCopy :: "msg_map \<Rightarrow> go_field_type \<Rightarrow> gval \<Rightarrow> gval" where
  "EntryCopy cp (GoValue t) v = value_EntryCopy cp t v"
| "EntryCopy cp (GoRepeated t r) v =
     (if JsonStructCanBeUsedDirectly t then v else VList (map (value_EntryCopy cp t) (as_list v)))"
| "EntryCopy cp (GoRepeatedPacked t r) v =
     (if JsonStructCanBeUsedDirectly t then v else VList (map (value_EntryCopy cp t) (as_list v)))"
| "EntryCopy cp (GoMap kt vt) v = VMap (map (\<lambda>(k, x). (k, value_EntryCopy cp vt x)) (as_map v))"

lemma EntryCopy_cong [fundef_cong]:
  assumes "ft = ft'" and "v = v'" and "\<And>n m. m \<in> set (sub_ptrs v') \<Longrightarrow> cp n m = cp' n m"
  shows "EntryCopy cp ft v = EntryCopy cp' ft' v'"
proof -
  note c = assms(3) [OF sub_ptrs_simps(1)] assms(3) [OF sub_ptrs_simps(2)]
    assms(3) [OF sub_ptrs_simps(3)] assms(3) [OF sub_ptrs_simps(4)]
  have v: "value_EntryCopy cp t x = value_EntryCopy cp' t x" if "\<And>n. cp n (as_msg x) = cp' n (as_msg x)" for t x
    using that by (cases t) auto
  have "x \<in> set (as_list v') \<Longrightarrow> value_EntryCopy cp t x = value_EntryCopy cp' t x" for x t
    by (intro v c)
  moreover have "(k, x) \<in> set (as_map v') \<Longrightarrow> value_EntryCopy cp t x = value_EntryCopy cp' t x" for k x t
    using c(4) by (auto intro!: v)
  moreover have "value_EntryCopy cp t v' = value_EntryCopy cp' t v'" for t
    by (intro v c)
  ultimately show ?thesis unfolding assms(1,2) by (cases ft') auto
qed

function Copy :: "schema \<Rightarrow> string \<Rightarrow> gval list option \<Rightarrow> gval list option" where
  "Copy env n None = None"
| "Copy env n (Some vs) = Some (map (\<lambda>(f, v). EntryCopy (Copy env) (field_type f) v) (zip (struct_fields env n) vs))"
  by pat_completeness auto
termination
  by (relation "measure (\<lambda>(env, n, m). ptr_size m)") (auto dest: field_ptr_size simp del: ptr_size.simps)

declare Copy.simps [simp del]

lemma value_copy_same:
  assumes "val_conf (conforms env) t v" and "\<And>n. conforms env n (as_msg v) \<Longrightarrow> cp n (as_msg v) = as_msg v"
  shows "value_EntryCopy cp t v = v"
  using assms by (cases t) (auto split: gval.splits)

lemma list_copy_same:
  assumes "list_all (val_conf (conforms env) t) (as_list v)" and "\<And>n m. m \<in> set (sub_ptrs v) \<Longrightarrow> conforms env n m \<Longrightarrow> cp n m = m"
  shows "map (value_EntryCopy cp t) (as_list v) = as_list v"
  using assms(1) assms(2) [OF sub_ptrs_simps(2)] by (auto simp: list_all_iff intro!: map_idI value_copy_same [of env])

lemma field_copy_same:
  assumes "field_conf (conforms env) ft v" and "\<And>n m. m \<in> set (sub_ptrs v) \<Longrightarrow> conforms env n m \<Longrightarrow> cp n m = m"
  shows "EntryCopy cp ft v = v"
proof (cases ft)
  case (GoValue t)
  then show ?thesis using assms value_copy_same [of env t v cp] sub_ptrs_simps(1) [of v] by simp
next
  case (GoMap kt vt)
  then obtain kvs where v: "v = VMap kvs" "\<forall>(k, x) \<in> set kvs. val_conf (conforms env) vt x"
    using assms(1) by (auto simp: list_all_iff split: gval.splits)
  have "value_EntryCopy cp vt x = x" if "(k, x) \<in> set kvs" for k x
    using v that assms(2) [OF sub_ptrs_simps(4) [of k x v]] by (intro value_copy_same [of env]) auto
  then show ?thesis by (auto simp: GoMap v intro!: map_idI)
qed (use assms list_copy_same [of env _ v cp] in \<open>auto split: gval.splits\<close>)

theorem copy_same: "conforms env n m \<Longrightarrow> Copy env n m = m"
proof (induction env n m rule: Copy.induct)
  case (1 env n)
  show ?case by (simp add: Copy.simps)
next
  case (2 env n vs)
  have "EntryCopy (Copy env) (field_type f) v = v" if "(f, v) \<in> set (zip (struct_fields env n) vs)" for f v
    using field_copy_same [OF conforms_field [OF 2(2) that]] 2(1) that by simp
  then have "map (\<lambda>(f, v). EntryCopy (Copy env) (field_type f) v) (zip (struct_fields env n) vs) =
      map snd (zip (struct_fields env n) vs)" by (intro map_cong) auto
  also have "\<dots> = vs" using 2(2) by (simp add: conforms.simps)
  finally show ?case by (simp add: Copy.simps)
qed

end
