(* ===== verification/Codec_Theorems.thy ===== *)
theory Codec_Theorems
  imports Message_Copy
begin

text \<open>
  The theorems on the wire runtime and the generated message code: varints, exact sizes, the
  round trip, and what malformed input does.
\<close>

section \<open>A generated schema\<close>

text \<open>
  Structs of \<^verbatim>\<open>bench/gremlin_pb/benchmark/benchmark.pb2.go\<close>: the wire numbers and the field
  types of the generated code.
\<close>

definition benchmark_schema :: schema where
  "benchmark_schema =
    [(''Level4'',
       [\<lparr>field_tag = 1, field_type = GoValue (GoBasic PInt32 None False)\<rparr>,
        \<lparr>field_tag = 2, field_type = GoValue (GoBasic PString None False)\<rparr>,
        \<lparr>field_tag = 3, field_type = GoRepeatedPacked (GoBasic PInt32 None False) False\<rparr>]),
     (''Level3'',
       [\<lparr>field_tag = 1, field_type = GoValue (GoBasic PInt32 None False)\<rparr>,
        \<lparr>field_tag = 2, field_type = GoValue (GoBasic PString None False)\<rparr>,
        \<lparr>field_tag = 3, field_type = GoValue (GoStruct ''Level4'' False)\<rparr>,
        \<lparr>field_tag = 4, field_type = GoRepeated (GoStruct ''Level4'' False) False\<rparr>]),
     (''FlatMessage'',
       [\<lparr>field_tag = 1, field_type = GoValue (GoBasic PInt32 None False)\<rparr>,
        \<lparr>field_tag = 2, field_type = GoValue (GoBasic PString None False)\<rparr>,
        \<lparr>field_tag = 3, field_type = GoValue (GoBasic PInt32 None False)\<rparr>,
        \<lparr>field_tag = 4, field_type = GoValue (GoBasic PDouble None False)\<rparr>,
        \<lparr>field_tag = 5, field_type = GoRepeatedPacked (GoBasic PInt32 None False) False\<rparr>,
        \<lparr>field_tag = 6, field_type = GoRepeated (GoBasic PString None False) False\<rparr>])]"

definition level3_example :: "gval list" where
  "level3_example =
    [V32 7, VBytes [0x61, 0x62], VMsg (Some [V32 300, VBytes [], VList [V32 1, V32 (- 1)]]),
     VList [VMsg (Some [V32 0, VBytes [], VList []]), VMsg None]]"

lemma benchmark_schema_ok: "schema_ok benchmark_schema"
  by (simp add: benchmark_schema_def schema_ok_def struct_ok_def tag_ok_def)

lemma level3_conforms: "conforms benchmark_schema ''Level3'' (Some level3_example)"
  by code_simp

lemma level3_size: "XXX_PbContentSize benchmark_schema ''Level3'' (Some level3_example) = 28"
  by code_simp


section \<open>Varints\<close>

text \<open>
  C4. The unrolled switch statements of \<^verbatim>\<open>VarIntToBytes\<close> and \<^verbatim>\<open>SizeVarInt\<close> implement the base-128
  varint: for every 64-bit value the bytes are the reference encoding and the announced size
  is their number.
\<close>

theorem varint_is_leb128:
  "VarIntToBytes v = leb128 (unat v) \<and> SizeVarInt v = length (leb128 (unat v))"
  using VarIntToBytes_leb128 [of v] SizeVarInt_length [of v] by simp

text \<open>
  C5. A varint written anywhere in a buffer is read back at its offset with its size, whatever
  stands before and after it.
\<close>

theorem varint_roundtrip:
  assumes "int (length (pre @ VarIntToBytes v @ post)) < 2 ^ 62"
  shows "readVarIntAt (NewReader (slice_of (pre @ VarIntToBytes v @ post))) (int (length pre)) =
    Ok (v, int (SizeVarInt v))"
proof -
  have "reads_at (NewReader (slice_of (pre @ VarIntToBytes v @ post))) (int (length pre)) (VarIntToBytes v)"
    using assms by (intro reads_atI) (simp_all add: NewReader_def slice_of_def slice_len_def)
  from readVarIntAt_enc [OF this] show ?thesis by (simp add: SizeVarInt_length)
qed

theorem varint_roundtrip_witness:
  "readVarIntAt (NewReader (slice_of ([0x08] @ VarIntToBytes 300 @ [0x10]))) 1 = Ok (300, 2)"
proof -
  have "int (length ([0x08] @ VarIntToBytes 300 @ [0x10])) < 2 ^ 62" by code_simp
  from varint_roundtrip [OF this] have
    "readVarIntAt (NewReader (slice_of ([0x08] @ VarIntToBytes 300 @ [0x10]))) 1 = Ok (300, int (SizeVarInt 300))"
    by simp
  moreover have "int (SizeVarInt 300) = 2" by code_simp
  ultimately show ?thesis by simp
qed

text \<open>
  C6. Reading a varint never panics at an offset from 0 up to 2 to the 62: the result is a value
  whose 1 to 10 bytes lie inside the buffer, or the size -1.
\<close>

theorem varint_read_safe:
  assumes "0 \<le> offset" and "offset < 2 ^ 62"
  shows "\<exists>v n. readVarIntAt p offset = Ok (v, n) \<and>
    (n = - 1 \<or> 1 \<le> n \<and> n \<le> 10 \<and> offset + n \<le> slice_len (rbuf p))"
  using readVarIntAt_total [OF assms] .

theorem varint_read_safe_witness:
  "\<exists>v n. readVarIntAt (NewReader (slice_of [0xff])) 0 = Ok (v, n) \<and>
    (n = - 1 \<or> 1 \<le> n \<and> n \<le> 10 \<and> 0 + n \<le> slice_len (rbuf (NewReader (slice_of [0xff]))))"
  by (rule varint_read_safe) simp_all


section \<open>Messages\<close>



text \<open>
  C2. Round trip: a well-typed message of less than 2 to the 62 bytes, marshalled and
  unmarshalled by the generated code, comes back in its canonical form, once the fuel exceeds the
  number of bytes: every value is the same, but a float that compares equal to its default is
  the default, and a nested message with all fields at their defaults is nil.
\<close>

theorem message_roundtrip:
  assumes "schema_ok env" and "conforms env n (Some vs)"
    and "int (XXX_PbContentSize env n (Some vs)) < 2 ^ 62"
    and "XXX_PbContentSize env n (Some vs) < fuel"
  shows "\<exists>bs m. Marshal env n (Some vs) = Some bs \<and>
    Unmarshal fuel env (NewMsgReader env n) (slice_of bs) = Ok (m, None) \<and>
    gmap fst (ToStruct fuel env m) = Ok (canonical_fields env n vs)"
  using Marshal_roundtrip [OF assms] norm_fields_canonical [OF assms(2)] by simp

theorem message_roundtrip_witness:
  "\<exists>bs m. Marshal benchmark_schema ''Level3'' (Some level3_example) = Some bs \<and>
    Unmarshal 29 benchmark_schema (NewMsgReader benchmark_schema ''Level3'') (slice_of bs) = Ok (m, None) \<and>
    gmap fst (ToStruct 29 benchmark_schema m) = Ok (canonical_fields benchmark_schema ''Level3'' level3_example)"
  by (rule message_roundtrip [OF benchmark_schema_ok level3_conforms]) (simp_all add: level3_size)

text \<open>
  A negative zero does not survive a round trip: it compares equal to 0, is not written, and
  is read back as the positive zero.
\<close>

theorem negative_zero_lost:
  "field_norm mn (GoValue (GoBasic PDouble None False)) (V64 (push_bit 63 1)) = V64 0"
  by (simp add: float64_eq_def)


section \<open>Malformed input\<close>

definition looping_input :: bytes where
  "looping_input = [0x0a, 0xf5, 0xff, 0xff, 0xff, 0xff, 0xff, 0xff, 0xff, 0xff, 0x01]"

lemma looping_step:
  "HasNext (NewReader (slice_of looping_input)) 0 0"
  "ReadTagAt (NewReader (slice_of looping_input)) 0 = Ok (1, 2, 1)"
  by code_simp+

lemma looping_skip: "SkipData (Suc f) (NewReader (slice_of looping_input)) 1 2 = Ok 0"
proof -
  have "readVarIntAt (NewReader (slice_of looping_input)) 1 = Ok (- 11, 10)" by code_simp
  moreover have "go_int (1 + 10 + int_of_u64 (- 11)) = 0" by code_simp
  ultimately show ?thesis by (simp add: wire_type_defs)
qed

text \<open>
  C30. \<^verbatim>\<open>Unmarshal\<close> of every generated reader runs forever on the eleven bytes of a length-delimited
  field whose length is 2 to the 64 minus 11: \<^verbatim>\<open>SkipData\<close> adds the length as a negative int and
  returns to offset 0.
\<close>

theorem unmarshal_diverges: "Unmarshal fuel env m (slice_of looping_input) = OutOfFuel"
proof -
  have "Unmarshal_loop fuel fs (NewReader (slice_of looping_input)) 0 oss = OutOfFuel" for fs oss
    by (induction fuel arbitrary: oss) (simp_all add: looping_step looping_skip Let_def del: SkipData.simps)
  then show ?thesis by (simp add: Unmarshal_def)
qed

lemma packed_loop_diverges:
  "packed_loop fuel env (Some (NewReader (slice_of [0x1a, 0x01, 0xff]))) (GoBasic PInt32 d r) 2 1 0 = OutOfFuel \<and>
   packed_loop fuel env (Some (NewReader (slice_of [0x1a, 0x01, 0xff]))) (GoBasic PInt32 d r) 2 1 (- 1) = OutOfFuel"
proof (induction fuel)
  case (Suc fuel)
  have "SizedReadInt32 (NewReader (slice_of [0x1a, 0x01, 0xff])) 2 = Ok (0, - 1)"
    "SizedReadInt32 (NewReader (slice_of [0x1a, 0x01, 0xff])) 1 = Ok (1, 1)"
    by code_simp+
  with Suc show ?case by (simp add: on_buf_def)
qed simp

text \<open>
  The getter of a packed list runs forever on a truncated varint: the three bytes
  \<^verbatim>\<open>1a 01 ff\<close> unmarshal without an error, but reading the third field of \<^verbatim>\<open>Level4\<close> never ends,
  because the size -1 of a failed read moves the offset back.
\<close>

theorem packed_getter_diverges:
  "\<exists>m. Unmarshal 3 benchmark_schema (NewMsgReader benchmark_schema ''Level4'') (slice_of [0x1a, 0x01, 0xff]) = Ok (m, None) \<and>
    (\<forall>fuel. read_field fuel benchmark_schema m 2 = OutOfFuel)"
proof -
  let ?p = "NewReader (slice_of [0x1a, 0x01, 0xff])"
  let ?m = "MsgReader ''Level4'' (Some ?p) [Offset 0, Offset 0, OffsetsTyped [(1, 2)]] [None, None, None]"
  have "Unmarshal 3 benchmark_schema (NewMsgReader benchmark_schema ''Level4'') (slice_of [0x1a, 0x01, 0xff]) = Ok (?m, None)"
    by code_simp
  moreover have "SizedReadVarInt ?p 1 = Ok (1, 1)" "int_of_u64 1 = 1" by code_simp+
  then have "read_field fuel benchmark_schema ?m 2 = OutOfFuel" for fuel
    using packed_loop_diverges
    by (simp add: read_field_def benchmark_schema_def struct_fields_def packed_entries_def BytesType_def on_buf_def)
  ultimately show ?thesis by blast
qed

text \<open>
  Truncated fixed-width data passes \<^verbatim>\<open>Unmarshal\<close> and panics in the getter: on the single byte
  \<^verbatim>\<open>21\<close>, the tag of the double field of \<^verbatim>\<open>FlatMessage\<close>, \<^verbatim>\<open>Unmarshal\<close> returns no error and
  \<^verbatim>\<open>GetScore\<close> indexes beyond the buffer.
\<close>

theorem truncated_getter_panics:
  "\<exists>m. Unmarshal 2 benchmark_schema (NewMsgReader benchmark_schema ''FlatMessage'') (slice_of [0x21]) = Ok (m, None) \<and>
    (\<forall>fuel. read_field fuel benchmark_schema m 3 = Panic)"
proof -
  let ?p = "NewReader (slice_of [0x21])"
  let ?m = "MsgReader ''FlatMessage'' (Some ?p)
    [Offset 0, Offset 0, Offset 0, Offset 1, OffsetsTyped [], Offsets []] [None, None, None, None, None, None]"
  have "Unmarshal 2 benchmark_schema (NewMsgReader benchmark_schema ''FlatMessage'') (slice_of [0x21]) = Ok (?m, None)"
    by code_simp
  moreover have "ReadFloat64 ?p 1 = Panic" by code_simp
  then have "read_field fuel benchmark_schema ?m 3 = Panic" for fuel
    by (simp add: read_field_def benchmark_schema_def struct_fields_def on_buf_def)
  ultimately show ?thesis by blast
qed

end
