(* ===== verification/Go_Strings.thy ===== *)
theory Go_Strings
  imports Main "HOL-Library.AList" "HOL-Library.Sublist"
begin

text \<open>
  The functions of Go's \<^verbatim>\<open>strings\<close> package that the compiler front end uses, on strings as
  character lists, with the laws of splitting and joining that dotted names and file paths
  rest on.
\<close>

section \<open>Split and Join\<close>

text \<open>\<^verbatim>\<open>strings.Split(s, sep)\<close> and \<^verbatim>\<open>strings.Join(parts, sep)\<close> for a separator of one character.\<close>

fun split_on :: "char \<Rightarrow> string \<Rightarrow> string list" where
  "split_on c [] = [[]]"
| "split_on c (x # xs) =
     (if x = c then [] # split_on c xs
      else (case split_on c xs of [] \<Rightarrow> [[x]] | p # ps \<Rightarrow> (x # p) # ps))"

fun join_on :: "char \<Rightarrow> string list \<Rightarrow> string" where
  "join_on c [] = []"
| "join_on c [p] = p"
| "join_on c (p # q # ps) = p @ c # join_on c (q # ps)"

lemma split_on_neq_Nil [simp]: "split_on c s \<noteq> []"
  by (induction s) (auto split: list.split)

lemma join_on_Cons: "join_on c (p # ps) = (if ps = [] then p else p @ c # join_on c ps)"
  by (cases ps) simp_all

lemma join_on_append:
  "ps \<noteq> [] \<Longrightarrow> qs \<noteq> [] \<Longrightarrow> join_on c (ps @ qs) = join_on c ps @ c # join_on c qs"
  by (induction ps) (auto simp: join_on_Cons)

lemma join_on_snoc: "ps \<noteq> [] \<Longrightarrow> join_on c (ps @ [p]) = join_on c ps @ c # p"
  by (simp add: join_on_append)

lemma join_split [simp]: "join_on c (split_on c s) = s"
proof (induction s)
  case (Cons x s)
  then show ?case by (cases "split_on c s") (auto simp: join_on_Cons split: if_splits)
qed simp

lemma split_on_free: "p \<in> set (split_on c s) \<Longrightarrow> c \<notin> set p"
proof (induction s arbitrary: p)
  case (Cons x s)
  then show ?case by (cases "split_on c s") (auto split: if_splits)
qed simp

lemma split_single: "c \<notin> set s \<Longrightarrow> split_on c s = [s]"
  by (induction s) auto

lemma split_app: "c \<notin> set p \<Longrightarrow> split_on c (p @ c # s) = p # split_on c s"
  by (induction p) auto

lemma split_on_append: "split_on c (s @ c # t) = split_on c s @ split_on c t"
  by (induction s) (auto split: list.split)

lemma split_join:
  "ps \<noteq> [] \<Longrightarrow> (\<And>p. p \<in> set ps \<Longrightarrow> c \<notin> set p) \<Longrightarrow> split_on c (join_on c ps) = ps"
  by (induction ps) (auto simp: join_on_Cons split_single split_app)

text \<open>Joining is injective on lists of parts without the separator.\<close>

lemma join_on_inj:
  assumes "ps \<noteq> []" "qs \<noteq> []" "\<And>p. p \<in> set ps \<union> set qs \<Longrightarrow> c \<notin> set p" "join_on c ps = join_on c qs"
  shows "ps = qs"
proof -
  have "ps = split_on c (join_on c ps)" using assms(1,3) by (simp add: split_join)
  also have "\<dots> = qs" unfolding assms(4) using assms(2,3) by (simp add: split_join)
  finally show ?thesis .
qed

lemma split_on_single_iff: "split_on c s = [p] \<longleftrightarrow> s = p \<and> c \<notin> set s"
  using split_single [of c s] split_on_free [of _ c s] join_split [of c s] by (metis join_on.simps(2) list.set_intros(1))

lemma join_on_Nil_iff: "join_on c ps = [] \<longleftrightarrow> ps = [] \<or> ps = [[]]"
    "[] = join_on c ps \<longleftrightarrow> ps = [] \<or> ps = [[]]"
  by (cases ps rule: list.exhaust; auto simp: join_on_Cons)+


section \<open>Prefixes and suffixes\<close>

definition HasPrefix :: "string \<Rightarrow> string \<Rightarrow> bool" where
  "HasPrefix s pre \<longleftrightarrow> take (length pre) s = pre"

definition TrimPrefix :: "string \<Rightarrow> string \<Rightarrow> string" where
  "TrimPrefix s pre = (if HasPrefix s pre then drop (length pre) s else s)"

definition HasSuffix :: "string \<Rightarrow> string \<Rightarrow> bool" where
  "HasSuffix s suf \<longleftrightarrow> length suf \<le> length s \<and> drop (length s - length suf) s = suf"

definition TrimSuffix :: "string \<Rightarrow> string \<Rightarrow> string" where
  "TrimSuffix s suf = (if HasSuffix s suf then take (length s - length suf) s else s)"

lemma HasPrefix_iff: "HasPrefix s pre \<longleftrightarrow> prefix pre s"
  by (metis HasPrefix_def append_eq_conv_conj prefix_def append_take_drop_id)

lemma HasPrefix_append [simp]: "HasPrefix (pre @ s) pre"
  by (simp add: HasPrefix_def)

lemma TrimPrefix_append [simp]: "TrimPrefix (pre @ s) pre = s"
  by (simp add: TrimPrefix_def)

lemma HasSuffix_append [simp]: "HasSuffix (s @ suf) suf"
  by (simp add: HasSuffix_def)

lemma HasSuffix_iff: "HasSuffix s suf \<longleftrightarrow> (\<exists>t. s = t @ suf)"
  unfolding HasSuffix_def by (metis append_take_drop_id diff_add_inverse2 drop_append length_append le_add2 append_eq_conv_conj)

lemma TrimSuffix_append [simp]: "TrimSuffix (s @ suf) suf = s"
  by (simp add: TrimSuffix_def)


section \<open>Decimal numbers\<close>

text \<open>\<^verbatim>\<open>%d\<close> and \<^verbatim>\<open>strconv.Itoa\<close> of a natural number.\<close>

fun fmt_d :: "nat \<Rightarrow> string" where
  "fmt_d n = (if n < 10 then [char_of (48 + n)] else fmt_d (n div 10) @ [char_of (48 + n mod 10)])"

declare fmt_d.simps [simp del]

lemma fmt_d_nonempty [simp]: "fmt_d n \<noteq> []"
  by (subst fmt_d.simps) simp

lemma digit_inj: "a < 10 \<Longrightarrow> b < 10 \<Longrightarrow> (char_of (48 + a :: nat) = char_of (48 + b)) = (a = b)"
  by (simp add: char_of_eq_iff take_bit_eq_mod)

text \<open>Different numbers print differently.\<close>

lemma fmt_d_inj: "fmt_d m = fmt_d n \<longleftrightarrow> m = n"
proof (induction m arbitrary: n rule: less_induct)
  case (less m)
  have len: "fmt_d k = [c] \<Longrightarrow> k < 10" for k c
    by (subst (asm) fmt_d.simps) (simp split: if_splits)
  show ?case
  proof
    assume eq: "fmt_d m = fmt_d n"
    show "m = n"
    proof (cases "m < 10")
      case True
      then have "fmt_d n = [char_of (48 + m)]" using eq by (subst (asm) fmt_d.simps) simp
      with len have n: "n < 10" by blast
      with True \<open>fmt_d n = _\<close> show ?thesis
        by (subst (asm) fmt_d.simps) (simp add: digit_inj)
    next
      case m: False
      then have n: "\<not> n < 10"
        using eq len [of m] by (metis fmt_d.simps)
      have "fmt_d (m div 10) @ [char_of (48 + m mod 10)] = fmt_d (n div 10) @ [char_of (48 + n mod 10)]"
        using eq m n by (metis fmt_d.simps)
      then have "fmt_d (m div 10) = fmt_d (n div 10)" and "m mod 10 = n mod 10"
        by (simp_all add: digit_inj)
      with less.IH [of "m div 10" "n div 10"] m have "m div 10 = n div 10" by simp
      with \<open>m mod 10 = n mod 10\<close> show ?thesis by (metis div_mult_mod_eq)
    qed
  qed simp
qed

text \<open>A property of all digits holds of a printed number.\<close>

lemma fmt_d_digits:
  assumes "\<forall>d \<in> set [0..<10]. P (char_of (48 + d :: nat))"
  shows "list_all P (fmt_d n)"
proof (induction n rule: fmt_d.induct)
  case (1 n)
  have "d < 10 \<Longrightarrow> P (char_of (48 + d :: nat))" for d using bspec [OF assms, of d] by simp
  with 1 show ?case by (subst fmt_d.simps) simp
qed

text \<open>\<^verbatim>\<open>%d\<close> and \<^verbatim>\<open>%v\<close> of an integer.\<close>

definition fmt_int :: "int \<Rightarrow> string" where
  "fmt_int i = (if i < 0 then ''-'' @ fmt_d (nat (- i)) else fmt_d (nat i))"

end
