(* ===== verification/Go_Text.thy ===== *)
theory Go_Text
  imports Go_Strings
begin

text \<open>
  The text of the generated Go files: lines and indentation
  (\<^verbatim>\<open>gremlinc/internal/formatting/tabs.go\<close>) and a scanner for the lexical structure of Go, which
  says what it means that a printed text closes every bracket and every literal it opens.
\<close>

section \<open>Lines and tabs\<close>

abbreviation NL :: char where "NL \<equiv> CHR 0x0A"

abbreviation TAB :: char where "TAB \<equiv> CHR 0x09"

text \<open>A raw string of several lines.\<close>

definition text_lines :: "string list \<Rightarrow> string" where
  "text_lines ls = join_on NL ls"

fun write_lines :: "string \<Rightarrow> string list \<Rightarrow> string" where
  "write_lines tabs [] = []"
| "write_lines tabs [line] = tabs @ line"
| "write_lines tabs (line # rest) = tabs @ line @ NL # write_lines tabs rest"

definition AddTabs :: "string \<Rightarrow> string \<Rightarrow> string" where
  "AddTabs s tabs = write_lines tabs (split_on NL s)"


section \<open>The lexical structure of Go\<close>

text \<open>
  The state of the scanner: code with the stack of open brackets, an interpreted string literal (also
  behind a backslash), a raw string literal, behind one slash, or a line comment. Block comments
  and rune literals do not occur in generated code and are refused, so a text that is
  accepted is balanced.
\<close>

datatype lexer =
  Code string | Str string | Esc string | Raw string | Slash string | Comment string | Bad

fun lex_code :: "string \<Rightarrow> char \<Rightarrow> lexer" where
  "lex_code st c =
     (if c = CHR ''('' \<or> c = CHR ''['' \<or> c = CHR ''{'' then Code (c # st)
      else if c = CHR '')'' then (case st of o1 # st' \<Rightarrow> if o1 = CHR ''('' then Code st' else Bad | [] \<Rightarrow> Bad)
      else if c = CHR '']'' then (case st of o1 # st' \<Rightarrow> if o1 = CHR ''['' then Code st' else Bad | [] \<Rightarrow> Bad)
      else if c = CHR ''}'' then (case st of o1 # st' \<Rightarrow> if o1 = CHR ''{'' then Code st' else Bad | [] \<Rightarrow> Bad)
      else if c = CHR 0x22 then Str st
      else if c = CHR 0x60 then Raw st
      else if c = CHR ''/'' then Slash st
      else if c = CHR 0x27 then Bad
      else Code st)"

fun lex_step :: "lexer \<Rightarrow> char \<Rightarrow> lexer" where
  "lex_step (Code st) c = lex_code st c"
| "lex_step (Str st) c =
     (if c = CHR 0x22 then Code st else if c = CHR 0x5C then Esc st else if c = NL then Bad else Str st)"
| "lex_step (Esc st) c = (if c = NL then Bad else Str st)"
| "lex_step (Raw st) c = (if c = CHR 0x60 then Code st else Raw st)"
| "lex_step (Slash st) c =
     (if c = CHR ''/'' then Comment st else if c = CHR ''*'' then Bad else lex_code st c)"
| "lex_step (Comment st) c = (if c = NL then Code st else Comment st)"
| "lex_step Bad c = Bad"

fun go_scan :: "lexer \<Rightarrow> string \<Rightarrow> lexer" where
  "go_scan l [] = l"
| "go_scan l (c # cs) = go_scan (lex_step l c) cs"

lemma go_scan_append [simp]: "go_scan l (s @ t) = go_scan (go_scan l s) t"
  by (induction s arbitrary: l) simp_all

lemma go_scan_Bad [simp]: "go_scan Bad s = Bad"
  by (induction s) simp_all

text \<open>A text that leaves the scanner in the code and at the nesting where it was.\<close>

definition neutral :: "string \<Rightarrow> bool" where
  "neutral s \<longleftrightarrow> (\<forall>st. go_scan (Code st) s = Code st)"

lemma neutralI: "(\<And>st. go_scan (Code st) s = Code st) \<Longrightarrow> neutral s"
  by (simp add: neutral_def)

lemma neutral_scan [simp]: "neutral s \<Longrightarrow> go_scan (Code st) s = Code st"
  by (simp add: neutral_def)

lemma neutral_Nil [simp]: "neutral []"
  by (simp add: neutral_def)

lemma neutral_append: "neutral s \<Longrightarrow> neutral t \<Longrightarrow> neutral (s @ t)"
  by (simp add: neutral_def)

lemma neutral_concat: "(\<And>s. s \<in> set ss \<Longrightarrow> neutral s) \<Longrightarrow> neutral (concat ss)"
  by (induction ss) (simp_all add: neutral_append)

text \<open>Characters without a meaning for the scanner.\<close>

definition inert_char :: "char \<Rightarrow> bool" where
  "inert_char c \<longleftrightarrow> c \<notin> set ''()[]{}/'' \<and> c \<notin> {CHR 0x22, CHR 0x27, CHR 0x60, CHR 0x5C, NL}"

abbreviation inert :: "string \<Rightarrow> bool" where "inert s \<equiv> list_all inert_char s"

lemma lex_code_inert [simp]: "inert_char c \<Longrightarrow> lex_code st c = Code st"
  by (auto simp: inert_char_def)

lemma inert_neutral: "inert s \<Longrightarrow> neutral s"
proof (rule neutralI)
  show "inert s \<Longrightarrow> go_scan (Code st) s = Code st" for st by (induction s) (simp_all del: lex_code.simps)
qed

lemma inert_scan [simp]: "inert s \<Longrightarrow> go_scan (Code st) s = Code st"
  by (simp add: inert_neutral)

lemma inert_Str [simp]: "inert s \<Longrightarrow> go_scan (Str st) s = Str st"
  by (induction s) (auto simp: inert_char_def)

lemma inert_Raw [simp]: "inert s \<Longrightarrow> go_scan (Raw st) s = Raw st"
  by (induction s) (auto simp: inert_char_def)

lemma Comment_scan [simp]: "NL \<notin> set s \<Longrightarrow> go_scan (Comment st) s = Comment st"
  by (induction s) auto

text \<open>Indentation does not change the structure of a text that starts outside a string literal.\<close>

fun spaced :: "lexer \<Rightarrow> bool" where
  "spaced (Str st) = False" | "spaced (Esc st) = False" | "spaced (Slash st) = False" | "spaced l = True"

lemma scan_tabs: "spaced l \<Longrightarrow> set tabs \<subseteq> {TAB} \<Longrightarrow> go_scan l tabs = l"
  by (induction tabs; cases l) auto

lemma spaced_NL: "spaced (lex_step l NL)"
  by (cases l) auto

lemma scan_write_lines:
  "spaced l \<Longrightarrow> set tabs \<subseteq> {TAB} \<Longrightarrow> ls \<noteq> [] \<Longrightarrow> go_scan l (write_lines tabs ls) = go_scan l (join_on NL ls)"
  by (induction tabs ls arbitrary: l rule: write_lines.induct) (auto simp: scan_tabs spaced_NL simp del: lex_step.simps)

lemma scan_AddTabs [simp]: "spaced l \<Longrightarrow> set tabs \<subseteq> {TAB} \<Longrightarrow> go_scan l (AddTabs s tabs) = go_scan l s"
  by (simp add: AddTabs_def scan_write_lines)

lemma neutral_AddTabs: "set tabs \<subseteq> {TAB} \<Longrightarrow> neutral s \<Longrightarrow> neutral (AddTabs s tabs)"
  by (simp add: neutral_def)

text \<open>Indentation puts the tabs in front of every line and keeps the lines.\<close>

lemma write_lines_join: "write_lines tabs ls = join_on NL (map ((@) tabs) ls)"
  by (induction tabs ls rule: write_lines.induct) simp_all

lemma AddTabs_lines:
  assumes "NL \<notin> set tabs"
  shows "split_on NL (AddTabs s tabs) = map ((@) tabs) (split_on NL s)"
  using assms split_on_free [of _ NL s] unfolding AddTabs_def write_lines_join by (intro split_join) auto

end
