(* ===== verification/Proto_Scopes.thy ===== *)
theory Proto_Scopes
  imports Go_Strings
begin

text \<open>
  The scoped names of the compiler front end, \<^verbatim>\<open>gremlinc/internal/types/scopes.go\<close>. A name is
  kept twice, as the list of its components and as the dotted path. The abstraction of a name
  is its component list; the invariant says that the dotted path is the joined components. On
  it every operation is the list operation it stands for.
\<close>

section \<open>The operations\<close>

definition TargetPlatform_Go :: string where
  "TargetPlatform_Go = ''go''"

record ScopedName =
  sn_name :: string
  sn_parent :: "string list"
  sn_fullPath :: string
  sn_localPath :: "string list"
  sn_platformName :: "(string \<times> string) list"

text \<open>The zero value \<^verbatim>\<open>ScopedName{}\<close>; a nil map reads like an empty one.\<close>

definition zero_name :: ScopedName where
  "zero_name = \<lparr>sn_name = [], sn_parent = [], sn_fullPath = [], sn_localPath = [], sn_platformName = []\<rparr>"

definition ParseName :: "string \<Rightarrow> ScopedName" where
  "ParseName nm =
     (let parts = split_on CHR ''.'' nm in
      if length parts > 1
      then zero_name\<lparr>sn_name := last parts, sn_parent := butlast parts, sn_fullPath := nm\<rparr>
      else zero_name\<lparr>sn_name := nm, sn_parent := [], sn_fullPath := nm\<rparr>)"

definition Child :: "ScopedName \<Rightarrow> string \<Rightarrow> ScopedName" where
  "Child s nm =
     (let path = sn_parent s @ (if sn_name s \<noteq> [] then [sn_name s] else []) @ [nm] in
      zero_name\<lparr>sn_name := nm, sn_parent := butlast path, sn_fullPath := join_on CHR ''.'' path\<rparr>)"

definition LocalChild :: "ScopedName \<Rightarrow> string \<Rightarrow> ScopedName" where
  "LocalChild s nm = (Child s nm)\<lparr>sn_localPath := sn_localPath s @ [sn_name s]\<rparr>"

definition ToScope :: "ScopedName \<Rightarrow> ScopedName \<Rightarrow> ScopedName" where
  "ToScope s target =
     (if sn_fullPath target = [] then s
      else let path = sn_parent target @ (if sn_name target \<noteq> [] then [sn_name target] else []) @
                      sn_parent s @ [sn_name s] in
        zero_name\<lparr>sn_name := sn_name s, sn_parent := butlast path, sn_fullPath := join_on CHR ''.'' path\<rparr>)"

definition ToParent :: "ScopedName \<Rightarrow> ScopedName" where
  "ToParent s =
     (if sn_parent s = [] then zero_name
      else let path = sn_parent s in
        zero_name\<lparr>sn_name := last path, sn_parent := butlast path, sn_fullPath := join_on CHR ''.'' path\<rparr>)"

definition ScopedName_Equal :: "ScopedName \<Rightarrow> ScopedName \<Rightarrow> bool" where
  "ScopedName_Equal s partialName \<longleftrightarrow>
     (if sn_name partialName \<noteq> sn_name s then False else sn_fullPath s = sn_fullPath partialName)"

text \<open>The loop of \<^verbatim>\<open>IsIn\<close> compares the components up to the length of the other parent.\<close>

definition IsIn :: "ScopedName \<Rightarrow> ScopedName \<Rightarrow> bool" where
  "IsIn s par \<longleftrightarrow>
     (if length (sn_parent s) \<le> length (sn_parent par) then False
      else if sn_parent par = [] then True
      else if \<exists>i \<in> set [0..<length (sn_parent par)]. sn_parent s ! i \<noteq> sn_parent par ! i then False
      else sn_parent s ! length (sn_parent par) = sn_name par)"

definition PlatformName :: "ScopedName \<Rightarrow> string \<Rightarrow> string" where
  "PlatformName s platform = (case map_of (sn_platformName s) platform of Some n \<Rightarrow> n | None \<Rightarrow> [])"

definition WithPlatformName :: "ScopedName \<Rightarrow> string \<Rightarrow> string \<Rightarrow> ScopedName" where
  "WithPlatformName s platform nm =
     zero_name\<lparr>sn_name := sn_name s, sn_parent := sn_parent s, sn_fullPath := sn_fullPath s,
       sn_platformName := AList.update platform nm (sn_platformName s)\<rparr>"

definition ScopedName_String :: "ScopedName \<Rightarrow> string" where
  "ScopedName_String s = sn_fullPath s"

definition ProtoName :: "ScopedName \<Rightarrow> string" where
  "ProtoName s = sn_name s"

definition CanResolveParent :: "ScopedName \<Rightarrow> bool" where
  "CanResolveParent s \<longleftrightarrow> sn_fullPath s \<noteq> []"

definition LocalPath :: "ScopedName \<Rightarrow> string list" where
  "LocalPath s = sn_localPath s"


section \<open>Names as component lists\<close>

named_theorems scope_defs

lemmas name_ops = ParseName_def Child_def LocalChild_def ToScope_def ToParent_def WithPlatformName_def zero_name_def Let_def

declare name_ops [scope_defs]

text \<open>
  The components of a name. The dotted path is the joined components. A name without empty
  components is a proper one; the zero value stands for the root scope and has the path [].
\<close>

definition comps :: "ScopedName \<Rightarrow> string list" where
  "comps s = sn_parent s @ [sn_name s]"

definition path_ok :: "ScopedName \<Rightarrow> bool" where
  "path_ok s \<longleftrightarrow> sn_fullPath s = join_on CHR ''.'' (comps s)"

definition dot_free :: "ScopedName \<Rightarrow> bool" where
  "dot_free s \<longleftrightarrow> (\<forall>p \<in> set (comps s). CHR ''.'' \<notin> set p)"

definition name_ok :: "ScopedName \<Rightarrow> bool" where
  "name_ok s \<longleftrightarrow> path_ok s \<and> dot_free s"

definition scope_path :: "ScopedName \<Rightarrow> string list" where
  "scope_path s = (if sn_fullPath s = [] then [] else comps s)"

definition proper_scope :: "ScopedName \<Rightarrow> bool" where
  "proper_scope s \<longleftrightarrow> path_ok s \<and> dot_free s \<and> (\<forall>p \<in> set (scope_path s). p \<noteq> [])"

lemma comps_neq_Nil [simp]: "comps s \<noteq> []"
  by (simp add: comps_def)

lemma last_comps [simp]: "last (comps s) = sn_name s"
  by (simp add: comps_def)

lemma butlast_comps [simp]: "butlast (comps s) = sn_parent s"
  by (simp add: comps_def)

lemma comps_ParseName: "comps (ParseName nm) = split_on CHR ''.'' nm"
proof (cases "length (split_on CHR ''.'' nm) > 1")
  case False
  then have "length (split_on CHR ''.'' nm) = 1"
    by (metis One_nat_def Suc_lessI length_greater_0_conv split_on_neq_Nil)
  then obtain p where "split_on CHR ''.'' nm = [p]" by (auto simp: length_Suc_conv)
  then show ?thesis
    by (auto simp: ParseName_def comps_def zero_name_def split_on_single_iff split_single)
qed (simp add: ParseName_def comps_def zero_name_def Let_def)

lemma ParseName_ok: "name_ok (ParseName nm)"
  using split_on_free [of _ "CHR ''.''" nm]
  by (auto simp: name_ok_def path_ok_def dot_free_def comps_ParseName) (simp add: ParseName_def zero_name_def Let_def)

lemma path_ok_step [simp]:
  "path_ok (Child s nm)" "path_ok (LocalChild s nm)" "path_ok (ToParent s)"
  "path_ok s \<Longrightarrow> path_ok (ToScope s t)" "path_ok s \<Longrightarrow> path_ok (WithPlatformName s p v)"
  by (simp_all add: path_ok_def comps_def scope_defs butlast_append)

lemma comps_Child: "comps (Child s nm) = sn_parent s @ (if sn_name s \<noteq> [] then [sn_name s] else []) @ [nm]"
  by (simp add: comps_def scope_defs butlast_append)

lemma comps_ToScope_any:
  "comps (ToScope s t) = (if sn_fullPath t = [] then [] else
     sn_parent t @ (if sn_name t \<noteq> [] then [sn_name t] else [])) @ comps s"
  by (simp add: comps_def scope_defs butlast_append)

lemma comps_WithPlatformName [simp]: "comps (WithPlatformName s p v) = comps s"
  by (simp add: comps_def scope_defs)

lemma name_ok_step:
  "name_ok s \<Longrightarrow> CHR ''.'' \<notin> set nm \<Longrightarrow> name_ok (Child s nm)"
  "name_ok s \<Longrightarrow> CHR ''.'' \<notin> set nm \<Longrightarrow> name_ok (LocalChild s nm)"
  "name_ok s \<Longrightarrow> name_ok t \<Longrightarrow> name_ok (ToScope s t)"
  "name_ok s \<Longrightarrow> name_ok (ToParent s)"
  "name_ok s \<Longrightarrow> name_ok (WithPlatformName s p v)"
  by (auto simp: name_ok_def dot_free_def comps_def scope_defs path_ok_def butlast_append
      dest: in_set_butlastD)

lemma ScopedName_Equal_iff: "name_ok s \<Longrightarrow> name_ok t \<Longrightarrow> ScopedName_Equal s t \<longleftrightarrow> comps s = comps t"
proof
  assume ok: "name_ok s" "name_ok t" and "ScopedName_Equal s t"
  then have "join_on CHR ''.'' (comps s) = join_on CHR ''.'' (comps t)"
    by (simp add: ScopedName_Equal_def name_ok_def path_ok_def split: if_splits)
  then show "comps s = comps t"
    using ok by (intro join_on_inj [of _ _ "CHR ''.''"]) (auto simp: name_ok_def dot_free_def)
next
  assume "name_ok s" "name_ok t" and eq: "comps s = comps t"
  then show "ScopedName_Equal s t"
    using arg_cong [OF eq, of last] by (simp add: ScopedName_Equal_def name_ok_def path_ok_def del: last_comps)
      (simp add: comps_def)
qed


section \<open>Scopes\<close>

lemma proper_name_ok: "proper_scope s \<Longrightarrow> name_ok s"
  by (simp add: proper_scope_def name_ok_def)

lemma proper_zero [simp]: "proper_scope zero_name" "scope_path zero_name = []"
  by (simp_all add: proper_scope_def scope_path_def zero_name_def path_ok_def comps_def dot_free_def)

lemma comps_ToScope: "proper_scope t \<Longrightarrow> comps (ToScope s t) = scope_path t @ comps s"
  by (cases "sn_fullPath t = []") (simp_all add: comps_ToScope_any scope_path_def proper_scope_def comps_def [of t])

lemma proper_ToParent: "proper_scope s \<Longrightarrow> proper_scope (ToParent s) \<and> scope_path (ToParent s) = butlast (scope_path s)"
proof (cases "sn_parent s = []")
  case True
  then show ?thesis by (simp add: ToParent_def scope_path_def comps_def zero_name_def proper_scope_def path_ok_def dot_free_def)
next
  case False
  assume s: "proper_scope s"
  have full: "sn_fullPath s \<noteq> []"
    using s False by (auto simp: proper_scope_def path_ok_def comps_def join_on_Nil_iff)
  with s have ne: "\<forall>p \<in> set (sn_parent s). p \<noteq> []"
    by (simp add: proper_scope_def scope_path_def comps_def)
  have pf: "join_on CHR ''.'' (sn_parent s) \<noteq> []"
    using False ne by (auto simp: join_on_Nil_iff)
  have c: "comps (ToParent s) = sn_parent s"
    using False by (simp add: comps_def ToParent_def zero_name_def Let_def)
  have f: "sn_fullPath (ToParent s) = join_on CHR ''.'' (sn_parent s)"
    using False by (simp add: ToParent_def zero_name_def Let_def)
  show ?thesis
    using s full ne pf
    by (auto simp: proper_scope_def scope_path_def c f dot_free_def comps_def [of s] path_ok_def)
qed

lemma proper_CanResolveParent: "proper_scope s \<Longrightarrow> CanResolveParent s \<longleftrightarrow> scope_path s \<noteq> []"
  by (simp add: CanResolveParent_def scope_path_def)


section \<open>Names of the compiler\<close>

text \<open>
  The names the front end works with: parsed texts, children with an identifier, names moved into
  a scope, parents and names with a platform name.
\<close>

inductive built_name :: "ScopedName \<Rightarrow> bool" where
  built_parse: "built_name (ParseName nm)"
| built_child: "built_name s \<Longrightarrow> CHR ''.'' \<notin> set nm \<Longrightarrow> built_name (Child s nm)"
| built_local: "built_name s \<Longrightarrow> CHR ''.'' \<notin> set nm \<Longrightarrow> built_name (LocalChild s nm)"
| built_scope: "built_name s \<Longrightarrow> built_name t \<Longrightarrow> built_name (ToScope s t)"
| built_parent: "built_name s \<Longrightarrow> built_name (ToParent s)"
| built_platform: "built_name s \<Longrightarrow> built_name (WithPlatformName s p nm)"

lemma built_name_ok: "built_name s \<Longrightarrow> name_ok s"
  by (induction rule: built_name.induct) (simp_all add: ParseName_ok name_ok_step)

text \<open>
  Every name the front end builds prints to a text that parses back to the same components: the
  dotted path and the component list never get out of step.
\<close>

theorem name_text_roundtrip:
  assumes "built_name s"
  shows "sn_name (ParseName (ScopedName_String s)) = ProtoName s \<and>
    sn_parent (ParseName (ScopedName_String s)) = sn_parent s \<and>
    ScopedName_String (ParseName (ScopedName_String s)) = ScopedName_String s"
proof -
  have ok: "name_ok s" using assms by (rule built_name_ok)
  then have "split_on CHR ''.'' (sn_fullPath s) = comps s"
    by (simp add: name_ok_def path_ok_def dot_free_def split_join)
  then have c: "comps (ParseName (ScopedName_String s)) = comps s"
    by (simp add: comps_ParseName ScopedName_String_def)
  moreover have "ScopedName_String (ParseName (ScopedName_String s)) = ScopedName_String s"
    by (simp add: ScopedName_String_def ParseName_def zero_name_def Let_def)
  ultimately show ?thesis by (simp add: ProtoName_def comps_def)
qed

theorem name_text_roundtrip_witness:
  "sn_name (ParseName (ScopedName_String (Child (ParseName ''a.b'') ''c''))) =
      ProtoName (Child (ParseName ''a.b'') ''c'') \<and>
    sn_parent (ParseName (ScopedName_String (Child (ParseName ''a.b'') ''c''))) =
      sn_parent (Child (ParseName ''a.b'') ''c'') \<and>
    ScopedName_String (ParseName (ScopedName_String (Child (ParseName ''a.b'') ''c''))) =
      ScopedName_String (Child (ParseName ''a.b'') ''c'')"
  by (rule name_text_roundtrip) (simp add: built_child built_parse)

text \<open>
  Comparing two names compares their components: the test for the last component and for the
  dotted path together decide equality of the whole path.
\<close>

theorem equal_names_iff:
  assumes "built_name s" and "built_name t"
  shows "ScopedName_Equal s t \<longleftrightarrow> sn_parent s = sn_parent t \<and> sn_name s = sn_name t"
  using ScopedName_Equal_iff [of s t] assms by (auto simp: built_name_ok comps_def)

theorem equal_names_iff_witness:
  "ScopedName_Equal (ParseName ''a.b.c'') (Child (ParseName ''a.b'') ''c'') \<longleftrightarrow>
    sn_parent (ParseName ''a.b.c'') = sn_parent (Child (ParseName ''a.b'') ''c'') \<and>
    sn_name (ParseName ''a.b.c'') = sn_name (Child (ParseName ''a.b'') ''c'')"
  by (rule equal_names_iff) (simp_all add: built_child built_parse)

text \<open>
  \<^verbatim>\<open>IsIn\<close> decides whether a name lies below another one only where that one has a parent; below
  a name of the root scope it accepts every nested name, whatever its first component.
\<close>

theorem is_in_spec:
  "IsIn s par \<longleftrightarrow>
    (if sn_parent par = [] then sn_parent s \<noteq> [] else prefix (comps par) (sn_parent s))"
proof -
  let ?n = "length (sn_parent par)"
  have "prefix (sn_parent par @ [sn_name par]) (sn_parent s) \<longleftrightarrow>
      ?n < length (sn_parent s) \<and> (\<forall>i < ?n. sn_parent s ! i = sn_parent par ! i) \<and> sn_parent s ! ?n = sn_name par"
    (is "?l = ?r")
  proof
    assume ?l
    then show ?r by (auto simp: prefix_def nth_append)
  next
    assume r: ?r
    then have "take (Suc ?n) (sn_parent s) = sn_parent par @ [sn_name par]"
      by (intro nth_equalityI) (auto simp: nth_append less_Suc_eq)
    then show ?l by (metis take_is_prefix)
  qed
  then show ?thesis by (auto simp: IsIn_def comps_def)
qed

end
