(* ===== verification/Proto_Parse.thy ===== *)
theory Proto_Parse
  imports Proto_Scopes Go_Base
begin

text \<open>
  The first half of the compiler front end: finding the proto files
  (\<^verbatim>\<open>gremlinc/internal/paths.go\<close>), parsing them (\<^verbatim>\<open>reader.go\<close>) and extracting the definitions
  (\<^verbatim>\<open>parser.go\<close>), with the data model of \<^verbatim>\<open>types/struct.go\<close> and \<^verbatim>\<open>types/types.go\<close>.

  The syntax tree comes from the package \<^verbatim>\<open>emicklei/proto\<close>, which is not part of the repository. Its
  nodes are data with the attributes the front end reads; what its parser makes of a text and the
  sequence in which its \<^verbatim>\<open>Walk\<close> calls the handler are arguments of the model.
\<close>

section \<open>The syntax tree\<close>

record proto_Option =
  po_Name :: string
  po_Source :: string
  po_IsString :: bool

record proto_Field =
  pf_Name :: string
  pf_Type :: string
  pf_Sequence :: int
  pf_Options :: "proto_Option list"

text \<open>The enclosing element of a definition: a message, with its own enclosing element, or the file.\<close>

datatype proto_parent = MessageParent string proto_parent | OtherParent

datatype proto_element =
    NormalField proto_Field bool bool
  | MapField proto_Field string
  | OneOfField proto_Field
  | Oneof string "proto_element list"
  | Group string
  | OtherElement

record proto_Message =
  pm_Name :: string
  pm_IsExtend :: bool
  pm_Parent :: proto_parent
  pm_Elements :: "proto_element list"

record proto_EnumField =
  pv_Name :: string
  pv_Integer :: int
  pv_Elements :: "proto_Option option list"

record proto_Enum =
  pe_Name :: string
  pe_Parent :: proto_parent
  pe_Elements :: "proto_EnumField option list"

datatype visitee =
    VImport string string
  | VSyntax string
  | VPackage string
  | VOption proto_Option
  | VMessage proto_Message
  | VEnum proto_Enum
  | VOther


section \<open>The definitions of a file\<close>

text \<open>
  A pointer to a definition of the same file is its index in the list of enums or messages of
  the file, a pointer to a file its index in the list of parsed files. \<^verbatim>\<open>None\<close> is nil.
\<close>

definition ProtobufScalarTypes :: "string list" where
  "ProtobufScalarTypes =
     [''string'', ''bytes'', ''bool'', ''double'', ''float'', ''int32'', ''int64'', ''uint32'', ''uint64'',
      ''sint32'', ''sint64'', ''fixed32'', ''fixed64'', ''sfixed32'', ''sfixed64'']"

record MessageFieldDefinition =
  fd_Name :: ScopedName
  fd_Repeated :: bool
  fd_Map :: bool
  fd_OneOfGroup :: string
  fd_MapKeyType :: string
  fd_Required :: bool
  fd_ScalarValueType :: string
  fd_ExternalTypeFile :: "nat option"
  fd_ExternalEnumType :: "nat option"
  fd_ExternalMsgType :: "nat option"
  fd_LocalEnumType :: "nat option"
  fd_LocalMsgType :: "nat option"
  fd_ProtoDef :: proto_Field
  fd_ExtraScopes :: "ScopedName list"
  fd_DefaultValue :: "proto_Option option"

record MessageDefinition =
  md_Name :: ScopedName
  md_Fields :: "MessageFieldDefinition list"
  md_ProtoDef :: proto_Message

record EnumValueOptionDefinition =
  eo_Name :: string
  eo_Repeated :: bool
  eo_ScalarValueType :: string
  eo_LocalEnumType :: "nat option"
  eo_ProtoDef :: "proto_Option option"
  eo_Values :: "string list"
  eo_Value :: string

record EnumValueDefinition =
  ev_Name :: ScopedName
  ev_Value :: int
  ev_ProtoDef :: proto_EnumField
  ev_Options :: "(string \<times> EnumValueOptionDefinition) list"

record EnumDefinition =
  ed_Name :: ScopedName
  ed_Values :: "EnumValueDefinition list"
  ed_ProtoDef :: proto_Enum

record ProtoImport =
  im_FSPath :: string
  im_Kind :: string
  im_TargetFile :: "nat option"

record ProtoPackage =
  pkg_Name :: ScopedName

record ProtoFile =
  f_Path :: string
  f_RelativePath :: string
  f_Proto2 :: bool
  f_Package :: "ProtoPackage option"
  f_Imports :: "ProtoImport list"
  f_Enums :: "EnumDefinition list"
  f_Messages :: "MessageDefinition list"
  f_BaseFolder :: string

text \<open>A fresh file, and a fresh field, as the composite literals of the source leave them.\<close>

definition new_file :: "string \<Rightarrow> ProtoFile" where
  "new_file path = \<lparr>f_Path = path, f_RelativePath = [], f_Proto2 = False, f_Package = None, f_Imports = [],
     f_Enums = [], f_Messages = [], f_BaseFolder = []\<rparr>"

definition new_field :: "ScopedName \<Rightarrow> proto_Field \<Rightarrow> MessageFieldDefinition" where
  "new_field nm def = \<lparr>fd_Name = nm, fd_Repeated = False, fd_Map = False, fd_OneOfGroup = [], fd_MapKeyType = [],
     fd_Required = False, fd_ScalarValueType = [], fd_ExternalTypeFile = None, fd_ExternalEnumType = None,
     fd_ExternalMsgType = None, fd_LocalEnumType = None, fd_LocalMsgType = None, fd_ProtoDef = def,
     fd_ExtraScopes = [], fd_DefaultValue = None\<rparr>"

definition field_Copy :: "MessageFieldDefinition \<Rightarrow> MessageFieldDefinition" where
  "field_Copy m = \<lparr>fd_Name = fd_Name m, fd_Repeated = fd_Repeated m, fd_Map = fd_Map m,
     fd_OneOfGroup = fd_OneOfGroup m, fd_MapKeyType = fd_MapKeyType m, fd_Required = fd_Required m,
     fd_ScalarValueType = fd_ScalarValueType m, fd_ExternalTypeFile = fd_ExternalTypeFile m,
     fd_ExternalEnumType = fd_ExternalEnumType m, fd_ExternalMsgType = fd_ExternalMsgType m,
     fd_LocalEnumType = fd_LocalEnumType m, fd_LocalMsgType = fd_LocalMsgType m,
     fd_ProtoDef = fd_ProtoDef m, fd_ExtraScopes = fd_ExtraScopes m, fd_DefaultValue = fd_DefaultValue m\<rparr>"

lemma field_Copy_id [simp]: "field_Copy m = m"
  by (simp add: field_Copy_def)


section \<open>Fields\<close>

fun extractDefaultValue :: "proto_Field \<Rightarrow> proto_Option option" where
  "extractDefaultValue field = find (\<lambda>option. po_Name option = ''default'') (pf_Options field)"

definition scalar_type :: "string \<Rightarrow> string" where
  "scalar_type t = (if t \<in> set ProtobufScalarTypes then t else [])"

definition extractField :: "ScopedName \<Rightarrow> proto_Field \<Rightarrow> bool \<Rightarrow> bool \<Rightarrow> MessageFieldDefinition" where
  "extractField nm v rep req =
     (new_field (Child nm (pf_Name v)) v)\<lparr>fd_Repeated := rep, fd_DefaultValue := extractDefaultValue v,
       fd_Required := req, fd_ScalarValueType := scalar_type (pf_Type v)\<rparr>"

definition extractBasicField :: "ScopedName \<Rightarrow> proto_Field \<Rightarrow> MessageFieldDefinition" where
  "extractBasicField nm v =
     (new_field (Child nm (pf_Name v)) v)\<lparr>fd_DefaultValue := extractDefaultValue v,
       fd_ScalarValueType := scalar_type (pf_Type v)\<rparr>"

definition extractMap :: "ScopedName \<Rightarrow> proto_Field \<Rightarrow> string \<Rightarrow> MessageFieldDefinition" where
  "extractMap nm v keyType =
     (new_field (Child nm (pf_Name v)) v)\<lparr>fd_Map := True, fd_MapKeyType := scalar_type keyType,
       fd_ScalarValueType := scalar_type (pf_Type v)\<rparr>"

text \<open>
  \<^verbatim>\<open>parseStructElement\<close> and \<^verbatim>\<open>extractOneOf\<close> call each other; a group, an option or a comment gives
  no field.
\<close>

fun parseStructElement :: "ScopedName \<Rightarrow> proto_element \<Rightarrow> MessageFieldDefinition list"
and extractOneOf :: "ScopedName \<Rightarrow> string \<Rightarrow> proto_element list \<Rightarrow> MessageFieldDefinition list" where
  "parseStructElement nm (NormalField v rep req) = [extractField nm v rep req]"
| "parseStructElement nm (MapField v keyType) = [extractMap nm v keyType]"
| "parseStructElement nm (Oneof grp elements) = extractOneOf nm grp elements"
| "parseStructElement nm (OneOfField v) = [extractBasicField nm v]"
| "parseStructElement nm (Group g) = []"
| "parseStructElement nm OtherElement = []"
| "extractOneOf nm grp [] = []"
| "extractOneOf nm grp (element # elements) =
     map (\<lambda>field. field\<lparr>fd_OneOfGroup := grp\<rparr>) (parseStructElement nm element) @ extractOneOf nm grp elements"


section \<open>Definitions and the walk\<close>

fun buildScopedName :: "ProtoFile \<Rightarrow> proto_parent \<Rightarrow> string \<Rightarrow> ScopedName" where
  "buildScopedName pFile (MessageParent p up) nm = LocalChild (buildScopedName pFile up p) nm"
| "buildScopedName pFile OtherParent nm =
     (case f_Package pFile of None \<Rightarrow> ParseName nm | Some pkg \<Rightarrow> Child (pkg_Name pkg) nm)"

definition enum_values :: "ScopedName \<Rightarrow> proto_EnumField option list \<Rightarrow> EnumValueDefinition list" where
  "enum_values nm elements =
     map (\<lambda>v. \<lparr>ev_Name = Child nm (pv_Name v), ev_Value = pv_Integer v, ev_ProtoDef = v, ev_Options = []\<rparr>)
       (List.map_filter id elements)"

definition extractEnum :: "ProtoFile \<Rightarrow> proto_Enum \<Rightarrow> EnumDefinition" where
  "extractEnum pFile e =
     (let nm = buildScopedName pFile (pe_Parent e) (pe_Name e) in
      \<lparr>ed_Name = nm, ed_Values = enum_values nm (pe_Elements e), ed_ProtoDef = e\<rparr>)"

text \<open>An error of the front end: a group, with the file and its name.\<close>

datatype parse_error = GroupNotSupported string string

fun is_group :: "proto_element \<Rightarrow> bool" where
  "is_group (Group g) = True"
| "is_group _ = False"

fun group_error :: "string \<Rightarrow> proto_element \<Rightarrow> parse_error list" where
  "group_error path (Group g) = [GroupNotSupported path g]"
| "group_error path _ = []"

fun message_fields :: "ScopedName \<Rightarrow> proto_element list \<Rightarrow> MessageFieldDefinition list" where
  "message_fields nm [] = []"
| "message_fields nm (element # elements) =
     (if is_group element then message_fields nm elements
      else parseStructElement nm element @ message_fields nm elements)"

definition extractMessage :: "ProtoFile \<Rightarrow> proto_Message \<Rightarrow> MessageDefinition \<times> parse_error list" where
  "extractMessage pFile e =
     (let nm = buildScopedName pFile (pm_Parent e) (pm_Name e) in
      (\<lparr>md_Name = nm, md_Fields = message_fields nm (pm_Elements e), md_ProtoDef = e\<rparr>,
       concat (map (group_error (f_Path pFile)) (pm_Elements e))))"

definition walkHandler :: "visitee \<Rightarrow> ProtoFile \<times> parse_error list \<Rightarrow> ProtoFile \<times> parse_error list" where
  "walkHandler v st =
     (let (pFile, errors) = st in
      case v of
        VImport filename kind \<Rightarrow>
          if filename = ''google/protobuf/descriptor.proto'' then (pFile, errors)
          else (pFile\<lparr>f_Imports := f_Imports pFile @ [\<lparr>im_FSPath = filename, im_Kind = kind, im_TargetFile = None\<rparr>]\<rparr>, errors)
      | VSyntax val \<Rightarrow> (if val = ''proto2'' then pFile\<lparr>f_Proto2 := True\<rparr> else pFile, errors)
      | VPackage nm \<Rightarrow>
          (case f_Package pFile of
             None \<Rightarrow> (pFile\<lparr>f_Package := Some \<lparr>pkg_Name = ParseName nm\<rparr>\<rparr>, errors)
           | Some pkg \<Rightarrow> (pFile\<lparr>f_Package := Some (pkg\<lparr>pkg_Name := ParseName nm\<rparr>)\<rparr>, errors))
      | VOption opt \<Rightarrow>
          if po_Name opt = ''go_package''
          then let pkg = (case f_Package pFile of None \<Rightarrow> \<lparr>pkg_Name = zero_name\<rparr> | Some pkg \<Rightarrow> pkg) in
            (pFile\<lparr>f_Package := Some (pkg\<lparr>pkg_Name := WithPlatformName (pkg_Name pkg) TargetPlatform_Go (po_Source opt)\<rparr>)\<rparr>, errors)
          else (pFile, errors)
      | VMessage m \<Rightarrow>
          let (msg, errs) = extractMessage pFile m in (pFile\<lparr>f_Messages := f_Messages pFile @ [msg]\<rparr>, errors @ errs)
      | VEnum e \<Rightarrow> (pFile\<lparr>f_Enums := f_Enums pFile @ [extractEnum pFile e]\<rparr>, errors)
      | VOther \<Rightarrow> (pFile, errors))"

text \<open>The handler is called on the visited elements one after the other.\<close>

definition extractProtoStruct :: "visitee list \<Rightarrow> ProtoFile \<Rightarrow> ProtoFile \<times> parse_error list" where
  "extractProtoStruct parsed file = fold walkHandler parsed (file, [])"

text \<open>
  \<^verbatim>\<open>ParseStruct\<close> handles every file in a goroutine of its own; the goroutines share only the list of
  errors, to which they append under a lock. So the files are the extracted ones and the errors
  some interleaving of the errors of the files.
\<close>

fun interleavings :: "'a list list \<Rightarrow> 'a list set" where
  "interleavings [] = {[]}"
| "interleavings (xs # xss) = (\<Union>ys \<in> interleavings xss. shuffles xs ys)"

definition ParseStruct :: "(ProtoFile \<times> visitee list) list \<Rightarrow> ProtoFile list \<times> parse_error list set" where
  "ParseStruct targets =
     (let results = map (\<lambda>(file, parsed). extractProtoStruct parsed file) targets in
      (map fst results, interleavings (map snd results)))"


section \<open>Finding and reading the files\<close>

definition DefaultIgnorePatterns :: "string list" where
  "DefaultIgnorePatterns = [''node_modules'', ''vendor'', ''test_data'', ''.git'']"

definition ProtoExtension :: string where
  "ProtoExtension = ''.proto''"

text \<open>\<^verbatim>\<open>log.Panicf\<close> for a path outside the root.\<close>

definition buildRelativePath :: "string \<Rightarrow> ProtoFile \<Rightarrow> ('e, string) gres" where
  "buildRelativePath root pFile =
     (if \<not> HasPrefix (f_Path pFile) root then Panic
      else Ok (TrimPrefix (TrimPrefix (f_Path pFile) root) ''/''))"

text \<open>
  One call of the callback of \<^verbatim>\<open>filepath.WalkDir\<close>: the path, the directory entry (\<open>None\<close> when it could
  not be read, otherwise whether it is a directory) and the error the walk passes in. The directory
  tree is outside the program; the walk is the sequence of its calls, which an error ends.
\<close>

type_synonym 'e dir_call = "string \<times> bool option \<times> 'e option"

definition walk_file :: "string \<Rightarrow> string list \<Rightarrow> 'e dir_call \<Rightarrow> ProtoFile list \<Rightarrow> ('e, ProtoFile list) gres" where
  "walk_file absCwd ignore call found =
     (let (filePath, info, err) = call in
      case info of
        None \<Rightarrow> Panic
      | Some isDir \<Rightarrow>
          if isDir \<or> \<not> HasSuffix filePath ProtoExtension then Ok found
          else if list_ex (\<lambda>part. part \<in> set ignore) (split_on CHR ''/'' filePath) then Ok found
          else gbind (buildRelativePath absCwd (new_file filePath)) (\<lambda>rel.
            let found = found @ [(new_file filePath)\<lparr>f_RelativePath := rel\<rparr>] in
            case err of None \<Rightarrow> Ok found | Some e \<Rightarrow> Err e))"

definition FindAllProtobufFiles :: "'e + string \<Rightarrow> 'e dir_call list \<Rightarrow> string list \<Rightarrow> ('e, ProtoFile list) gres" where
  "FindAllProtobufFiles absPath calls ignorePatterns =
     (case absPath of Inl e \<Rightarrow> Err e | Inr absCwd \<Rightarrow> gfold (walk_file absCwd ignorePatterns) calls [])"

text \<open>
  \<^verbatim>\<open>ParseProtoFiles\<close> opens and parses every file in a goroutine of its own, each with its own slot for
  the result and the error; then the error of the first file that failed is returned.
\<close>

definition ParseProtoFiles :: "(string \<Rightarrow> 'e + visitee list) \<Rightarrow> ProtoFile list \<Rightarrow> (string \<times> 'e, (ProtoFile \<times> visitee list) list) gres" where
  "ParseProtoFiles parse files =
     (case find (\<lambda>file. isl (parse (f_Path file))) files of
        Some file \<Rightarrow> Err (f_Path file, projl (parse (f_Path file)))
      | None \<Rightarrow> Ok (map (\<lambda>file. (file, projr (parse (f_Path file)))) files))"


section \<open>What the walk extracts\<close>

fun parent_names :: "proto_parent \<Rightarrow> string list" where
  "parent_names (MessageParent p up) = parent_names up @ [p]"
| "parent_names OtherParent = []"

definition is_ident :: "string \<Rightarrow> bool" where
  "is_ident nm \<longleftrightarrow> nm \<noteq> [] \<and> CHR ''.'' \<notin> set nm"

definition pkg_path :: "ProtoFile \<Rightarrow> string list" where
  "pkg_path pFile = (case f_Package pFile of None \<Rightarrow> [] | Some pkg \<Rightarrow> scope_path (pkg_Name pkg))"

definition pkg_ok :: "ProtoFile \<Rightarrow> bool" where
  "pkg_ok pFile \<longleftrightarrow> (case f_Package pFile of None \<Rightarrow> True | Some pkg \<Rightarrow> proper_scope (pkg_Name pkg))"

lemma comps_Child_proper: "proper_scope s \<Longrightarrow> comps (Child s nm) = scope_path s @ [nm]"
proof (cases "sn_fullPath s = []")
  case True
  assume "proper_scope s"
  with True have "comps s = [[]]" by (simp add: proper_scope_def path_ok_def join_on_Nil_iff)
  with True show ?thesis by (simp add: comps_Child scope_path_def) (simp add: comps_def)
next
  case False
  assume "proper_scope s"
  with False show ?thesis by (simp add: comps_Child scope_path_def proper_scope_def comps_def [of s])
qed

lemma scope_path_comps: "path_ok s \<Longrightarrow> sn_name s \<noteq> [] \<Longrightarrow> scope_path s = comps s"
  by (auto simp: scope_path_def path_ok_def comps_def join_on_Nil_iff)

lemma comps_buildScopedName:
  assumes "pkg_ok pFile" and "is_ident nm" and "list_all is_ident (parent_names up)"
  shows "comps (buildScopedName pFile up nm) = pkg_path pFile @ parent_names up @ [nm] \<and>
    LocalPath (buildScopedName pFile up nm) = parent_names up \<and> name_ok (buildScopedName pFile up nm) \<and>
    sn_name (buildScopedName pFile up nm) = nm"
  using assms
proof (induction pFile up nm rule: buildScopedName.induct)
  case (1 pFile p up nm)
  let ?s = "buildScopedName pFile up p"
  from 1 have s: "comps ?s = pkg_path pFile @ parent_names up @ [p]" "LocalPath ?s = parent_names up" "name_ok ?s" "sn_name ?s = p"
    by auto
  have "p \<noteq> []" using 1 by (simp add: is_ident_def)
  then have "comps (LocalChild ?s nm) = comps ?s @ [nm]"
    using s(4) by (simp add: comps_def scope_defs butlast_append)
  moreover have "name_ok (LocalChild ?s nm)"
    using s(3) 1(3) by (simp add: name_ok_step is_ident_def)
  ultimately show ?case
    using s by (simp add: LocalPath_def LocalChild_def Child_def zero_name_def Let_def)
next
  case (2 pFile nm)
  show ?case
  proof (cases "f_Package pFile")
    case None
    with 2 show ?thesis
      using split_single [of "CHR ''.''" nm]
      by (simp add: pkg_path_def comps_ParseName ParseName_ok is_ident_def LocalPath_def)
        (simp add: ParseName_def zero_name_def Let_def)
  next
    case (Some pkg)
    with 2 have "proper_scope (pkg_Name pkg)" by (simp add: pkg_ok_def)
    with 2 Some show ?thesis
      by (simp add: pkg_path_def comps_Child_proper name_ok_step proper_name_ok is_ident_def)
        (simp add: LocalPath_def Child_def zero_name_def Let_def)
  qed
qed

text \<open>The elements of the walk that define something, and those that fix the names.\<close>

fun sets_package :: "visitee \<Rightarrow> bool" where
  "sets_package (VPackage nm) = True"
| "sets_package (VOption opt) = (po_Name opt = ''go_package'')"
| "sets_package _ = False"

definition visited_messages :: "visitee list \<Rightarrow> proto_Message list" where
  "visited_messages vs = List.map_filter (\<lambda>v. case v of VMessage m \<Rightarrow> Some m | _ \<Rightarrow> None) vs"

definition visited_enums :: "visitee list \<Rightarrow> proto_Enum list" where
  "visited_enums vs = List.map_filter (\<lambda>v. case v of VEnum e \<Rightarrow> Some e | _ \<Rightarrow> None) vs"

lemma visited_simps [simp]:
  "visited_messages [] = []" "visited_enums [] = []"
  "visited_messages (v # vs) = (case v of VMessage m \<Rightarrow> [m] | _ \<Rightarrow> []) @ visited_messages vs"
  "visited_enums (v # vs) = (case v of VEnum e \<Rightarrow> [e] | _ \<Rightarrow> []) @ visited_enums vs"
  by (simp_all add: visited_messages_def visited_enums_def List.map_filter_def split: visitee.split)

lemma extract_cong:
  assumes "f_Package f = f_Package g"
  shows "buildScopedName f up nm = buildScopedName g up nm" "extractEnum f e = extractEnum g e"
    and "f_Path f = f_Path g \<Longrightarrow> extractMessage f m = extractMessage g m"
proof -
  show n: "buildScopedName f up nm = buildScopedName g up nm" for up nm
    using assms by (induction up arbitrary: nm) simp_all
  show "extractEnum f e = extractEnum g e" by (simp add: extractEnum_def n)
  show "f_Path f = f_Path g \<Longrightarrow> extractMessage f m = extractMessage g m" by (simp add: extractMessage_def n)
qed

lemma walk_definitions:
  assumes "\<forall>v \<in> set vs. \<not> sets_package v"
  shows "case fold walkHandler vs (f, errs) of (f', errs') \<Rightarrow>
    f_Path f' = f_Path f \<and> f_Package f' = f_Package f \<and>
    f_Messages f' = f_Messages f @ map (fst \<circ> extractMessage f) (visited_messages vs) \<and>
    f_Enums f' = f_Enums f @ map (extractEnum f) (visited_enums vs) \<and>
    errs' = errs @ concat (map (snd \<circ> extractMessage f) (visited_messages vs))"
  using assms
proof (induction vs arbitrary: f errs)
  case (Cons v vs)
  obtain g es where st: "walkHandler v (f, errs) = (g, es)" by (cases "walkHandler v (f, errs)")
  then have step: "f_Path g = f_Path f" "f_Package g = f_Package f"
    "f_Messages g = f_Messages f @ map (fst \<circ> extractMessage f) (visited_messages [v])"
    "f_Enums g = f_Enums f @ map (extractEnum f) (visited_enums [v])"
    "es = errs @ concat (map (snd \<circ> extractMessage f) (visited_messages [v]))"
    using Cons.prems by (auto simp: walkHandler_def Let_def split: visitee.splits prod.splits if_splits option.splits)
  note cong = extract_cong [OF step(2)] extract_cong(3) [OF step(2,1)]
  show ?case
    using Cons.IH [of g es] Cons.prems
    by (auto simp: st step cong comp_def split: prod.splits)
qed simp

lemma group_error_Nil: "group_error path e = [] \<longleftrightarrow> \<not> is_group e"
  by (cases e) simp_all

lemma extractMessage_simps:
  "md_Name (fst (extractMessage f m)) = buildScopedName f (pm_Parent m) (pm_Name m)"
  "snd (extractMessage f m) = [] \<longleftrightarrow> \<not> list_ex is_group (pm_Elements m)"
  by (auto simp: extractMessage_def Let_def group_error_Nil list_ex_iff)

lemma extractEnum_Name: "ed_Name (extractEnum f e) = buildScopedName f (pe_Parent e) (pe_Name e)"
  by (simp add: extractEnum_def Let_def)

lemma proper_ParseName:
  "list_all (\<lambda>p. p \<noteq> []) (split_on CHR ''.'' nm) \<Longrightarrow>
    proper_scope (ParseName nm) \<and> scope_path (ParseName nm) = split_on CHR ''.'' nm"
  using ParseName_ok [of nm] split_single [of "CHR ''.''" "[]"]
  by (auto simp: proper_scope_def scope_path_def name_ok_def comps_ParseName list_all_iff path_ok_def join_on_Nil_iff)



text \<open>
  The Go package of a file is the one of its option only when the option follows the package
  statement; before it, the package statement replaces the name and the option is lost.
\<close>

theorem go_package_order:
  "let opt = VOption \<lparr>po_Name = ''go_package'', po_Source = go, po_IsString = True\<rparr>;
       after = fst (extractProtoStruct [VPackage pkg, opt] (new_file path));
       before = fst (extractProtoStruct [opt, VPackage pkg] (new_file path)) in
   map_option (\<lambda>p. PlatformName (pkg_Name p) TargetPlatform_Go) (f_Package after) = Some go \<and>
   map_option (\<lambda>p. PlatformName (pkg_Name p) TargetPlatform_Go) (f_Package before) = Some []"
  by (simp add: extractProtoStruct_def walkHandler_def new_file_def PlatformName_def WithPlatformName_def
      zero_name_def update_conv) (simp add: ParseName_def zero_name_def Let_def)

text \<open>A call of the walk for an entry below the folder that could be read.\<close>

definition readable_call :: "string \<Rightarrow> 'e dir_call \<Rightarrow> bool" where
  "readable_call cwd call \<longleftrightarrow> prefix (cwd @ ''/'') (fst call) \<and> fst (snd call) \<noteq> None \<and> snd (snd call) = None"

definition wanted :: "string list \<Rightarrow> 'e dir_call \<Rightarrow> bool" where
  "wanted ignore call \<longleftrightarrow> fst (snd call) = Some False \<and> HasSuffix (fst call) ProtoExtension \<and>
     (\<forall>part \<in> set (split_on CHR ''/'' (fst call)). part \<notin> set ignore)"

lemma buildRelativePath_below: "buildRelativePath cwd (new_file (cwd @ ''/'' @ rel)) = Ok rel"
  by (simp add: buildRelativePath_def new_file_def TrimPrefix_def HasPrefix_def)

lemma walk_file_readable:
  assumes "readable_call cwd call"
  shows "walk_file cwd ignore call found = Ok (if wanted ignore call
    then found @ [(new_file (fst call))\<lparr>f_RelativePath := drop (length cwd + 1) (fst call)\<rparr>] else found)"
proof -
  obtain rel isDir where "call = (cwd @ ''/'' @ rel, Some isDir, None)"
    using assms by (cases call) (auto simp: readable_call_def prefix_def)
  then show ?thesis by (auto simp: walk_file_def wanted_def list_ex_iff buildRelativePath_below [simplified])
qed

lemma find_files_from:
  "list_all (readable_call cwd) calls \<Longrightarrow> gfold (walk_file cwd ignore) calls found = Ok (found @
    map (\<lambda>call. (new_file (fst call))\<lparr>f_RelativePath := drop (length cwd + 1) (fst call)\<rparr>) (filter (wanted ignore) calls))"
  by (induction calls arbitrary: found) (auto simp: walk_file_readable)

lemma not_wanted_below:
  assumes "readable_call cwd call" and "part \<in> set (split_on CHR ''/'' cwd)" and "part \<in> set ignore"
  shows "\<not> wanted ignore call"
  using assms by (auto simp: readable_call_def wanted_def prefix_def split_on_append)

text \<open>
  The search for proto files, over a tree it can read below an absolute folder: it returns, and it
  returns in the order of the walk the files with the extension whose whole path has no ignored
  component, with the path below the folder as relative path. The ignored names count in the path
  of the folder itself too, so a folder below one of them has no proto files at all.
\<close>

theorem find_files_exact:
  assumes "list_all (readable_call cwd) calls"
  shows "FindAllProtobufFiles (Inr cwd) calls ignore = Ok (map
    (\<lambda>call. (new_file (fst call))\<lparr>f_RelativePath := drop (length cwd + 1) (fst call)\<rparr>) (filter (wanted ignore) calls)) \<and>
    ((\<exists>part \<in> set (split_on CHR ''/'' cwd). part \<in> set ignore) \<longrightarrow> filter (wanted ignore) calls = [])"
proof (intro conjI impI)
  assume "\<exists>part \<in> set (split_on CHR ''/'' cwd). part \<in> set ignore"
  then have "\<forall>call \<in> set calls. \<not> wanted ignore call"
    using assms not_wanted_below [of cwd _ _ ignore] unfolding list_all_iff by blast
  then show "filter (wanted ignore) calls = []" by (simp only: filter_False)
qed (use find_files_from [OF assms, of ignore "[]"] in \<open>simp add: FindAllProtobufFiles_def\<close>)

theorem find_files_exact_witness:
  "FindAllProtobufFiles (Inr ''/w'') [(''/w/a.proto'', Some False, None :: unit option), (''/w/b.go'', Some False, None)] DefaultIgnorePatterns =
    Ok [(new_file ''/w/a.proto'')\<lparr>f_RelativePath := ''a.proto''\<rparr>]"
proof -
  let ?c = "[(''/w/a.proto'', Some False, None :: unit option), (''/w/b.go'', Some False, None)]"
  have "list_all (readable_call ''/w'') ?c" by (simp add: readable_call_def)
  from conjunct1 [OF find_files_exact [OF this, of DefaultIgnorePatterns]] show ?thesis
    by (simp add: wanted_def HasSuffix_def ProtoExtension_def DefaultIgnorePatterns_def)
qed

text \<open>However the goroutines are scheduled, the errors are those of all files.\<close>

lemma interleavings_mset: "errs \<in> interleavings xss \<Longrightarrow> set errs = \<Union> (set ` set xss) \<and> length errs = sum_list (map length xss)"
  by (induction xss arbitrary: errs) (auto simp: set_shuffles length_shuffles)

end
