(* ===== verification/Go_Filepath.thy ===== *)
theory Go_Filepath
  imports Go_Strings
begin

text \<open>
  Go's \<^verbatim>\<open>path/filepath\<close> on Unix: \<^verbatim>\<open>Clean\<close>, \<^verbatim>\<open>Join\<close> of two elements and \<^verbatim>\<open>Dir\<close>, and what they do on
  absolute paths given by their components.
\<close>

definition clean_step :: "bool \<Rightarrow> string \<Rightarrow> string list \<Rightarrow> string list" where
  "clean_step rooted part out =
     (if part = [] \<or> part = ''.'' then out
      else if part = ''..'' then
        (if out = [] then (if rooted then [] else [''..'']) else if last out = ''..'' then out @ [''..''] else butlast out)
      else out @ [part])"

definition Clean :: "string \<Rightarrow> string" where
  "Clean path =
     (if path = [] then ''.''
      else let rooted = (hd path = CHR ''/'');
               out = fold (clean_step rooted) (split_on CHR ''/'' path) [] in
        if rooted then ''/'' @ join_on CHR ''/'' out
        else if out = [] then ''.'' else join_on CHR ''/'' out)"

definition Join :: "string \<Rightarrow> string \<Rightarrow> string" where
  "Join a b = (if a \<noteq> [] then Clean (a @ ''/'' @ b) else if b \<noteq> [] then Clean b else [])"

text \<open>The part of the path up to and including its last slash, cleaned.\<close>

definition Dir :: "string \<Rightarrow> string" where
  "Dir path = Clean (rev (dropWhile (\<lambda>c. c \<noteq> CHR ''/'') (rev path)))"


section \<open>Absolute paths by components\<close>

definition abs_path :: "string list \<Rightarrow> string" where
  "abs_path cs = ''/'' @ join_on CHR ''/'' cs"

definition plain :: "string \<Rightarrow> bool" where
  "plain part \<longleftrightarrow> part \<noteq> [] \<and> part \<noteq> ''.'' \<and> part \<noteq> ''..'' \<and> CHR ''/'' \<notin> set part"

lemma clean_plain: "list_all plain cs \<Longrightarrow> fold (clean_step rooted) cs out = out @ cs"
  by (induction cs arbitrary: out) (auto simp: clean_step_def plain_def)

lemma split_abs_path:
  "list_all plain cs \<Longrightarrow> split_on CHR ''/'' (abs_path cs) = [] # (if cs = [] then [[]] else cs)"
  by (auto simp: abs_path_def plain_def list_all_iff intro!: split_join)

lemma split_join_parts: "filter (\<lambda>p. p \<noteq> []) (split_on CHR ''/'' (abs_path cs)) = cs" if "list_all plain cs"
proof -
  have "filter (\<lambda>p. p \<noteq> []) cs = cs" using that by (simp add: filter_id_conv list_all_iff plain_def)
  then show ?thesis using that by (simp add: split_abs_path)
qed

lemma fold_clean_split:
  "list_all plain cs \<Longrightarrow> fold (clean_step True) (split_on CHR ''/'' (abs_path cs)) [] = cs"
  by (cases "cs = []") (simp_all add: split_abs_path clean_step_def clean_plain)

lemma Join_parts:
  assumes "list_all plain cs"
  shows "Join (abs_path cs) rel = abs_path (fold (clean_step True) (split_on CHR ''/'' rel) cs)"
proof -
  have "Join (abs_path cs) rel = Clean (abs_path cs @ ''/'' @ rel)" by (simp add: Join_def abs_path_def)
  also have "\<dots> = ''/'' @ join_on CHR ''/'' (fold (clean_step True) (split_on CHR ''/'' (abs_path cs @ ''/'' @ rel)) [])"
    by (simp add: Clean_def abs_path_def)
  also have "split_on CHR ''/'' (abs_path cs @ ''/'' @ rel) = split_on CHR ''/'' (abs_path cs) @ split_on CHR ''/'' rel"
    by (simp add: split_on_append)
  also have "''/'' @ join_on CHR ''/'' (fold (clean_step True) \<dots> []) = abs_path (fold (clean_step True) (split_on CHR ''/'' rel) cs)"
    by (simp add: fold_clean_split [OF assms]) (simp add: abs_path_def)
  finally show ?thesis .
qed

lemma Join_plain: "list_all plain cs \<Longrightarrow> plain part \<Longrightarrow> Join (abs_path cs) part = abs_path (cs @ [part])"
  using split_single [of "CHR ''/''" part] by (simp add: Join_parts) (simp add: clean_step_def plain_def)

lemma Join_relative:
  "list_all plain cs \<Longrightarrow> list_all plain ps \<Longrightarrow> ps \<noteq> [] \<Longrightarrow> Join (abs_path cs) (join_on CHR ''/'' ps) = abs_path (cs @ ps)"
  by (simp add: Join_parts split_join list_all_iff plain_def clean_plain [unfolded list_all_iff plain_def])

lemma dropWhile_file:
  assumes "CHR ''/'' \<notin> set f"
  shows "rev (dropWhile (\<lambda>c. c \<noteq> CHR ''/'') (rev (d @ ''/'' @ f))) = d @ ''/''"
proof -
  have "dropWhile (\<lambda>c. c \<noteq> CHR ''/'') (rev f @ CHR ''/'' # rev d) = CHR ''/'' # rev d"
    using assms by (subst dropWhile_append2) auto
  then show ?thesis by simp
qed

lemma Dir_abs_path:
  assumes "list_all plain cs" and "plain f"
  shows "Dir (abs_path (cs @ [f])) = abs_path cs"
proof -
  have f: "CHR ''/'' \<notin> set f" using assms(2) by (simp add: plain_def)
  show ?thesis
  proof (cases "cs = []")
    case True
    have "rev (dropWhile (\<lambda>c. c \<noteq> CHR ''/'') (rev ([] @ ''/'' @ f))) = [] @ ''/''" using f by (rule dropWhile_file)
    with True show ?thesis by (simp add: Dir_def abs_path_def Clean_def clean_step_def)
  next
    case False
    then have p: "abs_path (cs @ [f]) = abs_path cs @ ''/'' @ f" by (simp add: abs_path_def join_on_snoc)
    have "split_on CHR ''/'' (abs_path cs @ ''/'') = split_on CHR ''/'' (abs_path cs) @ [[]]"
      by (simp add: split_on_append)
    then have "Clean (abs_path cs @ ''/'') = abs_path cs"
      using assms(1) by (simp add: Clean_def Let_def fold_clean_split clean_step_def)
        (simp add: abs_path_def)
    then show ?thesis by (simp only: Dir_def p dropWhile_file [OF f])
  qed
qed

lemma abs_path_inj: "list_all plain cs \<Longrightarrow> list_all plain ds \<Longrightarrow> abs_path cs = abs_path ds \<longleftrightarrow> cs = ds"
  using split_join_parts [of cs] split_join_parts [of ds] by metis

end
