(* ===== verification/Proto_Resolve.thy ===== *)
theory Proto_Resolve
  imports Proto_Parse Go_Filepath
begin

text \<open>
  The second half of the compiler front end: imports (\<^verbatim>\<open>gremlinc/internal/imports.go\<close>), extensions,
  references and options (\<^verbatim>\<open>resolving.go\<close>). The parsed files are a list; a pointer to a file is its
  index, a pointer to a message or enum its index in the file. Extensions remove messages from a
  file before any reference to a message is taken, so the indices do not move afterwards.

  The search for a name starts in the scope of the message and goes outwards. The refinement
  lemmas show that this loop over dotted names finds the definition of the innermost scope.
\<close>

section \<open>The search through the scopes\<close>

text \<open>The index of the first element with a property; the first result of a function on a list.\<close>

fun find_index :: "('a \<Rightarrow> bool) \<Rightarrow> 'a list \<Rightarrow> nat option" where
  "find_index P [] = None"
| "find_index P (x # xs) = (if P x then Some 0 else map_option Suc (find_index P xs))"

fun first_some :: "('a \<Rightarrow> 'b option) \<Rightarrow> 'a list \<Rightarrow> 'b option" where
  "first_some f [] = None"
| "first_some f (x # xs) = (case f x of None \<Rightarrow> first_some f xs | Some y \<Rightarrow> Some y)"

text \<open>
  The loop that all four searches of the source share: move the name into the scope, look for it,
  and go on in the parent scope until the root scope has been tried.
\<close>

function searchScopes :: "(ScopedName \<Rightarrow> 'a option) \<Rightarrow> ScopedName \<Rightarrow> ScopedName \<Rightarrow> 'a option" where
  "searchScopes probe scopedName searchPath =
     (case probe (ToScope scopedName searchPath) of
        Some r \<Rightarrow> Some r
      | None \<Rightarrow> if CanResolveParent searchPath then searchScopes probe scopedName (ToParent searchPath) else None)"
  by auto

termination
  by (relation "measure (\<lambda>(probe, s, sp). if sn_fullPath sp = [] then 0 else Suc (length (sn_parent sp)))")
    (auto simp: CanResolveParent_def ToParent_def zero_name_def Let_def)

declare searchScopes.simps [simp del]


section \<open>Extensions\<close>

text \<open>Errors the front end collects, and the two messages with which it ends the process.\<close>

datatype front_exit = NoProtoFiles string | AmbiguousLayout string

datatype front_error =
    UnresolvedImport string string string string
  | UnresolvedExtend string string string
  | UnresolvedReference string string string

definition probeMessage :: "ProtoFile \<Rightarrow> ScopedName \<Rightarrow> nat option" where
  "probeMessage file nm =
     find_index (\<lambda>msg. ScopedName_Equal (md_Name msg) nm \<and> \<not> pm_IsExtend (md_ProtoDef msg)) (f_Messages file)"

definition resolveLocalExtendSource :: "ProtoFile \<Rightarrow> MessageDefinition \<Rightarrow> nat option" where
  "resolveLocalExtendSource pFile m =
     searchScopes (probeMessage pFile) (ParseName (pm_Name (md_ProtoDef m))) (md_Name m)"

text \<open>The scope in which the search in an imported file starts: its package or the root.\<close>

definition import_scope :: "ProtoFile \<Rightarrow> ScopedName" where
  "import_scope target = (case f_Package target of None \<Rightarrow> zero_name | Some pkg \<Rightarrow> pkg_Name pkg)"

definition resolveImportedExtendSource :: "ProtoFile list \<Rightarrow> ProtoFile \<Rightarrow> MessageDefinition \<Rightarrow> (nat \<times> nat) option" where
  "resolveImportedExtendSource files file m =
     first_some (\<lambda>protoImport. case im_TargetFile protoImport of
         None \<Rightarrow> None
       | Some t \<Rightarrow> map_option (Pair t)
           (searchScopes (probeMessage (files ! t)) (ParseName (pm_Name (md_ProtoDef m))) (import_scope (files ! t))))
       (f_Imports file)"

definition extend_fields :: "MessageDefinition \<Rightarrow> MessageDefinition \<Rightarrow> MessageDefinition" where
  "extend_fields src message =
     message\<lparr>md_Fields := md_Fields message @
       map (\<lambda>field. (field_Copy field)\<lparr>fd_ExtraScopes := fd_ExtraScopes field @ [md_Name src]\<rparr>) (md_Fields src)\<rparr>"

definition set_message :: "nat \<Rightarrow> nat \<Rightarrow> MessageDefinition \<Rightarrow> ProtoFile list \<Rightarrow> ProtoFile list" where
  "set_message i k message files =
     files[i := (files ! i)\<lparr>f_Messages := (f_Messages (files ! i))[k := message]\<rparr>]"

text \<open>One round of the loop over the messages of the file with index i.\<close>

definition extend_step :: "nat \<Rightarrow> nat \<Rightarrow> ProtoFile list \<times> nat list \<times> front_error list \<Rightarrow> ProtoFile list \<times> nat list \<times> front_error list" where
  "extend_step i k st =
     (let (files, removed, errors) = st; pFile = files ! i; message = f_Messages pFile ! k in
      if pm_IsExtend (md_ProtoDef message) then
        (case resolveLocalExtendSource pFile message of
           Some j \<Rightarrow>
             let localSrc = f_Messages pFile ! j in
             (set_message i k (extend_fields localSrc message) files,
              if ScopedName_Equal (md_Name localSrc) (md_Name message) then removed @ [j] else removed, errors)
         | None \<Rightarrow>
             (case resolveImportedExtendSource files pFile message of
                Some (t, j) \<Rightarrow>
                  (set_message i k (extend_fields (f_Messages (files ! t) ! j) message) files, removed, errors)
              | None \<Rightarrow>
                  if \<not> HasPrefix (pm_Name (md_ProtoDef message)) ''google.protobuf.''
                  then (files, removed, errors @ [UnresolvedExtend (pm_Name (md_ProtoDef message))
                    (ScopedName_String (md_Name message)) (f_RelativePath pFile)])
                  else (files, removed, errors)))
      else st)"

definition resolveExtensions :: "nat \<Rightarrow> ProtoFile list \<Rightarrow> ProtoFile list \<times> front_error list" where
  "resolveExtensions i files =
     (let (files, removed, errors) = fold (extend_step i) [0..<length (f_Messages (files ! i))] (files, [], []);
          pFile = files ! i in
      (if removed \<noteq> []
       then files[i := pFile\<lparr>f_Messages := map snd (filter (\<lambda>(k, msg). k \<notin> set removed) (enumerate 0 (f_Messages pFile)))\<rparr>]
       else files, errors))"


section \<open>References\<close>

text \<open>The body of the search for a type: enums first, then messages.\<close>

definition probeType :: "ProtoFile \<Rightarrow> ScopedName \<Rightarrow> (nat + nat) option" where
  "probeType file nm =
     (case find_index (\<lambda>enum. ScopedName_Equal (ed_Name enum) nm) (f_Enums file) of
        Some i \<Rightarrow> Some (Inl i)
      | None \<Rightarrow> map_option Inr (find_index (\<lambda>msg. ScopedName_Equal (md_Name msg) nm) (f_Messages file)))"

definition scopesToSearch :: "MessageFieldDefinition \<Rightarrow> ScopedName list" where
  "scopesToSearch field = ParseName (pf_Type (fd_ProtoDef field)) # fd_ExtraScopes field"

definition resolveLocalReference :: "ProtoFile \<Rightarrow> MessageDefinition \<Rightarrow> MessageFieldDefinition \<Rightarrow> MessageFieldDefinition option" where
  "resolveLocalReference file m field =
     map_option (\<lambda>r. case r of Inl i \<Rightarrow> field\<lparr>fd_LocalEnumType := Some i\<rparr> | Inr i \<Rightarrow> field\<lparr>fd_LocalMsgType := Some i\<rparr>)
       (first_some (\<lambda>scopedName. searchScopes (probeType file) scopedName (md_Name m)) (scopesToSearch field))"

definition resolveImportedReference :: "ProtoFile list \<Rightarrow> ProtoFile \<Rightarrow> MessageFieldDefinition \<Rightarrow> MessageFieldDefinition option" where
  "resolveImportedReference files file field =
     map_option (\<lambda>(t, r). case r of
         Inl i \<Rightarrow> field\<lparr>fd_ExternalEnumType := Some i, fd_ExternalTypeFile := Some t\<rparr>
       | Inr i \<Rightarrow> field\<lparr>fd_ExternalMsgType := Some i, fd_ExternalTypeFile := Some t\<rparr>)
       (first_some (\<lambda>scopedName.
          first_some (\<lambda>protoImport. case im_TargetFile protoImport of
              None \<Rightarrow> None
            | Some t \<Rightarrow> map_option (Pair t) (searchScopes (probeType (files ! t)) scopedName (import_scope (files ! t))))
            (f_Imports file)) (scopesToSearch field))"

definition resolveField :: "ProtoFile list \<Rightarrow> ProtoFile \<Rightarrow> MessageDefinition \<Rightarrow> MessageFieldDefinition \<Rightarrow> MessageFieldDefinition \<times> front_error list" where
  "resolveField files pFile message field =
     (if fd_ScalarValueType field \<noteq> [] then (field, [])
      else case resolveLocalReference pFile message field of
        Some field' \<Rightarrow> (field', [])
      | None \<Rightarrow>
          (case resolveImportedReference files pFile field of
             Some field' \<Rightarrow> (field', [])
           | None \<Rightarrow> (field, [UnresolvedReference (pf_Type (fd_ProtoDef field)) (ScopedName_String (md_Name message)) (f_RelativePath pFile)])))"

text \<open>
  The loops over the messages and their fields. Resolving a field reads only the names of the
  definitions, which the loop does not change.
\<close>

definition resolveReferences :: "ProtoFile list \<Rightarrow> ProtoFile \<Rightarrow> ProtoFile \<times> front_error list" where
  "resolveReferences files pFile =
     (pFile\<lparr>f_Messages := map (\<lambda>message. message\<lparr>md_Fields := map (fst \<circ> resolveField files pFile message) (md_Fields message)\<rparr>)
        (f_Messages pFile)\<rparr>,
      concat (map (\<lambda>message. concat (map (snd \<circ> resolveField files pFile message) (md_Fields message))) (f_Messages pFile)))"


section \<open>Options of enum values\<close>

definition extraOptions :: "ProtoFile \<Rightarrow> (string \<times> MessageFieldDefinition) list" where
  "extraOptions file =
     fold (\<lambda>field opts. AList.update (ProtoName (fd_Name field)) field opts)
       (concat (map md_Fields (filter (\<lambda>message. ProtoName (md_Name message) = ''google.protobuf.EnumValueOptions'') (f_Messages file)))) []"

text \<open>
  One option of an enum value. An option that is not found leaves the field nil, and the next
  access to it panics. The text of \<^verbatim>\<open>%q\<close> comes from the function \<open>quote\<close>.
\<close>

definition resolveOption :: "(string \<Rightarrow> string) \<Rightarrow> (string \<times> MessageFieldDefinition) list \<Rightarrow> proto_Option \<Rightarrow> EnumValueDefinition \<Rightarrow> (front_exit, EnumValueDefinition) gres" where
  "resolveOption quote opts opt val =
     (let cleanedName = TrimSuffix (TrimPrefix (po_Name opt) ''('') '')'' in
      case (case map_of opts (po_Name opt) of Some field \<Rightarrow> Some field | None \<Rightarrow> map_of opts cleanedName) of
        None \<Rightarrow> Panic
      | Some field \<Rightarrow>
          let optValue = (if po_IsString opt \<and> fd_ScalarValueType field \<noteq> [] then quote (po_Source opt) else po_Source opt);
              key = ProtoName (fd_Name field);
              fresh = \<lparr>eo_Name = key, eo_Repeated = fd_Repeated field, eo_ScalarValueType = fd_ScalarValueType field,
                eo_LocalEnumType = fd_LocalEnumType field, eo_ProtoDef = None, eo_Values = [], eo_Value = []\<rparr> in
          if fd_Repeated field
          then let old = (case map_of (ev_Options val) key of None \<Rightarrow> fresh | Some d \<Rightarrow> d) in
            Ok (val\<lparr>ev_Options := AList.update key (old\<lparr>eo_Values := eo_Values old @ [optValue]\<rparr>) (ev_Options val)\<rparr>)
          else Ok (val\<lparr>ev_Options := AList.update key (fresh\<lparr>eo_ProtoDef := Some opt, eo_Value := optValue\<rparr>) (ev_Options val)\<rparr>))"

definition resolveValueOptions :: "(string \<Rightarrow> string) \<Rightarrow> (string \<times> MessageFieldDefinition) list \<Rightarrow> EnumValueDefinition \<Rightarrow> (front_exit, EnumValueDefinition) gres" where
  "resolveValueOptions quote opts val =
     gfold (resolveOption quote opts) (List.map_filter id (pv_Elements (ev_ProtoDef val))) val"

text \<open>The list of errors is collected but nil is returned.\<close>

definition resolveOptions :: "(string \<Rightarrow> string) \<Rightarrow> ProtoFile \<Rightarrow> (front_exit, ProtoFile \<times> front_error list) gres" where
  "resolveOptions quote file =
     gmap (\<lambda>enums. (file\<lparr>f_Enums := enums\<rparr>, []))
       (gmapM (\<lambda>enum. gmap (\<lambda>vals. enum\<lparr>ed_Values := vals\<rparr>)
            (gmapM (resolveValueOptions quote (extraOptions file)) (ed_Values enum))) (f_Enums file))"


section \<open>Imports\<close>

text \<open>The map from paths to files; a later file with the same path replaces an earlier one.\<close>

definition parsedMap :: "ProtoFile list \<Rightarrow> (string \<times> nat) list" where
  "parsedMap files = fold (\<lambda>(i, p) m. AList.update (f_Path p) i m) (enumerate 0 files) []"

definition resolveImports :: "(string \<times> nat) list \<Rightarrow> ProtoFile \<Rightarrow> ProtoFile \<times> front_error list" where
  "resolveImports parsed pFile =
     (let target = (\<lambda>imp. map_of parsed (Join (f_BaseFolder pFile) (im_FSPath imp))) in
      (pFile\<lparr>f_Imports := map (\<lambda>imp. case target imp of Some t \<Rightarrow> imp\<lparr>im_TargetFile := Some t\<rparr> | None \<Rightarrow> imp) (f_Imports pFile)\<rparr>,
       concat (map (\<lambda>imp. case target imp of Some t \<Rightarrow> []
           | None \<Rightarrow> [UnresolvedImport (im_FSPath imp) (f_RelativePath pFile) (f_BaseFolder pFile) (Join (f_BaseFolder pFile) (im_FSPath imp))])
         (f_Imports pFile))))"

definition addPublicImport :: "nat \<Rightarrow> ProtoImport \<Rightarrow> ProtoFile list \<Rightarrow> ProtoFile list" where
  "addPublicImport i imp files =
     (case im_TargetFile imp of
        None \<Rightarrow> files
      | Some t \<Rightarrow> files[i := (files ! i)\<lparr>f_Imports := f_Imports (files ! i) @
          filter (\<lambda>targetImport. im_Kind targetImport = ''public'') (f_Imports (files ! t))\<rparr>])"

text \<open>The range expression is evaluated once: the loop runs over the imports at its start.\<close>

definition addPublicImports :: "nat \<Rightarrow> ProtoFile list \<Rightarrow> ProtoFile list" where
  "addPublicImports i files = fold (addPublicImport i) (f_Imports (files ! i)) files"


section \<open>The search finds the innermost definition\<close>

lemma find_index_Some: "find_index P xs = Some i \<Longrightarrow> i < length xs \<and> P (xs ! i) \<and> (\<forall>j < i. \<not> P (xs ! j))"
proof (induction xs arbitrary: i)
  case (Cons x xs)
  then show ?case by (cases i) (auto split: if_splits simp: nth_Cons split: nat.splits)
qed simp

lemma find_index_None: "find_index P xs = None \<longleftrightarrow> (\<forall>x \<in> set xs. \<not> P x)"
  by (induction xs) auto

lemma find_index_cong: "(\<And>x. x \<in> set xs \<Longrightarrow> P x = Q x) \<Longrightarrow> find_index P xs = find_index Q xs"
  by (induction xs) auto

lemma first_some_cong: "(\<And>x. x \<in> set xs \<Longrightarrow> f x = g x) \<Longrightarrow> first_some f xs = first_some g xs"
  by (induction xs) (auto split: option.splits)

lemma first_some_None: "first_some f xs = None \<longleftrightarrow> (\<forall>x \<in> set xs. f x = None)"
  by (induction xs) (auto split: option.splits)

lemma first_some_Some: "first_some f xs = Some y \<Longrightarrow> \<exists>x \<in> set xs. f x = Some y"
  by (induction xs) (auto split: option.splits)

text \<open>
  The specification of the search: the scopes of a path from the innermost outwards, and the name
  in each of them.
\<close>

definition scope_search :: "(string list \<Rightarrow> 'a option) \<Rightarrow> string list \<Rightarrow> string list \<Rightarrow> 'a option" where
  "scope_search look path ref = first_some (\<lambda>k. look (take k path @ ref)) (rev [0..<Suc (length path)])"

lemma scope_search_rec:
  "scope_search look path ref = (case look (path @ ref) of Some r \<Rightarrow> Some r
     | None \<Rightarrow> if path = [] then None else scope_search look (butlast path) ref)"
proof (cases "path = []")
  case False
  then have n: "Suc (length (butlast path)) = length path" by simp
  have "first_some (\<lambda>k. look (take k path @ ref)) (rev [0..<length path]) =
      first_some (\<lambda>k. look (take k (butlast path) @ ref)) (rev [0..<length path])"
    by (rule first_some_cong) (simp add: take_butlast)
  also have "\<dots> = scope_search look (butlast path) ref" by (simp only: scope_search_def n)
  finally show ?thesis using False by (simp add: scope_search_def [of look path] split: option.split)
qed (simp add: scope_search_def split: option.split)

lemma scope_search_Some:
  "scope_search look path ref = Some r \<Longrightarrow>
    \<exists>k \<le> length path. look (take k path @ ref) = Some r \<and> (\<forall>j. k < j \<and> j \<le> length path \<longrightarrow> look (take j path @ ref) = None)"
proof (induction "length path" arbitrary: path)
  case 0
  then show ?case by (simp add: scope_search_def split: option.splits)
next
  case (Suc n)
  show ?case
  proof (cases "look (path @ ref)")
    case None
    from Suc.hyps(2) have p: "path \<noteq> []" "length (butlast path) = n" by auto
    with Suc.prems None have "scope_search look (butlast path) ref = Some r" by (simp add: scope_search_rec [of look path])
    from Suc.hyps(1) [OF p(2) [symmetric] this] obtain k where
      k: "k \<le> n" "look (take k (butlast path) @ ref) = Some r" "\<And>j. k < j \<Longrightarrow> j \<le> n \<Longrightarrow> look (take j (butlast path) @ ref) = None"
      using p(2) by auto
    have "look (take j path @ ref) = None" if "k < j" "j \<le> Suc n" for j
      using k(3) [of j] that None Suc.hyps(2) by (cases "j = Suc n") (simp_all add: take_butlast)
    moreover have "look (take k path @ ref) = Some r" using k(1,2) Suc.hyps(2) by (simp add: take_butlast)
    ultimately show ?thesis using k(1) Suc.hyps(2) by (intro exI [of _ k]) auto
  next
    case (Some x)
    with Suc.prems show ?thesis
      by (intro exI [of _ "length path"]) (simp add: scope_search_rec [of look path])
  qed
qed

lemma scope_search_None: "scope_search look path ref = None \<longleftrightarrow> (\<forall>k \<le> length path. look (take k path @ ref) = None)"
  by (simp only: scope_search_def first_some_None set_rev set_upt) (auto simp: less_Suc_eq_le)

text \<open>
  The contract of a probe: it depends on the components of the name only. Under it the loop over
  dotted names is the search over component lists.
\<close>

locale scope_probe =
  fixes probe :: "ScopedName \<Rightarrow> 'a option" and look :: "string list \<Rightarrow> 'a option"
  assumes probe_look: "name_ok nm \<Longrightarrow> probe nm = look (comps nm)"
begin

lemma search_spec:
  assumes "name_ok ref" and "proper_scope sp"
  shows "searchScopes probe ref sp = scope_search look (scope_path sp) (comps ref)"
  using assms(2)
proof (induction "length (scope_path sp)" arbitrary: sp)
  case 0
  then have "\<not> CanResolveParent sp" by (simp add: proper_CanResolveParent)
  moreover have "probe (ToScope ref sp) = look (scope_path sp @ comps ref)"
    using 0 assms(1) by (simp add: probe_look name_ok_step proper_name_ok comps_ToScope)
  ultimately show ?case using 0
    by (subst searchScopes.simps, subst scope_search_rec) (simp split: option.split)
next
  case (Suc n)
  then have up: "proper_scope (ToParent sp)" "scope_path (ToParent sp) = butlast (scope_path sp)"
    using proper_ToParent by auto
  with Suc have "searchScopes probe ref (ToParent sp) = scope_search look (butlast (scope_path sp)) (comps ref)"
    by (metis length_butlast diff_Suc_1)
  moreover have "CanResolveParent sp" using Suc by (auto simp: proper_CanResolveParent)
  moreover have "probe (ToScope ref sp) = look (scope_path sp @ comps ref)"
    using Suc assms(1) by (simp add: probe_look name_ok_step proper_name_ok comps_ToScope)
  ultimately show ?case using Suc.hyps(2)
    by (subst searchScopes.simps, subst scope_search_rec) (auto split: option.split)
qed

end

text \<open>The two probes of the source, and what they look for.\<close>

definition has_path :: "string list \<Rightarrow> ScopedName \<Rightarrow> bool" where
  "has_path cs nm \<longleftrightarrow> sn_name nm = last cs \<and> sn_fullPath nm = join_on CHR ''.'' cs"

lemma Equal_has_path: "name_ok nm \<Longrightarrow> ScopedName_Equal s nm \<longleftrightarrow> has_path (comps nm) s"
  by (auto simp: ScopedName_Equal_def has_path_def name_ok_def path_ok_def)

lemma has_path_comps: "name_ok s \<Longrightarrow> name_ok nm \<Longrightarrow> has_path (comps nm) s \<longleftrightarrow> comps s = comps nm"
  using Equal_has_path [of nm s] ScopedName_Equal_iff [of s nm] by simp

definition lookMessage :: "ProtoFile \<Rightarrow> string list \<Rightarrow> nat option" where
  "lookMessage file cs = find_index (\<lambda>msg. has_path cs (md_Name msg) \<and> \<not> pm_IsExtend (md_ProtoDef msg)) (f_Messages file)"

definition lookType :: "ProtoFile \<Rightarrow> string list \<Rightarrow> (nat + nat) option" where
  "lookType file cs =
     (case find_index (\<lambda>enum. has_path cs (ed_Name enum)) (f_Enums file) of
        Some i \<Rightarrow> Some (Inl i)
      | None \<Rightarrow> map_option Inr (find_index (\<lambda>msg. has_path cs (md_Name msg)) (f_Messages file)))"

interpretation extend_probe: scope_probe "probeMessage f" "lookMessage f" for f
  by unfold_locales (simp add: probeMessage_def lookMessage_def Equal_has_path)

interpretation type_probe: scope_probe "probeType f" "lookType f" for f
  by unfold_locales (simp add: probeType_def lookType_def Equal_has_path cong: option.case_cong)


section \<open>References are resolved to the innermost definition\<close>

text \<open>
  A file whose definitions have consistent names, and the component list under which a resolved
  field finds its type.
\<close>

definition file_names :: "ProtoFile \<Rightarrow> ScopedName list" where
  "file_names f = map ed_Name (f_Enums f) @ map md_Name (f_Messages f)"

definition file_ok :: "ProtoFile \<Rightarrow> bool" where
  "file_ok f \<longleftrightarrow> list_all proper_scope (file_names f) \<and> list_all (\<lambda>s. sn_name s \<noteq> []) (file_names f) \<and> pkg_ok f"

definition defined_in :: "ProtoFile \<Rightarrow> string list \<Rightarrow> bool" where
  "defined_in f cs \<longleftrightarrow> cs \<in> set (map comps (file_names f))"

definition type_path :: "ProtoFile \<Rightarrow> nat + nat \<Rightarrow> string list" where
  "type_path f r = (case r of Inl i \<Rightarrow> comps (ed_Name (f_Enums f ! i)) | Inr i \<Rightarrow> comps (md_Name (f_Messages f ! i)))"

definition type_valid :: "ProtoFile \<Rightarrow> nat + nat \<Rightarrow> bool" where
  "type_valid f r \<longleftrightarrow> (case r of Inl i \<Rightarrow> i < length (f_Enums f) | Inr i \<Rightarrow> i < length (f_Messages f))"

lemma file_names_ok: "file_ok f \<Longrightarrow> nm \<in> set (file_names f) \<Longrightarrow> name_ok nm \<and> proper_scope nm \<and> sn_name nm \<noteq> []"
  by (auto simp: file_ok_def list_all_iff intro: proper_name_ok)

lemma lookType_Some:
  assumes "file_ok f" and "name_ok nm" and "lookType f (comps nm) = Some r"
  shows "type_valid f r \<and> type_path f r = comps nm"
proof (cases r)
  case (Inl i)
  with assms(3) have "find_index (\<lambda>enum. has_path (comps nm) (ed_Name enum)) (f_Enums f) = Some i"
    by (simp add: lookType_def split: option.splits)
  from find_index_Some [OF this] have i: "i < length (f_Enums f)" "has_path (comps nm) (ed_Name (f_Enums f ! i))" by auto
  then have "name_ok (ed_Name (f_Enums f ! i))" using file_names_ok [OF assms(1)] by (simp add: file_names_def)
  with i Inl assms(2) show ?thesis by (simp add: type_valid_def type_path_def has_path_comps)
next
  case (Inr i)
  with assms(3) have "find_index (\<lambda>msg. has_path (comps nm) (md_Name msg)) (f_Messages f) = Some i"
    by (simp add: lookType_def split: option.splits)
  from find_index_Some [OF this] have i: "i < length (f_Messages f)" "has_path (comps nm) (md_Name (f_Messages f ! i))" by auto
  then have "name_ok (md_Name (f_Messages f ! i))" using file_names_ok [OF assms(1)] by (simp add: file_names_def)
  with i Inr assms(2) show ?thesis by (simp add: type_valid_def type_path_def has_path_comps)
qed

lemma lookType_None:
  assumes "file_ok f" and "name_ok nm"
  shows "lookType f (comps nm) = None \<longleftrightarrow> \<not> defined_in f (comps nm)"
proof -
  have "has_path (comps nm) s \<longleftrightarrow> comps s = comps nm" if "s \<in> set (file_names f)" for s
    using has_path_comps [of s nm] file_names_ok [OF assms(1) that] assms(2) by simp
  then have "x \<in> set (f_Enums f) \<Longrightarrow> has_path (comps nm) (ed_Name x) \<longleftrightarrow> comps (ed_Name x) = comps nm"
    "y \<in> set (f_Messages f) \<Longrightarrow> has_path (comps nm) (md_Name y) \<longleftrightarrow> comps (md_Name y) = comps nm" for x y
    by (simp_all add: file_names_def)
  then have "find_index (\<lambda>enum. has_path (comps nm) (ed_Name enum)) (f_Enums f) = None \<longleftrightarrow> comps nm \<notin> comps ` ed_Name ` set (f_Enums f)"
    and "find_index (\<lambda>msg. has_path (comps nm) (md_Name msg)) (f_Messages f) = None \<longleftrightarrow> comps nm \<notin> comps ` md_Name ` set (f_Messages f)"
    by (auto simp: find_index_None image_iff)
  then show ?thesis
    by (auto simp: lookType_def defined_in_def file_names_def image_Un image_comp split: option.split)
qed

lemma name_of_comps:
  assumes "list_all (\<lambda>p. CHR ''.'' \<notin> set p) cs" and "cs \<noteq> []"
  shows "\<exists>nm. name_ok nm \<and> comps nm = cs"
proof -
  have "comps (ParseName (join_on CHR ''.'' cs)) = cs"
    using assms by (simp add: comps_ParseName split_join list_all_iff)
  then show ?thesis using ParseName_ok by blast
qed

lemma scope_comps_ok:
  assumes "proper_scope sp" and "name_ok ref"
  shows "\<exists>nm. name_ok nm \<and> comps nm = take k (scope_path sp) @ comps ref"
proof (rule name_of_comps)
  have "set (scope_path sp) \<subseteq> set (comps sp)" by (simp add: scope_path_def)
  moreover have "\<forall>p \<in> set (comps sp). CHR ''.'' \<notin> set p"
    using assms(1) unfolding proper_scope_def dot_free_def by blast
  moreover have "list_all (\<lambda>p. CHR ''.'' \<notin> set p) (comps ref)"
    using assms(2) by (simp add: name_ok_def dot_free_def list_all_iff)
  ultimately show "list_all (\<lambda>p. CHR ''.'' \<notin> set p) (take k (scope_path sp) @ comps ref)"
    using set_take_subset [of k "scope_path sp"] unfolding list_all_iff set_append by blast
qed simp

text \<open>The search for a type in one file, on a file with consistent names.\<close>

lemma search_type:
  assumes "file_ok f" and "proper_scope sp" and "name_ok ref"
  shows "case searchScopes (probeType f) ref sp of
      None \<Rightarrow> \<forall>k \<le> length (scope_path sp). \<not> defined_in f (take k (scope_path sp) @ comps ref)
    | Some r \<Rightarrow> type_valid f r \<and> (\<exists>k \<le> length (scope_path sp). type_path f r = take k (scope_path sp) @ comps ref \<and>
        (\<forall>j. k < j \<and> j \<le> length (scope_path sp) \<longrightarrow> \<not> defined_in f (take j (scope_path sp) @ comps ref)))"
proof -
  let ?p = "scope_path sp"
  have none: "lookType f (take k ?p @ comps ref) = None \<longleftrightarrow> \<not> defined_in f (take k ?p @ comps ref)" for k
    using scope_comps_ok [OF assms(2,3), of k] lookType_None [OF assms(1)] by metis
  have some: "type_valid f r \<and> type_path f r = take k ?p @ comps ref" if "lookType f (take k ?p @ comps ref) = Some r" for k r
    using scope_comps_ok [OF assms(2,3), of k] lookType_Some [OF assms(1)] that by metis
  show ?thesis
  proof (cases "scope_search (lookType f) ?p (comps ref)")
    case None
    then have "\<forall>k \<le> length ?p. \<not> defined_in f (take k ?p @ comps ref)" by (simp add: scope_search_None none)
    then show ?thesis by (simp add: type_probe.search_spec [OF assms(3,2)] None)
  next
    case (Some r)
    from scope_search_Some [OF this] obtain k where
      k: "k \<le> length ?p" "lookType f (take k ?p @ comps ref) = Some r"
        "\<And>j. k < j \<Longrightarrow> j \<le> length ?p \<Longrightarrow> lookType f (take j ?p @ comps ref) = None" by blast
    then have "\<forall>j. k < j \<and> j \<le> length ?p \<longrightarrow> \<not> defined_in f (take j ?p @ comps ref)" using none by blast
    with k(1) some [OF k(2)] show ?thesis by (auto simp: type_probe.search_spec [OF assms(3,2)] Some)
  qed
qed

lemma message_scope:
  assumes "file_ok f" and "m \<in> set (f_Messages f)"
  shows "proper_scope (md_Name m) \<and> scope_path (md_Name m) = comps (md_Name m)"
proof -
  have "md_Name m \<in> set (file_names f)" using assms(2) by (simp add: file_names_def)
  from file_names_ok [OF assms(1) this] show ?thesis by (simp add: scope_path_comps proper_scope_def)
qed

definition set_local :: "MessageFieldDefinition \<Rightarrow> nat + nat \<Rightarrow> MessageFieldDefinition" where
  "set_local field r = (case r of Inl i \<Rightarrow> field\<lparr>fd_LocalEnumType := Some i\<rparr> | Inr i \<Rightarrow> field\<lparr>fd_LocalMsgType := Some i\<rparr>)"

text \<open>
  Two files: the first defines a message Foo with a nested enum E and a field of that type, the
  second extends Foo from another package.
\<close>

definition ex_base :: ProtoFile where
  "ex_base = fst (extractProtoStruct
     [VPackage ''p'',
      VMessage \<lparr>pm_Name = ''Foo'', pm_IsExtend = False, pm_Parent = OtherParent,
        pm_Elements = [NormalField \<lparr>pf_Name = ''e'', pf_Type = ''E'', pf_Sequence = 1, pf_Options = []\<rparr> False False]\<rparr>,
      VEnum \<lparr>pe_Name = ''E'', pe_Parent = MessageParent ''Foo'' OtherParent, pe_Elements = []\<rparr>] (new_file ''/w/p/foo.proto''))"

definition ex_extension :: ProtoFile where
  "ex_extension = (fst (extractProtoStruct
     [VPackage ''q'',
      VMessage \<lparr>pm_Name = ''p.Foo'', pm_IsExtend = True, pm_Parent = OtherParent, pm_Elements = []\<rparr>] (new_file ''/w/q/bar.proto'')))
     \<lparr>f_Imports := [\<lparr>im_FSPath = ''p/foo.proto'', im_Kind = [], im_TargetFile = Some 0\<rparr>]\<rparr>"

text \<open>
  C13. A type name is resolved like the language says, from the innermost scope outwards: the search
  in the own file sets the reference to the definition that the name has in the innermost scope
  around the message where it is defined, and it fails only when no scope defines it.
\<close>

theorem local_reference_innermost:
  assumes "file_ok f" and "m \<in> set (f_Messages f)" and "fd_ExtraScopes field = []"
    and "p = comps (md_Name m)" and "r = split_on CHR ''.'' (pf_Type (fd_ProtoDef field))"
  shows "case resolveLocalReference f m field of
      None \<Rightarrow> \<forall>k \<le> length p. \<not> defined_in f (take k p @ r)
    | Some field' \<Rightarrow> \<exists>ref. field' = set_local field ref \<and> type_valid f ref \<and>
        (\<exists>k \<le> length p. type_path f ref = take k p @ r \<and>
          (\<forall>j. k < j \<and> j \<le> length p \<longrightarrow> \<not> defined_in f (take j p @ r)))"
proof -
  have sp: "proper_scope (md_Name m)" "scope_path (md_Name m) = p"
    using message_scope [OF assms(1,2)] assms(4) by auto
  have "resolveLocalReference f m field =
      map_option (set_local field) (searchScopes (probeType f) (ParseName (pf_Type (fd_ProtoDef field))) (md_Name m))"
    by (simp add: resolveLocalReference_def scopesToSearch_def assms(3) set_local_def split: option.split)
  then show ?thesis
    using search_type [OF assms(1) sp(1) ParseName_ok, of "pf_Type (fd_ProtoDef field)"]
    by (auto simp: sp(2) comps_ParseName assms(5) split: option.splits)
qed

theorem local_reference_innermost_witness:
  "case resolveLocalReference ex_base (f_Messages ex_base ! 0) (md_Fields (f_Messages ex_base ! 0) ! 0) of
      None \<Rightarrow> False
    | Some field' \<Rightarrow> \<exists>ref. field' = set_local (md_Fields (f_Messages ex_base ! 0) ! 0) ref \<and> type_valid ex_base ref \<and>
        (\<exists>k \<le> 2. type_path ex_base ref = take k [''p'', ''Foo''] @ [''E''])"
proof -
  let ?m = "f_Messages ex_base ! 0"
  have "file_ok ex_base" "?m \<in> set (f_Messages ex_base)" "fd_ExtraScopes (md_Fields ?m ! 0) = []"
    "[''p'', ''Foo''] = comps (md_Name ?m)" "[''E''] = split_on CHR ''.'' (pf_Type (fd_ProtoDef (md_Fields ?m ! 0)))"
    and d: "defined_in ex_base (take 2 [''p'', ''Foo''] @ [''E''])"
    by code_simp+
  from local_reference_innermost [OF this(1-5)] d show ?thesis
    by (auto split: option.splits)
qed

lemma type_path_nonempty:
  assumes "file_ok f" and "type_valid f r"
  shows "[] \<notin> set (type_path f r)"
proof -
  define nm where "nm = (case r of Inl i \<Rightarrow> ed_Name (f_Enums f ! i) | Inr i \<Rightarrow> md_Name (f_Messages f ! i))"
  have nm: "nm \<in> set (file_names f)" "type_path f r = comps nm"
    using assms(2) by (cases r; simp add: nm_def type_valid_def type_path_def file_names_def)+
  from file_names_ok [OF assms(1) nm(1)] have "proper_scope nm" "scope_path nm = comps nm"
    by (auto simp: scope_path_comps proper_scope_def)
  then show ?thesis using nm(2) by (auto simp: proper_scope_def)
qed

lemma absolute_search_fails:
  assumes "file_ok f" and "proper_scope sp"
  shows "searchScopes (probeType f) (ParseName (''.'' @ t)) sp = None"
proof (cases "searchScopes (probeType f) (ParseName (''.'' @ t)) sp")
  case (Some r)
  with search_type [OF assms ParseName_ok, of "''.'' @ t"] obtain k where
    "type_valid f r" "type_path f r = take k (scope_path sp) @ [] # split_on CHR ''.'' t"
    by (auto simp: comps_ParseName)
  then show ?thesis using type_path_nonempty [OF assms(1), of r] by simp
qed

definition targets_ok :: "ProtoFile list \<Rightarrow> ProtoFile \<Rightarrow> bool" where
  "targets_ok files f \<longleftrightarrow>
     list_all (\<lambda>imp. case im_TargetFile imp of None \<Rightarrow> True | Some t \<Rightarrow> t < length files) (f_Imports f)"

lemma targets_okD: "targets_ok files f \<Longrightarrow> imp \<in> set (f_Imports f) \<Longrightarrow> im_TargetFile imp = Some t \<Longrightarrow> t < length files"
  by (auto simp: targets_ok_def list_all_iff split: option.splits)

lemma proper_import_scope: "file_ok f \<Longrightarrow> proper_scope (import_scope f)"
  by (simp add: file_ok_def import_scope_def pkg_ok_def split: option.splits)

text \<open>
  A reference with a leading dot, the absolute form of the language, is never resolved: neither
  in the own file nor in an imported one, whatever they define.
\<close>

theorem absolute_reference_fails:
  assumes "file_ok f" and "m \<in> set (f_Messages f)" and "list_all file_ok files" and "targets_ok files f"
    and "fd_ScalarValueType field = []" and "fd_ExtraScopes field = []" and "pf_Type (fd_ProtoDef field) = ''.'' @ t"
  shows "resolveField files f m field =
    (field, [UnresolvedReference (''.'' @ t) (ScopedName_String (md_Name m)) (f_RelativePath f)])"
proof -
  have "resolveLocalReference f m field = None"
    using message_scope [OF assms(1,2)] absolute_search_fails [OF assms(1), of "md_Name m" t]
    by (simp add: resolveLocalReference_def scopesToSearch_def assms(6,7))
  moreover have "searchScopes (probeType (files ! i)) (ParseName (''.'' @ t)) (import_scope (files ! i)) = None"
    if "imp \<in> set (f_Imports f)" "im_TargetFile imp = Some i" for imp i
    using targets_okD [OF assms(4) that] assms(3)
    by (intro absolute_search_fails proper_import_scope) (simp_all add: list_all_length)
  then have "resolveImportedReference files f field = None"
    by (auto simp: resolveImportedReference_def scopesToSearch_def assms(6,7) first_some_None
        simp del: first_some.simps split: option.split)
  ultimately show ?thesis by (simp add: resolveField_def assms(5,7))
qed


definition ex_absolute :: MessageFieldDefinition where
  "ex_absolute = extractField (ParseName ''p.Foo'') \<lparr>pf_Name = ''x'', pf_Type = ''.p.Foo'', pf_Sequence = 2, pf_Options = []\<rparr> False False"

theorem absolute_reference_fails_witness:
  "defined_in ex_base [''p'', ''Foo''] \<and>
    resolveField [ex_base] ex_base (f_Messages ex_base ! 0) ex_absolute =
      (ex_absolute, [UnresolvedReference ''.p.Foo'' ''p.Foo'' []])"
proof -
  let ?m = "f_Messages ex_base ! 0"
  have "file_ok ex_base" "?m \<in> set (f_Messages ex_base)" "list_all file_ok [ex_base]" "targets_ok [ex_base] ex_base"
    "fd_ScalarValueType ex_absolute = []" "fd_ExtraScopes ex_absolute = []" "pf_Type (fd_ProtoDef ex_absolute) = ''.'' @ ''p.Foo''"
    and r: "ScopedName_String (md_Name ?m) = ''p.Foo''" "f_RelativePath ex_base = []" "defined_in ex_base [''p'', ''Foo'']"
    by code_simp+
  from absolute_reference_fails [OF this(1-7)] r show ?thesis by simp
qed


section \<open>No error means that every field has its type\<close>

lemma searchScopes_Some: "searchScopes probe s sp = Some r \<Longrightarrow> \<exists>nm. probe nm = Some r"
proof (induction probe s sp rule: searchScopes.induct)
  case (1 probe s sp)
  then show ?case by (subst (asm) (2) searchScopes.simps) (auto split: option.splits if_splits)
qed

lemma probeType_valid: "probeType f nm = Some r \<Longrightarrow> type_valid f r"
  by (auto simp: probeType_def type_valid_def dest: find_index_Some split: option.splits)

text \<open>A field as the walk extracts it, and a field whose type is known.\<close>

definition refs :: "MessageFieldDefinition \<Rightarrow> nat option \<times> nat option \<times> nat option \<times> nat option \<times> nat option" where
  "refs field = (fd_LocalEnumType field, fd_LocalMsgType field, fd_ExternalTypeFile field, fd_ExternalEnumType field, fd_ExternalMsgType field)"

definition fresh_field :: "MessageFieldDefinition \<Rightarrow> bool" where
  "fresh_field field \<longleftrightarrow> refs field = (None, None, None, None, None)"

definition typed_field :: "ProtoFile list \<Rightarrow> ProtoFile \<Rightarrow> MessageFieldDefinition \<Rightarrow> bool" where
  "typed_field files f field \<longleftrightarrow>
     fd_ScalarValueType field \<noteq> [] \<or>
     (\<exists>i. refs field = (Some i, None, None, None, None) \<and> i < length (f_Enums f)) \<or>
     (\<exists>i. refs field = (None, Some i, None, None, None) \<and> i < length (f_Messages f)) \<or>
     (\<exists>t i. t < length files \<and> Some t \<in> im_TargetFile ` set (f_Imports f) \<and>
        (refs field = (None, None, Some t, Some i, None) \<and> i < length (f_Enums (files ! t)) \<or>
         refs field = (None, None, Some t, None, Some i) \<and> i < length (f_Messages (files ! t))))"

lemma local_typed:
  assumes "resolveLocalReference f m field = Some field'" and "fresh_field field"
  shows "typed_field files f field'"
proof -
  from assms(1) obtain r s where r: "searchScopes (probeType f) s (md_Name m) = Some r" "field' = set_local field r"
    by (auto simp: resolveLocalReference_def set_local_def dest!: first_some_Some)
  from searchScopes_Some [OF r(1)] have "type_valid f r" by (auto dest: probeType_valid)
  then show ?thesis using r(2) assms(2)
    by (cases r) (auto simp: typed_field_def set_local_def type_valid_def fresh_field_def refs_def)
qed

lemma imported_typed:
  assumes "resolveImportedReference files f field = Some field'" and "targets_ok files f" and "fresh_field field"
  shows "typed_field files f field'"
proof -
  from assms(1) obtain t r s sp imp where r: "searchScopes (probeType (files ! t)) s sp = Some r"
    "field' = (case r of Inl i \<Rightarrow> field\<lparr>fd_ExternalEnumType := Some i, fd_ExternalTypeFile := Some t\<rparr>
       | Inr i \<Rightarrow> field\<lparr>fd_ExternalMsgType := Some i, fd_ExternalTypeFile := Some t\<rparr>)"
    "imp \<in> set (f_Imports f)" "im_TargetFile imp = Some t"
    by (auto simp: resolveImportedReference_def dest!: first_some_Some split: option.splits)
  from targets_okD [OF assms(2) r(3,4)] r(3,4) have "t < length files" "Some t \<in> im_TargetFile ` set (f_Imports f)"
    by (auto intro: rev_image_eqI)
  moreover  from searchScopes_Some [OF r(1)] have "type_valid (files ! t) r" by (auto dest: probeType_valid)
  ultimately show ?thesis using r(2) assms(3)
    by (cases r) (auto simp: typed_field_def type_valid_def fresh_field_def refs_def)
qed

lemma resolveField_typed:
  assumes "fresh_field field" and "targets_ok files f"
  shows "snd (resolveField files f m field) = [] \<longleftrightarrow> typed_field files f (fst (resolveField files f m field))"
  using assms local_typed [of f m field _ files] imported_typed [of files f field]
  by (auto simp: resolveField_def typed_field_def fresh_field_def split: option.split)

text \<open>
  The references of a file are resolved without an error exactly when afterwards every field of
  every message has its type: a scalar type or an index of an enum or message that exists in the
  own file or in the file it refers to.
\<close>

lemma references_typed:
  assumes "\<forall>m \<in> set (f_Messages f). list_all fresh_field (md_Fields m)" and "targets_ok files f"
  shows "snd (resolveReferences files f) = [] \<longleftrightarrow>
    (\<forall>m \<in> set (f_Messages (fst (resolveReferences files f))). list_all (typed_field files f) (md_Fields m))"
proof -
  have "snd (resolveField files f m field) = [] \<longleftrightarrow> typed_field files f (fst (resolveField files f m field))"
    if "m \<in> set (f_Messages f)" "field \<in> set (md_Fields m)" for m field
    using assms that by (intro resolveField_typed) (auto simp: list_all_iff)
  then show ?thesis by (simp add: resolveReferences_def list_all_iff)
qed


section \<open>Fields of extensions\<close>

text \<open>
  A field that an extension takes over from the extended message gets the extended message as
  its type when its own type is not visible from the extension: the scope of the extended message
  is searched for as if it were the name of the type. In the example the enum field e of Foo
  becomes, in the extension, a field of message type Foo, without any error.
\<close>

theorem extension_field_misresolved:
  "let files = fst (resolveExtensions 1 [ex_base, ex_extension]);
       (base, errors0) = resolveReferences files (files ! 0);
       (ext, errors1) = resolveReferences files (files ! 1);
       original = md_Fields (f_Messages base ! 0) ! 0;
       copied = md_Fields (f_Messages ext ! 0) ! 0 in
   errors0 = [] \<and> errors1 = [] \<and>
   fd_ProtoDef copied = fd_ProtoDef original \<and> fd_LocalEnumType original = Some 0 \<and>
   fd_ExternalEnumType copied = None \<and> fd_ExternalTypeFile copied = Some 0 \<and> fd_ExternalMsgType copied = Some 0"
  by code_simp


section \<open>Public imports\<close>

text \<open>
  The imports a file can come to see: its own, and the public ones of what it can reach through
  them.
\<close>

inductive import_reach :: "ProtoFile list \<Rightarrow> nat \<Rightarrow> ProtoImport \<Rightarrow> bool" for files where
  reach_own: "imp \<in> set (f_Imports (files ! i)) \<Longrightarrow> import_reach files i imp"
| reach_public: "import_reach files i imp \<Longrightarrow> im_TargetFile imp = Some t \<Longrightarrow> import_reach files t imp' \<Longrightarrow>
    im_Kind imp' = ''public'' \<Longrightarrow> import_reach files i imp'"

definition imports_within :: "ProtoFile list \<Rightarrow> ProtoFile list \<Rightarrow> bool" where
  "imports_within files fs \<longleftrightarrow> length fs = length files \<and>
     (\<forall>i < length files. set (f_Imports (files ! i)) \<subseteq> set (f_Imports (fs ! i)) \<and>
        (\<forall>imp \<in> set (f_Imports (fs ! i)). import_reach files i imp))"

definition targets_valid :: "ProtoFile list \<Rightarrow> bool" where
  "targets_valid files \<longleftrightarrow> (\<forall>i < length files. targets_ok files (files ! i))"

lemma reach_target: "import_reach files i imp \<Longrightarrow> targets_valid files \<Longrightarrow> i < length files \<Longrightarrow> im_TargetFile imp = Some t \<Longrightarrow> t < length files"
proof (induction i imp arbitrary: t rule: import_reach.induct)
  case (reach_own imp i)
  then show ?case by (auto simp: targets_valid_def dest: targets_okD)
qed blast

lemma addPublicImport_within:
  assumes "imports_within files fs" and "targets_valid files" and "i < length files" and "import_reach files i imp"
  shows "imports_within files (addPublicImport i imp fs)"
proof (cases "im_TargetFile imp")
  case (Some t)
  then have t: "t < length files" using reach_target assms by blast
  have "import_reach files i imp'" if "imp' \<in> set (f_Imports (fs ! t))" "im_Kind imp' = ''public''" for imp'
    using assms(1,4) t that Some by (auto simp: imports_within_def intro: reach_public)
  then show ?thesis
    using assms(1,3) Some t by (auto simp: imports_within_def addPublicImport_def nth_list_update)
qed (use assms in \<open>simp add: addPublicImport_def\<close>)

lemma addPublicImports_within:
  assumes "imports_within files fs" and "targets_valid files" and "i < length files"
  shows "imports_within files (addPublicImports i fs)"
proof -
  have "imports_within files (fold (addPublicImport i) imps fs)" if "\<forall>imp \<in> set imps. import_reach files i imp" for imps
    using that assms by (induction imps arbitrary: fs) (auto intro: addPublicImport_within)
  then show ?thesis using assms by (auto simp: addPublicImports_def imports_within_def)
qed

lemma addPublicImport_mono:
  "set (f_Imports (fs ! j)) \<subseteq> set (f_Imports (addPublicImport i imp fs ! j))"
  by (cases "i < length fs") (auto simp: addPublicImport_def nth_list_update list_update_beyond split: option.split)

lemma fold_public_mono: "set (f_Imports (fs ! j)) \<subseteq> set (f_Imports (fold (addPublicImport i) imps fs ! j))"
proof (induction imps arbitrary: fs)
  case (Cons imp imps)
  then show ?case using addPublicImport_mono [of fs j i imp] by fastforce
qed simp

lemma length_fold_public [simp]: "length (fold (addPublicImport i) imps fs) = length fs"
  by (induction imps arbitrary: fs) (auto simp: addPublicImport_def split: option.split)

lemma fold_public_adds:
  assumes "imp \<in> set imps" and "im_TargetFile imp = Some t" and "imp' \<in> set (f_Imports (fs ! t))"
    and "im_Kind imp' = ''public''" and "i < length fs"
  shows "imp' \<in> set (f_Imports (fold (addPublicImport i) imps fs ! i))"
  using assms
proof (induction imps arbitrary: fs)
  case (Cons x imps)
  show ?case
  proof (cases "x = imp")
    case True
    then have "imp' \<in> set (f_Imports (addPublicImport i x fs ! i))"
      using Cons.prems by (auto simp: addPublicImport_def)
    then show ?thesis using fold_public_mono by fastforce
  next
    case False
    have "imp' \<in> set (f_Imports (addPublicImport i x fs ! t))"
      using Cons.prems(3) addPublicImport_mono by blast
    moreover have "length (addPublicImport i x fs) = length fs"
      by (simp add: addPublicImport_def split: option.split)
    ultimately show ?thesis using False Cons by simp
  qed
qed simp

lemma public_within:
  assumes "imports_within files fs" and "targets_valid files" and "\<forall>k \<in> set ks. k < length files"
  shows "imports_within files (fold addPublicImports ks fs)"
  using assms by (induction ks arbitrary: fs) (auto intro: addPublicImports_within)

lemma public_mono: "set (f_Imports (fs ! j)) \<subseteq> set (f_Imports (fold addPublicImports ks fs ! j))"
proof (induction ks arbitrary: fs)
  case (Cons k ks)
  have "set (f_Imports (fs ! j)) \<subseteq> set (f_Imports (addPublicImports k fs ! j))"
    unfolding addPublicImports_def by (rule fold_public_mono)
  also have "\<dots> \<subseteq> set (f_Imports (fold addPublicImports ks (addPublicImports k fs) ! j))" by (rule Cons.IH)
  finally show ?case by simp
qed simp

text \<open>The loop over all files.\<close>

definition publicImportsAll :: "ProtoFile list \<Rightarrow> ProtoFile list" where
  "publicImportsAll files = fold addPublicImports [0..<length files] files"

text \<open>Four files in a row, each but the last importing the next one publicly.\<close>

definition ex_chain :: "nat option \<Rightarrow> ProtoFile" where
  "ex_chain t = (new_file [])\<lparr>f_Imports := (case t of None \<Rightarrow> [] | Some t \<Rightarrow> [\<lparr>im_FSPath = [], im_Kind = ''public'', im_TargetFile = Some t\<rparr>])\<rparr>"

text \<open>
  After the step for public imports every file sees its own imports and the public imports of
  the files it imports; and whatever it sees is its own or is reached through public imports.
\<close>

theorem public_imports_visible:
  assumes "targets_valid files" and "i < length files" and "files' = publicImportsAll files"
  shows "length files' = length files \<and> set (f_Imports (files ! i)) \<subseteq> set (f_Imports (files' ! i)) \<and>
    (\<forall>imp \<in> set (f_Imports (files ! i)). \<forall>t. im_TargetFile imp = Some t \<longrightarrow>
      set (filter (\<lambda>imp'. im_Kind imp' = ''public'') (f_Imports (files ! t))) \<subseteq> set (f_Imports (files' ! i))) \<and>
    (\<forall>imp \<in> set (f_Imports (files' ! i)). import_reach files i imp)"
proof -
  have start: "imports_within files files" by (auto simp: imports_within_def intro: reach_own)
  define ks where "ks = [0..<i]"
  have split: "[0..<length files] = ks @ i # [Suc i..<length files]"
    using upt_add_eq_append [of 0 i "length files - i"] assms(2) by (simp add: ks_def upt_conv_Cons)
  define mid where "mid = fold addPublicImports ks files"
  have mid: "imports_within files mid" unfolding mid_def ks_def using assms(1,2) start by (intro public_within) auto
  have "set (filter (\<lambda>imp'. im_Kind imp' = ''public'') (f_Imports (files ! t))) \<subseteq> set (f_Imports (files' ! i))"
    if imp: "imp \<in> set (f_Imports (files ! i))" "im_TargetFile imp = Some t" for imp t
  proof -
    have t: "t < length files" using assms(1,2) imp by (auto simp: targets_valid_def dest: targets_okD)
    have "imp \<in> set (f_Imports (mid ! i))" and sub: "set (f_Imports (files ! t)) \<subseteq> set (f_Imports (mid ! t))" and l: "i < length mid"
      using mid imp(1) assms(2) t by (auto simp: imports_within_def)
    from fold_public_adds [OF this(1) imp(2) _ _ l] sub
    have "set (filter (\<lambda>imp'. im_Kind imp' = ''public'') (f_Imports (files ! t))) \<subseteq> set (f_Imports (addPublicImports i mid ! i))"
      by (auto simp: addPublicImports_def)
    also have "\<dots> \<subseteq> set (f_Imports (files' ! i))"
      using public_mono by (simp add: assms(3) publicImportsAll_def split mid_def)
    finally show ?thesis .
  qed
  moreover have "imports_within files files'"
    unfolding assms(3) publicImportsAll_def using assms(1) start by (intro public_within) auto
  ultimately show ?thesis using assms(2) by (auto simp: imports_within_def)
qed

theorem public_imports_visible_witness:
  "let files = [ex_chain (Some 1), ex_chain (Some 2), ex_chain None] in
    set (f_Imports (files ! 1)) \<subseteq> set (f_Imports (publicImportsAll files ! 0)) \<and>
    (\<forall>imp \<in> set (f_Imports (publicImportsAll files ! 0)). import_reach files 0 imp)"
proof -
  let ?files = "[ex_chain (Some 1), ex_chain (Some 2), ex_chain None]"
  have "targets_valid ?files" by (auto simp: targets_valid_def targets_ok_def ex_chain_def less_Suc_eq)
  from public_imports_visible [OF this, of 0] show ?thesis by (simp add: ex_chain_def Let_def)
qed

text \<open>
  How far public imports are followed depends on the order of the files: in a chain of four files
  the first sees the last one when the files are handled from the end of the chain, and does not
  when they are handled from its start.
\<close>

theorem public_imports_order:
  "map im_TargetFile (f_Imports (publicImportsAll [ex_chain (Some 1), ex_chain (Some 2), ex_chain (Some 3), ex_chain None] ! 0)) =
     [Some 1, Some 2] \<and>
   map im_TargetFile (f_Imports (publicImportsAll [ex_chain None, ex_chain (Some 0), ex_chain (Some 1), ex_chain (Some 2)] ! 3)) =
     [Some 2, Some 1, Some 0]"
  by code_simp


section \<open>Unknown options\<close>

definition unknown_option :: "(string \<times> MessageFieldDefinition) list \<Rightarrow> proto_Option \<Rightarrow> bool" where
  "unknown_option opts opt \<longleftrightarrow> map_of opts (po_Name opt) = None \<and>
     map_of opts (TrimSuffix (TrimPrefix (po_Name opt) ''('') '')'') = None"

definition value_options :: "EnumValueDefinition \<Rightarrow> proto_Option list" where
  "value_options val = List.map_filter id (pv_Elements (ev_ProtoDef val))"

text \<open>A call that either panics or succeeds, and which of the two.\<close>

definition panics_iff :: "('e, 'a) gres \<Rightarrow> bool \<Rightarrow> bool" where
  "panics_iff m b \<longleftrightarrow> (if b then m = Panic else \<exists>x. m = Ok x)"

lemma panics_iff_bind: "panics_iff m b \<Longrightarrow> (\<And>x. m = Ok x \<Longrightarrow> panics_iff (f x) c) \<Longrightarrow> panics_iff (gbind m f) (b \<or> c)"
  by (auto simp: panics_iff_def split: if_splits)

lemma panics_iff_gmap [simp]: "panics_iff (gmap f m) b \<longleftrightarrow> panics_iff m b"
  by (cases m) (auto simp: panics_iff_def)

lemma panics_iff_gmapM:
  "(\<And>x. x \<in> set xs \<Longrightarrow> panics_iff (f x) (P x)) \<Longrightarrow> panics_iff (gmapM f xs) (list_ex P xs)"
proof (induction xs)
  case (Cons x xs)
  then show ?case by (auto intro!: panics_iff_bind)
qed (simp add: panics_iff_def)

lemma resolveOption_panics: "panics_iff (resolveOption quote opts opt val) (unknown_option opts opt)"
  by (auto simp: panics_iff_def resolveOption_def unknown_option_def Let_def split: option.split)

lemma resolveValueOptions_panics:
  "panics_iff (resolveValueOptions quote opts val) (list_ex (unknown_option opts) (value_options val))"
proof -
  have "panics_iff (gfold (resolveOption quote opts) os v) (list_ex (unknown_option opts) os)" for os v
  proof (induction os arbitrary: v)
    case (Cons opt os)
    then show ?case by (auto intro!: panics_iff_bind resolveOption_panics)
  qed (simp add: panics_iff_def)
  then show ?thesis by (simp add: resolveValueOptions_def value_options_def)
qed

text \<open>
  An option of an enum value that no extension of \<^verbatim>\<open>google.protobuf.EnumValueOptions\<close> in the file
  defines makes the compiler panic; without one the options are resolved, and no error is ever
  returned.
\<close>

theorem unknown_option_panics:
  "if list_ex (\<lambda>enum. list_ex (\<lambda>val. list_ex (unknown_option (extraOptions f)) (value_options val)) (ed_Values enum)) (f_Enums f)
   then resolveOptions quote f = Panic
   else \<exists>f'. resolveOptions quote f = Ok (f', [])"
proof -
  let ?P = "\<lambda>enum. list_ex (\<lambda>val. list_ex (unknown_option (extraOptions f)) (value_options val)) (ed_Values enum)"
  have "panics_iff (gmap (\<lambda>vals. enum\<lparr>ed_Values := vals\<rparr>)
      (gmapM (resolveValueOptions quote (extraOptions f)) (ed_Values enum))) (?P enum)" for enum
    unfolding panics_iff_gmap by (rule panics_iff_gmapM) (rule resolveValueOptions_panics)
  then have "panics_iff (resolveOptions quote f) (list_ex ?P (f_Enums f))"
    by (simp only: resolveOptions_def panics_iff_gmap [where f = "\<lambda>enums. (f\<lparr>f_Enums := enums\<rparr>, [])"]) (rule panics_iff_gmapM)
  moreover have "snd x = []" if "resolveOptions quote f = Ok x" for x
    using that by (auto simp: resolveOptions_def gmap_Ok_iff)
  ultimately show ?thesis
    by (cases "resolveOptions quote f") (auto simp: panics_iff_def prod_eq_iff split: if_splits)
qed

end
