(* ===== verification/Proto_Imports.thy ===== *)
theory Proto_Imports
  imports Proto_Resolve
begin

text \<open>
  The base folders of \<^verbatim>\<open>gremlinc/internal/imports.go\<close> and the whole resolution: from the paths of the
  files a tree of folders is built, single-child folders are skipped, and every file gets the folder
  below the common root (or the root itself) as the folder its imports are relative to.
\<close>

section \<open>The folder tree\<close>

datatype fsNode = FsNode (fs_Path: string) (fs_Children: "fsNode list") (fs_Files: "nat list")

text \<open>
  Adding a file walks down the parts of its folder; a child is found by its path and created when it
  is missing. A file is its index in the list of parsed files.
\<close>

fun addFile :: "string list \<Rightarrow> nat \<Rightarrow> fsNode \<Rightarrow> fsNode" where
  "addFile [] i node = FsNode (fs_Path node) (fs_Children node) (fs_Files node @ [i])"
| "addFile (part # parts) i node =
     (if part = [] then addFile parts i node
      else let path = Join (fs_Path node) part in
        case find_index (\<lambda>child. fs_Path child = path) (fs_Children node) of
          Some k \<Rightarrow> FsNode (fs_Path node) ((fs_Children node)[k := addFile parts i (fs_Children node ! k)]) (fs_Files node)
        | None \<Rightarrow> FsNode (fs_Path node) (fs_Children node @ [addFile parts i (FsNode path [] [])]) (fs_Files node))"

definition buildTree :: "ProtoFile list \<Rightarrow> fsNode" where
  "buildTree parsed =
     fold (\<lambda>(i, p). addFile (split_on CHR ''/'' (Dir (f_Path p))) i) (enumerate 0 parsed) (FsNode ''/'' [] [])"

fun skipSingle :: "fsNode \<Rightarrow> fsNode" where
  "skipSingle (FsNode path [child] []) = skipSingle child"
| "skipSingle node = node"

definition set_base :: "string \<Rightarrow> nat \<Rightarrow> ProtoFile list \<Rightarrow> ProtoFile list" where
  "set_base base i files = files[i := (files ! i)\<lparr>f_BaseFolder := base\<rparr>]"

fun recursivelyAssignImportBaseFolder :: "fsNode \<Rightarrow> string \<Rightarrow> ProtoFile list \<Rightarrow> ProtoFile list" where
  "recursivelyAssignImportBaseFolder (FsNode path children fs) base files =
     fold (\<lambda>child. recursivelyAssignImportBaseFolder child base) children (fold (set_base base) fs files)"

definition assignBaseFolder :: "fsNode \<Rightarrow> ProtoFile list \<Rightarrow> ProtoFile list" where
  "assignBaseFolder node files =
     fold (\<lambda>child. recursivelyAssignImportBaseFolder child (fs_Path child)) (fs_Children node)
       (fold (set_base (fs_Path node)) (fs_Files node) files)"

definition resolveBaseFolders :: "ProtoFile list \<Rightarrow> (front_exit, ProtoFile list) gres" where
  "resolveBaseFolders parsed =
     (let rootNode = skipSingle (buildTree parsed) in
      if fs_Children rootNode = [] \<and> fs_Files rootNode = [] then Err (NoProtoFiles (fs_Path rootNode))
      else if fs_Files rootNode \<noteq> [] \<and> fs_Children rootNode \<noteq> [] then Err (AmbiguousLayout (fs_Path rootNode))
      else Ok (assignBaseFolder rootNode parsed))"


section \<open>The whole resolution\<close>

definition resolveImportsAll :: "ProtoFile list \<Rightarrow> ProtoFile list \<times> front_error list" where
  "resolveImportsAll files =
     (let results = map (resolveImports (parsedMap files)) files in (map fst results, concat (map snd results)))"

text \<open>The loops over all files; each step sees the files as the steps before left them.\<close>

definition extensions_step :: "nat \<Rightarrow> ProtoFile list \<times> front_error list \<Rightarrow> ProtoFile list \<times> front_error list" where
  "extensions_step i st =
     (let (files, errors) = st; (files', errs) = resolveExtensions i files in (files', errors @ errs))"

definition references_step :: "nat \<Rightarrow> ProtoFile list \<times> front_error list \<Rightarrow> ProtoFile list \<times> front_error list" where
  "references_step i st =
     (let (files, errors) = st; (f, errs) = resolveReferences files (files ! i) in (files[i := f], errors @ errs))"

definition options_step :: "(string \<Rightarrow> string) \<Rightarrow> nat \<Rightarrow> ProtoFile list \<times> front_error list \<Rightarrow> (front_exit, ProtoFile list \<times> front_error list) gres" where
  "options_step quote i st =
     (let (files, errors) = st in
      gbind (resolveOptions quote (files ! i)) (\<lambda>(f, errs). Ok (files[i := f], errors @ errs)))"

definition ResolveImportsAndReferences :: "(string \<Rightarrow> string) \<Rightarrow> ProtoFile list \<Rightarrow> (front_exit, ProtoFile list \<times> front_error list) gres" where
  "ResolveImportsAndReferences quote parsed =
     gbind (resolveBaseFolders parsed) (\<lambda>files.
       let (files, errors) = resolveImportsAll files;
           files = publicImportsAll files;
           (files, errors) = fold extensions_step [0..<length files] (files, errors);
           (files, errors) = fold references_step [0..<length files] (files, errors) in
       gfold (options_step quote) [0..<length files] (files, errors))"


section \<open>What the tree holds\<close>

fun contents :: "fsNode \<Rightarrow> (string \<times> nat) list" where
  "contents (FsNode path children fs) = map (Pair path) fs @ concat (map contents children)"

text \<open>A node for a list of folder names: its children are the nodes of distinct names below it, none of them empty.\<close>

fun tree_ok :: "string list \<Rightarrow> fsNode \<Rightarrow> bool" where
  "tree_ok pre (FsNode path children fs) \<longleftrightarrow>
     path = abs_path pre \<and> list_all plain pre \<and> distinct (map fs_Path children) \<and>
     (\<forall>child \<in> set children. contents child \<noteq> [] \<and> (\<exists>part. plain part \<and> tree_ok (pre @ [part]) child))"

lemma tree_ok_path: "tree_ok pre node \<Longrightarrow> fs_Path node = abs_path pre \<and> list_all plain pre"
  by (cases node) simp

lemma contents_unfold: "contents node = map (Pair (fs_Path node)) (fs_Files node) @ concat (map contents (fs_Children node))"
  by (cases node) simp

lemma tree_ok_unfold:
  "tree_ok pre node \<longleftrightarrow> fs_Path node = abs_path pre \<and> list_all plain pre \<and> distinct (map fs_Path (fs_Children node)) \<and>
     (\<forall>child \<in> set (fs_Children node). contents child \<noteq> [] \<and> (\<exists>part. plain part \<and> tree_ok (pre @ [part]) child))"
  by (cases node) simp

lemma addFile_path [simp]: "fs_Path (addFile parts i node) = fs_Path node"
  by (induction parts i node rule: addFile.induct) (auto simp: Let_def split: option.split)

lemma addFile_skip: "addFile parts i node = addFile (filter (\<lambda>p. p \<noteq> []) parts) i node"
  by (induction parts i node rule: addFile.induct) (auto simp: Let_def split: option.split)

lemma addFile_ok:
  assumes "tree_ok pre node" and "list_all plain parts"
  shows "tree_ok pre (addFile parts i node) \<and>
    set (contents (addFile parts i node)) = insert (abs_path (pre @ parts), i) (set (contents node))"
  using assms
proof (induction parts arbitrary: pre node)
  case Nil
  then show ?case by (auto simp: tree_ok_unfold [of pre "addFile [] i node"] tree_ok_unfold [of pre node] contents_unfold [of node])
next
  case (Cons part parts)
  let ?ch = "fs_Children node"
  have part: "plain part" "part \<noteq> []" "list_all plain parts" using Cons.prems by auto (simp add: plain_def)
  have path: "Join (fs_Path node) part = abs_path (pre @ [part])"
    using tree_ok_path [OF Cons.prems(1)] part by (simp add: Join_plain)
  show ?case
  proof (cases "find_index (\<lambda>child. fs_Path child = abs_path (pre @ [part])) ?ch")
    case None
    let ?new = "FsNode (abs_path (pre @ [part])) [] []"
    have "tree_ok (pre @ [part]) ?new" using tree_ok_path [OF Cons.prems(1)] part by simp
    from Cons.IH [OF this part(3)] have new: "tree_ok (pre @ [part]) (addFile parts i ?new)"
      "set (contents (addFile parts i ?new)) = {(abs_path (pre @ part # parts), i)}" by auto
    have "addFile (part # parts) i node = FsNode (fs_Path node) (?ch @ [addFile parts i ?new]) (fs_Files node)"
      using None part(2) by (simp add: path)
    moreover have "abs_path (pre @ [part]) \<notin> fs_Path ` set ?ch" using None by (auto simp: find_index_None)
    ultimately show ?thesis
      using Cons.prems(1) new part(1)
      by (auto simp: tree_ok_unfold [of pre node] contents_unfold [of node])
  next
    case (Some k)
    define xs c ys where "xs = take k ?ch" and "c = ?ch ! k" and "ys = drop (Suc k) ?ch"
    from find_index_Some [OF Some] have k: "k < length ?ch" "fs_Path c = abs_path (pre @ [part])" by (auto simp: c_def)
    have ch: "?ch = xs @ c # ys" and upd: "?ch[k := addFile parts i c] = xs @ addFile parts i c # ys"
      using k(1) by (simp_all add: xs_def c_def ys_def id_take_nth_drop upd_conv_take_nth_drop)
    obtain part' where p': "plain part'" "tree_ok (pre @ [part']) c"
      using Cons.prems(1) by (auto simp: tree_ok_unfold [of pre node] ch)
    have "part' = part"
      using tree_ok_path [OF p'(2)] tree_ok_path [OF Cons.prems(1)] k(2) p'(1) part(1) by (auto simp: abs_path_inj)
    with p' Cons.IH [OF _ part(3)] have new: "tree_ok (pre @ [part]) (addFile parts i c)"
      "set (contents (addFile parts i c)) = insert (abs_path (pre @ part # parts), i) (set (contents c))" by auto
    then have "contents (addFile parts i c) \<noteq> []" by auto
    moreover have "addFile (part # parts) i node = FsNode (fs_Path node) (xs @ addFile parts i c # ys) (fs_Files node)"
      using Some part(2) upd by (simp add: path c_def)
    ultimately show ?thesis
      using Cons.prems(1) new part(1) by (auto simp: tree_ok_unfold [of pre node] contents_unfold [of node] ch)
  qed
qed

lemma contents_below:
  "tree_ok pre node \<Longrightarrow> (P, i) \<in> set (contents node) \<Longrightarrow> \<exists>rel. P = abs_path (pre @ rel) \<and> list_all plain (pre @ rel)"
proof (induction node arbitrary: pre)
  case (FsNode path children fs)
  show ?case
  proof (cases "(P, i) \<in> set (map (Pair path) fs)")
    case True
    with FsNode.prems(1) show ?thesis by (intro exI [of _ "[]"]) auto
  next
    case False
    then obtain child where child: "child \<in> set children" "(P, i) \<in> set (contents child)" using FsNode.prems(2) by auto
    then obtain part where "tree_ok (pre @ [part]) child" using FsNode.prems(1) by auto
    from FsNode.IH [OF child(1) this child(2)] show ?thesis by auto
  qed
qed

lemma skipSingle_ok:
  "tree_ok pre node \<Longrightarrow> \<exists>ext. tree_ok (pre @ ext) (skipSingle node) \<and> contents (skipSingle node) = contents node \<and>
    \<not> (fs_Files (skipSingle node) = [] \<and> length (fs_Children (skipSingle node)) = 1)"
proof (induction node arbitrary: pre rule: skipSingle.induct)
  case (1 path child)
  then obtain part where "tree_ok (pre @ [part]) child" by auto
  from "1.IH" [OF this] obtain ext where "tree_ok ((pre @ [part]) @ ext) (skipSingle child)" "contents (skipSingle child) = contents child"
    "\<not> (fs_Files (skipSingle child) = [] \<and> length (fs_Children (skipSingle child)) = 1)" by blast
  then show ?case by (intro exI [of _ "part # ext"]) simp
qed (rule exI [of _ "[]"], simp)+

text \<open>The base folders a step assigns.\<close>

definition assigns :: "(ProtoFile list \<Rightarrow> ProtoFile list) \<Rightarrow> nat set \<Rightarrow> (nat \<Rightarrow> string) \<Rightarrow> bool" where
  "assigns g S b \<longleftrightarrow> (\<forall>files. length (g files) = length files \<and> (\<forall>i < length files.
     g files ! i = (if i \<in> S then (files ! i)\<lparr>f_BaseFolder := b i\<rparr> else files ! i)))"

lemma assigns_id: "assigns (\<lambda>files. files) {} b"
  by (simp add: assigns_def)

lemma assigns_comp: "assigns g S b \<Longrightarrow> assigns h T b \<Longrightarrow> assigns (\<lambda>files. h (g files)) (S \<union> T) b"
  by (simp add: assigns_def)

lemma assigns_fold: "(\<And>x. x \<in> set xs \<Longrightarrow> assigns (g x) (S x) b) \<Longrightarrow> assigns (fold g xs) (\<Union> (S ` set xs)) b"
proof (induction xs)
  case (Cons x xs)
  then have "assigns (\<lambda>files. fold g xs (g x files)) (S x \<union> \<Union> (S ` set xs)) b"
    by (intro assigns_comp) simp_all
  then show ?case by (simp add: comp_def)
qed (simp add: assigns_def)

lemma assigns_cong: "assigns g S b \<Longrightarrow> (\<And>i. i \<in> S \<Longrightarrow> b i = b' i) \<Longrightarrow> assigns g S b'"
  by (simp add: assigns_def)

lemma assigns_set_base: "assigns (set_base base i) {i} (\<lambda>_. base)"
  by (simp add: assigns_def set_base_def nth_list_update)

lemma assigns_recursively:
  "assigns (recursivelyAssignImportBaseFolder node base) (snd ` set (contents node)) (\<lambda>_. base)"
proof (induction node)
  case (FsNode path children fs)
  have "assigns (\<lambda>files. fold (\<lambda>child. recursivelyAssignImportBaseFolder child base) children (fold (set_base base) fs files))
      (\<Union> ((\<lambda>i. {i}) ` set fs) \<union> \<Union> ((\<lambda>child. snd ` set (contents child)) ` set children)) (\<lambda>_. base)"
    using FsNode by (intro assigns_comp assigns_fold assigns_set_base)
  moreover have "\<Union> ((\<lambda>i. {i}) ` set fs) \<union> \<Union> ((\<lambda>child. snd ` set (contents child)) ` set children) =
      snd ` set (contents (FsNode path children fs))"
    by (auto simp: image_Un image_UN image_comp)
  ultimately show ?case by simp
qed

text \<open>
  Where the position of an index determines its folder, the assignment gives every file of the tree
  the node itself or the child of the node that its folder lies in.
\<close>

lemma assigns_assignBaseFolder:
  assumes "tree_ok pre node" and "\<And>P i. (P, i) \<in> set (contents node) \<Longrightarrow> P = abs_path (d i) \<and> list_all plain (d i)"
  shows "assigns (assignBaseFolder node) (snd ` set (contents node)) (\<lambda>i. abs_path (take (Suc (length pre)) (d i)))"
proof -
  let ?b = "\<lambda>i. abs_path (take (Suc (length pre)) (d i))"
  have own: "assigns (set_base (fs_Path node) i) {i} ?b" if "i \<in> set (fs_Files node)" for i
  proof -
    have "(fs_Path node, i) \<in> set (contents node)" using that by (simp add: contents_unfold [of node])
    from assms(2) [OF this] tree_ok_path [OF assms(1)] have "d i = pre" by (metis abs_path_inj)
    then show ?thesis using tree_ok_path [OF assms(1)] by (intro assigns_cong [OF assigns_set_base]) simp
  qed
  have below: "assigns (recursivelyAssignImportBaseFolder child (fs_Path child)) (snd ` set (contents child)) ?b"
    if child: "child \<in> set (fs_Children node)" for child
  proof (rule assigns_cong [OF assigns_recursively])
    obtain part where part: "plain part" "tree_ok (pre @ [part]) child"
      using assms(1) child by (auto simp: tree_ok_unfold [of pre node])
    fix i assume "i \<in> snd ` set (contents child)"
    then obtain P where P: "(P, i) \<in> set (contents child)" by auto
    then have "(P, i) \<in> set (contents node)" using child by (auto simp: contents_unfold [of node])
    from assms(2) [OF this] contents_below [OF part(2) P] obtain rel where "d i = pre @ part # rel"
      by (auto simp: abs_path_inj)
    then show "fs_Path child = ?b i" using tree_ok_path [OF part(2)] by simp
  qed
  have "assigns (\<lambda>files. fold (\<lambda>child. recursivelyAssignImportBaseFolder child (fs_Path child)) (fs_Children node)
        (fold (set_base (fs_Path node)) (fs_Files node) files))
      (\<Union> ((\<lambda>i. {i}) ` set (fs_Files node)) \<union> \<Union> ((\<lambda>child. snd ` set (contents child)) ` set (fs_Children node))) ?b"
    using own below by (intro assigns_comp assigns_fold)
  moreover have "\<Union> ((\<lambda>i. {i}) ` set (fs_Files node)) \<union> \<Union> ((\<lambda>child. snd ` set (contents child)) ` set (fs_Children node)) =
      snd ` set (contents node)"
    by (auto simp: contents_unfold [of node] image_Un image_UN image_comp)
  ultimately show ?thesis by (simp add: assignBaseFolder_def [abs_def])
qed

text \<open>Files given by the folder and the name of each.\<close>

definition located :: "(nat \<Rightarrow> string list) \<Rightarrow> ProtoFile list \<Rightarrow> bool" where
  "located d files \<longleftrightarrow> (\<forall>i < length files. \<exists>nm. f_Path (files ! i) = abs_path (d i @ [nm]) \<and> list_all plain (d i @ [nm]))"

lemma buildTree_ok:
  assumes "located d files"
  shows "tree_ok [] (buildTree files) \<and> set (contents (buildTree files)) = {(abs_path (d i), i) | i. i < length files}"
proof -
  have add: "addFile (split_on CHR ''/'' (Dir (f_Path (files ! i)))) i node = addFile (d i) i node" if i: "i < length files" for i node
  proof -
    obtain nm where "f_Path (files ! i) = abs_path (d i @ [nm])" "list_all plain (d i)" "plain nm"
      using assms i by (auto simp: located_def)
    then have "filter (\<lambda>p. p \<noteq> []) (split_on CHR ''/'' (Dir (f_Path (files ! i)))) = d i"
      by (simp add: Dir_abs_path split_join_parts)
    then show ?thesis by (metis addFile_skip)
  qed
  have plain: "list_all plain (d i)" if "i < length files" for i using assms that by (auto simp: located_def)
  define n where "n = length files"
  have "n \<le> length files \<Longrightarrow>
      tree_ok [] (fold (\<lambda>(i, p). addFile (split_on CHR ''/'' (Dir (f_Path p))) i) (take n (enumerate 0 files)) (FsNode ''/'' [] [])) \<and>
      set (contents (fold (\<lambda>(i, p). addFile (split_on CHR ''/'' (Dir (f_Path p))) i) (take n (enumerate 0 files)) (FsNode ''/'' [] []))) =
        {(abs_path (d i), i) | i. i < n}" for n
  proof (induction n)
    case 0
    then show ?case by (simp add: abs_path_def)
  next
    case (Suc n)
    then have n: "n < length files" by simp
    then have "take (Suc n) (enumerate 0 files) = take n (enumerate 0 files) @ [(n, files ! n)]"
      by (simp add: take_Suc_conv_app_nth nth_enumerate_eq)
    with Suc n show ?case
      using addFile_ok [of "[]" _ "d n" n, OF _ plain [OF n]] by (auto simp: add less_Suc_eq)
  qed
  from this [of "length files"] show ?thesis by (simp add: buildTree_def)
qed

text \<open>What the files and children of a node say about the folders of the files below it.\<close>

definition holds_files :: "string list \<Rightarrow> fsNode \<Rightarrow> (nat \<Rightarrow> string list) \<Rightarrow> nat set \<Rightarrow> bool" where
  "holds_files root node d S \<longleftrightarrow> tree_ok root node \<and> set (contents node) = (\<lambda>i. (abs_path (d i), i)) ` S \<and>
     (\<forall>i \<in> S. list_all plain (d i))"

lemma holds_below: "holds_files root node d S \<Longrightarrow> i \<in> S \<Longrightarrow> \<exists>rel. d i = root @ rel"
proof -
  assume h: "holds_files root node d S" "i \<in> S"
  then have "(abs_path (d i), i) \<in> set (contents node)" by (auto simp: holds_files_def)
  with contents_below [of root node "abs_path (d i)" i] h show ?thesis
    by (auto simp: holds_files_def abs_path_inj)
qed

lemma holds_child:
  assumes "holds_files root node d S" and "child \<in> set (fs_Children node)"
  shows "\<exists>part. fs_Path child = abs_path (root @ [part]) \<and> plain part \<and> list_all plain root \<and>
    (\<exists>i \<in> S. \<exists>rel. d i = root @ part # rel) \<and> (\<forall>P i. (P, i) \<in> set (contents child) \<longrightarrow> (\<exists>rel. d i = root @ part # rel))"
proof -
  have tree: "tree_ok root node" using assms(1) by (simp add: holds_files_def)
  then obtain part where part: "plain part" "tree_ok (root @ [part]) child" "contents child \<noteq> []"
    using assms(2) by (auto simp: tree_ok_unfold [of root node])
  have below: "i \<in> S \<and> (\<exists>rel. d i = root @ part # rel)" if P: "(P, i) \<in> set (contents child)" for P i
  proof -
    have "(P, i) \<in> set (contents node)" using P assms(2) by (auto simp: contents_unfold [of node])
    then have "i \<in> S" "P = abs_path (d i)" using assms(1) by (auto simp: holds_files_def)
    with contents_below [OF part(2) P] assms(1) show ?thesis by (auto simp: holds_files_def abs_path_inj)
  qed
  moreover obtain P i where "(P, i) \<in> set (contents child)" using part(3) by (cases "contents child") auto
  ultimately show ?thesis
    using tree_ok_path [OF part(2)] tree_ok_path [OF tree] part(1) by blast
qed

lemma holds_own_files:
  assumes "holds_files root node d S"
  shows "fs_Files node \<noteq> [] \<longleftrightarrow> (\<exists>i \<in> S. d i = root)"
proof
  have root: "fs_Path node = abs_path root" "list_all plain root" using assms tree_ok_path by (auto simp: holds_files_def)
  {
    assume "fs_Files node \<noteq> []"
    then obtain i where "(fs_Path node, i) \<in> set (contents node)" by (cases "fs_Files node") (auto simp: contents_unfold [of node])
    then show "\<exists>i \<in> S. d i = root" using assms root by (auto simp: holds_files_def abs_path_inj)
  }
  assume "\<exists>i \<in> S. d i = root"
  then obtain i where i: "i \<in> S" "d i = root" by blast
  then have "(abs_path root, i) \<in> set (contents node)" using assms by (force simp: holds_files_def)
  moreover have "(abs_path root, i) \<notin> set (contents child)" if "child \<in> set (fs_Children node)" for child
    using holds_child [OF assms that] i by auto
  ultimately show "fs_Files node \<noteq> []" by (auto simp: contents_unfold [of node])
qed

lemma holds_children:
  assumes "holds_files root node d S"
  shows "fs_Children node \<noteq> [] \<longleftrightarrow> (\<exists>i \<in> S. d i \<noteq> root)"
proof
  assume "fs_Children node \<noteq> []"
  then obtain child where "child \<in> set (fs_Children node)" by (cases "fs_Children node") auto
  from holds_child [OF assms this] show "\<exists>i \<in> S. d i \<noteq> root" by force
next
  assume "\<exists>i \<in> S. d i \<noteq> root"
  then obtain i where i: "i \<in> S" "d i \<noteq> root" by blast
  then have "(abs_path (d i), i) \<in> set (contents node)" "list_all plain (d i)" using assms by (auto simp: holds_files_def)
  moreover have "fs_Path node = abs_path root" "list_all plain root" using assms tree_ok_path by (auto simp: holds_files_def)
  ultimately show "fs_Children node \<noteq> []" using i(2) by (auto simp: contents_unfold [of node] abs_path_inj)
qed

text \<open>A node that is not skipped stands for the longest common prefix.\<close>

lemma holds_longest:
  assumes "holds_files root node d S" and "\<not> (fs_Files node = [] \<and> length (fs_Children node) = 1)"
    and "S \<noteq> {}" and "\<forall>i \<in> S. prefix longer (d i)"
  shows "length longer \<le> length root"
proof (rule ccontr)
  assume longer: "\<not> length longer \<le> length root"
  then have "d i \<noteq> root" if "i \<in> S" for i using assms(4) that prefix_length_le by fastforce
  then have files: "fs_Files node = []" "fs_Children node \<noteq> []"
    using holds_own_files [OF assms(1)] holds_children [OF assms(1)] assms(3) by auto
  have path: "fs_Path child = abs_path (root @ [longer ! length root])" if "child \<in> set (fs_Children node)" for child
  proof -
    from holds_child [OF assms(1) that] obtain part i rel where
      "fs_Path child = abs_path (root @ [part])" "i \<in> S" "d i = root @ part # rel" by blast
    moreover from this assms(4) have "prefix longer (root @ part # rel)" by auto
    then have "longer ! length root = part" using longer by (auto simp: prefix_def) (metis nth_append nth_append_length not_le)
    ultimately show ?thesis by simp
  qed
  have "length (fs_Children node) \<noteq> 1" using assms(2) files(1) by simp
  then obtain c1 c2 cs where "fs_Children node = c1 # c2 # cs"
    using files(2) by (cases "fs_Children node"; cases "tl (fs_Children node)") auto
  with path have "\<not> distinct (map fs_Path (fs_Children node))" by simp
  then show False using assms(1) by (simp add: holds_files_def tree_ok_unfold [of root node])
qed

text \<open>
  C14. The base folders: for proto files in given folders the step always returns. It assigns every
  file the folder one level below the common root of all folders, and the common root itself when
  all files lie in it; it ends the process exactly when some files lie in the common root and
  others below it.
\<close>

theorem base_folders_spec:
  assumes "located d files" and "files \<noteq> []"
  shows "\<exists>root. (\<forall>i < length files. prefix root (d i)) \<and>
    (\<forall>longer. (\<forall>i < length files. prefix longer (d i)) \<longrightarrow> length longer \<le> length root) \<and>
    (if (\<exists>i < length files. d i = root) \<and> (\<exists>i < length files. d i \<noteq> root)
     then resolveBaseFolders files = Err (AmbiguousLayout (abs_path root))
     else \<exists>files'. resolveBaseFolders files = Ok files' \<and> length files' = length files \<and>
       (\<forall>i < length files. files' ! i = (files ! i)\<lparr>f_BaseFolder := abs_path (take (Suc (length root)) (d i))\<rparr>))"
proof -
  let ?n = "skipSingle (buildTree files)" and ?S = "{i. i < length files}"
  from buildTree_ok [OF assms(1)] skipSingle_ok [of "[]" "buildTree files"] obtain root where
    root: "tree_ok root ?n" "set (contents ?n) = {(abs_path (d i), i) | i. i < length files}"
      "\<not> (fs_Files ?n = [] \<and> length (fs_Children ?n) = 1)" by auto
  have plain: "list_all plain (d i)" if "i < length files" for i using assms(1) that by (auto simp: located_def)
  have holds: "holds_files root ?n d ?S" using root(1,2) plain by (auto simp: holds_files_def)
  have S: "?S \<noteq> {}" using assms(2) by auto
  have common: "\<forall>i < length files. prefix root (d i)" using holds_below [OF holds] by (auto simp: prefix_def)
  have longest: "\<forall>longer. (\<forall>i < length files. prefix longer (d i)) \<longrightarrow> length longer \<le> length root"
    using holds_longest [OF holds root(3) S] by simp
  have "P = abs_path (d i) \<and> list_all plain (d i)" if "(P, i) \<in> set (contents ?n)" for P i
    using that root(2) plain by auto
  from assigns_assignBaseFolder [where d = d, OF root(1) this]
  have "length (assignBaseFolder ?n files) = length files \<and> (\<forall>i < length files.
      assignBaseFolder ?n files ! i = (files ! i)\<lparr>f_BaseFolder := abs_path (take (Suc (length root)) (d i))\<rparr>)"
    using root(2) by (auto simp: assigns_def image_iff)
  then show ?thesis
    using common longest holds_own_files [OF holds] holds_children [OF holds] S tree_ok_path [OF root(1)]
    by (intro exI [of _ root]) (auto simp: resolveBaseFolders_def Let_def)
qed

definition ex_located :: "ProtoFile list" where
  "ex_located = [new_file ''/w/a/x.proto'', new_file ''/w/b/c/y.proto'']"

theorem base_folders_spec_witness:
  "\<exists>root. (\<forall>i < 2. prefix root ([[''w'', ''a''], [''w'', ''b'', ''c'']] ! i)) \<and>
    (\<exists>files'. resolveBaseFolders ex_located = Ok files' \<and> length files' = 2 \<and>
       (\<forall>i < 2. files' ! i = (ex_located ! i)\<lparr>f_BaseFolder :=
          abs_path (take (Suc (length root)) ([[''w'', ''a''], [''w'', ''b'', ''c'']] ! i))\<rparr>))"
proof -
  let ?d = "\<lambda>i. [[''w'', ''a''], [''w'', ''b'', ''c'']] ! i"
  have "located ?d ex_located"
    by (auto simp: located_def ex_located_def new_file_def abs_path_def plain_def less_Suc_eq
        intro: exI [of _ "''x.proto''"] exI [of _ "''y.proto''"])
  moreover have "ex_located \<noteq> []" by (simp add: ex_located_def)
  ultimately obtain root where root: "\<forall>i < length ex_located. prefix root (?d i)"
    "if (\<exists>i < length ex_located. ?d i = root) \<and> (\<exists>i < length ex_located. ?d i \<noteq> root)
     then resolveBaseFolders ex_located = Err (AmbiguousLayout (abs_path root))
     else \<exists>files'. resolveBaseFolders ex_located = Ok files' \<and> length files' = length ex_located \<and>
       (\<forall>i < length ex_located. files' ! i = (ex_located ! i)\<lparr>f_BaseFolder := abs_path (take (Suc (length root)) (?d i))\<rparr>)"
    using base_folders_spec [of ?d ex_located] by blast
  have n: "length ex_located = 2" by (simp add: ex_located_def)
  have "prefix root [''w'', ''a'']" "prefix root [''w'', ''b'', ''c'']" using root(1) by (auto simp: n less_2_cases_iff)
  then have "root \<noteq> ?d 0" "root \<noteq> ?d (Suc 0)" by auto
  then have no: "(\<exists>i < length ex_located. ?d i = root) = False" unfolding n less_2_cases_iff by metis
  show ?thesis using root [unfolded no] by (simp only: n if_False simp_thms) blast
qed


section \<open>Imports find their file\<close>

lemma parsedMap_snoc: "map_of (parsedMap (files @ [f])) = (map_of (parsedMap files))(f_Path f \<mapsto> length files)"
proof -
  have "enumerate 0 (files @ [f]) = enumerate 0 files @ [(length files, f)]" by (simp add: enumerate_append_eq)
  then show ?thesis by (simp add: parsedMap_def update_conv')
qed

lemma parsedMap_Nil [simp]: "parsedMap [] = []"
  by (simp add: parsedMap_def)

lemma parsedMap_Some: "map_of (parsedMap files) path = Some t \<Longrightarrow> t < length files \<and> f_Path (files ! t) = path"
  by (induction files rule: rev_induct) (auto simp: parsedMap_snoc nth_append less_SucI split: if_splits)

lemma parsedMap_None: "map_of (parsedMap files) path = None \<longleftrightarrow> path \<notin> f_Path ` set files"
  by (induction files rule: rev_induct) (auto simp: parsedMap_snoc)

text \<open>
  An import names its file relative to the base folder of the importing file: it is resolved to a
  parsed file with exactly that path, and it stays open and is reported when there is none.
\<close>

theorem import_finds_file:
  assumes "f_BaseFolder f = abs_path base" and "list_all plain base"
    and "imp \<in> set (f_Imports f)" and "im_FSPath imp = join_on CHR ''/'' ps" and "ps \<noteq> []" and "list_all plain ps"
  shows "if abs_path (base @ ps) \<in> f_Path ` set files
    then \<exists>t < length files. f_Path (files ! t) = abs_path (base @ ps) \<and>
      imp\<lparr>im_TargetFile := Some t\<rparr> \<in> set (f_Imports (fst (resolveImports (parsedMap files) f)))
    else imp \<in> set (f_Imports (fst (resolveImports (parsedMap files) f))) \<and>
      UnresolvedImport (im_FSPath imp) (f_RelativePath f) (f_BaseFolder f) (abs_path (base @ ps)) \<in>
        set (snd (resolveImports (parsedMap files) f))"
proof -
  have path: "Join (f_BaseFolder f) (im_FSPath imp) = abs_path (base @ ps)"
    using assms by (simp add: Join_relative)
  show ?thesis
  proof (cases "map_of (parsedMap files) (abs_path (base @ ps))")
    case None
    then have "imp \<in> set (f_Imports (fst (resolveImports (parsedMap files) f)))"
      by (auto simp: resolveImports_def Let_def path intro!: rev_image_eqI [OF assms(3)])
    moreover have "UnresolvedImport (im_FSPath imp) (f_RelativePath f) (f_BaseFolder f) (abs_path (base @ ps)) \<in>
        set (snd (resolveImports (parsedMap files) f))"
      using None by (auto simp: resolveImports_def Let_def path intro!: bexI [OF _ assms(3)])
    ultimately show ?thesis using None by (simp add: parsedMap_None)
  next
    case (Some t)
    from parsedMap_Some [OF this] have t: "t < length files" "f_Path (files ! t) = abs_path (base @ ps)" by auto
    have "abs_path (base @ ps) \<in> f_Path ` set files" using t by (metis image_eqI nth_mem)
    moreover have "imp\<lparr>im_TargetFile := Some t\<rparr> \<in> set (f_Imports (fst (resolveImports (parsedMap files) f)))"
      using Some by (auto simp: resolveImports_def Let_def path intro!: rev_image_eqI [OF assms(3)])
    ultimately show ?thesis using t by auto
  qed
qed

theorem import_finds_file_witness:
  "\<exists>t < 2. f_Path (ex_located ! t) = ''/w/a/x.proto'' \<and>
    \<lparr>im_FSPath = ''a/x.proto'', im_Kind = [], im_TargetFile = Some t\<rparr> \<in> set (f_Imports (fst (resolveImports (parsedMap ex_located)
      ((new_file ''/w/b/c/y.proto'')\<lparr>f_BaseFolder := ''/w'', f_Imports := [\<lparr>im_FSPath = ''a/x.proto'', im_Kind = [], im_TargetFile = None\<rparr>]\<rparr>))))"
proof -
  let ?imp = "\<lparr>im_FSPath = ''a/x.proto'', im_Kind = [], im_TargetFile = None\<rparr>"
  let ?f = "(new_file ''/w/b/c/y.proto'')\<lparr>f_BaseFolder := ''/w'', f_Imports := [?imp]\<rparr>"
  have "f_BaseFolder ?f = abs_path [''w'']" "list_all plain [''w'']" "?imp \<in> set (f_Imports ?f)"
    "im_FSPath ?imp = join_on CHR ''/'' [''a'', ''x.proto'']" "[''a'', ''x.proto''] \<noteq> []" "list_all plain [''a'', ''x.proto'']"
    by (simp_all add: abs_path_def plain_def)
  from import_finds_file [OF this, of ex_located] show ?thesis
    by (simp add: ex_located_def new_file_def abs_path_def numeral_2_eq_2)
qed

end
