(* ===== verification/Proto_Complete.thy ===== *)
theory Proto_Complete
  imports Proto_Imports
begin

text \<open>
  The resolution as a whole: what the passes of \<^verbatim>\<open>ResolveImportsAndReferences\<close> keep of imports and
  fields, stated once for any property of them in the locale \<open>front_invariant\<close>, and the
  theorem that a resolution without errors leaves no import without its file and no field without
  its type.
\<close>

section \<open>Properties of imports and fields\<close>

definition file_sat :: "(ProtoImport \<Rightarrow> bool) \<Rightarrow> (MessageFieldDefinition \<Rightarrow> bool) \<Rightarrow> ProtoFile \<Rightarrow> bool" where
  "file_sat I F f \<longleftrightarrow> list_all I (f_Imports f) \<and> (\<forall>m \<in> set (f_Messages f). list_all F (md_Fields m))"

definition files_sat :: "nat \<Rightarrow> (ProtoImport \<Rightarrow> bool) \<Rightarrow> (MessageFieldDefinition \<Rightarrow> bool) \<Rightarrow> ProtoFile list \<Rightarrow> bool" where
  "files_sat n I F files \<longleftrightarrow> length files = n \<and> (\<forall>f \<in> set files. file_sat I F f)"

lemma extend_source_valid:
  "resolveLocalExtendSource f m = Some j \<Longrightarrow> j < length (f_Messages f)"
  "resolveImportedExtendSource files f m = Some (t, j) \<Longrightarrow>
     j < length (f_Messages (files ! t)) \<and> (\<exists>imp \<in> set (f_Imports f). im_TargetFile imp = Some t)"
  by (auto simp: resolveLocalExtendSource_def resolveImportedExtendSource_def probeMessage_def
      dest!: first_some_Some searchScopes_Some find_index_Some split: option.splits)

text \<open>
  A property I of imports that bounds the targets and a property F of fields that does not depend on
  the extra scopes are kept by the base folders, the public imports and the extensions.
\<close>

locale front_invariant =
  fixes n :: nat and I :: "ProtoImport \<Rightarrow> bool" and F :: "MessageFieldDefinition \<Rightarrow> bool"
  assumes target_valid: "I imp \<Longrightarrow> im_TargetFile imp = Some t \<Longrightarrow> t < n"
    and extension_keeps: "F field \<Longrightarrow> F (field\<lparr>fd_ExtraScopes := scopes\<rparr>)"
begin

lemma sat_nth: "files_sat n I F files \<Longrightarrow> i < n \<Longrightarrow> file_sat I F (files ! i)"
  by (simp add: files_sat_def)

lemma sat_update: "files_sat n I F files \<Longrightarrow> (i < n \<Longrightarrow> file_sat I F f) \<Longrightarrow> files_sat n I F (files[i := f])"
  using set_update_subset_insert [of files i f]
  by (cases "i < length files") (auto simp: files_sat_def list_update_beyond)

lemma sat_fold:
  "files_sat n I F files \<Longrightarrow> (\<And>x fs. x \<in> set xs \<Longrightarrow> files_sat n I F fs \<Longrightarrow> files_sat n I F (g x fs)) \<Longrightarrow> files_sat n I F (fold g xs files)"
  by (induction xs arbitrary: files) simp_all

lemma sat_set_base: "files_sat n I F files \<Longrightarrow> files_sat n I F (set_base base i files)"
  unfolding set_base_def using sat_nth [of files i]
  by (intro sat_update) (simp_all add: file_sat_def)

lemma sat_recursively: "files_sat n I F files \<Longrightarrow> files_sat n I F (recursivelyAssignImportBaseFolder node base files)"
proof (induction node arbitrary: files)
  case (FsNode path children fs)
  have "files_sat n I F (fold (set_base base) fs files)"
    using FsNode.prems by (rule sat_fold) (rule sat_set_base)
  then show ?case unfolding recursivelyAssignImportBaseFolder.simps by (rule sat_fold) (rule FsNode.IH)
qed

lemma sat_base_folders:
  assumes "files_sat n I F files" and "resolveBaseFolders files = Ok files'"
  shows "files_sat n I F files'"
proof -
  let ?n = "skipSingle (buildTree files)"
  have "files_sat n I F (fold (set_base (fs_Path ?n)) (fs_Files ?n) files)"
    using assms(1) by (rule sat_fold) (rule sat_set_base)
  then have "files_sat n I F (assignBaseFolder ?n files)"
    unfolding assignBaseFolder_def by (rule sat_fold) (rule sat_recursively)
  moreover have "files' = assignBaseFolder ?n files"
    using assms(2) by (simp add: resolveBaseFolders_def Let_def split: if_splits)
  ultimately show ?thesis by simp
qed

lemma sat_addPublicImport:
  assumes "files_sat n I F files" and "I imp"
  shows "files_sat n I F (addPublicImport i imp files)"
proof (cases "im_TargetFile imp")
  case (Some t)
  with assms have "file_sat I F (files ! t)" by (auto intro: sat_nth target_valid)
  then have "i < n \<Longrightarrow> file_sat I F ((files ! i)\<lparr>f_Imports := f_Imports (files ! i) @
      filter (\<lambda>targetImport. im_Kind targetImport = ''public'') (f_Imports (files ! t))\<rparr>)"
    using sat_nth [OF assms(1), of i] by (auto simp: file_sat_def list_all_iff)
  then show ?thesis using assms(1) Some by (simp add: addPublicImport_def sat_update)
qed (use assms in \<open>simp add: addPublicImport_def\<close>)

lemma sat_public_imports: "files_sat n I F files \<Longrightarrow> files_sat n I F (publicImportsAll files)"
proof -
  have step: "files_sat n I F (addPublicImports i fs)" if fs: "files_sat n I F fs" "i < n" for i fs
    unfolding addPublicImports_def using fs(1)
  proof (rule sat_fold)
    fix imp fs' assume "imp \<in> set (f_Imports (fs ! i))" "files_sat n I F fs'"
    then show "files_sat n I F (addPublicImport i imp fs')"
      using sat_nth [OF fs] by (auto simp: file_sat_def list_all_iff intro: sat_addPublicImport)
  qed
  assume "files_sat n I F files"
  then show ?thesis
    unfolding publicImportsAll_def by (rule sat_fold) (use \<open>files_sat n I F files\<close> in \<open>simp add: step files_sat_def [of n I F files]\<close>)
qed

lemma sat_set_message:
  assumes "files_sat n I F files" and "i < n \<Longrightarrow> k < length (f_Messages (files ! i)) \<Longrightarrow> list_all F (md_Fields message)"
  shows "files_sat n I F (set_message i k message files)"
  unfolding set_message_def
proof (rule sat_update [OF assms(1)])
  assume i: "i < n"
  then have sat: "file_sat I F (files ! i)" using sat_nth [OF assms(1)] by simp
  moreover have "list_all F (md_Fields m)" if "m \<in> set ((f_Messages (files ! i))[k := message])" for m
    using that assms(2) [OF i] sat set_update_subset_insert [of "f_Messages (files ! i)" k message]
    by (cases "k < length (f_Messages (files ! i))") (auto simp: file_sat_def list_update_beyond)
  ultimately show "file_sat I F ((files ! i)\<lparr>f_Messages := (f_Messages (files ! i))[k := message]\<rparr>)"
    by (simp add: file_sat_def)
qed

lemma sat_extend_fields:
  "list_all F (md_Fields src) \<Longrightarrow> list_all F (md_Fields message) \<Longrightarrow> list_all F (md_Fields (extend_fields src message))"
  by (auto simp: extend_fields_def list_all_iff extension_keeps)

lemma sat_extend_step:
  assumes "files_sat n I F files" and "i < n"
  shows "files_sat n I F (fst (extend_step i k (files, removed, errors)))"
proof -
  let ?msgs = "f_Messages (files ! i)"
  note fi = sat_nth [OF assms]
  have msg: "list_all F (md_Fields (?msgs ! k))" if "k < length ?msgs"
    using fi that by (simp add: file_sat_def)
  have local_src: "list_all F (md_Fields (?msgs ! j))" if "resolveLocalExtendSource (files ! i) m = Some j" for m j
    using extend_source_valid(1) [OF that] fi by (simp add: file_sat_def)
  have imported: "list_all F (md_Fields (f_Messages (files ! t) ! j))"
    if src: "resolveImportedExtendSource files (files ! i) m = Some (t, j)" for m t j
  proof -
    have "t < n" using extend_source_valid(2) [OF src] fi by (auto simp: file_sat_def list_all_iff intro: target_valid)
    from sat_nth [OF assms(1) this] extend_source_valid(2) [OF src] show ?thesis by (simp add: file_sat_def)
  qed
  show ?thesis
    using assms(1) msg local_src imported
    by (auto simp: extend_step_def Let_def intro!: sat_set_message sat_extend_fields split: option.split)
qed

lemma sat_extensions: 
  assumes "files_sat n I F files" and "i < n" 
  shows "files_sat n I F (fst (resolveExtensions i files))"
proof -
  have fold: "files_sat n I F (fst (fold (extend_step i) ks st))" if "files_sat n I F (fst st)" for ks st
    using that
  proof (induction ks arbitrary: st)
    case (Cons k ks)
    then show ?case using sat_extend_step [of "fst st" i k "fst (snd st)" "snd (snd st)"] assms(2) by simp
  qed simp
  obtain files' removed errors where st: "fold (extend_step i) [0..<length (f_Messages (files ! i))] (files, [], []) = (files', removed, errors)"
    by (metis prod_cases3)
  with fold [of "(files, [], [])" "[0..<length (f_Messages (files ! i))]"] assms have files': "files_sat n I F files'" by simp
  have "file_sat I F ((files' ! i)\<lparr>f_Messages := map snd (filter (\<lambda>(k, msg). k \<notin> set removed) (enumerate 0 (f_Messages (files' ! i))))\<rparr>)"
    using sat_nth [OF files' assms(2)] by (auto simp: file_sat_def in_set_enumerate_eq)
  then show ?thesis using files' by (simp add: resolveExtensions_def st Let_def sat_update)
qed

lemma sat_extensions_loop:
  "files_sat n I F files \<Longrightarrow> \<forall>i \<in> set is. i < n \<Longrightarrow> files_sat n I F (fst (fold extensions_step is (files, errors)))"
  by (induction "is" arbitrary: files errors) (auto simp: extensions_step_def Let_def split: prod.split dest: sat_extensions)

end

text \<open>What the language demands of a field: the types are known, and a map has a key type.\<close>

definition known_types :: "MessageFieldDefinition \<Rightarrow> bool" where
  "known_types field \<longleftrightarrow> (fd_ScalarValueType field \<noteq> [] \<longrightarrow> fd_ScalarValueType field \<in> set ProtobufScalarTypes) \<and>
     (fd_Map field \<longrightarrow> fd_MapKeyType field \<in> set ProtobufScalarTypes)"

definition parsed_field :: "MessageFieldDefinition \<Rightarrow> bool" where
  "parsed_field field \<longleftrightarrow> fresh_field field \<and> known_types field"

lemma parsed_field_extension: "parsed_field field \<Longrightarrow> parsed_field (field\<lparr>fd_ExtraScopes := scopes\<rparr>)"
  by (simp add: parsed_field_def fresh_field_def refs_def known_types_def)

text \<open>
  The two states of the resolution: before the imports are resolved no import has a target; afterwards,
  when there was no error, every import has one.
\<close>

definition no_target :: "ProtoImport \<Rightarrow> bool" where
  "no_target imp \<longleftrightarrow> im_TargetFile imp = None"

definition has_target :: "nat \<Rightarrow> ProtoImport \<Rightarrow> bool" where
  "has_target n imp \<longleftrightarrow> (\<exists>t < n. im_TargetFile imp = Some t)"

interpretation parsed: front_invariant n no_target parsed_field for n
  by unfold_locales (auto simp: no_target_def parsed_field_extension)

interpretation located: front_invariant n "has_target n" parsed_field for n
  by unfold_locales (auto simp: has_target_def parsed_field_extension)

lemma imports_located:
  assumes "files_sat n no_target parsed_field files" and "snd (resolveImportsAll files) = []"
  shows "files_sat n (has_target n) parsed_field (fst (resolveImportsAll files))"
proof -
  have "file_sat (has_target n) parsed_field (fst (resolveImports (parsedMap files) f))" if f: "f \<in> set files" for f
  proof -
    have found: "map_of (parsedMap files) (Join (f_BaseFolder f) (im_FSPath imp)) \<noteq> None" if "imp \<in> set (f_Imports f)" for imp
    proof
      assume "map_of (parsedMap files) (Join (f_BaseFolder f) (im_FSPath imp)) = None"
      then have "snd (resolveImports (parsedMap files) f) \<noteq> []" using that by (force simp: resolveImports_def Let_def)
      then show False using assms(2) f by (auto simp: resolveImportsAll_def Let_def)
    qed
    have "list_all (has_target n) (f_Imports (fst (resolveImports (parsedMap files) f)))"
      using found parsedMap_Some [of files] assms(1)
      by (fastforce simp: resolveImports_def Let_def list_all_iff has_target_def files_sat_def split: option.split)
    then show ?thesis using assms(1) f by (simp add: file_sat_def files_sat_def resolveImports_def Let_def)
  qed
  then show ?thesis using assms(1) by (auto simp: files_sat_def resolveImportsAll_def Let_def)
qed

lemma extensions_errors:
  "snd (fold extensions_step is st) = [] \<Longrightarrow> snd st = []"
proof (induction "is" arbitrary: st)
  case (Cons i "is")
  from Cons.IH [of "extensions_step i st"] Cons.prems have "snd (extensions_step i st) = []" by simp
  then show ?case by (simp add: extensions_step_def Let_def split: prod.splits)
qed simp

section \<open>What the walk leaves to the resolution\<close>

definition extracted_field :: "MessageFieldDefinition \<Rightarrow> bool" where
  "extracted_field field \<longleftrightarrow> fresh_field field \<and> set [fd_ScalarValueType field, fd_MapKeyType field] \<subseteq> insert [] (set ProtobufScalarTypes)"

lemma scalar_type_cases: "scalar_type t \<in> insert [] (set ProtobufScalarTypes)"
  by (simp add: scalar_type_def)

lemma extracted_fields:
  "list_all extracted_field (parseStructElement nm element)"
  "list_all extracted_field (extractOneOf nm grp elements)"
  by (induction nm element and nm grp elements rule: parseStructElement_extractOneOf.induct)
    (auto simp: extracted_field_def fresh_field_def refs_def new_field_def extractField_def extractMap_def extractBasicField_def
      list_all_iff scalar_type_def)

lemma message_fields_extracted: "list_all extracted_field (message_fields nm elements)"
  by (induction elements) (auto simp: extracted_fields)

lemma walk_sat:
  "file_sat no_target extracted_field f \<Longrightarrow> file_sat no_target extracted_field (fst (fold walkHandler vs (f, errors)))"
proof (induction vs arbitrary: f errors)
  case (Cons v vs)
  have "file_sat no_target extracted_field (fst (walkHandler v (f, errors)))"
    using Cons.prems message_fields_extracted
    by (auto simp: walkHandler_def file_sat_def no_target_def extractMessage_def Let_def list_all_iff split: visitee.split option.split)
  from Cons.IH [OF this, of "snd (walkHandler v (f, errors))"] show ?case by simp
qed simp


section \<open>The whole resolution gives every field its type\<close>

text \<open>The references and options keep the imports and the numbers of definitions.\<close>

definition same_shape :: "ProtoFile \<Rightarrow> ProtoFile \<Rightarrow> bool" where
  "same_shape f g \<longleftrightarrow> f_Imports f = f_Imports g \<and> length (f_Enums f) = length (f_Enums g) \<and> length (f_Messages f) = length (f_Messages g)"

definition same_shapes :: "ProtoFile list \<Rightarrow> ProtoFile list \<Rightarrow> bool" where
  "same_shapes fs gs \<longleftrightarrow> length fs = length gs \<and> (\<forall>i < length fs. same_shape (fs ! i) (gs ! i))"

lemma typed_field_shape: "same_shapes fs gs \<Longrightarrow> same_shape f g \<Longrightarrow> typed_field fs f x \<Longrightarrow> typed_field gs g x"
  unfolding typed_field_def same_shapes_def same_shape_def by (elim disjE exE conjE) auto

definition typed_file :: "ProtoFile list \<Rightarrow> ProtoFile \<Rightarrow> bool" where
  "typed_file files f \<longleftrightarrow> (\<forall>m \<in> set (f_Messages f). list_all (\<lambda>field. typed_field files f field \<and> known_types field) (md_Fields m))"

lemma typed_file_shape:
  "same_shapes fs gs \<Longrightarrow> same_shape f g \<Longrightarrow> f_Messages f = f_Messages g \<Longrightarrow> typed_file fs f \<Longrightarrow> typed_file gs g"
  using typed_field_shape [of fs gs f g] by (auto simp: typed_file_def list_all_iff)

lemma references_shape: "same_shape f (fst (resolveReferences files f))"
  by (simp add: same_shape_def resolveReferences_def)

lemma resolveField_known: "known_types (fst (resolveField files f m field)) = known_types field"
  by (auto simp: resolveField_def resolveLocalReference_def resolveImportedReference_def known_types_def
      dest!: first_some_Some split: option.splits sum.splits)

lemma references_typed_file:
  assumes "file_sat (has_target (length files)) parsed_field f" and "snd (resolveReferences files f) = []"
  shows "typed_file files (fst (resolveReferences files f))"
proof -
  have fresh: "\<forall>m \<in> set (f_Messages f). list_all fresh_field (md_Fields m)" "targets_ok files f"
    using assms(1) by (auto simp: file_sat_def parsed_field_def has_target_def targets_ok_def list_all_iff)
  have "\<forall>m \<in> set (f_Messages (fst (resolveReferences files f))). list_all (typed_field files f) (md_Fields m)"
    using references_typed [of f files] assms(2) fresh by simp
  moreover have "\<forall>m \<in> set (f_Messages (fst (resolveReferences files f))). list_all known_types (md_Fields m)"
    using assms(1) by (auto simp: resolveReferences_def file_sat_def parsed_field_def list_all_iff resolveField_known)
  moreover have "typed_field files f x \<Longrightarrow> typed_field files (fst (resolveReferences files f)) x" for x
    by (rule typed_field_shape [OF _ references_shape]) (simp_all add: same_shapes_def same_shape_def)
  ultimately show ?thesis by (auto simp: typed_file_def list_all_iff)
qed

lemma typed_file_grows:
  assumes "typed_file fs f" and "same_shapes fs gs"
  shows "typed_file gs f"
  using typed_file_shape [OF assms(2) _ refl assms(1)] by (simp add: same_shape_def)

lemma same_shapes_update:
  "same_shapes fs gs \<Longrightarrow> (i < length gs \<Longrightarrow> same_shape (gs ! i) g) \<Longrightarrow> same_shapes fs (gs[i := g])"
  by (cases "i < length gs") (auto simp: same_shapes_def same_shape_def nth_list_update list_update_beyond)

lemma same_shapes_refl [simp]: "same_shapes fs fs"
  by (simp add: same_shapes_def same_shape_def)

lemma same_shapes_trans: "same_shapes fs gs \<Longrightarrow> same_shapes gs hs \<Longrightarrow> same_shapes fs hs"
  by (simp add: same_shapes_def same_shape_def)

text \<open>The loop over the references, from a state in which all files are fresh.\<close>

lemma references_loop:
  assumes "files_sat n (has_target n) parsed_field files"
  shows "m \<le> n \<Longrightarrow> case fold references_step [0..<m] (files, errors) of (fs, errs) \<Rightarrow>
    same_shapes files fs \<and> (\<forall>i < n. m \<le> i \<longrightarrow> fs ! i = files ! i) \<and>
    (errs = [] \<longrightarrow> errors = [] \<and> (\<forall>i < m. typed_file fs (fs ! i)))"
proof (induction m)
  case 0
  then show ?case by (simp add: same_shapes_def same_shape_def)
next
  case (Suc m)
  obtain fs errs where st: "fold references_step [0..<m] (files, errors) = (fs, errs)" by force
  with Suc have IH: "same_shapes files fs" "\<forall>i < n. m \<le> i \<longrightarrow> fs ! i = files ! i"
    "errs = [] \<Longrightarrow> errors = [] \<and> (\<forall>i < m. typed_file fs (fs ! i))" by auto
  obtain f es where r: "resolveReferences fs (fs ! m) = (f, es)" by force
  have n: "length files = n" "length fs = n" "m < n" using assms IH(1) Suc.prems by (auto simp: files_sat_def same_shapes_def)
  have step: "fold references_step [0..<Suc m] (files, errors) = (fs[m := f], errs @ es)"
    by (simp add: st references_step_def r)
  have shape: "same_shape (fs ! m) f" using references_shape [of "fs ! m" fs] r by simp
  have shapes: "same_shapes fs (fs[m := f])"
    using shape by (intro same_shapes_update) (auto simp: same_shapes_def same_shape_def)
  have "typed_file fs f" if "es = []"
    using references_typed_file [of fs "fs ! m"] r that located.sat_nth [OF assms n(3)] IH(2) n by simp
  then have "\<forall>i < Suc m. typed_file (fs[m := f]) (fs[m := f] ! i)" if "errs = []" "es = []"
    using that IH(3) shapes n by (auto simp: nth_list_update less_Suc_eq intro: typed_file_grows)
  then show ?case
    using IH n shape unfolding step by (auto simp: nth_list_update intro: same_shapes_update)
qed

lemma length_gmapM: "gmapM f xs = Ok ys \<Longrightarrow> length ys = length xs"
  by (induction xs arbitrary: ys) (auto simp: gbind_Ok_iff gmap_Ok_iff)

lemma options_file:
  "resolveOptions quote f = Ok (g, errs) \<Longrightarrow> errs = [] \<and> f_Messages g = f_Messages f \<and> same_shape f g"
  by (auto simp: resolveOptions_def gmap_Ok_iff same_shape_def dest: length_gmapM)

lemma options_loop:
  assumes "gfold (options_step quote) is (files, errors) = Ok (files', errors')"
  shows "errors' = errors \<and> same_shapes files files' \<and> (\<forall>i < length files. f_Messages (files' ! i) = f_Messages (files ! i))"
  using assms
proof (induction "is" arbitrary: files errors)
  case Nil
  then show ?case by (simp add: same_shapes_def same_shape_def)
next
  case (Cons i "is")
  have "options_step quote i (files, errors) =
      gbind (resolveOptions quote (files ! i)) (\<lambda>(f, errs). Ok (files[i := f], errors @ errs))"
    by (simp add: options_step_def)
  with Cons.prems obtain f errs where f: "resolveOptions quote (files ! i) = Ok (f, errs)"
    and rest: "gfold (options_step quote) is (files[i := f], errors @ errs) = Ok (files', errors')"
    by (auto simp: gbind_Ok_iff)
  from options_file [OF f] have f': "errs = []" "f_Messages f = f_Messages (files ! i)" "same_shape (files ! i) f" by auto
  have "same_shapes files (files[i := f])" using f'(3) by (intro same_shapes_update) simp_all
  moreover have "\<forall>k < length files. f_Messages (files[i := f] ! k) = f_Messages (files ! k)"
    using f'(2) by (cases "i < length files") (auto simp: nth_list_update list_update_beyond)
  ultimately show ?case using Cons.IH [OF rest] f' by (auto intro: same_shapes_trans)
qed

lemma references_errors: "snd (fold references_step is st) = [] \<Longrightarrow> snd st = []"
proof (induction "is" arbitrary: st)
  case (Cons i "is")
  from Cons.IH [of "references_step i st"] Cons.prems have "snd (references_step i st) = []" by simp
  then show ?case by (simp add: references_step_def Let_def split: prod.splits)
qed simp

lemma resolution_typed:
  assumes "\<forall>f \<in> set parsed. list_all no_target (f_Imports f) \<and> (\<forall>m \<in> set (f_Messages f). list_all parsed_field (md_Fields m))"
    and "ResolveImportsAndReferences quote parsed = Ok (files, [])"
  shows "\<forall>f \<in> set files. list_all (has_target (length files)) (f_Imports f) \<and>
    (\<forall>m \<in> set (f_Messages f). list_all (\<lambda>field. typed_field files f field \<and> known_types field) (md_Fields m))"
proof -
  define n where "n = length parsed"
  have start: "files_sat n no_target parsed_field parsed" using assms(1) by (simp add: files_sat_def file_sat_def n_def)
  obtain f0 where f0: "resolveBaseFolders parsed = Ok f0" using assms(2) by (auto simp: ResolveImportsAndReferences_def gbind_Ok_iff)
  obtain f1 e1 where f1: "resolveImportsAll f0 = (f1, e1)" by force
  obtain f2 e2 where f2: "fold extensions_step [0..<length (publicImportsAll f1)] (publicImportsAll f1, e1) = (f2, e2)" by force
  obtain f3 e3 where f3: "fold references_step [0..<length f2] (f2, e2) = (f3, e3)" by force
  have options: "gfold (options_step quote) [0..<length f3] (f3, e3) = Ok (files, [])"
    using assms(2) by (simp add: ResolveImportsAndReferences_def f0 f1 f2 f3 Let_def)
  from options_loop [OF options] have o: "e3 = []" "same_shapes f3 files" "\<forall>i < length f3. f_Messages (files ! i) = f_Messages (f3 ! i)" by auto
  have "e2 = []" using references_errors [of "[0..<length f2]" "(f2, e2)"] f3 o(1) by simp
  then have "e1 = []" using extensions_errors [of "[0..<length (publicImportsAll f1)]" "(publicImportsAll f1, e1)"] f2 by simp
  then have sat1: "files_sat n (has_target n) parsed_field (publicImportsAll f1)"
    using located.sat_public_imports imports_located [OF parsed.sat_base_folders [OF start f0]] f1 by simp
  then have "length (publicImportsAll f1) = n" by (simp add: files_sat_def)
  with located.sat_extensions_loop [OF sat1, of "[0..<n]" e1] f2 have sat2: "files_sat n (has_target n) parsed_field f2" by simp
  from references_loop [OF sat2, of n e2] f3 sat2 o(1) have typed: "\<forall>i < n. typed_file f3 (f3 ! i)" and shapes: "same_shapes f2 f3"
    by (auto simp: files_sat_def)
  have len: "length f3 = n" "length files = n" using shapes o(2) sat2 by (auto simp: same_shapes_def files_sat_def)
  have "typed_file files (files ! i) \<and> list_all (has_target n) (f_Imports (files ! i))" if "i < n" for i
  proof
    show "typed_file files (files ! i)"
      using typed_file_shape [OF o(2), of "f3 ! i" "files ! i"] typed o that len by (simp add: same_shapes_def)
    have "f_Imports (files ! i) = f_Imports (f2 ! i)"
      using shapes o(2) that len by (simp add: same_shapes_def same_shape_def)
    then show "list_all (has_target n) (f_Imports (files ! i))" using located.sat_nth [OF sat2 that] by (simp add: file_sat_def)
  qed
  then have "\<forall>f \<in> set files. typed_file files f \<and> list_all (has_target n) (f_Imports f)" using len by (metis in_set_conv_nth)
  then show ?thesis using len by (simp add: typed_file_def)
qed

text \<open>
  C11. The resolution is complete: when it ends without an error, every import has its target file, and
  every field of every message of every file has its type, a scalar type or a reference to an enum
  or message that exists.
\<close>

theorem resolution_complete:
  assumes "\<forall>f \<in> set parsed. list_all no_target (f_Imports f) \<and> (\<forall>m \<in> set (f_Messages f). list_all parsed_field (md_Fields m))"
    and "ResolveImportsAndReferences quote parsed = Ok (files, [])"
  shows "\<forall>f \<in> set files. list_all (has_target (length files)) (f_Imports f) \<and>
    (\<forall>m \<in> set (f_Messages f). list_all (\<lambda>field. typed_field files f field \<and> known_types field) (md_Fields m))"
  using resolution_typed [OF assms] .

theorem resolution_complete_witness:
  "\<exists>files. ResolveImportsAndReferences id [ex_base] = Ok (files, []) \<and>
    (\<forall>f \<in> set files. list_all (has_target (length files)) (f_Imports f) \<and>
      (\<forall>m \<in> set (f_Messages f). list_all (\<lambda>field. typed_field files f field \<and> known_types field) (md_Fields m)))"
proof -
  have start: "\<forall>f \<in> set [ex_base]. list_all no_target (f_Imports f) \<and>
      (\<forall>m \<in> set (f_Messages f). list_all parsed_field (md_Fields m))"
    by code_simp
  have "case ResolveImportsAndReferences id [ex_base] of Ok (files, errors) \<Rightarrow> errors = [] | _ \<Rightarrow> False"
    by code_simp
  then obtain files where "ResolveImportsAndReferences id [ex_base] = Ok (files, [])"
    by (cases "ResolveImportsAndReferences id [ex_base]") auto
  with resolution_complete [OF start this] show ?thesis by blast
qed

end
