(* ===== verification/Go_Files.thy ===== *)
theory Go_Files
  imports Proto_Complete Message_Canonical
begin

text \<open>
  The Go generator up to the code templates: the types of fields
  (\<^verbatim>\<open>gremlinc/internal/generators/golang/fields/types.go\<close>), the names of the generated types
  (\<^verbatim>\<open>golang/types/enums.go\<close>, \<^verbatim>\<open>structs.go\<close>, \<^verbatim>\<open>fields.go\<close>), the generated files with their imports
  (\<^verbatim>\<open>golang/core/files.go\<close>) and the mapping of all proto files (\<^verbatim>\<open>golang/mapper\<close>).

  A generated file has the index of its proto file, and a definition is named by the index of its
  file and its index there, so that comparing pointers is comparing pairs of indices. The text that
  \<^verbatim>\<open>%q\<close> prints comes from a function \<open>quote\<close>.
\<close>

section \<open>Paths and texts\<close>

definition ReplaceAll :: "char \<Rightarrow> char \<Rightarrow> string \<Rightarrow> string" where
  "ReplaceAll a b s = map (\<lambda>c. if c = a then b else c) s"

text \<open>\<^verbatim>\<open>filepath.Base\<close>: the last element of a path; \<^verbatim>\<open>filepath.Join\<close> of three elements.\<close>

definition Base :: "string \<Rightarrow> string" where
  "Base path =
     (if path = [] then ''.''
      else let stripped = rev (dropWhile (\<lambda>c. c = CHR ''/'') (rev path));
               name = rev (takeWhile (\<lambda>c. c \<noteq> CHR ''/'') (rev stripped)) in
        if name = [] then ''/'' else name)"

definition Join3 :: "string \<Rightarrow> string \<Rightarrow> string \<Rightarrow> string" where
  "Join3 a b c = (if a \<noteq> [] then Clean (a @ ''/'' @ b @ ''/'' @ c) else Join b c)"

text \<open>\<^verbatim>\<open>strings.ToUpper\<close> of one letter; names in proto files are ASCII.\<close>

definition to_upper :: "char \<Rightarrow> char" where
  "to_upper c = (if 97 \<le> (of_char c :: nat) \<and> (of_char c :: nat) \<le> 122 then char_of ((of_char c :: nat) - 32) else c)"


section \<open>Types and names\<close>

definition goBasicTypesMap :: "(string \<times> string) list" where
  "goBasicTypesMap =
     [(''string'', ''string''), (''bytes'', ''[]byte''), (''bool'', ''bool''), (''double'', ''float64''),
      (''float'', ''float32''), (''int32'', ''int32''), (''int64'', ''int64''), (''uint32'', ''uint32''),
      (''uint64'', ''uint64''), (''sint32'', ''int32''), (''sint64'', ''int64''), (''fixed32'', ''uint32''),
      (''fixed64'', ''uint64''), (''sfixed32'', ''int32''), (''sfixed64'', ''int64'')]"

definition go_basic_name :: "string \<Rightarrow> string" where
  "go_basic_name t = (case map_of goBasicTypesMap t of None \<Rightarrow> [] | Some nm \<Rightarrow> nm)"

record goBasicValueType =
  bt_Name :: string
  bt_ProtoType :: string
  bt_DefaultValue :: string
  bt_Required :: bool

record goEnumValueType =
  et_EnumName :: string
  et_DefaultValue :: string
  et_Required :: bool

record goStructValueType =
  st_StructPackage :: string
  st_StructName :: string
  st_Required :: bool

datatype gen_value = GenBasic goBasicValueType | GenEnum goEnumValueType | GenStruct goStructValueType

datatype gen_field =
    GenValue gen_value
  | GenRepeated gen_value bool
  | GenRepeatedPacked gen_value bool
  | GenMap gen_value gen_value

record goEnumVariant =
  gv_ConstName :: string
  gv_Value :: int
  gv_Proto :: EnumValueDefinition

record GoEnumType =
  ge_EnumName :: string
  ge_Values :: "goEnumVariant list"
  ge_Proto :: "nat \<times> nat"

record GoStructField =
  sf_Name :: string
  sf_Type :: gen_field
  sf_Proto :: MessageFieldDefinition

record GoStructType =
  gs_StructName :: string
  gs_Fields :: "GoStructField list"
  gs_Proto :: "nat \<times> nat"

definition enum_names :: "EnumDefinition \<Rightarrow> string \<times> string" where
  "enum_names enum =
     (let enumType = ReplaceAll CHR ''.'' CHR ''_'' (ProtoName (ed_Name enum)); localPath = LocalPath (ed_Name enum) in
      if length localPath > 0
      then (join_on CHR ''_'' localPath @ ''_'' @ enumType, join_on CHR ''_'' localPath @ ''_'')
      else (enumType, enumType @ ''_''))"

definition parseValues :: "string \<Rightarrow> EnumDefinition \<Rightarrow> goEnumVariant list" where
  "parseValues pfx enum =
     map (\<lambda>val. \<lparr>gv_ConstName = pfx @ ProtoName (ev_Name val), gv_Value = ev_Value val, gv_Proto = val\<rparr>) (ed_Values enum)"

definition NewEnumType :: "nat \<times> nat \<Rightarrow> EnumDefinition \<Rightarrow> GoEnumType" where
  "NewEnumType ref enum =
     (let (enumName, pfx) = enum_names enum in
      \<lparr>ge_EnumName = enumName, ge_Values = parseValues pfx enum, ge_Proto = ref\<rparr>)"

definition GetEnumForDefault :: "GoEnumType \<Rightarrow> string \<Rightarrow> string" where
  "GetEnumForDefault g val =
     (case find (\<lambda>v. ProtoName (ev_Name (gv_Proto v)) = val) (ge_Values g) of Some v \<Rightarrow> gv_ConstName v | None \<Rightarrow> [])"

definition struct_name :: "MessageDefinition \<Rightarrow> string" where
  "struct_name msg =
     (let localPath = LocalPath (md_Name msg); msgType = ProtoName (md_Name msg) in
      ReplaceAll CHR ''.'' CHR ''_''
        (if length localPath > 0 then join_on CHR ''_'' localPath @ ''_'' @ msgType else msgType))"

definition NewStructType :: "nat \<times> nat \<Rightarrow> MessageDefinition \<Rightarrow> GoStructType" where
  "NewStructType ref structDef = \<lparr>gs_StructName = struct_name structDef, gs_Fields = [], gs_Proto = ref\<rparr>"

text \<open>The loop over the characters of a field name; separators are dropped and the next letter is capitalised.\<close>

fun camel :: "bool \<Rightarrow> string \<Rightarrow> string" where
  "camel upper [] = []"
| "camel upper (c # cs) =
     (if c \<in> {CHR ''-'', CHR ''_'', CHR ''.'', CHR '' ''} then camel True cs
      else if upper then to_upper c # camel False cs
      else c # camel upper cs)"

definition field_name :: "MessageFieldDefinition \<Rightarrow> string" where
  "field_name field = camel True (ProtoName (fd_Name field))"

definition AddField :: "MessageFieldDefinition \<Rightarrow> gen_field \<Rightarrow> GoStructType \<Rightarrow> GoStructType" where
  "AddField fieldDef fieldType g =
     g\<lparr>gs_Fields := gs_Fields g @ [\<lparr>sf_Name = field_name fieldDef, sf_Type = fieldType, sf_Proto = fieldDef\<rparr>]\<rparr>"


section \<open>Generated files\<close>

record GoImport =
  gi_Path :: string
  gi_Alias :: string
  gi_GoFiles :: "nat list"
  gi_Used :: bool

record GoGeneratedFile =
  gf_imports :: "GoImport list"
  gf_samePackageImports :: "nat list"
  gf_enums :: "GoEnumType list"
  gf_structs :: "GoStructType list"
  gf_ProtoFile :: nat
  gf_FullPackageName :: string
  gf_ShortPackageName :: string
  gf_FullOutputPath :: string

text \<open>The alias of a new import: the name, with the number of imports that already have it as alias.\<close>

definition next_alias :: "GoImport list \<Rightarrow> string \<Rightarrow> string" where
  "next_alias imports alias =
     (let usedAliases = length (filter (\<lambda>goImport. gi_Alias goImport = alias) imports) in
      if usedAliases > 0 then alias @ ''_'' @ fmt_d usedAliases else alias)"

definition AddImport :: "string \<Rightarrow> string \<Rightarrow> GoGeneratedFile \<Rightarrow> GoGeneratedFile" where
  "AddImport path alias g =
     (if list_ex (\<lambda>goImport. gi_Path goImport = path) (gf_imports g) then g
      else g\<lparr>gf_imports := gf_imports g @
        [\<lparr>gi_Path = path, gi_Alias = next_alias (gf_imports g) alias, gi_GoFiles = [], gi_Used = True\<rparr>]\<rparr>)"

definition AddProtoImport :: "nat \<Rightarrow> GoGeneratedFile \<Rightarrow> GoGeneratedFile \<Rightarrow> GoGeneratedFile" where
  "AddProtoImport t targetFile g =
     (if gf_FullPackageName targetFile = gf_FullPackageName g
      then g\<lparr>gf_samePackageImports := gf_samePackageImports g @ [t]\<rparr>
      else case find_index (\<lambda>goImport. gi_Path goImport = gf_FullPackageName targetFile) (gf_imports g) of
        Some k \<Rightarrow> g\<lparr>gf_imports := (gf_imports g)[k := (gf_imports g ! k)\<lparr>gi_GoFiles := gi_GoFiles (gf_imports g ! k) @ [t]\<rparr>]\<rparr>
      | None \<Rightarrow> g\<lparr>gf_imports := gf_imports g @
          [\<lparr>gi_Path = gf_FullPackageName targetFile, gi_Alias = next_alias (gf_imports g) (gf_ShortPackageName targetFile),
            gi_GoFiles = [t], gi_Used = False\<rparr>]\<rparr>)"

definition FindEnum :: "GoGeneratedFile \<Rightarrow> nat \<times> nat \<Rightarrow> GoEnumType option" where
  "FindEnum g ref = find (\<lambda>enum. ge_Proto enum = ref) (gf_enums g)"

definition FindStruct :: "GoGeneratedFile \<Rightarrow> nat \<times> nat \<Rightarrow> GoStructType option" where
  "FindStruct g ref = find (\<lambda>goType. gs_Proto goType = ref) (gf_structs g)"

text \<open>
  Both searches in the imports: first the files of the same package, then the imports, of which the
  one that has the file is marked as used. The look-up in an import tries all files of the package.
\<close>

definition findInImports :: "(GoGeneratedFile \<Rightarrow> 'a option) \<Rightarrow> GoGeneratedFile list \<Rightarrow> nat \<Rightarrow> GoGeneratedFile \<Rightarrow> GoGeneratedFile \<times> string \<times> 'a option" where
  "findInImports look goFiles protoFile g =
     (case find (\<lambda>k. gf_ProtoFile (goFiles ! k) = protoFile) (gf_samePackageImports g) of
        Some k \<Rightarrow> (g, [], look (goFiles ! k))
      | None \<Rightarrow>
          (case find_index (\<lambda>goImport. list_ex (\<lambda>k. gf_ProtoFile (goFiles ! k) = protoFile) (gi_GoFiles goImport)) (gf_imports g) of
             Some j \<Rightarrow> (g\<lparr>gf_imports := (gf_imports g)[j := (gf_imports g ! j)\<lparr>gi_Used := True\<rparr>]\<rparr>, gi_Alias (gf_imports g ! j),
               first_some (\<lambda>k. look (goFiles ! k)) (gi_GoFiles (gf_imports g ! j)))
           | None \<Rightarrow> (g, [], None)))"

definition FindEnumInImports :: "GoGeneratedFile list \<Rightarrow> nat \<Rightarrow> nat \<times> nat \<Rightarrow> GoGeneratedFile \<Rightarrow> GoGeneratedFile \<times> string \<times> GoEnumType option" where
  "FindEnumInImports goFiles enumFile ref g = findInImports (\<lambda>f. FindEnum f ref) goFiles enumFile g"

definition FindStructInImports :: "GoGeneratedFile list \<Rightarrow> nat \<Rightarrow> nat \<times> nat \<Rightarrow> GoGeneratedFile \<Rightarrow> GoGeneratedFile \<times> string \<times> GoStructType option" where
  "FindStructInImports goFiles msgFile ref g = findInImports (\<lambda>f. FindStruct f ref) goFiles msgFile g"


section \<open>The type of a field\<close>

datatype gen_error =
    UnknownFieldType string
  | UnknownScalarType string
  | UnknownMapKeyType string
  | UnknownEnumType string string
  | UnknownMessageType string
  | NoPackage string
  | NoGoFile string

definition CanBePacked_basic :: "goBasicValueType \<Rightarrow> bool" where
  "CanBePacked_basic t \<longleftrightarrow> bt_ProtoType t \<in> set [''bool'', ''double'', ''float'', ''int32'', ''int64'', ''uint32'',
     ''uint64'', ''sint32'', ''sint64'', ''fixed32'', ''fixed64'', ''sfixed32'', ''sfixed64'']"

text \<open>The call of a \<^verbatim>\<open>math\<close> function, converted unless the type is float64.\<close>

definition math_default :: "string \<Rightarrow> goBasicValueType \<Rightarrow> goBasicValueType" where
  "math_default call t =
     t\<lparr>bt_DefaultValue := (if bt_Name t \<noteq> ''float64'' then bt_Name t @ ''('' @ call @ '')'' else call)\<rparr>"

definition parseByteDefaultValue :: "(string \<Rightarrow> string) \<Rightarrow> proto_Option \<Rightarrow> goBasicValueType \<Rightarrow> goBasicValueType" where
  "parseByteDefaultValue quote dflt t =
     t\<lparr>bt_DefaultValue := ''[]byte('' @ (if po_IsString dflt then quote (po_Source dflt) else po_Source dflt) @ '')''\<rparr>"

definition parseDefaultValue :: "(string \<Rightarrow> string) \<Rightarrow> MessageFieldDefinition \<Rightarrow> goBasicValueType \<Rightarrow> GoGeneratedFile \<Rightarrow> goBasicValueType \<times> GoGeneratedFile" where
  "parseDefaultValue quote field t g =
     (case fd_DefaultValue field of
        None \<Rightarrow> (t, g)
      | Some dflt \<Rightarrow>
          if bt_Name t = ''[]byte'' then (parseByteDefaultValue quote dflt t, AddImport ''bytes'' ''bytes'' g)
          else if bt_Name t = ''string'' then (t\<lparr>bt_DefaultValue := quote (po_Source dflt)\<rparr>, g)
          else if po_Source dflt = ''inf'' then (math_default ''math.Inf(1)'' t, AddImport ''math'' ''math'' g)
          else if po_Source dflt = ''-inf'' then (math_default ''math.Inf(-1)'' t, AddImport ''math'' ''math'' g)
          else if po_Source dflt = ''nan'' then (math_default ''math.NaN()'' t, AddImport ''math'' ''math'' g)
          else (t\<lparr>bt_DefaultValue := po_Source dflt\<rparr>, g))"

definition resolveMapKeyType :: "MessageFieldDefinition \<Rightarrow> gen_error + gen_value" where
  "resolveMapKeyType field =
     (let keyType = go_basic_name (fd_MapKeyType field) in
      if keyType = [] then Inl (UnknownMapKeyType (fd_MapKeyType field))
      else Inr (GenBasic \<lparr>bt_Name = keyType, bt_ProtoType = fd_MapKeyType field, bt_DefaultValue = [], bt_Required = False\<rparr>))"

definition map_type :: "MessageFieldDefinition \<Rightarrow> gen_value \<Rightarrow> gen_error + gen_field" where
  "map_type field valueType =
     (case resolveMapKeyType field of Inl e \<Rightarrow> Inl e | Inr keyType \<Rightarrow> Inr (GenMap keyType valueType))"

definition resolveScalarType :: "(string \<Rightarrow> string) \<Rightarrow> MessageFieldDefinition \<Rightarrow> GoGeneratedFile \<Rightarrow> GoGeneratedFile \<times> (gen_error + gen_field)" where
  "resolveScalarType quote field g =
     (let typeName = go_basic_name (fd_ScalarValueType field);
          baseType = \<lparr>bt_Name = typeName, bt_ProtoType = fd_ScalarValueType field, bt_DefaultValue = [], bt_Required = fd_Required field\<rparr> in
      if typeName = [] then (g, Inl (UnknownScalarType (fd_ScalarValueType field)))
      else if fd_Repeated field then
        (g, Inr (if CanBePacked_basic baseType then GenRepeatedPacked (GenBasic baseType) (fd_Required field)
                 else GenRepeated (GenBasic baseType) (fd_Required field)))
      else if fd_Map field then (g, map_type field (GenBasic baseType))
      else let (baseType, g) = parseDefaultValue quote field baseType g in (g, Inr (GenValue (GenBasic baseType))))"

definition resolveDefaultValue :: "MessageFieldDefinition \<Rightarrow> string \<Rightarrow> GoEnumType \<Rightarrow> goEnumValueType \<Rightarrow> goEnumValueType" where
  "resolveDefaultValue field enumPackage enumType e =
     (case fd_DefaultValue field of
        None \<Rightarrow> e
      | Some dflt \<Rightarrow> e\<lparr>et_DefaultValue := enumPackage @ GetEnumForDefault enumType (po_Source dflt)\<rparr>)"

text \<open>A nil pointer to a definition is found in no file.\<close>

definition local_ref :: "nat \<Rightarrow> nat option \<Rightarrow> (nat \<times> nat) option" where
  "local_ref f i = map_option (Pair f) i"

definition resolveEnumType :: "bool \<Rightarrow> GoGeneratedFile list \<Rightarrow> MessageFieldDefinition \<Rightarrow> GoGeneratedFile \<Rightarrow> GoGeneratedFile \<times> (gen_error + gen_field)" where
  "resolveEnumType proto2 goFiles field g =
     (let (g, enumPackage, enumType) =
        (case fd_ExternalTypeFile field of
           Some t \<Rightarrow>
             (case fd_ExternalEnumType field of
                None \<Rightarrow> (g, [], None)
              | Some i \<Rightarrow> let (g, pkg, enumType) = FindEnumInImports goFiles t (t, i) g in
                  (g, if pkg \<noteq> [] then pkg @ ''.'' else pkg, enumType))
         | None \<Rightarrow> (g, [], Option.bind (local_ref (gf_ProtoFile g) (fd_LocalEnumType field)) (FindEnum g))) in
      case enumType of
        None \<Rightarrow> (g, Inl (UnknownEnumType (pf_Type (fd_ProtoDef field)) (pf_Name (fd_ProtoDef field))))
      | Some enumType \<Rightarrow>
          let valueType = \<lparr>et_EnumName = enumPackage @ ge_EnumName enumType, et_DefaultValue = [], et_Required = fd_Required field\<rparr> in
          (g, if fd_Repeated field then Inr (GenRepeatedPacked (GenEnum valueType) (fd_Required field))
              else if fd_Map field then map_type field (GenEnum valueType)
              else Inr (GenValue (GenEnum (if proto2 then valueType\<lparr>et_DefaultValue := ''0''\<rparr>
                else resolveDefaultValue field enumPackage enumType valueType)))))"

definition resolveMsgType :: "GoGeneratedFile list \<Rightarrow> MessageFieldDefinition \<Rightarrow> GoGeneratedFile \<Rightarrow> GoGeneratedFile \<times> (gen_error + gen_field)" where
  "resolveMsgType goFiles field g =
     (let (g, msgPackage, msgType) =
        (case fd_ExternalTypeFile field of
           Some t \<Rightarrow>
             (case fd_ExternalMsgType field of
                None \<Rightarrow> (g, [], None)
              | Some i \<Rightarrow> FindStructInImports goFiles t (t, i) g)
         | None \<Rightarrow> (g, [], Option.bind (local_ref (gf_ProtoFile g) (fd_LocalMsgType field)) (FindStruct g))) in
      case msgType of
        None \<Rightarrow> (g, Inl (UnknownMessageType (pf_Type (fd_ProtoDef field))))
      | Some msgType \<Rightarrow>
          let valueType = \<lparr>st_StructPackage = msgPackage, st_StructName = gs_StructName msgType, st_Required = fd_Required field\<rparr> in
          (g, if fd_Repeated field then Inr (GenRepeated (GenStruct valueType) (fd_Required field))
              else if fd_Map field then map_type field (GenStruct valueType)
              else Inr (GenValue (GenStruct valueType))))"

definition ResolveType :: "(string \<Rightarrow> string) \<Rightarrow> bool \<Rightarrow> GoGeneratedFile list \<Rightarrow> MessageFieldDefinition \<Rightarrow> GoGeneratedFile \<Rightarrow> GoGeneratedFile \<times> (gen_error + gen_field)" where
  "ResolveType quote proto2 goFiles field targetFile =
     (if fd_ScalarValueType field \<noteq> [] then resolveScalarType quote field targetFile
      else if fd_LocalEnumType field \<noteq> None \<or> fd_ExternalEnumType field \<noteq> None then resolveEnumType proto2 goFiles field targetFile
      else if fd_LocalMsgType field \<noteq> None \<or> fd_ExternalMsgType field \<noteq> None then resolveMsgType goFiles field targetFile
      else (targetFile, Inl (UnknownFieldType (ScopedName_String (fd_Name field)))))"


section \<open>Mapping the files\<close>

definition PbGoExtension :: string where
  "PbGoExtension = ''.pb2.go''"

definition cleanupPackageName :: "string \<Rightarrow> string" where
  "cleanupPackageName nm = ReplaceAll CHR ''.'' CHR ''_'' (ReplaceAll CHR ''-'' CHR ''_'' nm)"

definition package_name :: "ProtoFile \<Rightarrow> string" where
  "package_name target = (case f_Package target of None \<Rightarrow> [] | Some pkg \<Rightarrow> ProtoName (pkg_Name pkg))"

definition go_package :: "ProtoFile \<Rightarrow> string" where
  "go_package target = (case f_Package target of None \<Rightarrow> [] | Some pkg \<Rightarrow> PlatformName (pkg_Name pkg) TargetPlatform_Go)"

definition getGoPackage :: "string \<Rightarrow> string \<Rightarrow> ProtoFile \<Rightarrow> string \<times> string" where
  "getGoPackage outBase modulePath target =
     (let pkgName = Dir (f_RelativePath target); protoName = package_name target in
      if go_package target = [] then
        let shortName = (if protoName \<noteq> [] then protoName else Base pkgName);
            pkgName = (if protoName \<noteq> [] then Join pkgName protoName else pkgName);
            pkgName = (if modulePath \<noteq> [] then Join modulePath (TrimPrefix (TrimPrefix pkgName ''.'') ''/'')
              else Join (Base outBase) (TrimPrefix pkgName outBase)) in
        (cleanupPackageName shortName, pkgName)
      else (cleanupPackageName (Base (go_package target)), go_package target))"

definition buildOutputPath :: "string \<Rightarrow> ProtoFile \<Rightarrow> string" where
  "buildOutputPath root pFile =
     (let fName = TrimSuffix (Base (f_RelativePath pFile)) ProtoExtension @ PbGoExtension;
          pkgDir = Dir (f_RelativePath pFile);
          pkgDir = (if package_name pFile \<noteq> [] then Join pkgDir (package_name pFile) else pkgDir);
          pkgDir = TrimPrefix (TrimPrefix pkgDir ''.'') ''/'' in
      Join3 root pkgDir fName)"

definition newGoFile :: "nat \<Rightarrow> string \<times> string \<Rightarrow> GoGeneratedFile" where
  "newGoFile i pkg = \<lparr>gf_imports = [], gf_samePackageImports = [], gf_enums = [], gf_structs = [], gf_ProtoFile = i,
     gf_FullPackageName = snd pkg, gf_ShortPackageName = fst pkg, gf_FullOutputPath = []\<rparr>"

text \<open>
  An import of the file with index i. A nil target panics when the error is printed; the generated
  file of a target is the one with its index.
\<close>

definition map_import :: "ProtoFile list \<Rightarrow> nat \<Rightarrow> ProtoImport \<Rightarrow> GoGeneratedFile list \<times> gen_error list \<Rightarrow> (gen_error, GoGeneratedFile list \<times> gen_error list) gres" where
  "map_import files i imp st =
     (let (goFiles, errors) = st in
      case im_TargetFile imp of
        None \<Rightarrow> Panic
      | Some t \<Rightarrow>
          (case find_index (\<lambda>g. gf_ProtoFile g = t) goFiles of
             None \<Rightarrow> Ok (goFiles, errors @ [NoGoFile (f_RelativePath (files ! t))])
           | Some k \<Rightarrow> Ok (goFiles[i := AddProtoImport k (goFiles ! k) (goFiles ! i)], errors)))"

definition mapImports :: "ProtoFile list \<Rightarrow> GoGeneratedFile list \<Rightarrow> (gen_error, GoGeneratedFile list \<times> gen_error list) gres" where
  "mapImports files goFiles =
     gfold (\<lambda>i. gfold (map_import files i) (f_Imports (files ! i))) [0..<length goFiles] (goFiles, [])"

definition add_types :: "ProtoFile list \<Rightarrow> GoGeneratedFile \<Rightarrow> GoGeneratedFile" where
  "add_types files g =
     (let i = gf_ProtoFile g in
      g\<lparr>gf_enums := gf_enums g @ map (\<lambda>(j, enumDef). NewEnumType (i, j) enumDef) (enumerate 0 (f_Enums (files ! i))),
        gf_structs := gf_structs g @ map (\<lambda>(j, messageDef). NewStructType (i, j) messageDef) (enumerate 0 (f_Messages (files ! i)))\<rparr>)"

text \<open>One field of the message with index j of the file with index i.\<close>

definition map_field :: "(string \<Rightarrow> string) \<Rightarrow> ProtoFile list \<Rightarrow> nat \<Rightarrow> nat \<Rightarrow> MessageFieldDefinition \<Rightarrow>
    GoGeneratedFile list \<times> gen_error list \<Rightarrow> GoGeneratedFile list \<times> gen_error list" where
  "map_field quote files i j fieldDef st =
     (let (goFiles, errors) = st; (g, res) = ResolveType quote (f_Proto2 (files ! i)) goFiles fieldDef (goFiles ! i) in
      case res of
        Inl e \<Rightarrow> (goFiles[i := g], errors @ [e])
      | Inr fieldType \<Rightarrow>
          (goFiles[i := g\<lparr>gf_structs := (gf_structs g)[j := AddField fieldDef fieldType (gf_structs g ! j)]\<rparr>], errors))"

definition map_fields :: "(string \<Rightarrow> string) \<Rightarrow> ProtoFile list \<Rightarrow> nat \<Rightarrow> GoGeneratedFile list \<times> gen_error list \<Rightarrow> GoGeneratedFile list \<times> gen_error list" where
  "map_fields quote files i st =
     fold (\<lambda>(j, message). fold (map_field quote files i j) (md_Fields message)) (enumerate 0 (f_Messages (files ! i))) st"

text \<open>
  A file without a package name leaves a nil in the result, which the next step dereferences;
  \<open>go_package_found\<close> below shows that this does not happen.
\<close>

definition MapProtoFiles :: "(string \<Rightarrow> string) \<Rightarrow> string \<Rightarrow> string \<Rightarrow> ProtoFile list \<Rightarrow> (gen_error, GoGeneratedFile list \<times> gen_error list) gres" where
  "MapProtoFiles quote root modulePath files =
     (let packages = map (getGoPackage root modulePath) files in
      if list_ex (\<lambda>(shortName, fullName). shortName = [] \<or> fullName = []) packages then Panic
      else gbind (mapImports files (map (\<lambda>(i, pkg). newGoFile i pkg) (enumerate 0 packages))) (\<lambda>(goFiles, errors).
        if errors \<noteq> [] then Ok ([], errors)
        else
          let goFiles = map (\<lambda>g. g\<lparr>gf_FullOutputPath := buildOutputPath root (files ! gf_ProtoFile g)\<rparr>) goFiles;
              goFiles = map (add_types files) goFiles in
          Ok (fold (map_fields quote files) [0..<length goFiles] (goFiles, []))))"

end
