(* ===== verification/Go_Templates.thy ===== *)
theory Go_Templates
  imports Go_Text Go_Files
begin

text \<open>
  The text that the types of fields contribute to a generated struct: the methods of the interface
  GoFieldType (\<^verbatim>\<open>gremlinc/internal/generators/golang/core/types.go\<close>) for scalars, enums, messages,
  lists, packed lists and maps (\<^verbatim>\<open>golang/fields/*.go\<close>), as the strings that they return. A call of
  log.Panicf is None. The meaning of the printed code is in \<^verbatim>\<open>Proto_Fields\<close> and the
  \<^verbatim>\<open>Message\<close> theories; here it is text, and the last section shows that every piece of it
  is lexically closed.
\<close>

section \<open>Scalars\<close>

text \<open>A missing key of a Go map gives the empty string.\<close>

definition lookup_name :: "(string \<times> string) list \<Rightarrow> string \<Rightarrow> string" where
  "lookup_name tbl k = (case map_of tbl k of None \<Rightarrow> [] | Some nm \<Rightarrow> nm)"

definition scalar_names :: "(string \<times> string) list" where
  "scalar_names =
     [(''string'', ''String''), (''bytes'', ''Bytes''), (''bool'', ''Bool''), (''double'', ''Float64''),
      (''float'', ''Float32''), (''int32'', ''Int32''), (''int64'', ''Int64''), (''uint32'', ''Uint32''),
      (''uint64'', ''Uint64''), (''sint32'', ''SInt32''), (''sint64'', ''SInt64''), (''fixed32'', ''Fixed32''),
      (''fixed64'', ''Fixed64''), (''sfixed32'', ''SFixed32''), (''sfixed64'', ''SFixed64'')]"

text \<open>The three tables of runtime functions have the same keys and differ in the verb.\<close>

definition bufBasicTypesReaders :: "(string \<times> string) list" where
  "bufBasicTypesReaders = map (map_prod id ((@) ''Read'')) scalar_names"

definition bufBasicTypesWriters :: "(string \<times> string) list" where
  "bufBasicTypesWriters = map (map_prod id ((@) ''Append'')) scalar_names"

definition bufBasicTypesSizers :: "(string \<times> string) list" where
  "bufBasicTypesSizers = map (map_prod id ((@) ''Size'')) scalar_names"

definition basic_EntryReader :: "goBasicValueType \<Rightarrow> string \<Rightarrow> string \<Rightarrow> string" where
  "basic_EntryReader t tabs localVarName =
     AddTabs (if bt_DefaultValue t = [] then text_lines
         [[],
          ''var '' @ localVarName @ '' '' @ bt_Name t,
          ''if wOffset > 0 {'',
          [TAB] @ localVarName @ '' = m.buf.'' @ lookup_name bufBasicTypesReaders (bt_ProtoType t) @ ''(wOffset)'',
          ''}'',
          []]
      else text_lines
         [[],
          ''var '' @ localVarName @ '' '' @ bt_Name t,
          ''if wOffset > 0 {'',
          [TAB] @ localVarName @ '' = m.buf.'' @ lookup_name bufBasicTypesReaders (bt_ProtoType t) @ ''(wOffset)'',
          ''} else {'',
          [TAB] @ localVarName @ '' = '' @ bt_DefaultValue t,
          ''}'',
          []]) tabs"

definition basic_EntrySizedReader :: "goBasicValueType \<Rightarrow> string \<Rightarrow> string \<Rightarrow> string" where
  "basic_EntrySizedReader t tabs localVarName =
     AddTabs (if bt_DefaultValue t = [] then text_lines
         [[],
          ''var '' @ localVarName @ '' '' @ bt_Name t,
          ''var '' @ localVarName @ ''Size int'',
          ''if wOffset > 0 {'',
          [TAB] @ localVarName @ '', '' @ localVarName @ ''Size = m.buf.Sized'' @ lookup_name bufBasicTypesReaders (bt_ProtoType t) @ ''(wOffset)'',
          ''}'',
          []]
      else text_lines
         [[],
          ''var '' @ localVarName @ '' '' @ bt_Name t,
          ''var '' @ localVarName @ ''Size int'',
          ''if wOffset > 0 {'',
          [TAB] @ localVarName @ '', '' @ localVarName @ ''Size = m.buf.Sized'' @ lookup_name bufBasicTypesReaders (bt_ProtoType t) @ ''(wOffset)'',
          ''} else {'',
          [TAB] @ localVarName @ '' = '' @ bt_DefaultValue t,
          ''}'',
          []]) tabs"

definition basic_EntryIsNotEmpty :: "goBasicValueType \<Rightarrow> string \<Rightarrow> string" where
  "basic_EntryIsNotEmpty t localVarName =
     (if bt_Required t then ''true''
      else if bt_Name t = ''[]byte'' then
        (if bt_DefaultValue t = [] then ''len('' @ localVarName @ '') != 0''
         else ''!bytes.Equal('' @ localVarName @ '', '' @ bt_DefaultValue t @ '')'')
      else if bt_Name t = ''string'' then
        (if bt_DefaultValue t = [] then localVarName @ '' != \"\"'' else localVarName @ '' != '' @ bt_DefaultValue t)
      else if bt_Name t = ''bool'' then
        (if bt_DefaultValue t = [] then localVarName else localVarName @ '' != '' @ bt_DefaultValue t)
      else if bt_DefaultValue t = [] then localVarName @ '' != 0''
      else localVarName @ '' != '' @ bt_DefaultValue t)"

definition basic_DefaultReturn :: "goBasicValueType \<Rightarrow> string" where
  "basic_DefaultReturn t =
     (if bt_DefaultValue t \<noteq> [] then bt_DefaultValue t
      else if bt_Name t = ''[]byte'' then ''nil''
      else if bt_Name t = ''string'' then ''\"\"''
      else if bt_Name t = ''bool'' then ''false''
      else ''0'')"

definition basic_EntryWriter :: "goBasicValueType \<Rightarrow> string \<Rightarrow> string \<Rightarrow> string \<Rightarrow> string \<Rightarrow> string" where
  "basic_EntryWriter t tabs targetBuffer tag varName =
     AddTabs (targetBuffer @ ''.'' @ lookup_name bufBasicTypesWriters (bt_ProtoType t) @ ''('' @ tag @ '', '' @ varName @ '')'') tabs"

definition basic_PackedEntryWriter :: "goBasicValueType \<Rightarrow> string \<Rightarrow> string \<Rightarrow> string \<Rightarrow> string" where
  "basic_PackedEntryWriter t tabs targetBuffer varName =
     AddTabs (targetBuffer @ ''.'' @ lookup_name bufBasicTypesWriters (bt_ProtoType t) @ ''WithoutTag('' @ varName @ '')'') tabs"

definition basic_EntryFullSizeWithTag :: "goBasicValueType \<Rightarrow> string \<Rightarrow> string \<Rightarrow> string \<Rightarrow> string \<Rightarrow> string" where
  "basic_EntryFullSizeWithTag t tabs sizeVarName fieldName fieldTag =
     (if bt_ProtoType t = ''bytes'' \<or> bt_ProtoType t = ''string'' then
        AddTabs (text_lines
          [sizeVarName @ '' = gremlin.'' @ lookup_name bufBasicTypesSizers (bt_ProtoType t) @ ''('' @ fieldName @ '')'',
           sizeVarName @ '' += gremlin.SizeUint64(uint64('' @ sizeVarName @ '')) + gremlin.SizeTag('' @ fieldTag @ '')'']) tabs
      else
        AddTabs (sizeVarName @ '' = gremlin.SizeTag('' @ fieldTag @ '') + gremlin.'' @ lookup_name bufBasicTypesSizers (bt_ProtoType t) @ ''('' @ fieldName @ '')'') tabs)"

definition basic_EntryFullSizeWithoutTag :: "goBasicValueType \<Rightarrow> string \<Rightarrow> string \<Rightarrow> string \<Rightarrow> string" where
  "basic_EntryFullSizeWithoutTag t tabs sizeVarName fieldName =
     (if bt_ProtoType t = ''bytes'' \<or> bt_ProtoType t = ''string'' then
        AddTabs (text_lines
          [sizeVarName @ '' = gremlin.'' @ lookup_name bufBasicTypesSizers (bt_ProtoType t) @ ''('' @ fieldName @ '')'',
           sizeVarName @ '' += gremlin.SizeUint64(uint64('' @ sizeVarName @ ''))'']) tabs
      else
        AddTabs (sizeVarName @ '' = gremlin.'' @ lookup_name bufBasicTypesSizers (bt_ProtoType t) @ ''('' @ fieldName @ '')'') tabs)"


section \<open>Enums\<close>

definition enum_EntryReader :: "goEnumValueType \<Rightarrow> string \<Rightarrow> string \<Rightarrow> string" where
  "enum_EntryReader e tabs localVarName =
     AddTabs (if et_DefaultValue e = [] then text_lines
         [[],
          ''var '' @ localVarName @ '' '' @ et_EnumName e,
          ''if wOffset > 0 {'',
          [TAB] @ ''rawEntry := m.buf.ReadInt32(wOffset)'',
          [TAB] @ localVarName @ '' = '' @ et_EnumName e @ ''(rawEntry)'',
          ''}'',
          []]
      else text_lines
         [[],
          ''var '' @ localVarName @ '' '' @ et_EnumName e,
          ''if wOffset > 0 {'',
          [TAB] @ ''rawEntry := m.buf.ReadInt32(wOffset)'',
          [TAB] @ localVarName @ '' = '' @ et_EnumName e @ ''(rawEntry)'',
          ''} else {'',
          [TAB] @ localVarName @ '' = '' @ et_DefaultValue e,
          ''}'',
          []]) tabs"

definition enum_EntrySizedReader :: "goEnumValueType \<Rightarrow> string \<Rightarrow> string \<Rightarrow> string" where
  "enum_EntrySizedReader e tabs localVarName =
     AddTabs (if et_DefaultValue e = [] then text_lines
         [[],
          ''var '' @ localVarName @ '' '' @ et_EnumName e,
          ''var '' @ localVarName @ ''Size int'',
          ''if wOffset > 0 {'',
          [TAB] @ ''rawEntry, size := m.buf.SizedReadInt32(wOffset)'',
          [TAB] @ localVarName @ '' = '' @ et_EnumName e @ ''(rawEntry)'',
          [TAB] @ localVarName @ ''Size = size'',
          ''}'',
          []]
      else text_lines
         [[],
          ''var '' @ localVarName @ '' '' @ et_EnumName e,
          ''var '' @ localVarName @ ''Size int'',
          ''if wOffset > 0 {'',
          [TAB] @ ''rawEntry, size := m.buf.SizedReadInt32(wOffset)'',
          [TAB] @ localVarName @ '' = '' @ et_EnumName e @ ''(rawEntry)'',
          [TAB] @ localVarName @ ''Size = size'',
          ''} else {'',
          [TAB] @ localVarName @ '' = '' @ et_DefaultValue e,
          ''}'',
          []]) tabs"

definition enum_DefaultReturn :: "goEnumValueType \<Rightarrow> string" where
  "enum_DefaultReturn e = (if et_DefaultValue e = [] then ''0'' else et_DefaultValue e)"

definition enum_EntryIsNotEmpty :: "goEnumValueType \<Rightarrow> string \<Rightarrow> string" where
  "enum_EntryIsNotEmpty e localVarName =
     (if et_Required e then ''true''
      else let defaultValue = (if et_DefaultValue e = [] then ''0'' else et_DefaultValue e) in
        localVarName @ '' != '' @ defaultValue)"

definition enum_EntryFullSizeWithTag :: "string \<Rightarrow> string \<Rightarrow> string \<Rightarrow> string \<Rightarrow> string" where
  "enum_EntryFullSizeWithTag tabs sizeVarName fieldName fieldTag =
     AddTabs (sizeVarName @ '' = gremlin.SizeTag('' @ fieldTag @ '') + gremlin.SizeInt32(int32('' @ fieldName @ ''))'') tabs"

definition enum_EntryFullSizeWithoutTag :: "string \<Rightarrow> string \<Rightarrow> string \<Rightarrow> string" where
  "enum_EntryFullSizeWithoutTag tabs sizeVarName fieldName =
     AddTabs (sizeVarName @ '' = gremlin.SizeInt32(int32('' @ fieldName @ ''))'') tabs"

definition enum_EntryWriter :: "string \<Rightarrow> string \<Rightarrow> string \<Rightarrow> string \<Rightarrow> string" where
  "enum_EntryWriter tabs targetBuffer tag varName =
     AddTabs (targetBuffer @ ''.AppendInt32('' @ tag @ '', int32('' @ varName @ ''))'') tabs"

definition enum_PackedEntryWriter :: "string \<Rightarrow> string \<Rightarrow> string \<Rightarrow> string" where
  "enum_PackedEntryWriter tabs targetBuffer varName =
     AddTabs (targetBuffer @ ''.AppendInt32WithoutTag(int32('' @ varName @ ''))'') tabs"


section \<open>Messages\<close>

definition struct_ReaderTypeName :: "goStructValueType \<Rightarrow> string" where
  "struct_ReaderTypeName t =
     (if st_StructPackage t \<noteq> [] then ''*'' @ st_StructPackage t @ ''.'' @ st_StructName t @ ''Reader''
      else ''*'' @ st_StructName t @ ''Reader'')"

definition struct_WriterTypeName :: "goStructValueType \<Rightarrow> string" where
  "struct_WriterTypeName t =
     (if st_StructPackage t = [] then ''*'' @ st_StructName t
      else ''*'' @ st_StructPackage t @ ''.'' @ st_StructName t)"

definition struct_EntryReader :: "goStructValueType \<Rightarrow> string \<Rightarrow> string \<Rightarrow> string" where
  "struct_EntryReader t tabs localVarName =
     AddTabs (if st_StructPackage t = [] then text_lines
         [[],
          ''var '' @ localVarName @ '' *'' @ st_StructName t @ ''Reader'',
          ''if wOffset > 0 {'',
          [TAB] @ ''var '' @ localVarName @ ''Data = m.buf.ReadBytes(wOffset)'',
          [TAB] @ ''if len('' @ localVarName @ ''Data) > 0 {'',
          [TAB, TAB] @ localVarName @ '' = New'' @ st_StructName t @ ''Reader()'',
          [TAB, TAB] @ localVarName @ ''.Unmarshal('' @ localVarName @ ''Data)'',
          [TAB] @ ''}'',
          ''}'',
          []]
      else text_lines
         [[],
          ''var '' @ localVarName @ '' *'' @ st_StructPackage t @ ''.'' @ st_StructName t @ ''Reader'',
          ''if wOffset > 0 {'',
          [TAB] @ ''var '' @ localVarName @ ''Data = m.buf.ReadBytes(wOffset)'',
          [TAB] @ ''if len('' @ localVarName @ ''Data) > 0 {'',
          [TAB, TAB] @ localVarName @ '' = '' @ st_StructPackage t @ ''.New'' @ st_StructName t @ ''Reader()'',
          [TAB, TAB] @ localVarName @ ''.Unmarshal('' @ localVarName @ ''Data)'',
          [TAB] @ ''}'',
          ''}'',
          []]) tabs"

definition struct_EntrySizedReader :: "goStructValueType \<Rightarrow> string \<Rightarrow> string \<Rightarrow> string" where
  "struct_EntrySizedReader t tabs localVarName =
     AddTabs (if st_StructPackage t = [] then text_lines
         [[],
          ''var '' @ localVarName @ '' *'' @ st_StructName t @ ''Reader'',
          ''var '' @ localVarName @ ''Size int'',
          ''if wOffset > 0 {'',
          [TAB] @ ''var '' @ localVarName @ ''Data, '' @ localVarName @ ''DataSize = m.buf.SizedReadBytes(wOffset)'',
          [TAB] @ ''if len('' @ localVarName @ ''Data) > 0 {'',
          [TAB, TAB] @ localVarName @ '' = New'' @ st_StructName t @ ''Reader()'',
          [TAB, TAB] @ localVarName @ ''.Unmarshal('' @ localVarName @ ''Data)'',
          [TAB] @ ''}'',
          [TAB] @ localVarName @ ''Size = '' @ localVarName @ ''DataSize'',
          ''}'',
          []]
      else text_lines
         [[],
          ''var '' @ localVarName @ '' *'' @ st_StructPackage t @ ''.'' @ st_StructName t @ ''Reader'',
          ''var '' @ localVarName @ ''Size int'',
          ''if wOffset > 0 {'',
          [TAB] @ ''var '' @ localVarName @ ''Data, '' @ localVarName @ ''DataSize = m.buf.SizedReadBytes(wOffset)'',
          [TAB] @ ''if len('' @ localVarName @ ''Data) > 0 {'',
          [TAB, TAB] @ localVarName @ '' = '' @ st_StructPackage t @ ''.New'' @ st_StructName t @ ''Reader()'',
          [TAB, TAB] @ localVarName @ ''.Unmarshal('' @ localVarName @ ''Data)'',
          [TAB] @ ''}'',
          [TAB] @ localVarName @ ''Size = '' @ localVarName @ ''DataSize'',
          ''}'',
          []]) tabs"

definition struct_ToStruct :: "string \<Rightarrow> string \<Rightarrow> string \<Rightarrow> string" where
  "struct_ToStruct tabs targetVar readerField =
     AddTabs (text_lines
        [''if '' @ readerField @ '' != nil {'',
         [TAB] @ targetVar @ '' = '' @ readerField @ ''.ToStruct()'',
         ''}'']) tabs"

definition struct_EntryIsNotEmpty :: "goStructValueType \<Rightarrow> string \<Rightarrow> string" where
  "struct_EntryIsNotEmpty t localVarName = (if st_Required t then ''true'' else localVarName @ '' != nil'')"

definition struct_EntryFullSizeWithTag :: "string \<Rightarrow> string \<Rightarrow> string \<Rightarrow> string \<Rightarrow> string" where
  "struct_EntryFullSizeWithTag tabs sizeVarName fieldName fieldTag =
     AddTabs (text_lines
        [sizeVarName @ '' = '' @ fieldName @ ''.XXX_PbContentSize()'',
         sizeVarName @ '' += gremlin.SizeUint64(uint64('' @ sizeVarName @ '')) + gremlin.SizeTag('' @ fieldTag @ '')'',
         []]) tabs"

definition struct_EntryFullSizeWithoutTag :: "string \<Rightarrow> string \<Rightarrow> string \<Rightarrow> string" where
  "struct_EntryFullSizeWithoutTag tabs sizeVarName fieldName =
     AddTabs (text_lines
        [sizeVarName @ '' = '' @ fieldName @ ''.XXX_PbContentSize()'',
         sizeVarName @ '' += gremlin.SizeUint64(uint64('' @ sizeVarName @ ''))'',
         []]) tabs"

definition struct_EntryWriter :: "string \<Rightarrow> string \<Rightarrow> string \<Rightarrow> string \<Rightarrow> string" where
  "struct_EntryWriter tabs targetBuffer tag varName =
     AddTabs (text_lines
        [''structSize := '' @ varName @ ''.XXX_PbContentSize()'',
         targetBuffer @ ''.AppendBytesTag('' @ tag @ '', structSize)'',
         varName @ ''.MarshalTo('' @ targetBuffer @ '')'']) tabs"

definition struct_EntryCopy :: "string \<Rightarrow> string \<Rightarrow> string \<Rightarrow> string" where
  "struct_EntryCopy tabs targetVar srcVar =
     AddTabs (text_lines
        [''if '' @ srcVar @ '' != nil {'',
         [TAB] @ targetVar @ '' = '' @ srcVar @ ''.Copy()'',
         ''}'']) tabs"


section \<open>The type of one value\<close>

text \<open>The dispatch of the interface for the types that a list or a map can hold.\<close>

fun value_ReaderTypeName :: "gen_value \<Rightarrow> string" where
  "value_ReaderTypeName (GenBasic t) = bt_Name t"
| "value_ReaderTypeName (GenEnum e) = et_EnumName e"
| "value_ReaderTypeName (GenStruct t) = struct_ReaderTypeName t"

fun value_WriterTypeName :: "gen_value \<Rightarrow> string" where
  "value_WriterTypeName (GenBasic t) = bt_Name t"
| "value_WriterTypeName (GenEnum e) = et_EnumName e"
| "value_WriterTypeName (GenStruct t) = struct_WriterTypeName t"

fun value_CanBePacked :: "gen_value \<Rightarrow> bool" where
  "value_CanBePacked (GenBasic t) = CanBePacked_basic t"
| "value_CanBePacked (GenEnum e) = True"
| "value_CanBePacked (GenStruct t) = False"

fun value_EntryReader :: "gen_value \<Rightarrow> string \<Rightarrow> string \<Rightarrow> string" where
  "value_EntryReader (GenBasic t) = basic_EntryReader t"
| "value_EntryReader (GenEnum e) = enum_EntryReader e"
| "value_EntryReader (GenStruct t) = struct_EntryReader t"

fun value_EntrySizedReader :: "gen_value \<Rightarrow> string \<Rightarrow> string \<Rightarrow> string" where
  "value_EntrySizedReader (GenBasic t) = basic_EntrySizedReader t"
| "value_EntrySizedReader (GenEnum e) = enum_EntrySizedReader e"
| "value_EntrySizedReader (GenStruct t) = struct_EntrySizedReader t"

text \<open>Scalars and enums are copied by an assignment.\<close>

definition assign :: "string \<Rightarrow> string \<Rightarrow> string \<Rightarrow> string" where
  "assign tabs targetVar srcVar = AddTabs (targetVar @ '' = '' @ srcVar) tabs"

fun value_ToStruct :: "gen_value \<Rightarrow> string \<Rightarrow> string \<Rightarrow> string \<Rightarrow> string" where
  "value_ToStruct (GenBasic t) = assign"
| "value_ToStruct (GenEnum e) = assign"
| "value_ToStruct (GenStruct t) = struct_ToStruct"

fun value_EntryCopy :: "gen_value \<Rightarrow> string \<Rightarrow> string \<Rightarrow> string \<Rightarrow> string" where
  "value_EntryCopy (GenBasic t) = assign"
| "value_EntryCopy (GenEnum e) = assign"
| "value_EntryCopy (GenStruct t) = struct_EntryCopy"

fun value_JsonStructCanBeUsedDirectly :: "gen_value \<Rightarrow> bool" where
  "value_JsonStructCanBeUsedDirectly (GenBasic t) = True"
| "value_JsonStructCanBeUsedDirectly (GenEnum e) = True"
| "value_JsonStructCanBeUsedDirectly (GenStruct t) = False"

fun value_EntryIsNotEmpty :: "gen_value \<Rightarrow> string \<Rightarrow> string" where
  "value_EntryIsNotEmpty (GenBasic t) = basic_EntryIsNotEmpty t"
| "value_EntryIsNotEmpty (GenEnum e) = enum_EntryIsNotEmpty e"
| "value_EntryIsNotEmpty (GenStruct t) = struct_EntryIsNotEmpty t"

fun value_DefaultReturn :: "gen_value \<Rightarrow> string" where
  "value_DefaultReturn (GenBasic t) = basic_DefaultReturn t"
| "value_DefaultReturn (GenEnum e) = enum_DefaultReturn e"
| "value_DefaultReturn (GenStruct t) = ''nil''"

fun value_EntryFullSizeWithTag :: "gen_value \<Rightarrow> string \<Rightarrow> string \<Rightarrow> string \<Rightarrow> string \<Rightarrow> string" where
  "value_EntryFullSizeWithTag (GenBasic t) = basic_EntryFullSizeWithTag t"
| "value_EntryFullSizeWithTag (GenEnum e) = enum_EntryFullSizeWithTag"
| "value_EntryFullSizeWithTag (GenStruct t) = struct_EntryFullSizeWithTag"

fun value_EntryFullSizeWithoutTag :: "gen_value \<Rightarrow> string \<Rightarrow> string \<Rightarrow> string \<Rightarrow> string" where
  "value_EntryFullSizeWithoutTag (GenBasic t) = basic_EntryFullSizeWithoutTag t"
| "value_EntryFullSizeWithoutTag (GenEnum e) = enum_EntryFullSizeWithoutTag"
| "value_EntryFullSizeWithoutTag (GenStruct t) = struct_EntryFullSizeWithoutTag"

fun value_EntryWriter :: "gen_value \<Rightarrow> string \<Rightarrow> string \<Rightarrow> string \<Rightarrow> string \<Rightarrow> string" where
  "value_EntryWriter (GenBasic t) = basic_EntryWriter t"
| "value_EntryWriter (GenEnum e) = enum_EntryWriter"
| "value_EntryWriter (GenStruct t) = struct_EntryWriter"

fun value_PackedEntryWriter :: "gen_value \<Rightarrow> string \<Rightarrow> string \<Rightarrow> string \<Rightarrow> string option" where
  "value_PackedEntryWriter (GenBasic t) tabs targetBuffer varName = Some (basic_PackedEntryWriter t tabs targetBuffer varName)"
| "value_PackedEntryWriter (GenEnum e) tabs targetBuffer varName = Some (enum_PackedEntryWriter tabs targetBuffer varName)"
| "value_PackedEntryWriter (GenStruct t) tabs targetBuffer varName = None"

text \<open>A scalar, enum or message field saves the offset of its last occurrence.\<close>

definition value_EntryUnmarshalSaveOffsets :: "string \<Rightarrow> string \<Rightarrow> string" where
  "value_EntryUnmarshalSaveOffsets tabs fieldName = AddTabs (''m.offset'' @ fieldName @ '' = offset'') tabs"


section \<open>Lists\<close>

definition list_EntryUnmarshalSaveOffsets :: "string \<Rightarrow> string \<Rightarrow> string" where
  "list_EntryUnmarshalSaveOffsets tabs fieldName =
     AddTabs (''m.offset'' @ fieldName @ '' = append(m.offset'' @ fieldName @ '', offset)'') tabs"

definition list_EntryReader :: "gen_value \<Rightarrow> string \<Rightarrow> string \<Rightarrow> string" where
  "list_EntryReader repeatedType tabs localVarName =
     AddTabs (text_lines
        [[],
         ''var '' @ localVarName @ '' '' @ (''[]'' @ value_ReaderTypeName repeatedType),
         ''for i := 0; i < len(wOffset); i++ {'',
         [TAB] @ ''wOffset := wOffset[i]'',
         value_EntryReader repeatedType [TAB] ''listEntry'',
         [TAB] @ localVarName @ '' = append('' @ localVarName @ '', listEntry)'',
         ''}'',
         []]) tabs"

text \<open>Lists and packed lists have the same text for ToStruct and for a copy.\<close>

definition list_ToStruct :: "gen_value \<Rightarrow> string \<Rightarrow> string \<Rightarrow> string \<Rightarrow> string" where
  "list_ToStruct repeatedType tabs targetVar readerField =
     AddTabs (text_lines
        [''if len('' @ readerField @ '') > 0 {'',
         [TAB] @ targetVar @ '' = make('' @ (''[]'' @ value_WriterTypeName repeatedType) @ '', len('' @ readerField @ ''))'',
         [TAB] @ ''for i := range '' @ readerField @ '' {'',
         value_ToStruct repeatedType [TAB, TAB] (targetVar @ ''[i]'') (readerField @ ''[i]''),
         [TAB] @ ''}'',
         ''}'']) tabs"

definition list_EntryIsNotEmpty :: "bool \<Rightarrow> string \<Rightarrow> string" where
  "list_EntryIsNotEmpty required localVarName = (if required then ''true'' else ''len('' @ localVarName @ '') > 0'')"

definition list_EntryFullSizeWithTag :: "gen_value \<Rightarrow> string \<Rightarrow> string \<Rightarrow> string \<Rightarrow> string \<Rightarrow> string" where
  "list_EntryFullSizeWithTag repeatedType tabs sizeVarName fieldName fieldTag =
     AddTabs (text_lines
        [sizeVarName @ '' = 0'',
         ''for _, val := range '' @ fieldName @ '' {'',
         [TAB] @ ''var listEntrySize int'',
         value_EntryFullSizeWithTag repeatedType [TAB] ''listEntrySize'' ''val'' fieldTag,
         [TAB] @ sizeVarName @ '' += listEntrySize'',
         ''}'']) tabs"

definition list_EntryWriter :: "gen_value \<Rightarrow> string \<Rightarrow> string \<Rightarrow> string \<Rightarrow> string \<Rightarrow> string" where
  "list_EntryWriter repeatedType tabs targetBuffer tag varName =
     AddTabs (text_lines
        [''for _, entry := range '' @ varName @ '' {'',
         value_EntryWriter repeatedType [TAB] targetBuffer tag ''entry'',
         ''}'']) tabs"

definition list_EntryCopy :: "gen_value \<Rightarrow> string \<Rightarrow> string \<Rightarrow> string \<Rightarrow> string" where
  "list_EntryCopy repeatedType tabs targetVar srcVar =
     (if value_JsonStructCanBeUsedDirectly repeatedType then AddTabs (targetVar @ '' = '' @ srcVar) tabs
      else AddTabs (text_lines
        [targetVar @ '' = make('' @ (''[]'' @ value_WriterTypeName repeatedType) @ '', len('' @ srcVar @ ''))'',
         ''for i := range '' @ srcVar @ '' {'',
         value_EntryCopy repeatedType [TAB] (targetVar @ ''[i]'') (srcVar @ ''[i]''),
         ''}'']) tabs)"


section \<open>Packed lists\<close>

definition plist_EntryUnmarshalSaveOffsets :: "string \<Rightarrow> string \<Rightarrow> string" where
  "plist_EntryUnmarshalSaveOffsets tabs fieldName =
     AddTabs (text_lines
        [''m.offset'' @ fieldName @ '' = append(m.offset'' @ fieldName @ '', offset)'',
         ''m.wireType'' @ fieldName @ '' = append(m.wireType'' @ fieldName @ '', wire)'']) tabs"

definition plist_EntryReader :: "gen_value \<Rightarrow> string \<Rightarrow> string \<Rightarrow> string" where
  "plist_EntryReader repeatedType tabs localVarName =
     AddTabs (text_lines
        [[],
         ''var '' @ localVarName @ '' '' @ (''[]'' @ value_ReaderTypeName repeatedType),
         ''for i := 0; i < len(wOffset); i++ {'',
         [TAB] @ ''wOffset := wOffset[i]'',
         [TAB] @ ''wType := wType[i]'',
         [TAB] @ ''if wType == gremlin.BytesType {'',
         [TAB, TAB] @ ''size, sizeSize := m.buf.SizedReadVarInt(wOffset)'',
         [TAB, TAB] @ ''offset := 0'',
         [TAB, TAB] @ ''for offset < int(size) {'',
         [TAB, TAB, TAB] @ ''wOffset := wOffset + sizeSize + offset'',
         value_EntrySizedReader repeatedType [TAB, TAB, TAB] ''listEntry'',
         [TAB, TAB, TAB] @ localVarName @ '' = append('' @ localVarName @ '', listEntry)'',
         [TAB, TAB, TAB] @ ''offset += listEntrySize'',
         [TAB, TAB] @ ''}'',
         [TAB] @ ''} else {'',
         value_EntryReader repeatedType [TAB, TAB] ''listEntry'',
         [TAB, TAB] @ localVarName @ '' = append('' @ localVarName @ '', listEntry)'',
         [TAB] @ ''}'',
         ''}'',
         []]) tabs"

definition plist_EntryFullSizeWithTag :: "gen_value \<Rightarrow> string \<Rightarrow> string \<Rightarrow> string \<Rightarrow> string \<Rightarrow> string" where
  "plist_EntryFullSizeWithTag repeatedType tabs sizeVarName fieldName fieldTag =
     AddTabs (text_lines
        [sizeVarName @ '' = 0'',
         ''if len('' @ fieldName @ '') > 1 {'',
         [TAB] @ ''var listBytesSize = 0'',
         [TAB] @ ''for _, entry := range '' @ fieldName @ '' {'',
         [TAB, TAB] @ ''var listEntrySize = 0'',
         value_EntryFullSizeWithoutTag repeatedType [TAB, TAB] ''listEntrySize'' ''entry'',
         [TAB, TAB] @ ''listBytesSize += listEntrySize'',
         [TAB] @ ''}'',
         [TAB] @ sizeVarName @ '' += gremlin.SizeUint64(uint64(listBytesSize)) + gremlin.SizeTag('' @ fieldTag @ '') + listBytesSize'',
         ''} else if len('' @ fieldName @ '') == 1 {'',
         [TAB] @ ''var listEntrySize = 0'',
         value_EntryFullSizeWithTag repeatedType [TAB] ''listEntrySize'' (fieldName @ ''[0]'') fieldTag,
         [TAB] @ sizeVarName @ '' += listEntrySize'',
         ''}'']) tabs"

definition plist_EntryWriter :: "gen_value \<Rightarrow> string \<Rightarrow> string \<Rightarrow> string \<Rightarrow> string \<Rightarrow> string option" where
  "plist_EntryWriter repeatedType tabs targetBuffer tag varName =
     map_option (\<lambda>packedWriter. AddTabs (text_lines
        [''if len('' @ varName @ '') > 1 {'',
         [TAB] @ ''var listBytesSize = 0'',
         [TAB] @ ''for _, entry := range '' @ varName @ '' {'',
         [TAB, TAB] @ ''var entrySize = 0'',
         value_EntryFullSizeWithoutTag repeatedType [TAB, TAB] ''entrySize'' ''entry'',
         [TAB, TAB] @ ''listBytesSize += entrySize'',
         [TAB] @ ''}'',
         [TAB] @ targetBuffer @ ''.AppendBytesTag('' @ tag @ '', listBytesSize)'',
         [TAB] @ ''for _, entry := range '' @ varName @ '' {'',
         packedWriter,
         [TAB] @ ''}'',
         ''} else if len('' @ varName @ '') == 1 {'',
         value_EntryWriter repeatedType [TAB] targetBuffer tag (varName @ ''[0]''),
         ''}'']) tabs)
     (value_PackedEntryWriter repeatedType [TAB, TAB] targetBuffer ''entry'')"


section \<open>Maps\<close>

definition mapEntryKeyTag :: nat where
  "mapEntryKeyTag = 1"

definition mapEntryValueTag :: nat where
  "mapEntryValueTag = 2"

definition map_EntryReader :: "gen_value \<Rightarrow> gen_value \<Rightarrow> string \<Rightarrow> string \<Rightarrow> string" where
  "map_EntryReader keyType valueType tabs localVarName =
     AddTabs (text_lines
        [[],
         ''var '' @ localVarName @ '' = map['' @ value_ReaderTypeName keyType @ '']'' @ value_ReaderTypeName valueType @ ''{}'',
         ''for i := range wOffset {'',
         [TAB] @ ''wOffset := wOffset[i]'',
         [],
         [TAB] @ ''entrySize, entrySizeSize := m.buf.SizedReadVarInt(wOffset)'',
         [TAB] @ ''endOffset := wOffset + entrySizeSize + int(entrySize)'',
         [TAB] @ ''wOffset += entrySizeSize'',
         [TAB],
         [TAB] @ ''var keyData '' @ value_ReaderTypeName keyType,
         [TAB] @ ''var valueData '' @ value_ReaderTypeName valueType,
         [TAB] @ ''for wOffset < endOffset {'',
         [TAB, TAB] @ ''tag, wireType, tagSize, _ := m.buf.ReadTagAt(wOffset)'',
         [TAB, TAB] @ ''wOffset += tagSize'',
         [TAB, TAB] @ ''if tag == 1 {'',
         value_EntrySizedReader keyType [TAB, TAB, TAB] ''keyEntry'',
         [TAB, TAB, TAB] @ ''wOffset += keyEntrySize'',
         [TAB, TAB, TAB] @ ''keyData = keyEntry'',
         [TAB, TAB] @ ''} else if tag == 2 {'',
         value_EntrySizedReader valueType [TAB, TAB, TAB] ''valueEntry'',
         [TAB, TAB, TAB] @ ''wOffset += valueEntrySize'',
         [TAB, TAB, TAB] @ ''valueData = valueEntry'',
         [TAB, TAB] @ ''} else {'',
         [TAB, TAB, TAB] @ ''wOffset, _ = m.buf.SkipData(wOffset, wireType)'',
         [TAB, TAB] @ ''}'',
         [TAB] @ ''}'',
         [TAB] @ localVarName @ ''[keyData] = valueData'',
         ''}'',
         []]) tabs"

definition map_ToStruct :: "gen_value \<Rightarrow> gen_value \<Rightarrow> string \<Rightarrow> string \<Rightarrow> string \<Rightarrow> string" where
  "map_ToStruct keyType valueType tabs targetVar readerField =
     AddTabs (text_lines
        [''if len('' @ readerField @ '') > 0 {'',
         [TAB] @ targetVar @ '' = make('' @ (''map['' @ value_WriterTypeName keyType @ '']'' @ value_WriterTypeName valueType) @ '', len('' @ readerField @ ''))'',
         [TAB] @ ''for k,v := range '' @ readerField @ '' {'',
         value_ToStruct valueType [TAB, TAB] (targetVar @ ''[k]'') ''v'',
         [TAB] @ ''}'',
         ''}'']) tabs"

definition map_EntryFullSizeWithTag :: "gen_value \<Rightarrow> gen_value \<Rightarrow> string \<Rightarrow> string \<Rightarrow> string \<Rightarrow> string \<Rightarrow> string" where
  "map_EntryFullSizeWithTag keyType valueType tabs sizeVarName fieldName fieldTag =
     AddTabs (text_lines
        [sizeVarName @ '' = 0'',
         ''for k, v := range '' @ fieldName @ '' {'',
         [TAB] @ ''var keySize, valueSize int'',
         value_EntryFullSizeWithTag keyType [TAB] ''keySize'' ''k'' (fmt_d mapEntryKeyTag),
         value_EntryFullSizeWithTag valueType [TAB] ''valueSize'' ''v'' (fmt_d mapEntryValueTag),
         [TAB] @ ''var mapEntrySize = keySize + valueSize'',
         [TAB] @ sizeVarName @ '' += mapEntrySize + gremlin.SizeTag('' @ fieldTag @ '') + gremlin.SizeUint64(uint64(mapEntrySize))'',
         ''}'',
         []]) tabs"

definition map_EntryWriter :: "gen_value \<Rightarrow> gen_value \<Rightarrow> string \<Rightarrow> string \<Rightarrow> string \<Rightarrow> string \<Rightarrow> string" where
  "map_EntryWriter keyType valueType tabs targetBuffer tag varName =
     AddTabs (text_lines
        [''for k, v := range '' @ varName @ '' {'',
         [TAB] @ ''var keySize, valueSize int'',
         value_EntryFullSizeWithTag keyType [TAB] ''keySize'' ''k'' (fmt_d mapEntryKeyTag),
         value_EntryFullSizeWithTag valueType [TAB] ''valueSize'' ''v'' (fmt_d mapEntryValueTag),
         [TAB] @ ''mapEntrySize := keySize + valueSize'',
         [TAB] @ targetBuffer @ ''.AppendBytesTag('' @ tag @ '', mapEntrySize)'',
         value_EntryWriter keyType [TAB] targetBuffer (fmt_d mapEntryKeyTag) ''k'',
         value_EntryWriter valueType [TAB] targetBuffer (fmt_d mapEntryValueTag) ''v'',
         ''}'']) tabs"

definition map_EntryCopy :: "gen_value \<Rightarrow> gen_value \<Rightarrow> string \<Rightarrow> string \<Rightarrow> string \<Rightarrow> string" where
  "map_EntryCopy keyType valueType tabs targetVar srcVar =
     AddTabs (text_lines
        [targetVar @ '' = make(map['' @ value_WriterTypeName keyType @ '']'' @ value_WriterTypeName valueType @ '', len('' @ srcVar @ ''))'',
         ''for k, v := range '' @ srcVar @ '' {'',
         value_EntryCopy valueType [TAB] (targetVar @ ''[k]'') ''v'',
         ''}'']) tabs"


section \<open>The type of a field\<close>

fun ReaderTypeName :: "gen_field \<Rightarrow> string" where
  "ReaderTypeName (GenValue t) = value_ReaderTypeName t"
| "ReaderTypeName (GenRepeated t required) = ''[]'' @ value_ReaderTypeName t"
| "ReaderTypeName (GenRepeatedPacked t required) = ''[]'' @ value_ReaderTypeName t"
| "ReaderTypeName (GenMap k t) = ''map['' @ value_ReaderTypeName k @ '']'' @ value_ReaderTypeName t"

fun WriterTypeName :: "gen_field \<Rightarrow> string" where
  "WriterTypeName (GenValue t) = value_WriterTypeName t"
| "WriterTypeName (GenRepeated t required) = ''[]'' @ value_WriterTypeName t"
| "WriterTypeName (GenRepeatedPacked t required) = ''[]'' @ value_WriterTypeName t"
| "WriterTypeName (GenMap k t) = ''map['' @ value_WriterTypeName k @ '']'' @ value_WriterTypeName t"

fun OffsetsType :: "gen_field \<Rightarrow> string" where
  "OffsetsType (GenValue t) = ''int''"
| "OffsetsType f = ''[]int''"

fun WireTypeType :: "gen_field \<Rightarrow> string" where
  "WireTypeType (GenRepeated t required) = (if value_CanBePacked t then ''[]gremlin.ProtoWireType'' else [])"
| "WireTypeType (GenRepeatedPacked t required) = (if value_CanBePacked t then ''[]gremlin.ProtoWireType'' else [])"
| "WireTypeType f = []"

fun EntryReader :: "gen_field \<Rightarrow> string \<Rightarrow> string \<Rightarrow> string" where
  "EntryReader (GenValue t) = value_EntryReader t"
| "EntryReader (GenRepeated t required) = list_EntryReader t"
| "EntryReader (GenRepeatedPacked t required) = plist_EntryReader t"
| "EntryReader (GenMap k t) = map_EntryReader k t"

fun EntryUnmarshalSaveOffsets :: "gen_field \<Rightarrow> string \<Rightarrow> string \<Rightarrow> string" where
  "EntryUnmarshalSaveOffsets (GenValue t) = value_EntryUnmarshalSaveOffsets"
| "EntryUnmarshalSaveOffsets (GenRepeated t required) = list_EntryUnmarshalSaveOffsets"
| "EntryUnmarshalSaveOffsets (GenRepeatedPacked t required) = plist_EntryUnmarshalSaveOffsets"
| "EntryUnmarshalSaveOffsets (GenMap k t) = list_EntryUnmarshalSaveOffsets"

fun DefaultReturn :: "gen_field \<Rightarrow> string" where
  "DefaultReturn (GenValue t) = value_DefaultReturn t"
| "DefaultReturn f = ''nil''"

fun field_ToStruct :: "gen_field \<Rightarrow> string \<Rightarrow> string \<Rightarrow> string \<Rightarrow> string" where
  "field_ToStruct (GenValue t) = value_ToStruct t"
| "field_ToStruct (GenRepeated t required) = list_ToStruct t"
| "field_ToStruct (GenRepeatedPacked t required) = list_ToStruct t"
| "field_ToStruct (GenMap k t) = map_ToStruct k t"

fun EntryCopy :: "gen_field \<Rightarrow> string \<Rightarrow> string \<Rightarrow> string \<Rightarrow> string" where
  "EntryCopy (GenValue t) = value_EntryCopy t"
| "EntryCopy (GenRepeated t required) = list_EntryCopy t"
| "EntryCopy (GenRepeatedPacked t required) = list_EntryCopy t"
| "EntryCopy (GenMap k t) = map_EntryCopy k t"

fun JsonStructCanBeUsedDirectly :: "gen_field \<Rightarrow> bool" where
  "JsonStructCanBeUsedDirectly (GenValue t) = value_JsonStructCanBeUsedDirectly t"
| "JsonStructCanBeUsedDirectly (GenRepeated t required) = value_JsonStructCanBeUsedDirectly t"
| "JsonStructCanBeUsedDirectly (GenRepeatedPacked t required) = value_JsonStructCanBeUsedDirectly t"
| "JsonStructCanBeUsedDirectly (GenMap k t) = (value_JsonStructCanBeUsedDirectly k \<and> value_JsonStructCanBeUsedDirectly t)"

fun EntryIsNotEmpty :: "gen_field \<Rightarrow> string \<Rightarrow> string" where
  "EntryIsNotEmpty (GenValue t) = value_EntryIsNotEmpty t"
| "EntryIsNotEmpty (GenRepeated t required) = list_EntryIsNotEmpty required"
| "EntryIsNotEmpty (GenRepeatedPacked t required) = list_EntryIsNotEmpty required"
| "EntryIsNotEmpty (GenMap k t) = list_EntryIsNotEmpty False"

fun EntryFullSizeWithTag :: "gen_field \<Rightarrow> string \<Rightarrow> string \<Rightarrow> string \<Rightarrow> string \<Rightarrow> string" where
  "EntryFullSizeWithTag (GenValue t) = value_EntryFullSizeWithTag t"
| "EntryFullSizeWithTag (GenRepeated t required) = list_EntryFullSizeWithTag t"
| "EntryFullSizeWithTag (GenRepeatedPacked t required) = plist_EntryFullSizeWithTag t"
| "EntryFullSizeWithTag (GenMap k t) = map_EntryFullSizeWithTag k t"

fun EntryWriter :: "gen_field \<Rightarrow> string \<Rightarrow> string \<Rightarrow> string \<Rightarrow> string \<Rightarrow> string option" where
  "EntryWriter (GenValue t) tabs targetBuffer tag varName = Some (value_EntryWriter t tabs targetBuffer tag varName)"
| "EntryWriter (GenRepeated t required) tabs targetBuffer tag varName = Some (list_EntryWriter t tabs targetBuffer tag varName)"
| "EntryWriter (GenRepeatedPacked t required) tabs targetBuffer tag varName = plist_EntryWriter t tabs targetBuffer tag varName"
| "EntryWriter (GenMap k t) tabs targetBuffer tag varName = Some (map_EntryWriter k t tabs targetBuffer tag varName)"

section \<open>Every piece is lexically closed\<close>

lemma lookup_name_inert: "list_all (\<lambda>(k, nm). inert nm) tbl \<Longrightarrow> inert (lookup_name tbl k)"
  unfolding lookup_name_def by (cases "map_of tbl k") (auto simp: list_all_iff dest!: map_of_SomeD)

lemma runtime_names_inert [simp]:
  "inert (lookup_name bufBasicTypesReaders k)" "inert (lookup_name bufBasicTypesWriters k)" "inert (lookup_name bufBasicTypesSizers k)"
  by (rule lookup_name_inert, code_simp)+

lemma fmt_d_inert [simp]: "inert (fmt_d n)"
  by (rule fmt_d_digits) code_simp

text \<open>The names in the type of a value have no special characters and its default is closed.\<close>

fun value_closed :: "gen_value \<Rightarrow> bool" where
  "value_closed (GenBasic t) \<longleftrightarrow> neutral (bt_Name t) \<and> neutral (bt_DefaultValue t)"
| "value_closed (GenEnum e) \<longleftrightarrow> neutral (et_EnumName e) \<and> neutral (et_DefaultValue e)"
| "value_closed (GenStruct t) \<longleftrightarrow> neutral (st_StructPackage t) \<and> neutral (st_StructName t)"

fun field_closed :: "gen_field \<Rightarrow> bool" where
  "field_closed (GenValue t) = value_closed t"
| "field_closed (GenRepeated t required) = value_closed t"
| "field_closed (GenRepeatedPacked t required) = value_closed t"
| "field_closed (GenMap k t) = (value_closed k \<and> value_closed t)"

lemmas basic_text_defs = basic_EntryReader_def basic_EntrySizedReader_def basic_EntryIsNotEmpty_def basic_DefaultReturn_def
  basic_EntryWriter_def basic_PackedEntryWriter_def basic_EntryFullSizeWithTag_def basic_EntryFullSizeWithoutTag_def

lemmas enum_text_defs = enum_EntryReader_def enum_EntrySizedReader_def enum_EntryIsNotEmpty_def enum_DefaultReturn_def
  enum_EntryWriter_def enum_PackedEntryWriter_def enum_EntryFullSizeWithTag_def enum_EntryFullSizeWithoutTag_def

lemmas struct_text_defs = struct_EntryReader_def struct_EntrySizedReader_def struct_EntryIsNotEmpty_def struct_ReaderTypeName_def
  struct_WriterTypeName_def struct_ToStruct_def struct_EntryCopy_def
  struct_EntryWriter_def struct_EntryFullSizeWithTag_def struct_EntryFullSizeWithoutTag_def

lemma value_type_names_neutral [simp]:
  "value_closed t \<Longrightarrow> neutral (value_ReaderTypeName t)" "value_closed t \<Longrightarrow> neutral (value_WriterTypeName t)"
  "value_closed t \<Longrightarrow> neutral (value_DefaultReturn t)"
  by (cases t; simp add: neutral_def struct_text_defs basic_text_defs enum_text_defs)+

lemma basic_text_neutral:
  assumes "value_closed (GenBasic t)" and "set tabs \<subseteq> {TAB}" and "neutral v" "neutral w" "neutral x"
  shows "neutral (basic_EntryReader t tabs v)" "neutral (basic_EntrySizedReader t tabs v)" "neutral (basic_EntryIsNotEmpty t v)"
    "neutral (basic_EntryFullSizeWithTag t tabs v w x)" "neutral (basic_EntryFullSizeWithoutTag t tabs v w)"
    "neutral (basic_EntryWriter t tabs v w x)" "neutral (basic_PackedEntryWriter t tabs v w)"
  using assms by (intro neutralI; simp add: basic_text_defs text_lines_def)+

lemma enum_text_neutral:
  assumes "value_closed (GenEnum e)" and "set tabs \<subseteq> {TAB}" and "neutral v" "neutral w" "neutral x"
  shows "neutral (enum_EntryReader e tabs v)" "neutral (enum_EntrySizedReader e tabs v)" "neutral (enum_EntryIsNotEmpty e v)"
    "neutral (enum_EntryFullSizeWithTag tabs v w x)" "neutral (enum_EntryFullSizeWithoutTag tabs v w)"
    "neutral (enum_EntryWriter tabs v w x)" "neutral (enum_PackedEntryWriter tabs v w)"
  using assms by (intro neutralI; simp add: enum_text_defs text_lines_def)+

lemma struct_text_neutral:
  assumes "value_closed (GenStruct t)" and "set tabs \<subseteq> {TAB}" and "neutral v" "neutral w" "neutral x"
  shows "neutral (struct_EntryReader t tabs v)" "neutral (struct_EntrySizedReader t tabs v)" "neutral (struct_EntryIsNotEmpty t v)"
    "neutral (struct_EntryFullSizeWithTag tabs v w x)" "neutral (struct_EntryFullSizeWithoutTag tabs v w)"
    "neutral (struct_EntryWriter tabs v w x)" "neutral (struct_ToStruct tabs v w)" "neutral (struct_EntryCopy tabs v w)"
  using assms by (intro neutralI; simp add: struct_text_defs text_lines_def)+

lemma offset_text_neutral:
  "set tabs \<subseteq> {TAB} \<Longrightarrow> neutral v \<Longrightarrow> neutral (value_EntryUnmarshalSaveOffsets tabs v)"
  "set tabs \<subseteq> {TAB} \<Longrightarrow> neutral v \<Longrightarrow> neutral (list_EntryUnmarshalSaveOffsets tabs v)"
  "set tabs \<subseteq> {TAB} \<Longrightarrow> neutral v \<Longrightarrow> neutral (plist_EntryUnmarshalSaveOffsets tabs v)"
  by (rule neutralI; simp add: value_EntryUnmarshalSaveOffsets_def list_EntryUnmarshalSaveOffsets_def
    plist_EntryUnmarshalSaveOffsets_def text_lines_def)+

lemma list_not_empty_neutral: "neutral v \<Longrightarrow> neutral (list_EntryIsNotEmpty b v)"
  by (rule neutralI) (simp add: list_EntryIsNotEmpty_def)

lemma assign_neutral: "set tabs \<subseteq> {TAB} \<Longrightarrow> neutral v \<Longrightarrow> neutral w \<Longrightarrow> neutral (assign tabs v w)"
  by (intro neutralI; simp add: assign_def)

lemma value_reader_neutral [simp]:
  assumes "value_closed t" and "set tabs \<subseteq> {TAB}" and "neutral v"
  shows "neutral (value_EntryReader t tabs v)" "neutral (value_EntrySizedReader t tabs v)"
  using assms by (cases t; simp add: basic_text_neutral enum_text_neutral struct_text_neutral del: value_closed.simps)+

lemma value_not_empty_neutral [simp]: "value_closed t \<Longrightarrow> neutral v \<Longrightarrow> neutral (value_EntryIsNotEmpty t v)"
  by (cases t; simp add: basic_text_neutral [where tabs = "[]"] enum_text_neutral [where tabs = "[]"]
    struct_text_neutral [where tabs = "[]"] del: value_closed.simps)

lemma value_copy_neutral [simp]:
  assumes "value_closed t" and "set tabs \<subseteq> {TAB}" and "neutral v" "neutral w"
  shows "neutral (value_ToStruct t tabs v w)" "neutral (value_EntryCopy t tabs v w)" "neutral (value_EntryFullSizeWithoutTag t tabs v w)"
  using assms by (cases t; simp add: basic_text_neutral enum_text_neutral struct_text_neutral assign_neutral del: value_closed.simps)+

lemma value_writer_neutral [simp]:
  assumes "value_closed t" and "set tabs \<subseteq> {TAB}" and "neutral v" "neutral w" "neutral x"
  shows "neutral (value_EntryFullSizeWithTag t tabs v w x)" "neutral (value_EntryWriter t tabs v w x)"
  using assms by (cases t; simp add: basic_text_neutral enum_text_neutral struct_text_neutral del: value_closed.simps)+

lemma packed_writer_neutral:
  assumes "value_closed t" and "set tabs \<subseteq> {TAB}" and "neutral v" "neutral w" and "value_PackedEntryWriter t tabs v w = Some s"
  shows "neutral s"
  using assms basic_text_neutral(7) enum_text_neutral(7) by (cases t) auto

lemmas list_text_defs = list_EntryReader_def list_ToStruct_def
  list_EntryFullSizeWithTag_def list_EntryWriter_def list_EntryCopy_def

lemma list_text_neutral:
  assumes "value_closed t" and "set tabs \<subseteq> {TAB}" and "neutral v" "neutral w" "neutral x"
  shows "neutral (list_EntryReader t tabs v)" "neutral (list_ToStruct t tabs v w)"
    "neutral (list_EntryFullSizeWithTag t tabs v w x)" "neutral (list_EntryWriter t tabs v w x)"
    "neutral (list_EntryCopy t tabs v w)"
  using assms by (intro neutralI; simp add: list_text_defs text_lines_def neutralI)+

lemma plist_text_neutral:
  assumes "value_closed t" and "set tabs \<subseteq> {TAB}" and "neutral v" "neutral w" "neutral x"
  shows "neutral (plist_EntryReader t tabs v)"
    "neutral (plist_EntryFullSizeWithTag t tabs v w x)"
  using assms by (intro neutralI; simp add: plist_EntryReader_def
    plist_EntryFullSizeWithTag_def text_lines_def neutralI)+

lemma plist_writer_neutral:
  assumes "value_closed t" and "set tabs \<subseteq> {TAB}" and "neutral v" "neutral w" "neutral x" and "plist_EntryWriter t tabs v w x = Some s"
  shows "neutral s"
proof -
  from assms(6) obtain packed where packed: "value_PackedEntryWriter t [TAB, TAB] v ''entry'' = Some packed"
    by (auto simp: plist_EntryWriter_def)
  have "neutral packed"
    by (rule packed_writer_neutral [OF assms(1) _ assms(3) _ packed]) (auto intro: neutralI)
  with packed assms show ?thesis by (intro neutralI) (auto simp: plist_EntryWriter_def text_lines_def neutralI)
qed

lemma map_text_neutral:
  assumes "value_closed k" "value_closed t" and "set tabs \<subseteq> {TAB}" and "neutral v" "neutral w" "neutral x"
  shows "neutral (map_EntryReader k t tabs v)" "neutral (map_ToStruct k t tabs v w)"
    "neutral (map_EntryFullSizeWithTag k t tabs v w x)" "neutral (map_EntryWriter k t tabs v w x)" "neutral (map_EntryCopy k t tabs v w)"
  using assms by (intro neutralI; simp add: map_EntryReader_def map_ToStruct_def map_EntryFullSizeWithTag_def map_EntryWriter_def
    map_EntryCopy_def text_lines_def neutralI)+

text \<open>The pieces of a field, whatever its type.\<close>

lemma field_type_names_neutral [simp]:
  "field_closed f \<Longrightarrow> neutral (ReaderTypeName f)" "field_closed f \<Longrightarrow> neutral (WriterTypeName f)"
  "field_closed f \<Longrightarrow> neutral (DefaultReturn f)" "neutral (OffsetsType f)" "neutral (WireTypeType f)"
  by (rule neutralI; cases f; simp)+

lemma field_reader_neutral [simp]:
  assumes "field_closed f" and "set tabs \<subseteq> {TAB}" and "neutral v"
  shows "neutral (EntryReader f tabs v)" "neutral (EntryUnmarshalSaveOffsets f tabs v)"
  using assms by (cases f; simp add: offset_text_neutral list_text_neutral plist_text_neutral map_text_neutral)+

lemma field_not_empty_neutral [simp]: "field_closed f \<Longrightarrow> neutral v \<Longrightarrow> neutral (EntryIsNotEmpty f v)"
  by (cases f; simp add: list_not_empty_neutral)

lemma field_copy_neutral [simp]:
  assumes "field_closed f" and "set tabs \<subseteq> {TAB}" and "neutral v" "neutral w"
  shows "neutral (field_ToStruct f tabs v w)" "neutral (EntryCopy f tabs v w)"
  using assms by (cases f; simp add: list_text_neutral map_text_neutral)+

lemma field_size_neutral [simp]:
  assumes "field_closed f" and "set tabs \<subseteq> {TAB}" and "neutral v" "neutral w" "neutral x"
  shows "neutral (EntryFullSizeWithTag f tabs v w x)"
  using assms by (cases f; simp add: list_text_neutral plist_text_neutral map_text_neutral)

lemma field_writer_neutral:
  assumes "field_closed f" and "set tabs \<subseteq> {TAB}" and "neutral v" "neutral w" "neutral x" and "EntryWriter f tabs v w x = Some s"
  shows "neutral s"
  using assms plist_writer_neutral [OF _ assms(2-5)]
  by (cases f) (auto simp: list_text_neutral map_text_neutral simp del: value_closed.simps)

text \<open>Only a packed list of messages has no writer; the resolution of types never builds one.\<close>

fun packs_values :: "gen_field \<Rightarrow> bool" where
  "packs_values (GenRepeatedPacked (GenStruct t) required) = False"
| "packs_values f = True"

lemma field_writer_Some: "packs_values f \<Longrightarrow> \<exists>s. EntryWriter f tabs v w x = Some s"
  by (cases f rule: packs_values.cases) (auto simp: plist_EntryWriter_def)

end
