(* ===== verification/Go_Print.thy ===== *)
theory Go_Print
  imports Go_Templates
begin

text \<open>
  The printer of the Go generator: the text of an enum (\<^verbatim>\<open>golang/types/enums.go\<close>), of a struct and its
  fields (\<^verbatim>\<open>golang/types/structs.go\<close>, \<^verbatim>\<open>fields.go\<close>) and of a file (\<^verbatim>\<open>GenerateCode\<close> of
  \<^verbatim>\<open>golang/core/files.go\<close>). The string builder is threaded as the text that is appended to it;
  None is a panic of a template.
\<close>

section \<open>Enums\<close>

definition writeEnumHeader :: "GoEnumType \<Rightarrow> string" where
  "writeEnumHeader g =
     text_lines
      [[],
       ''type '' @ ge_EnumName g @ '' int32'',
       []]"

definition writeEnumConstants :: "GoEnumType \<Rightarrow> string" where
  "writeEnumConstants g =
     NL # ''const ('' @ [NL] @
     concat (map (\<lambda>v. [TAB] @ gv_ConstName v @ '' '' @ ge_EnumName g @ '' = '' @ fmt_int (gv_Value v) @ [NL]) (ge_Values g)) @
     '')'' @ [NL]"

text \<open>The cases of the switch: the first constant of every value; the map usedValues is its set of keys.\<close>

fun string_cases :: "int set \<Rightarrow> goEnumVariant list \<Rightarrow> (string \<times> int \<times> string) list" where
  "string_cases usedValues [] = []"
| "string_cases usedValues (v # vs) =
     (if gv_Value v \<notin> usedValues
      then (gv_ConstName v, gv_Value v, ProtoName (ev_Name (gv_Proto v))) # string_cases (insert (gv_Value v) usedValues) vs
      else string_cases usedValues vs)"

definition writeEnumToString :: "(string \<Rightarrow> string) \<Rightarrow> GoEnumType \<Rightarrow> string" where
  "writeEnumToString quote g =
     text_lines
      [[],
       ''func (e '' @ ge_EnumName g @ '') String() string {'',
       [TAB] @ ''switch e {'',
       []] @
     concat (map (\<lambda>(constName, _, protoName). [TAB] @ ''case '' @ constName @ '':'' @ [NL] @ [TAB, TAB] @ ''return '' @ quote protoName @ [NL])
       (string_cases {} (ge_Values g))) @
     text_lines
      [[TAB] @ ''default:'',
       [TAB, TAB] @ ''return \"\"'',
       [TAB] @ ''}'',
       ''}'',
       []]"

definition enum_GenerateCode :: "(string \<Rightarrow> string) \<Rightarrow> GoEnumType \<Rightarrow> string" where
  "enum_GenerateCode quote g = writeEnumHeader g @ writeEnumConstants g @ writeEnumToString quote g"


section \<open>Fields\<close>

text \<open>The struct of a field is given by its name.\<close>

definition wireTypeConstName :: "string \<Rightarrow> GoStructField \<Rightarrow> string" where
  "wireTypeConstName structName g =
     ''wire'' @ structName @ ''_'' @ sf_Name g"

definition writeWireTypeConst :: "string \<Rightarrow> GoStructField \<Rightarrow> string" where
  "writeWireTypeConst structName g =
     [TAB] @ wireTypeConstName structName g @ '' gremlin.ProtoWireNumber = '' @ fmt_int (pf_Sequence (fd_ProtoDef (sf_Proto g))) @ [NL]"

definition writeProtoStructData :: "GoStructField \<Rightarrow> string" where
  "writeProtoStructData g =
     [TAB] @ ''data'' @ sf_Name g @ ''     '' @ ReaderTypeName (sf_Type g) @ [NL]"

definition writeProtoStructOffset :: "GoStructField \<Rightarrow> string" where
  "writeProtoStructOffset g =
     (let wType = WireTypeType (sf_Type g); oType = OffsetsType (sf_Type g);
          wTypeCode = (if wType \<noteq> [] then [NL] @ [TAB] @ ''wireType'' @ sf_Name g @ '' '' @ wType else []) in
      [TAB] @ ''offset'' @ sf_Name g @ ''   '' @ oType @ wTypeCode @ [NL])"

definition writeProtoStructParsedFlag :: "GoStructField \<Rightarrow> string" where
  "writeProtoStructParsedFlag g =
     [TAB] @ ''parsed'' @ sf_Name g @ ''   bool'' @ [NL]"

definition writeGetter :: "string \<Rightarrow> GoStructField \<Rightarrow> string" where
  "writeGetter structName g =
     text_lines
      [[],
       ''func (m *'' @ structName @ ''Reader) Get'' @ sf_Name g @ ''() '' @ ReaderTypeName (sf_Type g) @ '' {'',
       [TAB] @ ''if m == nil {'',
       [TAB, TAB] @ ''return '' @ DefaultReturn (sf_Type g),
       [TAB] @ ''}'',
       [TAB] @ ''return m.read'' @ sf_Name g @ ''()'',
       ''}'',
       []]"

definition writeReader :: "string \<Rightarrow> GoStructField \<Rightarrow> string" where
  "writeReader structName g =
     (let wireTypeCode = (if WireTypeType (sf_Type g) \<noteq> [] then [TAB] @ ''var wType = m.wireType'' @ sf_Name g @ [NL] else []) in text_lines
        [[],
         ''func (m *'' @ structName @ ''Reader) read'' @ sf_Name g @ ''() '' @ ReaderTypeName (sf_Type g) @ '' {'',
         [TAB] @ ''if m.parsed'' @ sf_Name g @ '' {'',
         [TAB, TAB] @ ''return m.data'' @ sf_Name g,
         [TAB] @ ''}'',
         [TAB] @ ''wOffset := m.offset'' @ sf_Name g,
         wireTypeCode @ EntryReader (sf_Type g) [TAB] ''entry'',
         [TAB] @ ''m.data'' @ sf_Name g @ '' = entry'',
         [TAB] @ ''m.parsed'' @ sf_Name g @ '' = true'',
         [TAB] @ ''return entry'',
         ''}'',
         []])"

definition writeAccessors :: "string \<Rightarrow> GoStructField \<Rightarrow> string" where
  "writeAccessors structName g =
     writeGetter structName g @ writeReader structName g"

definition field_writeUnmarshal :: "string \<Rightarrow> GoStructField \<Rightarrow> string" where
  "field_writeUnmarshal structName g =
     text_lines
      [[],
       [TAB, TAB] @ ''case '' @ wireTypeConstName structName g @ '':'',
       EntryUnmarshalSaveOffsets (sf_Type g) [TAB, TAB, TAB] (sf_Name g)]"

definition writeStructField :: "GoStructField \<Rightarrow> string" where
  "writeStructField g =
     [TAB] @ sf_Name g @ [TAB] @ WriterTypeName (sf_Type g) @ [TAB] @ ''`json:\"'' @ ProtoName (fd_Name (sf_Proto g)) @ '',omitempty\"`'' @ [NL]"

definition field_writeToStruct :: "GoStructField \<Rightarrow> string" where
  "field_writeToStruct g =
     (if JsonStructCanBeUsedDirectly (sf_Type g) then [TAB] @ ''res.'' @ sf_Name g @ '' = m.Get'' @ sf_Name g @ ''()'' @ [NL]
      else text_lines
        [[],
         [TAB] @ ''{'',
         [TAB, TAB] @ ''var data = m.Get'' @ sf_Name g @ ''()'',
         [TAB, TAB] @ ''var structData '' @ WriterTypeName (sf_Type g),
         field_ToStruct (sf_Type g) [TAB, TAB] ''structData'' ''data'',
         [TAB, TAB] @ ''res.'' @ sf_Name g @ '' = structData'',
         [TAB] @ ''}'',
         []])"

definition writeSizeCalc :: "string \<Rightarrow> GoStructField \<Rightarrow> string" where
  "writeSizeCalc structName g =
     text_lines
      [[],
       [TAB] @ ''if '' @ EntryIsNotEmpty (sf_Type g) (''s.'' @ sf_Name g) @ '' {'',
       [TAB, TAB] @ ''var entrySize = 0'',
       EntryFullSizeWithTag (sf_Type g) [TAB, TAB] ''entrySize'' (''s.'' @ sf_Name g) (wireTypeConstName structName g),
       [TAB, TAB] @ ''size += entrySize'',
       [TAB] @ ''}'',
       []]"

definition field_writeMarshal :: "string \<Rightarrow> GoStructField \<Rightarrow> string option" where
  "field_writeMarshal structName g =
     map_option (\<lambda>writer. text_lines
        [[],
         [TAB] @ ''if '' @ EntryIsNotEmpty (sf_Type g) (''s.'' @ sf_Name g) @ '' {'',
         writer,
         [TAB] @ ''}''])
     (EntryWriter (sf_Type g) [TAB, TAB] ''res'' (wireTypeConstName structName g) (''s.'' @ sf_Name g))"

definition field_writeCopy :: "GoStructField \<Rightarrow> string" where
  "field_writeCopy g =
     EntryCopy (sf_Type g) [TAB] (''res.'' @ sf_Name g) (''s.'' @ sf_Name g) @ [NL]"


section \<open>Structs\<close>

definition writeWireTypes :: "GoStructType \<Rightarrow> string" where
  "writeWireTypes g =
     NL # ''const ('' @ [NL] @ concat (map (writeWireTypeConst (gs_StructName g)) (gs_Fields g)) @ '')'' @ [NL]"

definition writeReaderConstructor :: "GoStructType \<Rightarrow> string" where
  "writeReaderConstructor g =
     text_lines
      [[],
       ''func New'' @ gs_StructName g @ ''Reader() *'' @ gs_StructName g @ ''Reader {'',
       [TAB] @ ''return &'' @ gs_StructName g @ ''Reader{}'',
       ''}'',
       []]"

definition writeReaderStruct :: "GoStructType \<Rightarrow> string" where
  "writeReaderStruct g =
     text_lines
      [[],
       ''type '' @ gs_StructName g @ ''Reader struct {'',
       [TAB] @ ''buf *gremlin.Reader'',
       [],
       []] @
     concat (map writeProtoStructData (gs_Fields g)) @ [NL] @
     concat (map writeProtoStructOffset (gs_Fields g)) @ [NL] @
     concat (map writeProtoStructParsedFlag (gs_Fields g)) @ ''}'' @ [NL]"

definition writeStruct :: "GoStructType \<Rightarrow> string" where
  "writeStruct g =
     text_lines
      [[],
       ''type '' @ gs_StructName g @ '' struct {'',
       []] @ concat (map writeStructField (gs_Fields g)) @ ''}'' @ [NL]"

definition writeFieldsAccessors :: "GoStructType \<Rightarrow> string" where
  "writeFieldsAccessors g =
     concat (map (writeAccessors (gs_StructName g)) (gs_Fields g))"

definition writeUnmarshal :: "GoStructType \<Rightarrow> string" where
  "writeUnmarshal g =
     text_lines
      [[],
       ''func (m *'' @ gs_StructName g @ ''Reader) Unmarshal(data []byte) error {'',
       [TAB] @ ''m.buf = gremlin.NewReader(data)'',
       [TAB] @ ''offset := 0'',
       [TAB] @ ''for m.buf.HasNext(offset, 0) {'',
       [TAB, TAB] @ ''tag, wire, tagSize, err := m.buf.ReadTagAt(offset)'',
       [TAB, TAB] @ ''if err != nil {'',
       [TAB, TAB, TAB] @ ''return err'',
       [TAB, TAB] @ ''}'',
       [],
       [TAB, TAB] @ ''offset += tagSize'',
       [TAB, TAB] @ ''switch tag {''] @
     concat (map (field_writeUnmarshal (gs_StructName g)) (gs_Fields g)) @ text_lines
      [[],
       [TAB, TAB] @ ''}'',
       [],
       [TAB, TAB] @ ''offset, err = m.buf.SkipData(offset, wire)'',
       [TAB, TAB] @ ''if err != nil {'',
       [TAB, TAB, TAB] @ ''return err'',
       [TAB, TAB] @ ''}'',
       [TAB] @ ''}'',
       [TAB] @ ''return nil'',
       ''}'',
       []]"

definition writeToStruct :: "GoStructType \<Rightarrow> string" where
  "writeToStruct g =
     text_lines
      [[],
       ''func (m *'' @ gs_StructName g @ ''Reader) ToStruct() *'' @ gs_StructName g @ '' {'',
       [TAB] @ ''if m == nil {'',
       [TAB, TAB] @ ''return nil'',
       [TAB] @ ''}'',
       [TAB] @ ''res := &'' @ gs_StructName g @ ''{}'',
       []] @ concat (map field_writeToStruct (gs_Fields g)) @ text_lines
      [[],
       [TAB] @ ''return res'',
       ''}'',
       []]"

text \<open>The texts of all fields, None when one of them panics.\<close>

definition all_texts :: "('a \<Rightarrow> string option) \<Rightarrow> 'a list \<Rightarrow> string option" where
  "all_texts f xs = map_option concat (those (map f xs))"

definition writeMarshal :: "GoStructType \<Rightarrow> string option" where
  "writeMarshal g =
     map_option (\<lambda>body. text_lines
        [[],
         ''func (s *'' @ gs_StructName g @ '') Marshal() []byte {'',
         [TAB] @ ''if s == nil {'',
         [TAB, TAB] @ ''return nil'',
         [TAB] @ ''}'',
         [TAB] @ ''size := s.XXX_PbContentSize()'',
         [TAB] @ ''if size == 0 {'',
         [TAB, TAB] @ ''return nil'',
         [TAB] @ ''}'',
         [TAB] @ ''res := gremlin.NewWriter(size)'',
         [TAB] @ ''s.MarshalTo(res)'',
         [TAB] @ ''return res.Bytes()'',
         ''}'',
         [],
         ''func (s *'' @ gs_StructName g @ '') MarshalTo(res *gremlin.Writer) {'',
         [TAB] @ ''if s == nil {'',
         [TAB, TAB] @ ''return'',
         [TAB] @ ''}'',
         []] @ body @ text_lines
      [[],
       ''}'',
       []])
     (all_texts (field_writeMarshal (gs_StructName g)) (gs_Fields g))"

definition writeSize :: "GoStructType \<Rightarrow> string" where
  "writeSize g =
     text_lines
      [[],
       ''func (s *'' @ gs_StructName g @ '') XXX_PbContentSize() int {'',
       [TAB] @ ''if s == nil {'',
       [TAB, TAB] @ ''return 0'',
       [TAB] @ ''}'',
       [TAB] @ ''var size = 0'',
       []] @ concat (map (writeSizeCalc (gs_StructName g)) (gs_Fields g)) @ text_lines
      [[],
       [TAB] @ ''return size'',
       ''}'',
       []]"

definition writeGetBytes :: "GoStructType \<Rightarrow> string" where
  "writeGetBytes g =
     text_lines
      [[],
       ''func (s *'' @ gs_StructName g @ ''Reader) SourceBytes() []byte {'',
       [TAB] @ ''if s == nil {'',
       [TAB, TAB] @ ''return nil'',
       [TAB] @ ''}'',
       [TAB] @ ''return s.buf.Bytes()'',
       ''}'',
       []]"

definition writeCopy :: "GoStructType \<Rightarrow> string" where
  "writeCopy g =
     text_lines
      [[],
       ''func (s *'' @ gs_StructName g @ '') Copy() *'' @ gs_StructName g @ '' {'',
       [TAB] @ ''if s == nil {'',
       [TAB, TAB] @ ''return nil'',
       [TAB] @ ''}'',
       [TAB] @ ''res := &'' @ gs_StructName g @ ''{}'',
       []] @ concat (map field_writeCopy (gs_Fields g)) @ text_lines
      [[],
       [TAB] @ ''return res'',
       ''}'',
       []]"

definition struct_GenerateCode :: "GoStructType \<Rightarrow> string option" where
  "struct_GenerateCode g =
     map_option (\<lambda>marshal.
       writeWireTypes g @ writeReaderStruct g @ writeReaderConstructor g @ writeFieldsAccessors g @ writeUnmarshal g @
       writeToStruct g @ writeGetBytes g @ writeStruct g @ marshal @ writeCopy g @ writeSize g)
     (writeMarshal g)"


section \<open>Files\<close>

definition file_header :: "string \<Rightarrow> string \<Rightarrow> string" where
  "file_header relativePath shortPackageName =
     text_lines
      [''// Code generated by gremlin. DO NOT EDIT.'',
       ''// source: '' @ relativePath,
       [],
       ''package '' @ shortPackageName,
       [],
       []]"

definition import_block :: "(string \<Rightarrow> string) \<Rightarrow> GoImport list \<Rightarrow> string" where
  "import_block quote filtered =
     (if length filtered > 1 then
        ''import ('' @ [NL] @
        concat (map (\<lambda>goImport. [TAB] @ gi_Alias goImport @ '' \"'' @ gi_Path goImport @ ''\"'' @ [NL]) filtered) @
        '')'' @ [NL]
      else case filtered of
        [goImport] \<Rightarrow> ''import '' @ gi_Alias goImport @ '' '' @ quote (gi_Path goImport) @ [NL]
      | _ \<Rightarrow> [])"

definition runtime_path :: string where
  "runtime_path = ''github.com/norma-core/norma-core/shared/gremlin_go''"

definition GenerateCode :: "(string \<Rightarrow> string) \<Rightarrow> string \<Rightarrow> GoGeneratedFile \<Rightarrow> string option" where
  "GenerateCode quote relativePath g =
     (let g = (if length (gf_structs g) > 0 then AddImport runtime_path ''gremlin'' g else g);
          filtered = filter gi_Used (gf_imports g) in
      map_option (\<lambda>structs.
        file_header relativePath (gf_ShortPackageName g) @ import_block quote filtered @
        concat (map (enum_GenerateCode quote) (gf_enums g)) @ structs)
      (all_texts struct_GenerateCode (gf_structs g)))"

section \<open>The cases of an enum\<close>

lemma string_cases_fresh: "v \<in> usedValues \<Longrightarrow> (c, v, n) \<notin> set (string_cases usedValues vs)"
  by (induction usedValues vs rule: string_cases.induct) auto

text \<open>No value has two cases, which Go would refuse, and every other value has one: its first constant.\<close>

lemma string_cases_distinct: "distinct (map (fst \<circ> snd) (string_cases usedValues vs))"
proof (induction usedValues vs rule: string_cases.induct)
  case (2 usedValues v vs)
  have "gv_Value v \<notin> (fst \<circ> snd) ` set (string_cases (insert (gv_Value v) usedValues) vs)"
    using string_cases_fresh [of "gv_Value v" "insert (gv_Value v) usedValues"] by force
  with 2 show ?case by simp
qed simp

lemma string_cases_first:
  "(c, v, n) \<in> set (string_cases usedValues vs) \<longleftrightarrow>
    v \<notin> usedValues \<and> (\<exists>variant. find (\<lambda>x. gv_Value x = v) vs = Some variant \<and>
      c = gv_ConstName variant \<and> n = ProtoName (ev_Name (gv_Proto variant)))"
proof (induction usedValues vs rule: string_cases.induct)
  case (2 usedValues x vs)
  then show ?case using string_cases_fresh [of v "insert (gv_Value x) usedValues" c n] by auto
qed simp


section \<open>Every printed file is lexically closed\<close>

text \<open>A text that can stand in an interpreted string literal, and one that can stand in a struct tag.\<close>

definition str_text :: "string \<Rightarrow> bool" where
  "str_text s \<longleftrightarrow> list_all (\<lambda>c. c \<notin> {CHR 0x22, CHR 0x5C, NL}) s"

definition tag_text :: "string \<Rightarrow> bool" where
  "tag_text s \<longleftrightarrow> CHR 0x60 \<notin> set s"

lemma str_text_scan [simp]: "str_text s \<Longrightarrow> go_scan (Str st) s = Str st"
  unfolding str_text_def by (induction s) auto

lemma tag_text_scan [simp]: "tag_text s \<Longrightarrow> go_scan (Raw st) s = Raw st"
  unfolding tag_text_def by (induction s) auto

text \<open>What \<^verbatim>\<open>%q\<close> promises: a closed literal.\<close>

definition quotes :: "(string \<Rightarrow> string) \<Rightarrow> bool" where
  "quotes quote \<longleftrightarrow> (\<forall>s. neutral (quote s))"

lemma quotes_neutral [simp]: "quotes quote \<Longrightarrow> neutral (quote s)"
  by (simp add: quotes_def)

lemma fmt_int_neutral [simp]: "neutral (fmt_int i)"
  by (rule neutralI) (simp add: fmt_int_def)

lemma neutral_concat_map [simp]: "(\<And>x. x \<in> set xs \<Longrightarrow> neutral (f x)) \<Longrightarrow> neutral (concat (map f xs))"
  by (rule neutral_concat) auto

definition enum_closed :: "GoEnumType \<Rightarrow> bool" where
  "enum_closed g \<longleftrightarrow> neutral (ge_EnumName g) \<and> (\<forall>v \<in> set (ge_Values g). neutral (gv_ConstName v))"

lemma string_cases_closed:
  "(c, v, n) \<in> set (string_cases usedValues vs) \<Longrightarrow> \<forall>v \<in> set vs. neutral (gv_ConstName v) \<Longrightarrow> neutral c"
  by (induction usedValues vs rule: string_cases.induct) (auto split: if_splits)

lemma enum_neutral:
  assumes "enum_closed g" and "quotes quote"
  shows "neutral (enum_GenerateCode quote g)"
proof -
  let ?case_text = "\<lambda>(constName, _, protoName). [TAB] @ ''case '' @ constName @ '':'' @ [NL] @ [TAB, TAB] @ ''return '' @ quote protoName @ [NL]"
  have line: "neutral (?case_text (c, v, n))" if "(c, v, n) \<in> set (string_cases {} (ge_Values g))" for c v n
    using string_cases_closed [OF that] assms by (intro neutralI) (simp add: enum_closed_def)
  have cases: "neutral (concat (map ?case_text (string_cases {} (ge_Values g))))"
  proof (rule neutral_concat_map)
    show "x \<in> set (string_cases {} (ge_Values g)) \<Longrightarrow> neutral (?case_text x)" for x
      using line by (cases x) blast
  qed
  let ?const = "\<lambda>v. [TAB] @ gv_ConstName v @ '' '' @ ge_EnumName g @ '' = '' @ fmt_int (gv_Value v) @ [NL]"
  have "neutral (?const v)" if "v \<in> set (ge_Values g)" for v
    using that assms(1) by (intro neutralI) (simp add: enum_closed_def)
  then have const_lines: "neutral (concat (map ?const (ge_Values g)))" by (rule neutral_concat_map)
  show ?thesis
    using assms(1) cases const_lines
    by (intro neutralI) (simp add: enum_GenerateCode_def writeEnumHeader_def writeEnumConstants_def writeEnumToString_def
      text_lines_def enum_closed_def del: map_map)
qed

definition sfield_closed :: "GoStructField \<Rightarrow> bool" where
  "sfield_closed g \<longleftrightarrow> neutral (sf_Name g) \<and> field_closed (sf_Type g) \<and> packs_values (sf_Type g) \<and>
     tag_text (ProtoName (fd_Name (sf_Proto g)))"

lemma wire_const_neutral [simp]: "neutral structName \<Longrightarrow> neutral (sf_Name g) \<Longrightarrow> neutral (wireTypeConstName structName g)"
  by (rule neutralI) (simp add: wireTypeConstName_def)

lemma sfield_text_neutral:
  assumes "sfield_closed g" and "neutral structName"
  shows "neutral (writeWireTypeConst structName g)" "neutral (writeProtoStructData g)" "neutral (writeProtoStructOffset g)"
    "neutral (writeProtoStructParsedFlag g)" "neutral (writeAccessors structName g)" "neutral (field_writeUnmarshal structName g)"
    "neutral (writeStructField g)" "neutral (field_writeToStruct g)" "neutral (writeSizeCalc structName g)" "neutral (field_writeCopy g)"
proof -
  have "neutral ''entry''" "neutral ''structData''" "neutral ''data''" "neutral ''entrySize''" by (rule neutralI; simp)+
  moreover have "neutral (''s.'' @ sf_Name g)" "neutral (''res.'' @ sf_Name g)"
    using assms(1) by (intro neutralI; simp add: sfield_closed_def)+
  ultimately show "neutral (writeWireTypeConst structName g)" "neutral (writeProtoStructData g)" "neutral (writeProtoStructOffset g)"
    "neutral (writeProtoStructParsedFlag g)" "neutral (writeAccessors structName g)" "neutral (field_writeUnmarshal structName g)"
    "neutral (writeStructField g)" "neutral (field_writeToStruct g)" "neutral (writeSizeCalc structName g)" "neutral (field_writeCopy g)"
    using assms by (intro neutralI; simp add: sfield_closed_def writeWireTypeConst_def writeProtoStructData_def writeProtoStructOffset_def
      writeProtoStructParsedFlag_def writeAccessors_def writeGetter_def writeReader_def field_writeUnmarshal_def writeStructField_def
      field_writeToStruct_def writeSizeCalc_def field_writeCopy_def text_lines_def Let_def)+
qed

lemma field_marshal_neutral:
  assumes "sfield_closed g" and "neutral structName"
  shows "\<exists>s. field_writeMarshal structName g = Some s \<and> neutral s"
proof -
  let ?writer = "EntryWriter (sf_Type g) [TAB, TAB] ''res'' (wireTypeConstName structName g) (''s.'' @ sf_Name g)"
  obtain w where w: "?writer = Some w"
    using assms(1) field_writer_Some unfolding sfield_closed_def by blast
  have res: "neutral ''res''" by (rule neutralI) simp
  have s: "neutral (''s.'' @ sf_Name g)" using assms(1) by (intro neutralI) (simp add: sfield_closed_def)
  have "neutral w"
    using field_writer_neutral [OF _ _ res _ s w] assms by (simp add: sfield_closed_def)
  then have "neutral (the (field_writeMarshal structName g))"
    using w assms s by (intro neutralI) (simp add: field_writeMarshal_def sfield_closed_def text_lines_def)
  with w show ?thesis by (simp add: field_writeMarshal_def)
qed

lemma all_texts_neutral:
  assumes "\<And>x. x \<in> set xs \<Longrightarrow> \<exists>s. f x = Some s \<and> neutral s"
  shows "\<exists>s. all_texts f xs = Some s \<and> neutral s"
  using assms unfolding all_texts_def by (induction xs) (fastforce simp: neutral_append)+

definition struct_closed :: "GoStructType \<Rightarrow> bool" where
  "struct_closed g \<longleftrightarrow> neutral (gs_StructName g) \<and> list_all sfield_closed (gs_Fields g)"

lemma struct_neutral:
  assumes "struct_closed g"
  shows "\<exists>s. struct_GenerateCode g = Some s \<and> neutral s"
proof -
  have nm: "neutral (gs_StructName g)" and fs: "\<And>f. f \<in> set (gs_Fields g) \<Longrightarrow> sfield_closed f"
    using assms by (auto simp: struct_closed_def list_all_iff)
  note texts = sfield_text_neutral [OF fs nm]
  obtain body where body: "all_texts (field_writeMarshal (gs_StructName g)) (gs_Fields g) = Some body" "neutral body"
    using all_texts_neutral field_marshal_neutral [OF fs nm] by blast
  then obtain m where m: "writeMarshal g = Some m" by (simp add: writeMarshal_def)
  have "neutral m"
    using m body nm by (intro neutralI) (auto simp: writeMarshal_def text_lines_def)
  moreover have "neutral (writeWireTypes g)" "neutral (writeReaderStruct g)" "neutral (writeReaderConstructor g)"
    "neutral (writeFieldsAccessors g)" "neutral (writeUnmarshal g)" "neutral (writeToStruct g)" "neutral (writeGetBytes g)"
    "neutral (writeStruct g)" "neutral (writeCopy g)" "neutral (writeSize g)"
    using nm texts by (intro neutralI; simp add: writeWireTypes_def writeReaderStruct_def writeReaderConstructor_def
      writeFieldsAccessors_def writeUnmarshal_def writeToStruct_def writeGetBytes_def writeStruct_def writeCopy_def writeSize_def
      text_lines_def del: map_map)+
  ultimately show ?thesis using m by (simp add: struct_GenerateCode_def neutral_append)
qed

definition import_closed :: "GoImport \<Rightarrow> bool" where
  "import_closed imp \<longleftrightarrow> neutral (gi_Alias imp) \<and> str_text (gi_Path imp)"

definition file_closed :: "GoGeneratedFile \<Rightarrow> bool" where
  "file_closed g \<longleftrightarrow> list_all import_closed (gf_imports g) \<and> neutral (gf_ShortPackageName g) \<and>
     list_all enum_closed (gf_enums g) \<and> list_all struct_closed (gf_structs g)"

lemma import_block_neutral:
  assumes "list_all import_closed imps" and "quotes quote"
  shows "neutral (import_block quote imps)"
proof -
  let ?line = "\<lambda>goImport. [TAB] @ gi_Alias goImport @ '' \"'' @ gi_Path goImport @ ''\"'' @ [NL]"
  have "neutral (?line imp)" if "imp \<in> set imps" for imp
    using that assms(1) by (intro neutralI) (simp add: import_closed_def list_all_iff)
  then have "neutral (concat (map ?line imps))" by (rule neutral_concat_map)
  then show ?thesis
    using assms by (intro neutralI) (auto simp: import_block_def import_closed_def split: list.split)
qed

lemma AddImport_closed:
  assumes "file_closed g" and "neutral al" and "str_text p"
  shows "file_closed (AddImport p al g)"
proof -
  have "neutral (next_alias (gf_imports g) al)"
    using assms(2) by (intro neutralI) (simp add: next_alias_def Let_def)
  then show ?thesis using assms(1,3) by (simp add: file_closed_def AddImport_def import_closed_def)
qed

lemma file_neutral:
  assumes "file_closed g" and "quotes quote" and "NL \<notin> set relativePath"
  shows "\<exists>s. GenerateCode quote relativePath g = Some s \<and> neutral s"
proof -
  define h where "h = (if length (gf_structs g) > 0 then AddImport runtime_path ''gremlin'' g else g)"
  have "neutral ''gremlin''" by (rule neutralI) simp
  moreover have "str_text runtime_path" by code_simp
  ultimately have h: "file_closed h" using assms(1) AddImport_closed by (simp add: h_def)
  have same: "gf_structs h = gf_structs g" by (simp add: h_def AddImport_def)
  obtain structs where structs: "all_texts struct_GenerateCode (gf_structs g) = Some structs" "neutral structs"
    using all_texts_neutral [of "gf_structs g" struct_GenerateCode] struct_neutral assms(1) by (auto simp: file_closed_def list_all_iff)
  have "neutral (file_header relativePath (gf_ShortPackageName h))"
    using h assms(3) by (intro neutralI) (simp add: file_header_def text_lines_def file_closed_def)
  moreover have "neutral (import_block quote (filter gi_Used (gf_imports h)))"
    using h assms(2) by (intro import_block_neutral) (auto simp: file_closed_def list_all_iff)
  moreover have "neutral (concat (map (enum_GenerateCode quote) (gf_enums h)))"
    using h assms(2) enum_neutral by (intro neutral_concat_map) (auto simp: file_closed_def list_all_iff)
  ultimately show ?thesis
    using structs unfolding GenerateCode_def Let_def h_def [symmetric] same by (simp add: neutral_append)
qed

end
