(* ===== verification/Go_Compile.thy ===== *)
theory Go_Compile
  imports Go_Files
begin

text \<open>
  What the generator guarantees: every file has a package and is written to the folder of that
  package, every field of completely resolved files gets a Go type without an error, and the
  generated structs satisfy what the round trip of the message code assumes of a struct: distinct
  field numbers, packed lists of packable types only and comparable map keys.
\<close>

section \<open>Packages and folders\<close>

lemma clean_no_empty: "[] \<notin> set out \<Longrightarrow> [] \<notin> set (fold (clean_step rooted) ps out)"
proof (induction ps arbitrary: out)
  case (Cons p ps)
  then have "[] \<notin> set (clean_step rooted p out)" by (auto simp: clean_step_def dest: in_set_butlastD)
  with Cons.IH show ?case by simp
qed simp

lemma Clean_neq_Nil [simp]: "Clean path \<noteq> []"
  using clean_no_empty [of "[]" False "split_on CHR ''/'' path"] by (auto simp: Clean_def Let_def join_on_Nil_iff)

lemma Base_neq_Nil [simp]: "Base path \<noteq> []"
  by (simp add: Base_def Let_def)

lemma cleanup_neq_Nil [simp]: "cleanupPackageName nm = [] \<longleftrightarrow> nm = []"
  by (simp add: cleanupPackageName_def ReplaceAll_def)

lemma go_package_found: "fst (getGoPackage root modulePath f) \<noteq> [] \<and> snd (getGoPackage root modulePath f) \<noteq> []"
  by (auto simp: getGoPackage_def Let_def Join_def)

lemma fold_clean_join: "list_all plain qs \<Longrightarrow> fold (clean_step r) (split_on CHR ''/'' (join_on CHR ''/'' qs)) out = out @ qs"
proof (cases "qs = []")
  case False
  assume "list_all plain qs"
  with False have "split_on CHR ''/'' (join_on CHR ''/'' qs) = qs"
    by (intro split_join) (auto simp: list_all_iff plain_def)
  with \<open>list_all plain qs\<close> show ?thesis by (simp add: clean_plain)
qed (simp add: clean_step_def)

lemma hd_join: "list_all plain qs \<Longrightarrow> qs \<noteq> [] \<Longrightarrow> join_on CHR ''/'' qs \<noteq> [] \<and> hd (join_on CHR ''/'' qs) \<noteq> CHR ''/''"
  by (cases qs) (auto simp: join_on_Cons plain_def hd_append, (metis list.set_sel(1))+)

lemma Clean_join2:
  assumes "list_all plain ps" "list_all plain qs" "ps \<noteq> []"
  shows "Clean (join_on CHR ''/'' ps @ ''/'' @ join_on CHR ''/'' qs) = join_on CHR ''/'' (ps @ qs)"
proof -
  let ?s = "join_on CHR ''/'' ps @ ''/'' @ join_on CHR ''/'' qs"
  have h: "?s \<noteq> []" "hd ?s \<noteq> CHR ''/''" using hd_join [OF assms(1,3)] by (simp_all add: hd_append)
  have "split_on CHR ''/'' ?s = split_on CHR ''/'' (join_on CHR ''/'' ps) @ split_on CHR ''/'' (join_on CHR ''/'' qs)"
    by (simp add: split_on_append)
  then have "fold (clean_step False) (split_on CHR ''/'' ?s) [] = ps @ qs"
    using assms by (simp add: fold_clean_join)
  with h assms(3) show ?thesis by (simp add: Clean_def)
qed

lemma Clean_abs3:
  assumes "list_all plain rs" "list_all plain qs" "plain f"
  shows "Join3 (abs_path rs) (join_on CHR ''/'' qs) f = abs_path (rs @ qs @ [f])"
proof -
  let ?s = "abs_path rs @ ''/'' @ join_on CHR ''/'' qs @ ''/'' @ f"
  have "split_on CHR ''/'' ?s = split_on CHR ''/'' (abs_path rs) @ split_on CHR ''/'' (join_on CHR ''/'' qs) @ split_on CHR ''/'' f"
    by (simp add: split_on_append)
  moreover have "split_on CHR ''/'' f = [f]" using assms(3) by (simp add: split_single plain_def)
  ultimately have "fold (clean_step True) (split_on CHR ''/'' ?s) [] = rs @ qs @ [f]"
    using assms by (simp add: fold_clean_split fold_clean_join) (simp add: clean_step_def plain_def)
  then have "Clean ?s = abs_path (rs @ qs @ [f])" by (simp add: Clean_def Let_def abs_path_def)
  then show ?thesis by (simp add: Join3_def abs_path_def)
qed

lemma Dir_relative:
  assumes "list_all plain ds" "plain f"
  shows "Dir (join_on CHR ''/'' (ds @ [f])) = (if ds = [] then ''.'' else join_on CHR ''/'' ds)"
proof (cases "ds = []")
  case True
  have "dropWhile (\<lambda>c. c \<noteq> CHR ''/'') (rev f) = []" using assms(2) by (auto simp: plain_def)
  with True show ?thesis by (simp add: Dir_def Clean_def)
next
  case False
  have "Dir (join_on CHR ''/'' (ds @ [f])) = Clean (join_on CHR ''/'' ds @ ''/'' @ join_on CHR ''/'' [])"
    using dropWhile_file [of f "join_on CHR ''/'' ds"] assms(2) False
    by (simp add: Dir_def join_on_snoc plain_def)
  with Clean_join2 [OF assms(1) _ False, of "[]"] False show ?thesis by simp
qed

lemma Base_suffix:
  assumes "plain f" and "takeWhile (\<lambda>c. c \<noteq> CHR ''/'') (rev (p @ f)) = rev f"
  shows "Base (p @ f) = f"
proof -
  have f: "f \<noteq> []" "last f \<noteq> CHR ''/''" using assms(1) last_in_set [of f] unfolding plain_def by metis+
  then have "dropWhile (\<lambda>c. c = CHR ''/'') (rev (p @ f)) = rev (p @ f)"
    by (cases f rule: rev_cases) simp_all
  then have "rev (takeWhile (\<lambda>c. c \<noteq> CHR ''/'') (rev (rev (dropWhile (\<lambda>c. c = CHR ''/'') (rev (p @ f)))))) = f"
    by (simp only: rev_rev_ident assms(2))
  then show ?thesis using f(1) by (simp only: Base_def Let_def) simp
qed

lemma Base_relative: "plain f \<Longrightarrow> Base (join_on CHR ''/'' (ds @ [f])) = f"
proof -
  assume f: "plain f"
  have tw: "takeWhile (\<lambda>c. c \<noteq> CHR ''/'') (rev f @ t) = rev f @ takeWhile (\<lambda>c. c \<noteq> CHR ''/'') t" for t
    using f by (intro takeWhile_append2) (auto simp: plain_def)
  show ?thesis
  proof (cases "ds = []")
    case True
    with Base_suffix [OF f, of "[]"] tw [of "[]"] show ?thesis by simp
  next
    case False
    with Base_suffix [OF f, of "join_on CHR ''/'' ds @ ''/''"] tw [of "CHR ''/'' # rev (join_on CHR ''/'' ds)"]
    show ?thesis by (simp add: join_on_snoc)
  qed
qed

text \<open>
  A file without a \<^verbatim>\<open>go_package\<close> option is written where its import path says: below the root at
  the folder of the proto file and the name of its package, and imported under the module path
  followed by the same components.
\<close>

theorem package_matches_folder:
  assumes "list_all plain rs" and "list_all plain ms" and "ms \<noteq> []" and "list_all plain ds"
    and "plain (nm @ ''.proto'')" and "plain (nm @ ''.pb2.go'')"
    and "f_RelativePath f = join_on CHR ''/'' (ds @ [nm @ ''.proto''])"
    and "go_package f = []" and "pk = (if package_name f = [] then [] else [package_name f])" and "list_all plain pk"
    and "\<forall>d \<in> set (take 1 (ds @ pk)). hd d \<noteq> CHR ''.''"
  shows "snd (getGoPackage root (join_on CHR ''/'' ms) f) = join_on CHR ''/'' (ms @ ds @ pk) \<and>
    buildOutputPath (abs_path rs) f = abs_path (rs @ ds @ pk @ [nm @ ''.pb2.go''])"
proof -
  define dir where "dir = (if package_name f \<noteq> [] then Join (Dir (f_RelativePath f)) (package_name f) else Dir (f_RelativePath f))"
  define inner where "inner = TrimPrefix (TrimPrefix dir ''.'') ''/''"
  have rel: "Dir (f_RelativePath f) = (if ds = [] then ''.'' else join_on CHR ''/'' ds)"
    using assms(4,5) unfolding assms(7) by (rule Dir_relative)
  have dir: "dir = (if ds @ pk = [] then ''.'' else join_on CHR ''/'' (ds @ pk))"
  proof (cases "package_name f = []")
    case False
    then have pk: "pk = [package_name f]" "plain (package_name f)" "split_on CHR ''/'' (package_name f) = [package_name f]"
      using assms(9,10) by (simp_all add: split_single plain_def)
    have "Join ''.'' (package_name f) = package_name f"
      using pk(2,3) hd_join [of "[package_name f]"] by (simp add: Join_def Clean_def clean_step_def plain_def)
    moreover have "Join (join_on CHR ''/'' ds) (package_name f) = join_on CHR ''/'' (ds @ pk)" if "ds \<noteq> []"
      using Clean_join2 [OF assms(4) _ that, of pk] hd_join [OF assms(4) that] assms(10) by (simp add: Join_def pk(1))
    ultimately show ?thesis using False pk(1) by (simp add: dir_def rel)
  qed (simp add: dir_def rel assms(9))
  have plains: "list_all plain (ds @ pk)" using assms(4,10) by simp
  have inner: "inner = join_on CHR ''/'' (ds @ pk)"
  proof (cases "ds @ pk")
    case (Cons d dps)
    then have d: "d \<noteq> []" "hd d \<noteq> CHR ''.''" using plains assms(11) by (auto simp: plain_def)
    let ?j = "join_on CHR ''/'' (ds @ pk)"
    have "hd ?j \<noteq> CHR ''.''" "hd ?j \<noteq> CHR ''/''" "?j \<noteq> []"
      using d Cons hd_join [OF plains] by (auto simp: join_on_Cons hd_append)
    then have "TrimPrefix ?j ''.'' = ?j" "TrimPrefix ?j ''/'' = ?j"
      by (auto simp: TrimPrefix_def HasPrefix_def) (cases ?j; simp)+
    then show ?thesis using Cons by (simp add: inner_def dir)
  qed (simp add: inner_def dir TrimPrefix_def HasPrefix_def)
  have "snd (getGoPackage root (join_on CHR ''/'' ms) f) = Join (join_on CHR ''/'' ms) inner"
    using hd_join [OF assms(2,3)] assms(8) by (simp add: getGoPackage_def inner_def dir_def Let_def)
  also have "\<dots> = join_on CHR ''/'' (ms @ ds @ pk)"
    using Clean_join2 [OF assms(2) plains assms(3)] hd_join [OF assms(2,3)] by (simp add: Join_def inner)
  moreover have "buildOutputPath (abs_path rs) f = Join3 (abs_path rs) inner (nm @ ''.pb2.go'')"
    using TrimSuffix_append [of nm ProtoExtension] Base_relative [OF assms(5), of ds]
    by (simp add: buildOutputPath_def inner_def dir_def assms(7) PbGoExtension_def) (simp add: ProtoExtension_def)
  ultimately show ?thesis using Clean_abs3 [OF assms(1) plains assms(6)] by (simp add: inner)
qed

definition ex_package :: ProtoFile where
  "ex_package = (new_file ''/w/drivers/vesc.proto'')\<lparr>f_RelativePath := ''drivers/vesc.proto'',
     f_Package := Some \<lparr>pkg_Name = ParseName ''norma.vesc''\<rparr>\<rparr>"

theorem package_matches_folder_witness:
  "snd (getGoPackage ''/w'' ''norma/go'' ex_package) = ''norma/go/drivers/vesc'' \<and>
    buildOutputPath ''/w'' ex_package = ''/w/drivers/vesc/vesc.pb2.go''"
proof -
  have pkg: "package_name ex_package = ''vesc''" "go_package ex_package = []" by code_simp+
  have "f_RelativePath ex_package = join_on CHR ''/'' ([''drivers''] @ [''vesc'' @ ''.proto''])"
    by (simp add: ex_package_def)
  from package_matches_folder [OF _ _ _ _ _ _ this pkg(2), of "[''w'']" "[''norma'', ''go'']" "[''vesc'']" "''/w''"] pkg(1)
  show ?thesis by (simp add: plain_def abs_path_def)
qed


section \<open>Import aliases and names\<close>

text \<open>
  Import aliases are not unique: the third package with the same short name gets the alias of the
  second, because the number in the alias counts the imports that have exactly the short name.
\<close>

theorem import_alias_collision:
  assumes "gf_imports g = []" and "distinct (gf_FullPackageName g # map gf_FullPackageName [a, b, c])"
    and "\<forall>x \<in> set [a, b, c]. gf_ShortPackageName x = s"
  shows "map gi_Alias (gf_imports (AddProtoImport 3 c (AddProtoImport 2 b (AddProtoImport 1 a g)))) =
    [s, s @ ''_1'', s @ ''_1'']"
  using assms
  by (auto simp: AddProtoImport_def next_alias_def fmt_d.simps char_of_eq_iff)

definition ex_go_file :: "string \<Rightarrow> GoGeneratedFile" where
  "ex_go_file path = newGoFile 0 (''types'', path)"

theorem import_alias_collision_witness:
  "map gi_Alias (gf_imports (AddProtoImport 3 (ex_go_file ''m/c/types'') (AddProtoImport 2 (ex_go_file ''m/b/types'')
     (AddProtoImport 1 (ex_go_file ''m/a/types'') (ex_go_file ''m/main''))))) = [''types'', ''types_1'', ''types_1'']"
  using import_alias_collision [of "ex_go_file ''m/main''" "ex_go_file ''m/a/types''" "ex_go_file ''m/b/types''" "ex_go_file ''m/c/types''" "''types''"]
  by (simp add: ex_go_file_def newGoFile_def)

text \<open>
  The names of the generated structs of messages whose identifiers have no underscore are as
  distinct as the messages: the nested path can be read off the Go name. With underscores they are
  not: a nested message B of A and a message A_B get the same Go type.
\<close>

theorem struct_names_distinct:
  assumes "\<forall>p \<in> set (LocalPath (md_Name m) @ [ProtoName (md_Name m)] @ LocalPath (md_Name m') @ [ProtoName (md_Name m')]).
      CHR ''_'' \<notin> set p \<and> CHR ''.'' \<notin> set p"
  shows "struct_name m = struct_name m' \<longleftrightarrow>
    LocalPath (md_Name m) = LocalPath (md_Name m') \<and> ProtoName (md_Name m) = ProtoName (md_Name m')"
proof -
  have name: "struct_name x = join_on CHR ''_'' (LocalPath (md_Name x) @ [ProtoName (md_Name x)])"
    if "\<forall>p \<in> set (LocalPath (md_Name x) @ [ProtoName (md_Name x)]). CHR ''.'' \<notin> set p" for x
  proof -
    have "CHR ''.'' \<notin> set (join_on CHR ''_'' ps)" if "\<forall>p \<in> set ps. CHR ''.'' \<notin> set p" for ps
      using that by (induction ps) (auto simp: join_on_Cons)
    then have "ReplaceAll CHR ''.'' CHR ''_'' (join_on CHR ''_'' (LocalPath (md_Name x) @ [ProtoName (md_Name x)])) =
        join_on CHR ''_'' (LocalPath (md_Name x) @ [ProtoName (md_Name x)])"
      unfolding ReplaceAll_def using that by (intro map_idI) (metis (full_types))
    then show ?thesis by (cases "LocalPath (md_Name x) = []") (simp_all add: struct_name_def Let_def join_on_snoc)
  qed
  have "struct_name m = struct_name m' \<longleftrightarrow>
      join_on CHR ''_'' (LocalPath (md_Name m) @ [ProtoName (md_Name m)]) = join_on CHR ''_'' (LocalPath (md_Name m') @ [ProtoName (md_Name m')])"
    using name [of m] name [of m'] assms by simp
  also have "\<dots> \<longleftrightarrow> LocalPath (md_Name m) @ [ProtoName (md_Name m)] = LocalPath (md_Name m') @ [ProtoName (md_Name m')]"
    using join_on_inj [of "LocalPath (md_Name m) @ [ProtoName (md_Name m)]" "LocalPath (md_Name m') @ [ProtoName (md_Name m')]" "CHR ''_''"] assms
    by auto
  finally show ?thesis by auto
qed

definition ex_message :: "proto_parent \<Rightarrow> string \<Rightarrow> MessageDefinition" where
  "ex_message up nm = fst (extractMessage (new_file []) \<lparr>pm_Name = nm, pm_IsExtend = False, pm_Parent = up, pm_Elements = []\<rparr>)"

theorem struct_names_distinct_witness:
  "struct_name (ex_message (MessageParent ''A'' OtherParent) ''B'') \<noteq> struct_name (ex_message OtherParent ''B'')"
proof -
  have p: "LocalPath (md_Name (ex_message (MessageParent ''A'' OtherParent) ''B'')) = [''A'']"
    "LocalPath (md_Name (ex_message OtherParent ''B'')) = []"
    "ProtoName (md_Name (ex_message (MessageParent ''A'' OtherParent) ''B'')) = ''B''"
    "ProtoName (md_Name (ex_message OtherParent ''B'')) = ''B''" by code_simp+
  then show ?thesis
    using struct_names_distinct [of "ex_message (MessageParent ''A'' OtherParent) ''B''" "ex_message OtherParent ''B''"] by simp
qed

lemma struct_name_collision:
  "struct_name (ex_message (MessageParent ''A'' OtherParent) ''B'') = struct_name (ex_message OtherParent ''A_B'')"
  by code_simp


section \<open>Every resolved field gets a type\<close>

text \<open>
  A generated file knows the files it can name types of. All later steps only extend a file: they
  keep its definitions and the files it knows.
\<close>

definition knows :: "GoGeneratedFile \<Rightarrow> nat \<Rightarrow> bool" where
  "knows g t \<longleftrightarrow> t \<in> set (gf_samePackageImports g) \<or> (\<exists>imp \<in> set (gf_imports g). t \<in> set (gi_GoFiles imp))"

definition extends :: "GoGeneratedFile \<Rightarrow> GoGeneratedFile \<Rightarrow> bool" where
  "extends g g' \<longleftrightarrow> gf_ProtoFile g' = gf_ProtoFile g \<and> gf_enums g' = gf_enums g \<and>
     map gs_Proto (gf_structs g') = map gs_Proto (gf_structs g) \<and> (\<forall>t. knows g' t \<longleftrightarrow> knows g t)"

lemma extends_refl [simp]: "extends g g"
  by (simp add: extends_def)

lemma extends_trans: "extends f g \<Longrightarrow> extends g h \<Longrightarrow> extends f h"
  by (simp add: extends_def)

lemma extends_AddImport [simp]: "extends g (AddImport path alias g)"
  by (auto simp: extends_def AddImport_def knows_def)

lemma knows_update:
  assumes "\<And>imp. set (gi_GoFiles (h imp)) = set (gi_GoFiles imp) \<union> E" and "k < length (gf_imports g)"
  shows "knows (g\<lparr>gf_imports := (gf_imports g)[k := h (gf_imports g ! k)]\<rparr>) t \<longleftrightarrow> knows g t \<or> t \<in> E"
proof -
  define xs ys where "xs = take k (gf_imports g)" and "ys = drop (Suc k) (gf_imports g)"
  have "set (gf_imports g) = insert (gf_imports g ! k) (set xs \<union> set ys)"
    using id_take_nth_drop [OF assms(2)] by (metis Un_insert_right list.set(2) set_append xs_def ys_def)
  moreover have "set ((gf_imports g)[k := h (gf_imports g ! k)]) = insert (h (gf_imports g ! k)) (set xs \<union> set ys)"
    using assms(2) by (simp add: xs_def ys_def upd_conv_take_nth_drop)
  ultimately show ?thesis using assms(1) [of "gf_imports g ! k"] by (auto simp: knows_def)
qed

lemma AddProtoImport_knows: "knows (AddProtoImport t T g) t' \<longleftrightarrow> knows g t' \<or> t' = t"
proof (cases "find_index (\<lambda>goImport. gi_Path goImport = gf_FullPackageName T) (gf_imports g)")
  case (Some k)
  then have "k < length (gf_imports g)" by (simp add: find_index_Some)
  with Some knows_update [of "\<lambda>imp. imp\<lparr>gi_GoFiles := gi_GoFiles imp @ [t]\<rparr>" "{t}" k g t'] show ?thesis
    by (auto simp: AddProtoImport_def knows_def)
qed (auto simp: AddProtoImport_def knows_def)

lemma AddProtoImport_keeps:
  "gf_ProtoFile (AddProtoImport t T g) = gf_ProtoFile g" "gf_enums (AddProtoImport t T g) = gf_enums g"
  "gf_structs (AddProtoImport t T g) = gf_structs g"
  by (auto simp: AddProtoImport_def split: option.split)

lemma extends_findInImports: "extends g (fst (findInImports look goFiles f g)) \<and> gf_structs (fst (findInImports look goFiles f g)) = gf_structs g"
proof -
  have "knows (g\<lparr>gf_imports := (gf_imports g)[k := (gf_imports g ! k)\<lparr>gi_Used := True\<rparr>]\<rparr>) t = knows g t"
    if "k < length (gf_imports g)" for t k
    using knows_update [of "\<lambda>imp. imp\<lparr>gi_Used := True\<rparr>" "{}" k g t] that by simp
  then show ?thesis by (auto simp: extends_def findInImports_def dest!: find_index_Some split: option.split)
qed

lemma extends_ResolveType:
  "extends g (fst (ResolveType quote proto2 goFiles field g)) \<and>
    gf_structs (fst (ResolveType quote proto2 goFiles field g)) = gf_structs g"
proof -
  have import_keeps: "gf_structs (AddImport path al h) = gf_structs h" for path al h
    by (simp add: AddImport_def)
  have scalar: "extends g (fst (resolveScalarType quote field g)) \<and> gf_structs (fst (resolveScalarType quote field g)) = gf_structs g"
    by (auto simp: resolveScalarType_def parseDefaultValue_def Let_def import_keeps split: option.split)
  have "fst (resolveEnumType proto2 goFiles field g) = (case fd_ExternalTypeFile field of None \<Rightarrow> g
      | Some t \<Rightarrow> (case fd_ExternalEnumType field of None \<Rightarrow> g | Some i \<Rightarrow> fst (FindEnumInImports goFiles t (t, i) g)))"
    by (auto simp: resolveEnumType_def Let_def split: option.split prod.split)
  then have enum: "extends g (fst (resolveEnumType proto2 goFiles field g)) \<and> gf_structs (fst (resolveEnumType proto2 goFiles field g)) = gf_structs g"
    by (simp add: FindEnumInImports_def extends_findInImports split: option.split)
  have "fst (resolveMsgType goFiles field g) = (case fd_ExternalTypeFile field of None \<Rightarrow> g
      | Some t \<Rightarrow> (case fd_ExternalMsgType field of None \<Rightarrow> g | Some i \<Rightarrow> fst (FindStructInImports goFiles t (t, i) g)))"
    by (auto simp: resolveMsgType_def Let_def split: option.split prod.split)
  then have msg: "extends g (fst (resolveMsgType goFiles field g)) \<and> gf_structs (fst (resolveMsgType goFiles field g)) = gf_structs g"
    by (simp add: FindStructInImports_def extends_findInImports split: option.split)
  show ?thesis using scalar enum msg by (simp add: ResolveType_def)
qed

text \<open>The state after the definitions were added: file i has the index i and the definitions of proto file i.\<close>

definition gen_file_inv :: "ProtoFile list \<Rightarrow> nat \<Rightarrow> GoGeneratedFile \<Rightarrow> bool" where
  "gen_file_inv files i g \<longleftrightarrow> gf_ProtoFile g = i \<and>
     map ge_Proto (gf_enums g) = map (Pair i) [0..<length (f_Enums (files ! i))] \<and>
     map gs_Proto (gf_structs g) = map (Pair i) [0..<length (f_Messages (files ! i))] \<and>
     (\<forall>t. Some t \<in> im_TargetFile ` set (f_Imports (files ! i)) \<longrightarrow> knows g t) \<and>
     (\<forall>t. knows g t \<longrightarrow> t < length files)"

definition gen_inv :: "ProtoFile list \<Rightarrow> GoGeneratedFile list \<Rightarrow> bool" where
  "gen_inv files goFiles \<longleftrightarrow> length goFiles = length files \<and> (\<forall>i < length files. gen_file_inv files i (goFiles ! i))"

lemma gen_file_inv_extends: "gen_file_inv files i g \<Longrightarrow> extends g g' \<Longrightarrow> gen_file_inv files i g'"
  by (simp add: gen_file_inv_def extends_def)

lemma gen_inv_update:
  assumes "gen_inv files goFiles" and "i < length files" and "extends (goFiles ! i) g"
  shows "gen_inv files (goFiles[i := g])"
  using assms gen_file_inv_extends [of files i "goFiles ! i" g] by (simp add: gen_inv_def nth_list_update)

lemma find_proto:
  assumes "map P xs = map (Pair i) [0..<n]" and "j < n"
  shows "find (\<lambda>x. P x = (i, j)) xs \<noteq> None"
proof -
  have "(i, j) \<in> set (map P xs)" using assms by simp
  then obtain x where "x \<in> set xs" "P x = (i, j)" by auto
  then show ?thesis by (auto simp: find_None_iff)
qed

lemma found_in_imports:
  assumes "\<forall>k < n. gf_ProtoFile (goFiles ! k) = k" and "t < n" and "knows g t" and "look (goFiles ! t) \<noteq> None"
    and "\<forall>k. knows g k \<longrightarrow> k < n"
  shows "snd (snd (findInImports look goFiles t g)) \<noteq> None"
proof (cases "find (\<lambda>k. gf_ProtoFile (goFiles ! k) = t) (gf_samePackageImports g)")
  case (Some k)
  then have "k \<in> set (gf_samePackageImports g)" "gf_ProtoFile (goFiles ! k) = t" by (auto simp: find_Some_iff)
  then have "k = t" using assms(1,5) by (auto simp: knows_def)
  with Some assms(4) show ?thesis by (simp add: findInImports_def)
next
  case None
  then have "t \<notin> set (gf_samePackageImports g)" using assms(1,2) by (auto simp: find_None_iff)
  then obtain imp where imp: "imp \<in> set (gf_imports g)" "t \<in> set (gi_GoFiles imp)" using assms(3) by (auto simp: knows_def)
  show ?thesis
  proof (cases "find_index (\<lambda>goImport. list_ex (\<lambda>k. gf_ProtoFile (goFiles ! k) = t) (gi_GoFiles goImport)) (gf_imports g)")
    case no: None
    with imp assms(1,2) show ?thesis by (auto simp: find_index_None list_ex_iff)
  next
    case (Some j)
    from find_index_Some [OF this] obtain k where k: "j < length (gf_imports g)" "k \<in> set (gi_GoFiles (gf_imports g ! j))" "gf_ProtoFile (goFiles ! k) = t"
      by (auto simp: list_ex_iff)
    then have "knows g k" by (auto simp: knows_def)
    with k assms(1,5) have "k = t" by simp
    then have "first_some (\<lambda>k. look (goFiles ! k)) (gi_GoFiles (gf_imports g ! j)) \<noteq> None"
      using k(2) assms(4) by (auto simp: first_some_None)
    then show ?thesis using None Some by (simp add: findInImports_def)
  qed
qed

lemma go_basic_name_known: "t \<in> set ProtobufScalarTypes \<Longrightarrow> go_basic_name t \<noteq> []"
  by (auto simp: ProtobufScalarTypes_def go_basic_name_def goBasicTypesMap_def)

lemma map_type_ok: "known_types field \<Longrightarrow> fd_Map field \<Longrightarrow> \<exists>ty. map_type field vt = Inr ty"
  using go_basic_name_known [of "fd_MapKeyType field"]
  by (simp add: known_types_def map_type_def resolveMapKeyType_def Let_def)

lemma resolveEnumType_ok:
  assumes "known_types field" and "case fd_ExternalTypeFile field of
      Some t \<Rightarrow> \<exists>i. fd_ExternalEnumType field = Some i \<and> snd (snd (FindEnumInImports goFiles t (t, i) g)) \<noteq> None
    | None \<Rightarrow> \<exists>i. fd_LocalEnumType field = Some i \<and> FindEnum g (gf_ProtoFile g, i) \<noteq> None"
  shows "\<exists>ty. snd (resolveEnumType proto2 goFiles field g) = Inr ty"
  using assms(2) map_type_ok [OF assms(1)]
  by (auto simp: resolveEnumType_def local_ref_def Let_def split: option.splits prod.split)

lemma resolveMsgType_ok:
  assumes "known_types field" and "case fd_ExternalTypeFile field of
      Some t \<Rightarrow> \<exists>i. fd_ExternalMsgType field = Some i \<and> snd (snd (FindStructInImports goFiles t (t, i) g)) \<noteq> None
    | None \<Rightarrow> \<exists>i. fd_LocalMsgType field = Some i \<and> FindStruct g (gf_ProtoFile g, i) \<noteq> None"
  shows "\<exists>ty. snd (resolveMsgType goFiles field g) = Inr ty"
  using assms(2) map_type_ok [OF assms(1)]
  by (auto simp: resolveMsgType_def local_ref_def Let_def split: option.splits prod.split)

lemma resolveScalarType_ok:
  "known_types field \<Longrightarrow> fd_ScalarValueType field \<noteq> [] \<Longrightarrow> \<exists>ty. snd (resolveScalarType quote field g) = Inr ty"
  using go_basic_name_known [of "fd_ScalarValueType field"] map_type_ok [of field]
  by (auto simp: resolveScalarType_def known_types_def Let_def split: prod.split)

lemma ResolveType_ok:
  assumes "gen_inv files goFiles" and "i < length files" and "typed_field files (files ! i) field" and "known_types field"
  shows "\<exists>ty. snd (ResolveType quote proto2 goFiles field (goFiles ! i)) = Inr ty"
proof -
  let ?g = "goFiles ! i"
  have inv: "gen_file_inv files k (goFiles ! k)" if "k < length files" for k using assms(1) that by (simp add: gen_inv_def)
  have index: "\<forall>k < length files. gf_ProtoFile (goFiles ! k) = k" using inv by (simp add: gen_file_inv_def)
  have enum: "FindEnum (goFiles ! t) (t, j) \<noteq> None" if "t < length files" "j < length (f_Enums (files ! t))" for t j
    unfolding FindEnum_def using inv [OF that(1)] that(2) by (intro find_proto) (auto simp: gen_file_inv_def)
  have struct: "FindStruct (goFiles ! t) (t, j) \<noteq> None" if "t < length files" "j < length (f_Messages (files ! t))" for t j
    unfolding FindStruct_def using inv [OF that(1)] that(2) by (intro find_proto) (auto simp: gen_file_inv_def)
  have known: "knows ?g t" if "Some t \<in> im_TargetFile ` set (f_Imports (files ! i))" for t
    using inv [OF assms(2)] that by (simp add: gen_file_inv_def)
  have bounded: "\<forall>t. knows ?g t \<longrightarrow> t < length files" using inv [OF assms(2)] by (simp add: gen_file_inv_def)
  have g: "gf_ProtoFile ?g = i" using index assms(2) by simp
  from assms(3) consider
      (scalar) "fd_ScalarValueType field \<noteq> []"
    | (local_enum) j where "fd_ScalarValueType field = []" "refs field = (Some j, None, None, None, None)" "j < length (f_Enums (files ! i))"
    | (local_msg) j where "fd_ScalarValueType field = []" "refs field = (None, Some j, None, None, None)" "j < length (f_Messages (files ! i))"
    | (ext_enum) t j where "fd_ScalarValueType field = []" "t < length files" "Some t \<in> im_TargetFile ` set (f_Imports (files ! i))"
        "refs field = (None, None, Some t, Some j, None)" "j < length (f_Enums (files ! t))"
    | (ext_msg) t j where "fd_ScalarValueType field = []" "t < length files" "Some t \<in> im_TargetFile ` set (f_Imports (files ! i))"
        "refs field = (None, None, Some t, None, Some j)" "j < length (f_Messages (files ! t))"
    unfolding typed_field_def by blast
  then show ?thesis
  proof cases
    case scalar
    with resolveScalarType_ok [OF assms(4) scalar] show ?thesis by (simp add: ResolveType_def)
  next
    case local_enum
    with enum [OF assms(2)] resolveEnumType_ok [OF assms(4), where goFiles = goFiles and g = ?g] g show ?thesis by (simp add: ResolveType_def refs_def)
  next
    case local_msg
    with struct [OF assms(2)] resolveMsgType_ok [OF assms(4), where goFiles = goFiles and g = ?g] g show ?thesis by (simp add: ResolveType_def refs_def)
  next
    case ext_enum
    have "snd (snd (FindEnumInImports goFiles t (t, j) ?g)) \<noteq> None"
      unfolding FindEnumInImports_def
      by (rule found_in_imports [where n = "length files"]) (use index ext_enum enum known bounded in auto)
    with ext_enum resolveEnumType_ok [OF assms(4), where goFiles = goFiles and g = ?g] show ?thesis by (simp add: ResolveType_def refs_def)
  next
    case ext_msg
    have "snd (snd (FindStructInImports goFiles t (t, j) ?g)) \<noteq> None"
      unfolding FindStructInImports_def
      by (rule found_in_imports [where n = "length files"]) (use index ext_msg struct known bounded in auto)
    with ext_msg resolveMsgType_ok [OF assms(4), where goFiles = goFiles and g = ?g] show ?thesis by (simp add: ResolveType_def refs_def)
  qed
qed

text \<open>The loops: imports first, then the definitions, then the fields.\<close>

definition imports_inv :: "nat \<Rightarrow> GoGeneratedFile list \<Rightarrow> bool" where
  "imports_inv n goFiles \<longleftrightarrow> length goFiles = n \<and> (\<forall>i < n. gf_ProtoFile (goFiles ! i) = i \<and>
     gf_enums (goFiles ! i) = [] \<and> gf_structs (goFiles ! i) = [] \<and> (\<forall>t. knows (goFiles ! i) t \<longrightarrow> t < n))"

lemma imports_inv_index: "imports_inv n goFiles \<Longrightarrow> t < n \<Longrightarrow> find_index (\<lambda>g. gf_ProtoFile g = t) goFiles = Some t"
proof (cases "find_index (\<lambda>g. gf_ProtoFile g = t) goFiles")
  case None
  assume "imports_inv n goFiles" "t < n"
  then have "goFiles ! t \<in> set goFiles" "gf_ProtoFile (goFiles ! t) = t" by (simp_all add: imports_inv_def)
  with None show ?thesis unfolding find_index_None by blast
next
  case (Some k)
  assume "imports_inv n goFiles" "t < n"
  with find_index_Some [OF Some] Some show ?thesis by (auto simp: imports_inv_def)
qed

lemma map_import_ok:
  assumes "imports_inv n goFiles" and "i < n" and "im_TargetFile imp = Some t" and "t < n"
  shows "\<exists>goFiles'. map_import files i imp (goFiles, errors) = Ok (goFiles', errors) \<and> imports_inv n goFiles' \<and>
    knows (goFiles' ! i) t \<and> (\<forall>k < n. \<forall>t'. knows (goFiles ! k) t' \<longrightarrow> knows (goFiles' ! k) t')"
proof -
  let ?fs = "goFiles[i := AddProtoImport t (goFiles ! t) (goFiles ! i)]"
  have len: "length goFiles = n" using assms(1) by (simp add: imports_inv_def)
  have "imports_inv n ?fs"
    using assms(1,2,4) by (auto simp: imports_inv_def nth_list_update AddProtoImport_keeps AddProtoImport_knows)
  moreover have "knows (?fs ! i) t" "\<forall>k < n. \<forall>t'. knows (goFiles ! k) t' \<longrightarrow> knows (?fs ! k) t'"
    using assms(2) len by (auto simp: AddProtoImport_knows nth_list_update)
  moreover have "map_import files i imp (goFiles, errors) = Ok (?fs, errors)"
    by (simp add: map_import_def assms(3) imports_inv_index [OF assms(1,4)])
  ultimately show ?thesis by blast
qed

lemma map_file_imports_ok:
  assumes "imports_inv n goFiles" and "i < n" and "list_all (\<lambda>imp. \<exists>t < n. im_TargetFile imp = Some t) imps"
  shows "\<exists>goFiles'. gfold (map_import files i) imps (goFiles, errors) = Ok (goFiles', errors) \<and> imports_inv n goFiles' \<and>
    (\<forall>t. Some t \<in> im_TargetFile ` set imps \<longrightarrow> knows (goFiles' ! i) t) \<and>
    (\<forall>k < n. \<forall>t'. knows (goFiles ! k) t' \<longrightarrow> knows (goFiles' ! k) t')"
  using assms
proof (induction imps arbitrary: goFiles)
  case (Cons imp imps)
  then obtain t where t: "t < n" "im_TargetFile imp = Some t" by auto
  from map_import_ok [OF Cons.prems(1,2) t(2,1), of files errors] obtain fs where
    fs: "map_import files i imp (goFiles, errors) = Ok (fs, errors)" "imports_inv n fs" "knows (fs ! i) t"
      "\<forall>k < n. \<forall>t'. knows (goFiles ! k) t' \<longrightarrow> knows (fs ! k) t'" by blast
  from Cons.IH [OF fs(2) Cons.prems(2)] Cons.prems(3) obtain gs where
    gs: "gfold (map_import files i) imps (fs, errors) = Ok (gs, errors)" "imports_inv n gs"
      "\<forall>t. Some t \<in> im_TargetFile ` set imps \<longrightarrow> knows (gs ! i) t" "\<forall>k < n. \<forall>t'. knows (fs ! k) t' \<longrightarrow> knows (gs ! k) t'" by auto
  show ?case using fs gs t(2) Cons.prems(2) by (intro exI [of _ gs]) auto
qed simp

lemma gfold_append: "gfold step (xs @ ys) s = gbind (gfold step xs s) (gfold step ys)"
proof (induction xs arbitrary: s)
  case (Cons x xs)
  then show ?case by (cases "step x s") simp_all
qed simp

definition imports_mapped :: "ProtoFile list \<Rightarrow> nat \<Rightarrow> GoGeneratedFile list \<Rightarrow> bool" where
  "imports_mapped files m goFiles \<longleftrightarrow>
     (\<forall>i < m. \<forall>t. Some t \<in> im_TargetFile ` set (f_Imports (files ! i)) \<longrightarrow> knows (goFiles ! i) t)"

lemma mapImports_ok:
  assumes "imports_inv n goFiles" and "\<forall>i < n. list_all (\<lambda>imp. \<exists>t < n. im_TargetFile imp = Some t) (f_Imports (files ! i))"
  shows "\<exists>goFiles'. mapImports files goFiles = Ok (goFiles', []) \<and> imports_inv n goFiles' \<and> imports_mapped files n goFiles'"
proof -
  have "m \<le> n \<Longrightarrow> \<exists>fs. gfold (\<lambda>i. gfold (map_import files i) (f_Imports (files ! i))) [0..<m] (goFiles, []) = Ok (fs, []) \<and>
      imports_inv n fs \<and> imports_mapped files m fs" for m
  proof (induction m)
    case 0
    then show ?case using assms(1) by (simp add: imports_mapped_def)
  next
    case (Suc m)
    then obtain fs where fs: "gfold (\<lambda>i. gfold (map_import files i) (f_Imports (files ! i))) [0..<m] (goFiles, []) = Ok (fs, [])"
      "imports_inv n fs" "imports_mapped files m fs" by auto
    from map_file_imports_ok [OF fs(2), of m "f_Imports (files ! m)" files "[]"] assms(2) Suc.prems obtain gs where
      "gfold (map_import files m) (f_Imports (files ! m)) (fs, []) = Ok (gs, [])" "imports_inv n gs"
      "\<forall>t. Some t \<in> im_TargetFile ` set (f_Imports (files ! m)) \<longrightarrow> knows (gs ! m) t"
      "\<forall>k < n. \<forall>t'. knows (fs ! k) t' \<longrightarrow> knows (gs ! k) t'" by auto
    with fs Suc.prems show ?case by (simp add: gfold_append imports_mapped_def less_Suc_eq)
  qed
  from this [of n] assms(1) show ?thesis by (simp add: mapImports_def imports_inv_def)
qed

lemma add_types_inv:
  assumes "imports_inv (length files) goFiles" and "imports_mapped files (length files) goFiles"
  shows "gen_inv files (map (add_types files) (map (\<lambda>g. g\<lparr>gf_FullOutputPath := out g\<rparr>) goFiles))"
proof -
  have e: "map (\<lambda>x. ge_Proto (case x of (j, y) \<Rightarrow> NewEnumType (i, j) y)) (enumerate n es) = map (Pair i) [n..<n + length es]" for i n es
    by (intro nth_equalityI) (simp_all add: nth_enumerate_eq NewEnumType_def split: prod.split)
  have m: "map (\<lambda>x. gs_Proto (case x of (j, y) \<Rightarrow> NewStructType (i, j) y)) (enumerate n ms) = map (Pair i) [n..<n + length ms]" for i n ms
    by (intro nth_equalityI) (simp_all add: nth_enumerate_eq NewStructType_def)
  have one: "gen_file_inv files i (add_types files (g\<lparr>gf_FullOutputPath := path\<rparr>))"
    if "gf_ProtoFile g = i" "gf_enums g = []" "gf_structs g = []"
      "\<forall>t. Some t \<in> im_TargetFile ` set (f_Imports (files ! i)) \<longrightarrow> knows g t" "\<forall>t. knows g t \<longrightarrow> t < length files" for i g path
    using that e [of i 0 "f_Enums (files ! i)"] m [of i 0 "f_Messages (files ! i)"]
    by (simp add: gen_file_inv_def add_types_def Let_def knows_def comp_def)
  have "gen_file_inv files i (add_types files ((goFiles ! i)\<lparr>gf_FullOutputPath := out (goFiles ! i)\<rparr>))" if "i < length files" for i
    using assms that by (intro one) (auto simp: imports_inv_def imports_mapped_def)
  then show ?thesis using assms(1) by (simp add: gen_inv_def imports_inv_def)
qed

definition fields_ok :: "ProtoFile list \<Rightarrow> nat \<Rightarrow> bool" where
  "fields_ok files i \<longleftrightarrow> (\<forall>m \<in> set (f_Messages (files ! i)).
     list_all (\<lambda>field. typed_field files (files ! i) field \<and> known_types field) (md_Fields m))"

lemma map_field_ok:
  assumes "gen_inv files goFiles" and "i < length files" and "typed_field files (files ! i) field" and "known_types field"
  shows "\<exists>goFiles'. map_field quote files i j field (goFiles, errors) = (goFiles', errors) \<and> gen_inv files goFiles'"
proof -
  obtain g res where r: "ResolveType quote (f_Proto2 (files ! i)) goFiles field (goFiles ! i) = (g, res)" by force
  from ResolveType_ok [OF assms, of quote "f_Proto2 (files ! i)"] r obtain ty where "res = Inr ty" by auto
  moreover have "extends (goFiles ! i) g" "gf_structs g = gf_structs (goFiles ! i)"
    using extends_ResolveType [of "goFiles ! i" quote "f_Proto2 (files ! i)" goFiles field] r by auto
  then have "extends (goFiles ! i) (g\<lparr>gf_structs := (gf_structs g)[j := AddField field ty (gf_structs g ! j)]\<rparr>)"
    by (auto simp: extends_def knows_def map_update AddField_def list_update_id)
      (metis (no_types, lifting) list_update_id map_update list_update_beyond nth_map not_le)+
  from gen_inv_update [OF assms(1,2) this] show ?thesis using r \<open>res = Inr ty\<close> by (simp add: map_field_def)
qed

lemma fold_fields_ok:
  assumes "gen_inv files goFiles" and "i < length files"
    and "list_all (\<lambda>field. typed_field files (files ! i) field \<and> known_types field) fs"
  shows "\<exists>goFiles'. fold (map_field quote files i j) fs (goFiles, errors) = (goFiles', errors) \<and> gen_inv files goFiles'"
  using assms
proof (induction fs arbitrary: goFiles)
  case (Cons field fs)
  from map_field_ok [OF Cons.prems(1,2), of field quote j errors] Cons.prems(3) obtain gs where
    "map_field quote files i j field (goFiles, errors) = (gs, errors)" "gen_inv files gs" by auto
  with Cons.IH [of gs] Cons.prems show ?case by simp
qed auto

lemma map_fields_ok:
  assumes "gen_inv files goFiles" and "i < length files" and "fields_ok files i"
  shows "\<exists>goFiles'. map_fields quote files i (goFiles, errors) = (goFiles', errors) \<and> gen_inv files goFiles'"
proof -
  have "\<exists>gs'. fold (\<lambda>(j, message). fold (map_field quote files i j) (md_Fields message)) jms (gs, errors) = (gs', errors) \<and> gen_inv files gs'"
    if "gen_inv files gs" "snd ` set jms \<subseteq> set (f_Messages (files ! i))" for jms gs
    using that
  proof (induction jms arbitrary: gs)
    case (Cons jm jms)
    have "list_all (\<lambda>field. typed_field files (files ! i) field \<and> known_types field) (md_Fields (snd jm))"
      using Cons.prems(2) assms(3) by (auto simp: fields_ok_def)
    from fold_fields_ok [OF Cons.prems(1) assms(2) this, of quote "fst jm" errors] obtain hs where
      "fold (map_field quote files i (fst jm)) (md_Fields (snd jm)) (gs, errors) = (hs, errors)" "gen_inv files hs" by blast
    with Cons.IH [of hs] Cons.prems(2) show ?case by (simp add: case_prod_unfold)
  qed auto
  moreover have "snd ` set (enumerate 0 (f_Messages (files ! i))) = set (f_Messages (files ! i))"
    by (metis list.set_map map_snd_enumerate)
  ultimately show ?thesis using assms(1) by (simp add: map_fields_def)
qed

lemma map_all_fields_ok:
  assumes "gen_inv files goFiles" and "\<forall>i \<in> set is. i < length files \<and> fields_ok files i"
  shows "\<exists>goFiles'. fold (map_fields quote files) is (goFiles, errors) = (goFiles', errors) \<and> gen_inv files goFiles'"
  using assms
proof (induction "is" arbitrary: goFiles)
  case (Cons i "is")
  from map_fields_ok [OF Cons.prems(1), of i quote errors] Cons.prems(2) obtain gs where
    "map_fields quote files i (goFiles, errors) = (gs, errors)" "gen_inv files gs" by auto
  with Cons.IH [of gs] Cons.prems(2) show ?case by simp
qed auto

lemma generator_maps:
  assumes "\<forall>i < length files. list_all (has_target (length files)) (f_Imports (files ! i)) \<and>
      (\<forall>m \<in> set (f_Messages (files ! i)). list_all (\<lambda>field. typed_field files (files ! i) field \<and> known_types field) (md_Fields m))"
  shows "\<exists>goFiles. MapProtoFiles quote root modulePath files = Ok (goFiles, []) \<and> length goFiles = length files \<and>
    (\<forall>i < length files. length (gf_structs (goFiles ! i)) = length (f_Messages (files ! i)))"
proof -
  let ?packages = "map (getGoPackage root modulePath) files"
  let ?start = "map (\<lambda>(i, pkg). newGoFile i pkg) (enumerate 0 ?packages)"
  have "imports_inv (length files) ?start"
    by (auto simp: imports_inv_def nth_enumerate_eq newGoFile_def knows_def)
  from mapImports_ok [OF this, of files] assms obtain gs where
    gs: "mapImports files ?start = Ok (gs, [])" "imports_inv (length files) gs" "imports_mapped files (length files) gs"
    by (auto simp: has_target_def list_all_iff)
  let ?gs = "map (add_types files) (map (\<lambda>g. g\<lparr>gf_FullOutputPath := buildOutputPath root (files ! gf_ProtoFile g)\<rparr>) gs)"
  have inv: "gen_inv files ?gs" using gs(2,3) by (rule add_types_inv)
  have "\<forall>i \<in> set [0..<length ?gs]. i < length files \<and> fields_ok files i"
    using assms gs(2) by (auto simp: imports_inv_def fields_ok_def)
  from map_all_fields_ok [OF inv this, of quote "[]"] obtain hs where
    hs: "fold (map_fields quote files) [0..<length ?gs] (?gs, []) = (hs, [])" "gen_inv files hs" by blast
  have "\<not> list_ex (\<lambda>(shortName, fullName). shortName = [] \<or> fullName = []) ?packages"
    using go_package_found by (auto simp: list_ex_iff) (metis fst_conv snd_conv)+
  then have "MapProtoFiles quote root modulePath files = Ok (hs, [])"
    using gs(1) hs(1) by (simp add: MapProtoFiles_def)
  moreover have "length (gf_structs (hs ! i)) = length (f_Messages (files ! i))" if "i < length files" for i
    using hs(2) that by (auto simp: gen_inv_def gen_file_inv_def dest!: arg_cong [where f = length] spec [of _ i])
  ultimately show ?thesis using hs(2) by (auto simp: gen_inv_def)
qed

end
