(* ===== verification/Go_Schema.thy ===== *)
theory Go_Schema
  imports Go_Compile
begin

text \<open>
  The link between the compiler and the message code: the schema that the generated structs of a run
  stand for. A field type of the generator denotes a field type of the message model; the value of
  a default literal is what the Go compiler makes of its text, given by the function \<open>lit\<close>.
\<close>

section \<open>The schema of the generated files\<close>

definition scalar_of :: "string \<Rightarrow> scalar" where
  "scalar_of t =
     (case map_of [(''string'', PString), (''bytes'', PBytes), (''bool'', PBool), (''double'', PDouble), (''float'', PFloat),
        (''int32'', PInt32), (''int64'', PInt64), (''uint32'', PUint32), (''uint64'', PUint64), (''sint32'', PSint32),
        (''sint64'', PSint64), (''fixed32'', PFixed32), (''fixed64'', PFixed64), (''sfixed32'', PSfixed32), (''sfixed64'', PSfixed64)] t of
        Some s \<Rightarrow> s | None \<Rightarrow> PString)"

fun denote_value :: "(scalar \<Rightarrow> string \<Rightarrow> gval) \<Rightarrow> (string \<Rightarrow> string) \<Rightarrow> gen_value \<Rightarrow> go_value_type" where
  "denote_value lit q (GenBasic t) = GoBasic (scalar_of (bt_ProtoType t))
     (if bt_DefaultValue t = [] then None else Some (lit (scalar_of (bt_ProtoType t)) (bt_DefaultValue t))) (bt_Required t)"
| "denote_value lit q (GenEnum t) = GoEnum (if et_DefaultValue t = [] then None else Some (as_32 (lit PInt32 (et_DefaultValue t)))) (et_Required t)"
| "denote_value lit q (GenStruct t) = GoStruct (q (st_StructPackage t) @ ''.'' @ st_StructName t) (st_Required t)"

fun denote_field :: "(scalar \<Rightarrow> string \<Rightarrow> gval) \<Rightarrow> (string \<Rightarrow> string) \<Rightarrow> gen_field \<Rightarrow> go_field_type" where
  "denote_field lit q (GenValue t) = GoValue (denote_value lit q t)"
| "denote_field lit q (GenRepeated t r) = GoRepeated (denote_value lit q t) r"
| "denote_field lit q (GenRepeatedPacked t r) = GoRepeatedPacked (denote_value lit q t) r"
| "denote_field lit q (GenMap k t) = GoMap (denote_value lit q k) (denote_value lit q t)"

text \<open>The wire number constant of a field is the number of the proto field.\<close>

definition go_field_of :: "(scalar \<Rightarrow> string \<Rightarrow> gval) \<Rightarrow> (string \<Rightarrow> string) \<Rightarrow> GoStructField \<Rightarrow> go_field" where
  "go_field_of lit q f = \<lparr>field_tag = word_of_int (pf_Sequence (fd_ProtoDef (sf_Proto f))), field_type = denote_field lit q (sf_Type f)\<rparr>"

text \<open>
  The package that a qualifier stands for in a file: its own package, or the path that the file
  imports under this name. A struct is known by its package and its name.
\<close>

definition go_qualifier :: "GoGeneratedFile \<Rightarrow> string \<Rightarrow> string" where
  "go_qualifier g pkg =
     (if pkg = [] then gf_FullPackageName g
      else case find (\<lambda>imp. gi_Alias imp = pkg) (gf_imports g) of Some imp \<Rightarrow> gi_Path imp | None \<Rightarrow> [])"

definition schema_of :: "(scalar \<Rightarrow> string \<Rightarrow> gval) \<Rightarrow> GoGeneratedFile list \<Rightarrow> schema" where
  "schema_of lit goFiles =
     concat (map (\<lambda>g. map (\<lambda>st. (gf_FullPackageName g @ ''.'' @ gs_StructName st, map (go_field_of lit (go_qualifier g)) (gs_Fields st))) (gf_structs g)) goFiles)"


section \<open>Field types are well formed\<close>

definition lit_typed :: "(scalar \<Rightarrow> string \<Rightarrow> gval) \<Rightarrow> bool" where
  "lit_typed lit \<longleftrightarrow> (\<forall>s d. basic_shape s (lit s d))"

definition key_ok :: "MessageFieldDefinition \<Rightarrow> bool" where
  "key_ok field \<longleftrightarrow> (fd_Map field \<longrightarrow> fd_MapKeyType field \<notin> set [''bytes'', ''float'', ''double''])"

lemma packed_scalar:
  "CanBePacked_basic \<lparr>bt_Name = n, bt_ProtoType = p, bt_DefaultValue = d, bt_Required = r\<rparr> \<Longrightarrow> canBePacked (scalar_of p)"
  by (auto simp: CanBePacked_basic_def scalar_of_def)

lemma basic_value_ok: "lit_typed lit \<Longrightarrow> field_type_ok (GoValue (denote_value lit q (GenBasic t)))"
  by (simp add: lit_typed_def)

lemma map_key_scalar:
  assumes "go_basic_name k \<noteq> []" and "k \<notin> set [''bytes'', ''float'', ''double'']"
  shows "scalar_of k \<notin> {PBytes, PFloat, PDouble}"
proof -
  have "k \<in> fst ` set goBasicTypesMap"
    using assms(1) by (auto simp: go_basic_name_def split: option.splits dest: map_of_SomeD intro: rev_image_eqI)
  then show ?thesis using assms(2) by (auto simp: goBasicTypesMap_def scalar_of_def)
qed

lemma map_type_denotes: "map_type field vt = Inr ty \<Longrightarrow> fd_Map field \<Longrightarrow> key_ok field \<Longrightarrow> field_type_ok (denote_field lit q ty)"
  using map_key_scalar [of "fd_MapKeyType field"]
  by (auto simp: map_type_def resolveMapKeyType_def key_ok_def Let_def split: if_splits)

lemma ResolveType_denotes:
  assumes "snd (ResolveType quote proto2 goFiles field g) = Inr ty" and "key_ok field" and "lit_typed lit"
  shows "field_type_ok (denote_field lit q ty)"
proof -
  have m: "field_type_ok (denote_field lit q ty)" if "map_type field vt = Inr ty" "fd_Map field" for vt
    using map_type_denotes [OF that assms(2)] .
  have "snd (resolveScalarType quote field g) = Inr ty \<Longrightarrow> field_type_ok (denote_field lit q ty)"
    using m assms(3) by (auto simp: resolveScalarType_def Let_def lit_typed_def dest: packed_scalar split: if_splits prod.splits)
  moreover have "snd (resolveEnumType proto2 goFiles field g) = Inr ty \<Longrightarrow> field_type_ok (denote_field lit q ty)"
    using m by (auto simp: resolveEnumType_def Let_def split: if_splits prod.splits option.splits)
  moreover have "snd (resolveMsgType goFiles field g) = Inr ty \<Longrightarrow> field_type_ok (denote_field lit q ty)"
    using m by (auto simp: resolveMsgType_def Let_def split: if_splits prod.splits option.splits)
  ultimately show ?thesis using assms(1) by (auto simp: ResolveType_def split: if_splits)
qed


section \<open>The fields of a generated struct\<close>

text \<open>A struct whose fields come from a list of proto fields, in their order and with good types.\<close>

definition fields_from :: "MessageFieldDefinition list \<Rightarrow> GoStructType \<Rightarrow> bool" where
  "fields_from fs st \<longleftrightarrow> subseq (map sf_Proto (gs_Fields st)) fs \<and>
     (\<forall>lit q. lit_typed lit \<longrightarrow> list_all (\<lambda>f. key_ok (sf_Proto f) \<longrightarrow> field_type_ok (denote_field lit q (sf_Type f))) (gs_Fields st))"

lemma fields_from_more: "fields_from fs st \<Longrightarrow> fields_from (fs @ gs) st"
  by (auto simp: fields_from_def intro: subseq_order.trans)

lemma fields_from_AddField:
  "fields_from fs st \<Longrightarrow> (\<And>lit q. lit_typed lit \<Longrightarrow> key_ok field \<Longrightarrow> field_type_ok (denote_field lit q ty)) \<Longrightarrow>
    fields_from (fs @ [field]) (AddField field ty st)"
  by (auto simp: fields_from_def AddField_def)

lemma nth_update_any: "xs[i := x] ! j = (if i = j \<and> j < length xs then x else xs ! j)"
  by (cases "i < length xs") (auto simp: list_update_beyond)

text \<open>The proto fields that may have been added to struct j of file i so far.\<close>

definition structs_from :: "ProtoFile list \<Rightarrow> (nat \<Rightarrow> nat \<Rightarrow> MessageFieldDefinition list) \<Rightarrow> GoGeneratedFile list \<Rightarrow> bool" where
  "structs_from files d goFiles \<longleftrightarrow> length goFiles = length files \<and> (\<forall>i < length files.
     length (gf_structs (goFiles ! i)) = length (f_Messages (files ! i)) \<and>
     (\<forall>j < length (f_Messages (files ! i)). fields_from (d i j) (gf_structs (goFiles ! i) ! j)))"

definition extend_at :: "nat \<Rightarrow> nat \<Rightarrow> MessageFieldDefinition list \<Rightarrow> (nat \<Rightarrow> nat \<Rightarrow> MessageFieldDefinition list) \<Rightarrow> nat \<Rightarrow> nat \<Rightarrow> MessageFieldDefinition list" where
  "extend_at i j fs d = (\<lambda>i' j'. if i' = i \<and> j' = j then d i j @ fs else d i' j')"

lemma map_field_from:
  assumes "structs_from files d (fst st)" and "i < length files"
  shows "structs_from files (extend_at i j [field] d) (fst (map_field quote files i j field st))"
proof -
  obtain goFiles errors where st: "st = (goFiles, errors)" by force
  obtain g res where r: "ResolveType quote (f_Proto2 (files ! i)) goFiles field (goFiles ! i) = (g, res)" by force
  have g: "gf_structs g = gf_structs (goFiles ! i)"
    using extends_ResolveType [of "goFiles ! i" quote "f_Proto2 (files ! i)" goFiles field] r by simp
  have len: "length goFiles = length files" using assms(1) st by (simp add: structs_from_def)
  have more: "fields_from (extend_at i j [field] d i' j') s" if "fields_from (d i' j') s" for i' j' s
    using that by (auto simp: extend_at_def intro: fields_from_more)
  show ?thesis
  proof (cases res)
    case (Inl e)
    then show ?thesis
      using assms more by (auto simp: st map_field_def r structs_from_def nth_update_any g)
  next
    case (Inr ty)
    have ty: "lit_typed lit \<Longrightarrow> key_ok field \<Longrightarrow> field_type_ok (denote_field lit q ty)" for lit q
      using ResolveType_denotes [of quote "f_Proto2 (files ! i)" goFiles field "goFiles ! i" ty lit q] r Inr by simp
    have "fields_from (extend_at i j [field] d i j) (AddField field ty (gf_structs (goFiles ! i) ! j))"
      if "j < length (f_Messages (files ! i))"
      using assms that fields_from_AddField [OF _ ty] by (simp add: st structs_from_def extend_at_def)
    then show ?thesis
      using assms more by (auto simp: st map_field_def r Inr structs_from_def nth_update_any g)
  qed
qed

lemma extend_at_append: "extend_at i j gs (extend_at i j fs d) = extend_at i j (fs @ gs) d"
  by (auto simp: extend_at_def fun_eq_iff)

lemma extend_at_Nil [simp]: "extend_at i j [] d = d"
  by (auto simp: extend_at_def fun_eq_iff)

lemma fold_field_from:
  "structs_from files d (fst st) \<Longrightarrow> i < length files \<Longrightarrow>
    structs_from files (extend_at i j fs d) (fst (fold (map_field quote files i j) fs st))"
proof (induction fs arbitrary: d st)
  case (Cons field fs)
  from Cons.IH [OF map_field_from [OF Cons.prems, of j field quote] Cons.prems(2)] show ?case
    by (simp add: extend_at_append)
qed simp

definition extend_file :: "nat \<Rightarrow> MessageDefinition list \<Rightarrow> (nat \<Rightarrow> nat \<Rightarrow> MessageFieldDefinition list) \<Rightarrow> nat \<Rightarrow> nat \<Rightarrow> MessageFieldDefinition list" where
  "extend_file i ms d = (\<lambda>i' j. if i' = i \<and> j < length ms then d i j @ md_Fields (ms ! j) else d i' j)"

lemma fold_messages_from:
  assumes "structs_from files d (fst st)" and "i < length files"
  shows "structs_from files (extend_file i ms d)
    (fst (fold (\<lambda>(j, message). fold (map_field quote files i j) (md_Fields message)) (enumerate 0 ms) st))"
proof (induction ms rule: rev_induct)
  case Nil
  have "extend_file i [] d = d" by (auto simp: extend_file_def fun_eq_iff)
  then show ?case using assms(1) by simp
next
  case (snoc m ms)
  have "enumerate 0 (ms @ [m]) = enumerate 0 ms @ [(length ms, m)]" by (simp add: enumerate_append_eq)
  moreover have "extend_file i (ms @ [m]) d = extend_at i (length ms) (md_Fields m) (extend_file i ms d)"
    by (auto simp: extend_file_def extend_at_def fun_eq_iff nth_append)
  ultimately show ?case using fold_field_from [OF snoc assms(2), of "length ms" "md_Fields m" quote] by simp
qed

lemma map_all_from:
  assumes "structs_from files (\<lambda>_ _. []) (fst st)"
  shows "m \<le> length files \<Longrightarrow> structs_from files (\<lambda>i j. if i < m \<and> j < length (f_Messages (files ! i)) then md_Fields (f_Messages (files ! i) ! j) else [])
    (fst (fold (map_fields quote files) [0..<m] st))"
proof (induction m)
  case (Suc m)
  let ?d = "\<lambda>m i j. if i < m \<and> j < length (f_Messages (files ! i)) then md_Fields (f_Messages (files ! i) ! j) else []"
  have "extend_file m (f_Messages (files ! m)) (?d m) = ?d (Suc m)"
    by (auto simp: extend_file_def fun_eq_iff less_Suc_eq)
  with fold_messages_from [of files "?d m" "fold (map_fields quote files) [0..<m] st" m "f_Messages (files ! m)" quote] Suc
  show ?case by (simp add: map_fields_def [of quote files m])
qed (use assms in simp)

lemma gfold_invariant:
  assumes "gfold step xs s = Ok s'" and "P s" and "\<And>x s s'. x \<in> set xs \<Longrightarrow> P s \<Longrightarrow> step x s = Ok s' \<Longrightarrow> P s'"
  shows "P s'"
  using assms
proof (induction xs arbitrary: s)
  case (Cons x xs)
  then obtain s1 where "step x s = Ok s1" "gfold step xs s1 = Ok s'" by (auto simp: gbind_Ok_iff)
  with Cons show ?case by (metis list.set_intros)
qed simp

text \<open>The state before the definitions are added.\<close>

definition no_structs :: "nat \<Rightarrow> GoGeneratedFile list \<times> gen_error list \<Rightarrow> bool" where
  "no_structs n st \<longleftrightarrow> length (fst st) = n \<and> (\<forall>i < n. gf_ProtoFile (fst st ! i) = i \<and> gf_structs (fst st ! i) = [])"

lemma map_import_no_structs: "map_import files i imp st = Ok st' \<Longrightarrow> no_structs n st \<Longrightarrow> no_structs n st'"
  by (auto simp: map_import_def no_structs_def nth_update_any AddProtoImport_keeps split: prod.splits option.splits)

lemma mapImports_no_structs: "mapImports files goFiles = Ok st \<Longrightarrow> no_structs n (goFiles, []) \<Longrightarrow> no_structs n st"
  unfolding mapImports_def
  by (erule gfold_invariant [where P = "no_structs n"])
    (auto elim!: gfold_invariant [where P = "no_structs n"] intro: map_import_no_structs)

lemma add_types_from:
  assumes "no_structs (length files) (gs, errors)"
  shows "structs_from files (\<lambda>_ _. []) (map (add_types files) (map (\<lambda>g. g\<lparr>gf_FullOutputPath := path g\<rparr>) gs))"
  using assms
  by (auto simp: structs_from_def no_structs_def add_types_def Let_def NewStructType_def fields_from_def nth_enumerate_eq split: prod.split)


section \<open>Compiled schemas are well formed\<close>

text \<open>The rules of the language for a message: distinct field numbers in range and comparable map keys.\<close>

definition valid_message :: "MessageDefinition \<Rightarrow> bool" where
  "valid_message m \<longleftrightarrow> distinct (map (\<lambda>field. pf_Sequence (fd_ProtoDef field)) (md_Fields m)) \<and>
     list_all (\<lambda>field. 0 < pf_Sequence (fd_ProtoDef field) \<and> pf_Sequence (fd_ProtoDef field) < 2 ^ 29 \<and> key_ok field) (md_Fields m)"

lemma tag_of_sequence:
  assumes "0 < n" and "n < 2 ^ 29"
  shows "int (unat (word_of_int n :: wire_number)) = n"
  using assms by (simp add: uint_word_of_int_eq take_bit_int_eq_self)

lemma subseq_set: "subseq xs ys \<Longrightarrow> set xs \<subseteq> set ys"
  by (induction rule: list_emb.induct) auto

lemma subseq_distinct: "subseq xs ys \<Longrightarrow> distinct (map f ys) \<Longrightarrow> distinct (map f xs)"
proof (induction rule: list_emb.induct)
  case (list_emb_Cons2 x y xs ys)
  then show ?case using subseq_set [of xs ys] by auto
qed simp_all

lemma fields_from_struct_ok:
  assumes "fields_from (md_Fields m) st" and "valid_message m" and "lit_typed lit"
  shows "struct_ok (map (go_field_of lit q) (gs_Fields st))"
proof -
  let ?seq = "\<lambda>f. pf_Sequence (fd_ProtoDef (sf_Proto f))"
  have sub: "subseq (map sf_Proto (gs_Fields st)) (md_Fields m)" using assms(1) by (simp add: fields_from_def)
  have valid: "0 < ?seq f \<and> ?seq f < 2 ^ 29 \<and> key_ok (sf_Proto f)" if "f \<in> set (gs_Fields st)" for f
  proof -
    have "sf_Proto f \<in> set (md_Fields m)" using subseq_set [OF sub] that by auto
    then show ?thesis using assms(2) by (simp add: valid_message_def list_all_iff)
  qed
  have "distinct (map ?seq (gs_Fields st))"
    using subseq_distinct [OF sub, of "\<lambda>field. pf_Sequence (fd_ProtoDef field)"] assms(2)
    by (simp add: valid_message_def comp_def)
  moreover have "inj_on (\<lambda>n. word_of_int n :: wire_number) (?seq ` set (gs_Fields st))"
  proof (rule inj_onI)
    fix a b assume "a \<in> ?seq ` set (gs_Fields st)" "b \<in> ?seq ` set (gs_Fields st)"
      and eq: "(word_of_int a :: wire_number) = word_of_int b"
    then have "0 < a \<and> a < 2 ^ 29" "0 < b \<and> b < 2 ^ 29" using valid by auto
    with eq show "a = b" using tag_of_sequence [of a] tag_of_sequence [of b] by simp
  qed
  ultimately have "distinct (map (\<lambda>f. word_of_int (?seq f) :: wire_number) (gs_Fields st))"
    using distinct_map [of "\<lambda>n. word_of_int n :: wire_number" "map ?seq (gs_Fields st)"] by (simp add: comp_def)
  moreover have "tag_ok (word_of_int (?seq f)) \<and> field_type_ok (denote_field lit q (sf_Type f))" if f: "f \<in> set (gs_Fields st)" for f
  proof
    have "int (unat (word_of_int (?seq f) :: wire_number)) < int (2 ^ 31)"
      using tag_of_sequence [of "?seq f"] valid [OF f] by simp
    then show "tag_ok (word_of_int (?seq f))" unfolding tag_ok_def by (simp only: of_nat_less_iff)
    show "field_type_ok (denote_field lit q (sf_Type f))"
      using assms(1,3) valid [OF f] f by (auto simp: fields_from_def list_all_iff)
  qed
  ultimately show ?thesis by (auto simp: struct_ok_def go_field_of_def comp_def list_all_iff)
qed

lemma MapProtoFiles_schema:
  assumes "MapProtoFiles quote root modulePath files = Ok (goFiles, errors)" and "lit_typed lit"
    and "\<forall>f \<in> set files. \<forall>m \<in> set (f_Messages f). valid_message m"
  shows "schema_ok (schema_of lit goFiles)"
proof -
  let ?packages = "map (getGoPackage root modulePath) files"
  let ?start = "map (\<lambda>(i, pkg). newGoFile i pkg) (enumerate 0 ?packages)"
  obtain gs es where gs: "mapImports files ?start = Ok (gs, es)"
    using assms(1) by (auto simp: MapProtoFiles_def Let_def gbind_Ok_iff split: if_splits)
  show ?thesis
  proof (cases "es = []")
    case False
    then have "goFiles = []" using assms(1) gs by (auto simp: MapProtoFiles_def Let_def split: if_splits)
    then show ?thesis by (simp add: schema_of_def schema_ok_def)
  next
    case True
    let ?gs = "map (add_types files) (map (\<lambda>g. g\<lparr>gf_FullOutputPath := buildOutputPath root (files ! gf_ProtoFile g)\<rparr>) gs)"
    have "no_structs (length files) (?start, [])" by (simp add: no_structs_def nth_enumerate_eq newGoFile_def)
    with gs have ns: "no_structs (length files) (gs, es)" by (rule mapImports_no_structs)
    then have len: "length gs = length files" by (simp add: no_structs_def)
    have "goFiles = fst (fold (map_fields quote files) [0..<length files] (?gs, []))"
      using assms(1) gs True len by (auto simp: MapProtoFiles_def Let_def split: if_splits dest: arg_cong [where f = fst])
    with map_all_from [of files "(?gs, [])" "length files" quote] add_types_from [OF ns]
    have from_messages: "structs_from files (\<lambda>i j. if i < length files \<and> j < length (f_Messages (files ! i))
        then md_Fields (f_Messages (files ! i) ! j) else []) goFiles" by simp
    have "struct_ok (map (go_field_of lit q) (gs_Fields st))" if g: "g \<in> set goFiles" and st: "st \<in> set (gf_structs g)" for g st q
    proof -
      obtain i where i: "i < length files" "g = goFiles ! i" using g from_messages by (auto simp: structs_from_def in_set_conv_nth)
      then obtain j where j: "j < length (f_Messages (files ! i))" "st = gf_structs g ! j"
        using st from_messages by (auto simp: structs_from_def in_set_conv_nth)
      have "fields_from (md_Fields (f_Messages (files ! i) ! j)) st" using i j from_messages by (simp add: structs_from_def)
      moreover have "valid_message (f_Messages (files ! i) ! j)" using assms(3) nth_mem [OF i(1)] nth_mem [OF j(1)] by blast
      ultimately show ?thesis using assms(2) by (rule fields_from_struct_ok)
    qed
    then show ?thesis by (auto simp: schema_ok_def schema_of_def list_all_iff)
  qed
qed


text \<open>Two files: a message of a package that another package imports and uses.\<close>

definition ex_point :: ProtoFile where
  "ex_point = (fst (extractProtoStruct
     [VPackage ''geo'',
      VMessage \<lparr>pm_Name = ''Point'', pm_IsExtend = False, pm_Parent = OtherParent,
        pm_Elements = [NormalField \<lparr>pf_Name = ''x'', pf_Type = ''sint32'', pf_Sequence = 1, pf_Options = []\<rparr> False False]\<rparr>]
     (new_file ''/w/geo.proto'')))\<lparr>f_RelativePath := ''geo.proto''\<rparr>"

definition ex_route :: ProtoFile where
  "ex_route = (fst (extractProtoStruct
     [VPackage ''app'', VImport ''geo.proto'' [],
      VMessage \<lparr>pm_Name = ''Route'', pm_IsExtend = False, pm_Parent = OtherParent,
        pm_Elements = [NormalField \<lparr>pf_Name = ''at'', pf_Type = ''geo.Point'', pf_Sequence = 1, pf_Options = []\<rparr> True False,
          MapField \<lparr>pf_Name = ''tags'', pf_Type = ''bool'', pf_Sequence = 7, pf_Options = []\<rparr> ''string'']\<rparr>]
     (new_file ''/w/app.proto'')))\<lparr>f_RelativePath := ''app.proto''\<rparr>"

definition ex_resolved :: "ProtoFile list" where
  "ex_resolved = (case ResolveImportsAndReferences id [ex_point, ex_route] of Ok (files, errors) \<Rightarrow> files | _ \<Rightarrow> [])"

definition ex_generated :: "GoGeneratedFile list" where
  "ex_generated = (case MapProtoFiles id ''/w'' ''nc'' ex_resolved of Ok (goFiles, errors) \<Rightarrow> goFiles | _ \<Rightarrow> [])"


lemma ex_resolved: "ResolveImportsAndReferences id [ex_point, ex_route] = Ok (ex_resolved, [])"
proof -
  have "case ResolveImportsAndReferences id [ex_point, ex_route] of Ok (files, errors) \<Rightarrow> errors = [] | _ \<Rightarrow> False"
    by code_simp
  then show ?thesis by (auto simp: ex_resolved_def split: gres.splits prod.splits)
qed

lemma ex_parsed:
  "\<forall>f \<in> set [ex_point, ex_route]. list_all no_target (f_Imports f) \<and> (\<forall>m \<in> set (f_Messages f). list_all parsed_field (md_Fields m))"
  by code_simp

lemma ex_generated: "MapProtoFiles id ''/w'' ''nc'' ex_resolved = Ok (ex_generated, [])"
proof -
  have "case MapProtoFiles id ''/w'' ''nc'' ex_resolved of Ok (goFiles, errors) \<Rightarrow> errors = [] | _ \<Rightarrow> False"
    by code_simp
  then show ?thesis by (auto simp: ex_generated_def split: gres.splits prod.splits)
qed



definition ex_lit :: "scalar \<Rightarrow> string \<Rightarrow> gval" where
  "ex_lit s d = zero_value s"

definition ex_message :: "gval list" where
  "ex_message = [VList [VMsg (Some [V32 (- 3)]), VMsg (Some [V32 5])], VMap [(VBytes [97], VBool True)]]"

lemma ex_lit_typed: "lit_typed ex_lit"
  unfolding lit_typed_def ex_lit_def by (intro allI) (case_tac s; simp)

end
