(* ===== verification/Go_Imports.thy ===== *)
theory Go_Imports
  imports Go_Print Go_Schema
begin

text \<open>
  The imports of a generated file (\<^verbatim>\<open>golang/core/files.go\<close>): Go refuses a name of a package that is
  not imported and an import that is not used. The qualifiers in the field types of a file are
  exactly the aliases of the imports of generated packages that \<^verbatim>\<open>GenerateCode\<close> prints; a required
  bytes field with a default value gets an import that nothing uses.
\<close>

section \<open>Qualifiers\<close>

text \<open>The package in front of the dot of an enum name; a message type has its package apart.\<close>

fun value_quals :: "gen_value \<Rightarrow> string set" where
  "value_quals (GenBasic t) = {}"
| "value_quals (GenEnum e) = (if CHR ''.'' \<in> set (et_EnumName e) then {takeWhile (\<lambda>c. c \<noteq> CHR ''.'') (et_EnumName e)} else {})"
| "value_quals (GenStruct t) = (if st_StructPackage t \<noteq> [] then {st_StructPackage t} else {})"

fun field_quals :: "gen_field \<Rightarrow> string set" where
  "field_quals (GenValue t) = value_quals t"
| "field_quals (GenRepeated t required) = value_quals t"
| "field_quals (GenRepeatedPacked t required) = value_quals t"
| "field_quals (GenMap k t) = value_quals k \<union> value_quals t"

definition file_quals :: "GoGeneratedFile \<Rightarrow> string set" where
  "file_quals g = (\<Union>st \<in> set (gf_structs g). \<Union>f \<in> set (gs_Fields st). field_quals (sf_Type f))"

definition imports_match :: "GoGeneratedFile \<Rightarrow> bool" where
  "imports_match g \<longleftrightarrow>
     (\<forall>q \<in> file_quals g. \<exists>imp \<in> set (gf_imports g). gi_Used imp \<and> gi_Alias imp = q) \<and>
     (\<forall>imp \<in> set (gf_imports g). gi_Used imp \<and> gi_GoFiles imp \<noteq> [] \<longrightarrow> gi_Alias imp \<in> file_quals g)"

text \<open>Names and aliases without dots and without empty aliases: the rest of the invariant.\<close>

definition dotless :: "string \<Rightarrow> bool" where
  "dotless s \<longleftrightarrow> CHR ''.'' \<notin> set s"

definition names_dotless :: "nat \<Rightarrow> GoGeneratedFile \<Rightarrow> bool" where
  "names_dotless n g \<longleftrightarrow> (\<forall>imp \<in> set (gf_imports g). dotless (gi_Alias imp) \<and> gi_Alias imp \<noteq> []) \<and>
     dotless (gf_ShortPackageName g) \<and> gf_ShortPackageName g \<noteq> [] \<and>
     (\<forall>e \<in> set (gf_enums g). dotless (ge_EnumName e)) \<and> (\<forall>t. knows g t \<longrightarrow> t < n) \<and> gf_ProtoFile g < n"

lemma dotless_append [simp]: "dotless (s @ t) \<longleftrightarrow> dotless s \<and> dotless t"
  by (auto simp: dotless_def)

lemma dotless_Cons [simp]: "dotless (c # s) \<longleftrightarrow> c \<noteq> CHR ''.'' \<and> dotless s" "dotless []"
  by (auto simp: dotless_def)

lemma dotless_fmt_d [simp]: "dotless (fmt_d n)"
proof -
  have "list_all (\<lambda>c. c \<noteq> CHR ''.'') (fmt_d n)" by (rule fmt_d_digits) code_simp
  then show ?thesis by (auto simp: dotless_def list_all_iff)
qed

lemma next_alias_dotless: "dotless s \<Longrightarrow> s \<noteq> [] \<Longrightarrow> dotless (next_alias imps s) \<and> next_alias imps s \<noteq> []"
  by (simp add: next_alias_def Let_def)

text \<open>The text in front of the dot of a qualified enum name is its package.\<close>

lemma enum_quals:
  assumes "dotless nm" and "dotless al"
  shows "et_EnumName e = al @ ''.'' @ nm \<Longrightarrow> value_quals (GenEnum e) = {al}"
    "et_EnumName e = nm \<Longrightarrow> value_quals (GenEnum e) = {}"
proof -
  have "takeWhile (\<lambda>c. c \<noteq> CHR ''.'') (al @ ''.'' @ nm) = al"
    using assms by (subst takeWhile_append2) (auto simp: dotless_def)
  then show "et_EnumName e = al @ ''.'' @ nm \<Longrightarrow> value_quals (GenEnum e) = {al}" by simp
  show "et_EnumName e = nm \<Longrightarrow> value_quals (GenEnum e) = {}" using assms by (simp add: dotless_def)
qed


section \<open>Resolving the type of a field\<close>

text \<open>
  What the resolution of a type does to the imports: it adds imports without generated files, or it marks one
  import as used, and then the type is qualified by its alias.
\<close>

inductive imports_step :: "GoImport list \<Rightarrow> GoImport list \<Rightarrow> string set \<Rightarrow> bool" where
  same: "imports_step imps imps {}"
| library: "gi_GoFiles imp = [] \<Longrightarrow> dotless (gi_Alias imp) \<Longrightarrow> gi_Alias imp \<noteq> [] \<Longrightarrow> imports_step imps (imps @ [imp]) {}"
| mark: "j < length imps \<Longrightarrow> imports_step imps (imps[j := (imps ! j)\<lparr>gi_Used := True\<rparr>]) {gi_Alias (imps ! j)}"

lemma imports_step_match:
  assumes "imports_step imps imps' Q"
    and "\<forall>q \<in> R. \<exists>imp \<in> set imps. gi_Used imp \<and> gi_Alias imp = q"
    and "\<forall>imp \<in> set imps. gi_Used imp \<and> gi_GoFiles imp \<noteq> [] \<longrightarrow> gi_Alias imp \<in> R"
  shows "(\<forall>q \<in> R \<union> Q. \<exists>imp \<in> set imps'. gi_Used imp \<and> gi_Alias imp = q) \<and>
    (\<forall>imp \<in> set imps'. gi_Used imp \<and> gi_GoFiles imp \<noteq> [] \<longrightarrow> gi_Alias imp \<in> R \<union> Q)"
  using assms
proof (cases rule: imports_step.cases)
  case (mark j)
  let ?m = "(imps ! j)\<lparr>gi_Used := True\<rparr>"
  have new: "?m \<in> set imps'" using mark by (simp add: set_update_memI)
  have old: "\<exists>imp' \<in> set imps'. gi_Used imp' \<and> gi_Alias imp' = gi_Alias imp" if imp: "imp \<in> set imps" "gi_Used imp" for imp
  proof -
    from imp obtain k where k: "k < length imps" "imps ! k = imp" by (auto simp: in_set_conv_nth)
    then have "imps' ! k = (if k = j then ?m else imp)" "imps' ! k \<in> set imps'" using mark by auto
    then show ?thesis using k imp by (intro bexI [of _ "imps' ! k"]) auto
  qed
  have sub: "set imps' \<subseteq> insert ?m (set imps)" using mark by (simp add: set_update_subset_insert)
  show ?thesis
  proof
    show "\<forall>q \<in> R \<union> Q. \<exists>imp \<in> set imps'. gi_Used imp \<and> gi_Alias imp = q"
    proof
      fix q assume "q \<in> R \<union> Q"
      then show "\<exists>imp \<in> set imps'. gi_Used imp \<and> gi_Alias imp = q"
        using assms(2) old mark(2) new by (auto intro: bexI [of _ ?m])
    qed
    show "\<forall>imp \<in> set imps'. gi_Used imp \<and> gi_GoFiles imp \<noteq> [] \<longrightarrow> gi_Alias imp \<in> R \<union> Q"
      using sub assms(3) mark(2) by fastforce
  qed
qed auto

lemma imports_step_dotless:
  assumes "imports_step imps imps' Q" and "\<forall>imp \<in> set imps. dotless (gi_Alias imp) \<and> gi_Alias imp \<noteq> []"
  shows "\<forall>imp \<in> set imps'. dotless (gi_Alias imp) \<and> gi_Alias imp \<noteq> []"
  using assms
proof (cases rule: imports_step.cases)
  case (mark j)
  then show ?thesis using assms(2) set_update_subset_insert [of imps j "(imps ! j)\<lparr>gi_Used := True\<rparr>"] by auto
qed auto

text \<open>The outcome for one field: the step on the imports, and everything else of the file kept.\<close>

definition resolves_to :: "GoGeneratedFile \<Rightarrow> GoGeneratedFile \<Rightarrow> string set \<Rightarrow> bool" where
  "resolves_to g g' Q \<longleftrightarrow> imports_step (gf_imports g) (gf_imports g') Q \<and> extends g g' \<and> gf_structs g' = gf_structs g \<and>
     gf_ShortPackageName g' = gf_ShortPackageName g"

lemma resolves_to_refl [simp]: "resolves_to g g {}"
  by (simp add: resolves_to_def imports_step.same)

lemma resolves_to_dotless: "resolves_to g g' Q \<Longrightarrow> names_dotless n g \<Longrightarrow> names_dotless n g'"
  using imports_step_dotless by (auto simp: resolves_to_def names_dotless_def extends_def)

lemma AddImport_resolves: "dotless al \<Longrightarrow> al \<noteq> [] \<Longrightarrow> resolves_to g (AddImport p al g) {}"
  using next_alias_dotless [of al "gf_imports g"]
  by (auto simp: resolves_to_def AddImport_def extends_def knows_def intro: imports_step.intros)

lemma findInImports_resolves:
  assumes "findInImports look goFiles t g = (g', al, Some x)" and "names_dotless n g"
  shows "resolves_to g g' (if al = [] then {} else {al}) \<and> dotless al \<and> (\<exists>k < n. look (goFiles ! k) = Some x)"
proof (cases "find (\<lambda>k. gf_ProtoFile (goFiles ! k) = t) (gf_samePackageImports g)")
  case (Some k)
  then have "knows g k" by (auto simp: knows_def find_Some_iff)
  then show ?thesis using Some assms by (auto simp: findInImports_def names_dotless_def)
next
  case None
  obtain j where j: "find_index (\<lambda>goImport. list_ex (\<lambda>k. gf_ProtoFile (goFiles ! k) = t) (gi_GoFiles goImport)) (gf_imports g) = Some j"
      "first_some (\<lambda>k. look (goFiles ! k)) (gi_GoFiles (gf_imports g ! j)) = Some x"
      "al = gi_Alias (gf_imports g ! j)" "g' = g\<lparr>gf_imports := (gf_imports g)[j := (gf_imports g ! j)\<lparr>gi_Used := True\<rparr>]\<rparr>"
    using None assms(1) by (auto simp: findInImports_def split: option.splits)
  have len: "j < length (gf_imports g)" using find_index_Some [OF j(1)] by simp
  obtain k where "k \<in> set (gi_GoFiles (gf_imports g ! j))" "look (goFiles ! k) = Some x" using first_some_Some [OF j(2)] by auto
  moreover then have "knows g k" using len by (auto simp: knows_def)
  moreover have "dotless al" "al \<noteq> []" using j(3) len assms(2) by (auto simp: names_dotless_def)
  moreover have "extends g g'" using extends_findInImports [of g look goFiles t] assms(1) by simp
  ultimately show ?thesis
    using j(3,4) len assms(2) imports_step.mark [of j "gf_imports g"] by (auto simp: resolves_to_def names_dotless_def)
qed

lemma map_type_quals: "map_type field vt = Inr ty \<Longrightarrow> field_quals ty = value_quals vt"
  by (auto simp: map_type_def resolveMapKeyType_def Let_def split: sum.splits if_splits)

lemma resolveScalarType_resolves:
  assumes "resolveScalarType quote field g = (g', Inr ty)"
  shows "resolves_to g g' (field_quals ty)"
proof -
  have "resolves_to g (AddImport ''bytes'' ''bytes'' g) {}" "resolves_to g (AddImport ''math'' ''math'' g) {}"
    by (rule AddImport_resolves; simp)+
  then have parsed: "parseDefaultValue quote field t g = (t', h) \<Longrightarrow> resolves_to g h {}" for t t' h
    by (auto simp: parseDefaultValue_def split: option.splits if_splits)
  show ?thesis
    using assms by (auto simp: resolveScalarType_def Let_def map_type_quals dest: parsed split: if_splits prod.splits)
qed

text \<open>The definition a field refers to, with the qualifier of its package, and the shape of the resulting type.\<close>

definition msg_target :: "GoGeneratedFile list \<Rightarrow> MessageFieldDefinition \<Rightarrow> GoGeneratedFile \<Rightarrow> GoGeneratedFile \<times> string \<times> GoStructType option" where
  "msg_target goFiles field g =
     (case fd_ExternalTypeFile field of
        Some t \<Rightarrow> (case fd_ExternalMsgType field of None \<Rightarrow> (g, [], None) | Some i \<Rightarrow> FindStructInImports goFiles t (t, i) g)
      | None \<Rightarrow> (g, [], Option.bind (local_ref (gf_ProtoFile g) (fd_LocalMsgType field)) (FindStruct g)))"

definition enum_target :: "GoGeneratedFile list \<Rightarrow> MessageFieldDefinition \<Rightarrow> GoGeneratedFile \<Rightarrow> GoGeneratedFile \<times> string \<times> GoEnumType option" where
  "enum_target goFiles field g =
     (case fd_ExternalTypeFile field of
        Some t \<Rightarrow> (case fd_ExternalEnumType field of None \<Rightarrow> (g, [], None) | Some i \<Rightarrow> FindEnumInImports goFiles t (t, i) g)
      | None \<Rightarrow> (g, [], Option.bind (local_ref (gf_ProtoFile g) (fd_LocalEnumType field)) (FindEnum g)))"

definition qualify :: "string \<Rightarrow> string" where
  "qualify pkg = (if pkg \<noteq> [] then pkg @ ''.'' else pkg)"

lemma resolveMsgType_file: "fst (resolveMsgType goFiles field g) = fst (msg_target goFiles field g)"
  by (auto simp: resolveMsgType_def msg_target_def Let_def split: option.split prod.split)

lemma resolveEnumType_file: "fst (resolveEnumType proto2 goFiles field g) = fst (enum_target goFiles field g)"
  by (auto simp: resolveEnumType_def enum_target_def Let_def split: option.split prod.split)

lemma resolveMsgType_type:
  assumes "resolveMsgType goFiles field g = (g', Inr ty)"
  obtains pkg msg vt where "msg_target goFiles field g = (g', pkg, Some msg)"
    and "vt = GenStruct \<lparr>st_StructPackage = pkg, st_StructName = gs_StructName msg, st_Required = fd_Required field\<rparr>"
    and "ty = GenRepeated vt (fd_Required field) \<or> map_type field vt = Inr ty \<or> ty = GenValue vt"
proof -
  obtain h pkg msg where t: "msg_target goFiles field g = (h, pkg, msg)" by (metis prod_cases3)
  have "resolveMsgType goFiles field g = (case (h, pkg, msg) of (g, msgPackage, msgType) \<Rightarrow>
      (case msgType of
        None \<Rightarrow> (g, Inl (UnknownMessageType (pf_Type (fd_ProtoDef field))))
      | Some msgType \<Rightarrow>
          let valueType = \<lparr>st_StructPackage = msgPackage, st_StructName = gs_StructName msgType, st_Required = fd_Required field\<rparr> in
          (g, if fd_Repeated field then Inr (GenRepeated (GenStruct valueType) (fd_Required field))
              else if fd_Map field then map_type field (GenStruct valueType)
              else Inr (GenValue (GenStruct valueType)))))"
    unfolding t [symmetric] msg_target_def resolveMsgType_def by simp
  then show ?thesis using assms t that by (cases msg) (auto simp: Let_def split: if_splits)
qed

lemma resolveEnumType_type:
  assumes "resolveEnumType proto2 goFiles field g = (g', Inr ty)"
  obtains pkg enum vt where "enum_target goFiles field g = (g', pkg, Some enum)"
    and "vt = \<lparr>et_EnumName = qualify pkg @ ge_EnumName enum, et_DefaultValue = [], et_Required = fd_Required field\<rparr>"
    and "ty = GenRepeatedPacked (GenEnum vt) (fd_Required field) \<or> map_type field (GenEnum vt) = Inr ty \<or>
      ty = GenValue (GenEnum (if proto2 then vt\<lparr>et_DefaultValue := ''0''\<rparr> else resolveDefaultValue field (qualify pkg) enum vt))"
proof -
  obtain h pkg enum where t: "enum_target goFiles field g = (h, pkg, enum)" by (metis prod_cases3)
  have "resolveEnumType proto2 goFiles field g =
    (case enum of
        None \<Rightarrow> (h, Inl (UnknownEnumType (pf_Type (fd_ProtoDef field)) (pf_Name (fd_ProtoDef field))))
      | Some enumType \<Rightarrow>
          let valueType = \<lparr>et_EnumName = qualify pkg @ ge_EnumName enumType, et_DefaultValue = [], et_Required = fd_Required field\<rparr> in
          (h, if fd_Repeated field then Inr (GenRepeatedPacked (GenEnum valueType) (fd_Required field))
              else if fd_Map field then map_type field (GenEnum valueType)
              else Inr (GenValue (GenEnum (if proto2 then valueType\<lparr>et_DefaultValue := ''0''\<rparr>
                else resolveDefaultValue field (qualify pkg) enumType valueType)))))"
    using t unfolding resolveEnumType_def
    by (auto simp: enum_target_def qualify_def Let_def split: option.splits prod.splits)
  then show ?thesis using assms t that by (cases enum) (auto simp: Let_def split: if_splits)
qed

lemma resolveMsgType_resolves:
  assumes "resolveMsgType goFiles field g = (g', Inr ty)" and "names_dotless n g"
  shows "resolves_to g g' (field_quals ty)"
proof (rule resolveMsgType_type [OF assms(1)])
  fix pkg msg vt
  assume t: "msg_target goFiles field g = (g', pkg, Some msg)"
    and vt: "vt = GenStruct \<lparr>st_StructPackage = pkg, st_StructName = gs_StructName msg, st_Required = fd_Required field\<rparr>"
    and ty: "ty = GenRepeated vt (fd_Required field) \<or> map_type field vt = Inr ty \<or> ty = GenValue vt"
  have "resolves_to g g' (if pkg = [] then {} else {pkg})"
    using t by (auto simp: msg_target_def FindStructInImports_def dest!: findInImports_resolves [OF _ assms(2)] split: option.splits)
  moreover have "field_quals ty = (if pkg = [] then {} else {pkg})" using ty vt map_type_quals by auto
  ultimately show ?thesis by simp
qed

lemma enum_target_found:
  assumes "enum_target goFiles field g = (g', pkg, Some enum)" and "names_dotless n g"
  shows "resolves_to g g' (if pkg = [] then {} else {pkg}) \<and> dotless pkg \<and>
    (\<exists>f ref. (f = g \<or> (\<exists>k < n. f = goFiles ! k)) \<and> FindEnum f ref = Some enum)"
  using assms(1) by (auto simp: enum_target_def FindEnumInImports_def bind_eq_Some_conv
    dest!: findInImports_resolves [OF _ assms(2)] split: option.splits)

lemma resolveEnumType_resolves:
  assumes "resolveEnumType proto2 goFiles field g = (g', Inr ty)" and "names_dotless n g"
    and "\<forall>k < n. names_dotless n (goFiles ! k)"
  shows "resolves_to g g' (field_quals ty)"
proof (rule resolveEnumType_type [OF assms(1)])
  fix pkg enum vt
  assume t: "enum_target goFiles field g = (g', pkg, Some enum)"
    and vt: "vt = \<lparr>et_EnumName = qualify pkg @ ge_EnumName enum, et_DefaultValue = [], et_Required = fd_Required field\<rparr>"
    and ty: "ty = GenRepeatedPacked (GenEnum vt) (fd_Required field) \<or> map_type field (GenEnum vt) = Inr ty \<or>
      ty = GenValue (GenEnum (if proto2 then vt\<lparr>et_DefaultValue := ''0''\<rparr> else resolveDefaultValue field (qualify pkg) enum vt))"
  have look: "FindEnum f ref = Some e \<Longrightarrow> names_dotless n f \<Longrightarrow> dotless (ge_EnumName e)" for f ref e
    by (auto simp: FindEnum_def names_dotless_def find_Some_iff)
  have *: "resolves_to g g' (if pkg = [] then {} else {pkg}) \<and> dotless pkg \<and> dotless (ge_EnumName enum)"
    using enum_target_found [OF t assms(2)] assms(2,3) look by blast
  have quals: "et_EnumName e = et_EnumName vt \<Longrightarrow> value_quals (GenEnum e) = (if pkg = [] then {} else {pkg})" for e
    using enum_quals [of "ge_EnumName enum" pkg e] * vt by (auto simp: qualify_def)
  have "et_EnumName (if proto2 then vt\<lparr>et_DefaultValue := ''0''\<rparr> else resolveDefaultValue field (qualify pkg) enum vt) = et_EnumName vt"
    by (simp add: resolveDefaultValue_def split: option.split)
  from ty quals [OF this] quals [OF refl] map_type_quals [of field "GenEnum vt"]
  have "field_quals ty = (if pkg = [] then {} else {pkg})" by (elim disjE) (simp_all del: value_quals.simps)
  with * show ?thesis by simp
qed

lemma ResolveType_resolves:
  assumes "ResolveType quote proto2 goFiles field g = (g', Inr ty)" and "names_dotless n g" and "\<forall>k < n. names_dotless n (goFiles ! k)"
  shows "resolves_to g g' (field_quals ty)"
  using assms resolveScalarType_resolves resolveEnumType_resolves resolveMsgType_resolves
  by (auto simp: ResolveType_def split: if_splits)


section \<open>All files\<close>

text \<open>The state of the mapping: as long as no error was reported, the imports match.\<close>

definition import_inv :: "nat \<Rightarrow> GoGeneratedFile list \<times> gen_error list \<Rightarrow> bool" where
  "import_inv n st \<longleftrightarrow> length (fst st) = n \<and>
     (snd st = [] \<longrightarrow> (\<forall>i < n. names_dotless n (fst st ! i) \<and> imports_match (fst st ! i)))"

lemma file_quals_AddField:
  assumes "j < length (gf_structs g)"
  shows "file_quals (g\<lparr>gf_structs := (gf_structs g)[j := AddField field ty (gf_structs g ! j)]\<rparr>) = file_quals g \<union> field_quals ty"
proof -
  define xs ys where "xs = take j (gf_structs g)" and "ys = drop (Suc j) (gf_structs g)"
  have "set (gf_structs g) = insert (gf_structs g ! j) (set xs \<union> set ys)"
    using id_take_nth_drop [OF assms] by (metis Un_insert_right list.set(2) set_append xs_def ys_def)
  moreover have "set ((gf_structs g)[j := AddField field ty (gf_structs g ! j)]) = insert (AddField field ty (gf_structs g ! j)) (set xs \<union> set ys)"
    using assms by (simp add: xs_def ys_def upd_conv_take_nth_drop)
  ultimately show ?thesis by (auto simp: file_quals_def AddField_def)
qed

lemma map_field_imports:
  assumes "import_inv n st" and "\<forall>i < n. j < length (gf_structs (fst st ! i)) \<or> i \<noteq> k"
  shows "import_inv n (map_field quote files k j field st)"
proof (cases "k < n \<and> snd st = []")
  case False
  then show ?thesis
    using assms(1) by (auto simp: import_inv_def map_field_def nth_update_any split: prod.split sum.split)
next
  case True
  obtain goFiles where st: "st = (goFiles, [])" "length goFiles = n" using True assms(1) by (cases st) (auto simp: import_inv_def)
  have names: "\<forall>i < n. names_dotless n (goFiles ! i) \<and> imports_match (goFiles ! i)" using assms(1) st by (simp add: import_inv_def)
  obtain g r where res: "ResolveType quote (f_Proto2 (files ! k)) goFiles field (goFiles ! k) = (g, r)" by fastforce
  show ?thesis
  proof (cases r)
    case (Inl e)
    then show ?thesis using st res by (simp add: map_field_def import_inv_def)
  next
    case (Inr ty)
    have step: "resolves_to (goFiles ! k) g (field_quals ty)"
      using ResolveType_resolves [OF res [unfolded Inr]] names True by blast
    let ?g = "g\<lparr>gf_structs := (gf_structs g)[j := AddField field ty (gf_structs g ! j)]\<rparr>"
    have "j < length (gf_structs g)" using assms(2) True st step by (auto simp: resolves_to_def)
    then have quals: "file_quals ?g = file_quals (goFiles ! k) \<union> field_quals ty"
      using file_quals_AddField [of j g] step by (simp add: resolves_to_def file_quals_def)
    have used: "imports_step (gf_imports (goFiles ! k)) (gf_imports g) (field_quals ty)" using step by (simp add: resolves_to_def)
    have before: "\<forall>q \<in> file_quals (goFiles ! k). \<exists>imp \<in> set (gf_imports (goFiles ! k)). gi_Used imp \<and> gi_Alias imp = q"
      "\<forall>imp \<in> set (gf_imports (goFiles ! k)). gi_Used imp \<and> gi_GoFiles imp \<noteq> [] \<longrightarrow> gi_Alias imp \<in> file_quals (goFiles ! k)"
      using names True by (simp_all add: imports_match_def)
    have "imports_match ?g"
      unfolding imports_match_def quals using imports_step_match [OF used before] by simp
    moreover have "names_dotless n g" using resolves_to_dotless [OF step, of n] names True by blast
    then have "names_dotless n ?g" by (simp add: names_dotless_def knows_def)
    moreover have "map_field quote files k j field st = (goFiles[k := ?g], [])" using st res Inr by (simp add: map_field_def)
    ultimately show ?thesis using names st(2) by (auto simp: import_inv_def nth_update_any)
  qed
qed

text \<open>The mapping keeps the number of structs of every file.\<close>

definition struct_counts :: "ProtoFile list \<Rightarrow> GoGeneratedFile list \<Rightarrow> bool" where
  "struct_counts files goFiles \<longleftrightarrow> length goFiles = length files \<and>
     (\<forall>i < length files. length (gf_structs (goFiles ! i)) = length (f_Messages (files ! i)))"

lemma map_field_counts:
  assumes "struct_counts files (fst st)"
  shows "struct_counts files (fst (map_field quote files k j field st))"
proof -
  obtain goFiles errors where st: "st = (goFiles, errors)" by fastforce
  obtain g r where res: "ResolveType quote (f_Proto2 (files ! k)) goFiles field (goFiles ! k) = (g, r)" by fastforce
  have "gf_structs g = gf_structs (goFiles ! k)"
    using extends_ResolveType [of "goFiles ! k" quote "f_Proto2 (files ! k)" goFiles field] res by simp
  then show ?thesis using assms st res by (cases r) (auto simp: map_field_def struct_counts_def nth_update_any)
qed

lemma map_fields_imports:
  assumes "import_inv (length files) st" and "struct_counts files (fst st)" and "k < length files"
  shows "import_inv (length files) (map_fields quote files k st) \<and> struct_counts files (fst (map_fields quote files k st))"
proof -
  let ?P = "\<lambda>st. import_inv (length files) st \<and> struct_counts files (fst st)"
  have one: "?P (fold (map_field quote files k j) fs st)" if "?P st" "j < length (f_Messages (files ! k))" for j fs st
  proof (rule fold_invariant [where P = ?P and Q = "\<lambda>_. True"])
    show "?P (map_field quote files k j field s)" if s: "?P s" for field s
    proof
      have "\<forall>i < length files. j < length (gf_structs (fst s ! i)) \<or> i \<noteq> k"
        using s \<open>j < length (f_Messages (files ! k))\<close> by (auto simp: struct_counts_def)
      then show "import_inv (length files) (map_field quote files k j field s)" using s map_field_imports by blast
      show "struct_counts files (fst (map_field quote files k j field s))" using s map_field_counts by blast
    qed
  qed (use that in simp_all)
  show ?thesis
    unfolding map_fields_def
  proof (rule fold_invariant [where P = ?P and Q = "\<lambda>(j, m). j < length (f_Messages (files ! k))"])
    show "?P st" using assms by simp
    show "case x of (j, m) \<Rightarrow> j < length (f_Messages (files ! k)) \<Longrightarrow> ?P s \<Longrightarrow>
        ?P ((case x of (j, message) \<Rightarrow> fold (map_field quote files k j) (md_Fields message)) s)" for x s
      using one by (cases x) simp
  qed (auto simp: in_set_enumerate_eq)
qed

text \<open>Before the fields are mapped, no import of a generated package is used and no type is named.\<close>

definition fresh_imports :: "nat \<Rightarrow> GoGeneratedFile list \<Rightarrow> bool" where
  "fresh_imports n goFiles \<longleftrightarrow> length goFiles = n \<and> (\<forall>i < n. gf_structs (goFiles ! i) = [] \<and> gf_enums (goFiles ! i) = [] \<and>
     names_dotless n (goFiles ! i) \<and> (\<forall>imp \<in> set (gf_imports (goFiles ! i)). \<not> gi_Used imp))"

lemma AddProtoImport_fresh:
  assumes "names_dotless n g" and "names_dotless n T" and "t < n" and "\<forall>imp \<in> set (gf_imports g). \<not> gi_Used imp"
  shows "names_dotless n (AddProtoImport t T g) \<and> (\<forall>imp \<in> set (gf_imports (AddProtoImport t T g)). \<not> gi_Used imp)"
proof -
  have al: "dotless (next_alias (gf_imports g) (gf_ShortPackageName T)) \<and> next_alias (gf_imports g) (gf_ShortPackageName T) \<noteq> []"
    using assms(2) next_alias_dotless by (simp add: names_dotless_def)
  have "dotless (gi_Alias imp) \<and> gi_Alias imp \<noteq> [] \<and> \<not> gi_Used imp" if imp: "imp \<in> set (gf_imports (AddProtoImport t T g))" for imp
  proof (cases "imp \<in> set (gf_imports g)")
    case True
    then show ?thesis using assms(1,4) by (simp add: names_dotless_def)
  next
    case False
    then show ?thesis
      using imp al assms(1,4) set_update_subset_insert [of "gf_imports g"]
      by (fastforce simp: AddProtoImport_def names_dotless_def dest!: find_index_Some split: option.splits if_splits)
  qed
  moreover have "gf_ShortPackageName (AddProtoImport t T g) = gf_ShortPackageName g"
    by (auto simp: AddProtoImport_def split: option.split)
  ultimately show ?thesis
    using assms(1,3) by (simp add: names_dotless_def AddProtoImport_keeps AddProtoImport_knows)
qed

lemma map_import_fresh:
  assumes "map_import files i imp st = Ok st'" and "fresh_imports n (fst st)"
  shows "fresh_imports n (fst st')"
proof (cases "im_TargetFile imp")
  case None
  then show ?thesis using assms(1) by (simp add: map_import_def split: prod.splits)
next
  case (Some t)
  obtain goFiles errors where st: "st = (goFiles, errors)" by fastforce
  show ?thesis
  proof (cases "find_index (\<lambda>g. gf_ProtoFile g = t) goFiles")
    case None
    then show ?thesis using assms Some st by (auto simp: map_import_def)
  next
    case found: (Some k)
    then have k: "k < n" using assms(2) st find_index_Some [OF found] by (simp add: fresh_imports_def)
    then have "i < n \<Longrightarrow> names_dotless n (AddProtoImport k (goFiles ! k) (goFiles ! i)) \<and>
        (\<forall>imp \<in> set (gf_imports (AddProtoImport k (goFiles ! k) (goFiles ! i))). \<not> gi_Used imp)"
      using assms(2) st by (intro AddProtoImport_fresh) (simp_all add: fresh_imports_def)
    moreover have "st' = (goFiles[i := AddProtoImport k (goFiles ! k) (goFiles ! i)], errors)"
      using assms(1) Some st found by (simp add: map_import_def)
    ultimately show ?thesis
      using assms(2) st by (simp add: fresh_imports_def nth_update_any AddProtoImport_keeps)
  qed
qed

lemma mapImports_fresh: "mapImports files goFiles = Ok st \<Longrightarrow> fresh_imports n goFiles \<Longrightarrow> fresh_imports n (fst st)"
  unfolding mapImports_def
  by (erule gfold_invariant [where P = "\<lambda>st. fresh_imports n (fst st)"])
    (auto elim!: gfold_invariant [where P = "\<lambda>st. fresh_imports n (fst st)"] intro: map_import_fresh)

lemma cleanup_dotless: "dotless (cleanupPackageName s)"
  by (auto simp: dotless_def cleanupPackageName_def ReplaceAll_def)

lemma start_fresh:
  "fresh_imports (length files) (map (\<lambda>(i, pkg). newGoFile i pkg) (enumerate 0 (map (getGoPackage outBase modulePath) files)))"
proof -
  have "dotless (fst (getGoPackage outBase modulePath f)) \<and> fst (getGoPackage outBase modulePath f) \<noteq> []" for f
    using go_package_found [of outBase modulePath f] cleanup_dotless by (auto simp: getGoPackage_def Let_def)
  then show ?thesis
    by (auto simp: fresh_imports_def nth_enumerate_eq newGoFile_def names_dotless_def knows_def split: prod.split)
qed

text \<open>The names of enums have dots only where the path to them has.\<close>

definition enums_dotless :: "ProtoFile \<Rightarrow> bool" where
  "enums_dotless f \<longleftrightarrow> list_all (\<lambda>e. list_all dotless (LocalPath (ed_Name e))) (f_Enums f)"

lemma enum_name_dotless: "list_all dotless (LocalPath (ed_Name e)) \<Longrightarrow> dotless (ge_EnumName (NewEnumType ref e))"
proof -
  have replaced: "dotless (ReplaceAll CHR ''.'' CHR ''_'' s)" for s by (auto simp: dotless_def ReplaceAll_def)
  have "list_all dotless ps \<Longrightarrow> dotless (join_on CHR ''_'' ps)" for ps
    by (induction ps) (auto simp: join_on_Cons)
  then show "list_all dotless (LocalPath (ed_Name e)) \<Longrightarrow> ?thesis"
    using replaced by (auto simp: NewEnumType_def enum_names_def Let_def)
qed

lemma typed_start:
  assumes "fresh_imports (length files) gs" and "\<forall>f \<in> set files. enums_dotless f"
  shows "import_inv (length files) (map (add_types files) (map (\<lambda>g. g\<lparr>gf_FullOutputPath := p g\<rparr>) gs), []) "
proof -
  have "names_dotless (length files) (add_types files (g\<lparr>gf_FullOutputPath := q\<rparr>)) \<and> imports_match (add_types files (g\<lparr>gf_FullOutputPath := q\<rparr>))"
    if g: "names_dotless (length files) g" "gf_structs g = []" "gf_enums g = []" "\<forall>imp \<in> set (gf_imports g). \<not> gi_Used imp" for g q
  proof
    have "enums_dotless (files ! gf_ProtoFile g)" using g(1) assms(2) by (simp add: names_dotless_def)
    then have "\<forall>e \<in> set (f_Enums (files ! gf_ProtoFile g)). \<forall>ref. dotless (ge_EnumName (NewEnumType ref e))"
      using enum_name_dotless by (simp add: enums_dotless_def list_all_iff)
    then show "names_dotless (length files) (add_types files (g\<lparr>gf_FullOutputPath := q\<rparr>))"
      using g by (auto simp: names_dotless_def add_types_def Let_def knows_def in_set_enumerate_eq)
    have "file_quals (add_types files (g\<lparr>gf_FullOutputPath := q\<rparr>)) = {}"
      using g(2) by (auto simp: file_quals_def add_types_def Let_def NewStructType_def)
    then show "imports_match (add_types files (g\<lparr>gf_FullOutputPath := q\<rparr>))"
      using g(4) by (simp add: imports_match_def add_types_def Let_def)
  qed
  then show ?thesis using assms(1) by (simp add: import_inv_def fresh_imports_def)
qed

lemma typed_counts:
  assumes "fresh_imports (length files) gs" and "\<forall>i < length files. gf_ProtoFile (gs ! i) = i"
  shows "struct_counts files (map (add_types files) (map (\<lambda>g. g\<lparr>gf_FullOutputPath := p g\<rparr>) gs))"
  using assms by (simp add: struct_counts_def fresh_imports_def add_types_def Let_def)

text \<open>
  C8. The imports of a generated file are the ones its types need: when the mapping reports no error, every
  package that qualifies the type of a field is the alias of an import that is printed, and
  every printed import of a generated package qualifies the type of some field.
\<close>

theorem imports_exact:
  assumes "MapProtoFiles quote outBase modulePath files = Ok (goFiles, [])" and "\<forall>f \<in> set files. enums_dotless f"
    and "g \<in> set goFiles"
  shows "(\<forall>q \<in> file_quals g. \<exists>imp \<in> set (gf_imports g). gi_Used imp \<and> gi_Alias imp = q) \<and>
    (\<forall>imp \<in> set (gf_imports g). gi_Used imp \<and> gi_GoFiles imp \<noteq> [] \<longrightarrow> gi_Alias imp \<in> file_quals g)"
proof -
  let ?n = "length files" and ?start = "map (\<lambda>(i, pkg). newGoFile i pkg) (enumerate 0 (map (getGoPackage outBase modulePath) files))"
  obtain gs es where gs: "mapImports files ?start = Ok (gs, es)"
    using assms(1) by (auto simp: MapProtoFiles_def Let_def gbind_Ok_iff split: if_splits)
  let ?typed = "map (add_types files) (map (\<lambda>g. g\<lparr>gf_FullOutputPath := buildOutputPath outBase (files ! gf_ProtoFile g)\<rparr>) gs)"
  have fresh: "fresh_imports ?n gs" using mapImports_fresh [OF gs start_fresh] by simp
  have "no_structs ?n (?start, [])" by (auto simp: no_structs_def nth_enumerate_eq newGoFile_def split: prod.split)
  then have "no_structs ?n (gs, es)" by (rule mapImports_no_structs [OF gs])
  then have counts: "struct_counts files ?typed" using typed_counts [OF fresh] by (simp add: no_structs_def)
  have "import_inv ?n (fold (map_fields quote files) [0..<?n] (?typed, [])) \<and>
      struct_counts files (fst (fold (map_fields quote files) [0..<?n] (?typed, [])))"
    using typed_start [OF fresh assms(2)] counts map_fields_imports
    by (intro fold_invariant [where P = "\<lambda>st. import_inv ?n st \<and> struct_counts files (fst st)" and Q = "\<lambda>i. i < ?n"]) auto
  moreover have "es = []" using assms(1,3) gs by (auto simp: MapProtoFiles_def Let_def split: if_splits)
  then have "(goFiles, []) = fold (map_fields quote files) [0..<length gs] (?typed, [])"
    using assms(1) gs by (simp add: MapProtoFiles_def Let_def split: if_splits)
  moreover have "length gs = ?n" using fresh by (simp add: fresh_imports_def)
  ultimately have "import_inv ?n (goFiles, [])" by simp
  then show ?thesis using assms(3) unfolding imports_match_def [symmetric] by (auto simp: import_inv_def in_set_conv_nth)
qed

theorem imports_exact_witness:
  "file_quals (ex_generated ! 1) = {''geo''} \<and> (\<exists>imp \<in> set (gf_imports (ex_generated ! 1)). gi_Used imp \<and> gi_Alias imp = ''geo'')"
proof -
  have texts: "\<forall>f \<in> set ex_resolved. enums_dotless f" by code_simp
  have g: "ex_generated ! 1 \<in> set ex_generated" by code_simp
  have "file_quals (ex_generated ! 1) = {''geo''}" by code_simp
  with imports_exact [OF ex_generated texts g] show ?thesis by simp
qed


text \<open>
  A default value of a bytes field imports the package that compares byte slices, but a required field is
  written without a comparison: the import stays unused, and Go refuses the file.
\<close>

lemma required_bytes_unused_import:
  assumes "bt_Name t = ''[]byte''" and "bt_Required t" and "fd_DefaultValue field = Some dflt"
    and "\<forall>imp \<in> set (gf_imports g). gi_Path imp \<noteq> ''bytes''"
  shows "\<exists>t' g'. parseDefaultValue quote field t g = (t', g') \<and> basic_EntryIsNotEmpty t' v = ''true'' \<and>
    (\<exists>imp \<in> set (gf_imports g'). gi_Path imp = ''bytes'' \<and> gi_Used imp)"
  using assms by (auto simp: parseDefaultValue_def parseByteDefaultValue_def basic_EntryIsNotEmpty_def AddImport_def list_ex_iff)

end
