(* ===== verification/Go_Lexical.thy ===== *)
theory Go_Lexical
  imports Go_Imports
begin

text \<open>
  The compiler prints lexically closed files: names without special characters go through the
  mapping of the files (\<^verbatim>\<open>golang/mapper\<close>, \<^verbatim>\<open>golang/fields/types.go\<close>) and end up in texts
  whose brackets and literals are all closed.
\<close>

section \<open>Texts of names and paths\<close>

definition path_char :: "char \<Rightarrow> bool" where
  "path_char c \<longleftrightarrow> inert_char c \<or> c = CHR ''/''"

abbreviation path_text :: "string \<Rightarrow> bool" where "path_text s \<equiv> list_all path_char s"

lemma path_str [simp]: "path_text s \<Longrightarrow> str_text s"
  by (auto simp: str_text_def list_all_iff path_char_def inert_char_def)

lemma path_no_newline [simp]: "path_text s \<Longrightarrow> NL \<notin> set s"
  by (auto simp: list_all_iff path_char_def inert_char_def)

lemma inert_path [simp]: "inert s \<Longrightarrow> path_text s"
  by (auto simp: list_all_iff path_char_def)

lemma path_inert: "path_text s \<Longrightarrow> CHR ''/'' \<notin> set s \<Longrightarrow> inert s"
  by (auto simp: list_all_iff path_char_def)

lemma list_all_join_on: "P c \<Longrightarrow> \<forall>p \<in> set ps. list_all P p \<Longrightarrow> list_all P (join_on c ps)"
  by (induction ps) (auto simp: join_on_Cons)

lemma list_all_split_on: "list_all P s \<Longrightarrow> p \<in> set (split_on c s) \<Longrightarrow> list_all P p"
proof (induction s arbitrary: p)
  case (Cons x s)
  then show ?case by (cases "split_on c s") (auto split: if_splits)
qed simp

lemma clean_step_all:
  assumes "\<forall>p \<in> set out. list_all P p" and "list_all P part" and "P CHR ''.''"
  shows "\<forall>p \<in> set (clean_step rooted part out). list_all P p"
  using assms in_set_butlastD [of _ out] by (auto simp: clean_step_def)

lemma fold_clean_all:
  assumes "\<forall>p \<in> set parts. list_all P p" and "\<forall>p \<in> set out. list_all P p" and "P CHR ''.''"
  shows "\<forall>p \<in> set (fold (clean_step rooted) parts out). list_all P p"
  using assms(1,2)
proof (induction parts arbitrary: out)
  case (Cons p parts)
  have "\<forall>q \<in> set (clean_step rooted p out). list_all P q"
    using Cons.prems assms(3) by (intro clean_step_all) simp_all
  then have "\<forall>q \<in> set (fold (clean_step rooted) parts (clean_step rooted p out)). list_all P q"
    using Cons.prems(1) by (intro Cons.IH) simp_all
  then show ?case by simp
qed simp

lemma Clean_all:
  assumes "list_all P s" and "P CHR ''.''" and "P CHR ''/''"
  shows "list_all P (Clean s)"
proof -
  have "\<forall>p \<in> set (fold (clean_step rooted) (split_on CHR ''/'' s) []). list_all P p" for rooted
    using list_all_split_on [OF assms(1)] assms(2) by (intro fold_clean_all) auto
  then show ?thesis
    using assms(2,3) by (simp add: Clean_def Let_def list_all_join_on)
qed

lemma Clean_path [simp]: "path_text s \<Longrightarrow> path_text (Clean s)"
  by (rule Clean_all) (auto simp: path_char_def inert_char_def)

lemma slash_path [simp]: "path_char CHR ''/''"
  by (simp add: path_char_def)

lemma Join_path [simp]: "path_text a \<Longrightarrow> path_text b \<Longrightarrow> path_text (Join a b)"
  by (simp add: Join_def)

lemma list_all_dropWhile: "list_all P s \<Longrightarrow> list_all P (dropWhile Q s)"
  by (auto simp: list_all_iff dest: set_dropWhileD)

lemma list_all_takeWhile: "list_all P s \<Longrightarrow> list_all P (takeWhile Q s)"
  by (auto simp: list_all_iff dest: set_takeWhileD)

lemma Dir_path [simp]: "path_text s \<Longrightarrow> path_text (Dir s)"
  unfolding Dir_def by (intro Clean_path) (simp add: list_all_dropWhile)

lemma Base_path [simp]: "path_text s \<Longrightarrow> path_text (Base s)"
  by (auto simp: Base_def Let_def list_all_dropWhile list_all_takeWhile path_char_def inert_char_def)

lemma Trim_path [simp]: "path_text s \<Longrightarrow> path_text (TrimPrefix s p)"
  by (auto simp: TrimPrefix_def list_all_iff dest: in_set_dropD)

text \<open>A path that is not made of slashes only has a base name without a slash.\<close>

lemma Base_inert:
  assumes "path_text s" and "s = [] \<or> (\<exists>c \<in> set s. c \<noteq> CHR ''/'')"
  shows "inert (Base s)"
proof (cases "s = []")
  case True
  then show ?thesis by (simp add: Base_def inert_char_def)
next
  case False
  define t where "t = dropWhile (\<lambda>c. c = CHR ''/'') (rev s)"
  have t: "t \<noteq> []" "hd t \<noteq> CHR ''/''"
    using assms(2) False hd_dropWhile [of "\<lambda>c. c = CHR ''/''" "rev s"] by (auto simp: t_def dropWhile_eq_Nil_conv)
  then have "takeWhile (\<lambda>c. c \<noteq> CHR ''/'') t \<noteq> []" by (cases t) auto
  then have "Base s = rev (takeWhile (\<lambda>c. c \<noteq> CHR ''/'') t)"
    using False by (simp add: Base_def Let_def t_def)
  moreover have "path_text (takeWhile (\<lambda>c. c \<noteq> CHR ''/'') t)"
    using assms(1) unfolding t_def by (intro list_all_takeWhile list_all_dropWhile) simp
  ultimately show ?thesis by (auto intro!: path_inert dest: set_takeWhileD)
qed

lemma join_on_part: "p \<in> set ps \<Longrightarrow> c \<in> set p \<Longrightarrow> c \<in> set (join_on d ps)"
  by (induction ps) (auto simp: join_on_Cons)

lemma Clean_relative_part:
  assumes "s = [] \<or> hd s \<noteq> CHR ''/''"
  shows "\<exists>c \<in> set (Clean s). c \<noteq> CHR ''/''"
proof -
  let ?out = "fold (clean_step False) (split_on CHR ''/'' s) []"
  have "[] \<notin> set ?out" by (rule clean_no_empty) simp
  moreover have "\<forall>p \<in> set ?out. CHR ''/'' \<notin> set p"
    using fold_clean_all [of "split_on CHR ''/'' s" "\<lambda>c. c \<noteq> CHR ''/''" "[]" False] split_on_free [of _ "CHR ''/''" s]
    by (fastforce simp: list_all_iff)
  ultimately have part: "p \<in> set ?out \<Longrightarrow> hd p \<in> set p \<and> hd p \<noteq> CHR ''/''" for p
    by (metis list.set_sel(1))
  have "?out \<noteq> [] \<Longrightarrow> \<exists>c \<in> set (join_on CHR ''/'' ?out). c \<noteq> CHR ''/''"
    using part [of "last ?out"] join_on_part [of "last ?out" ?out "hd (last ?out)"] by auto
  moreover have "Clean s = (if s = [] \<or> ?out = [] then ''.'' else join_on CHR ''/'' ?out)"
    using assms by (cases "s = []") (simp_all add: Clean_def Let_def)
  ultimately show ?thesis by simp
qed

lemma Dir_relative_part:
  assumes "s = [] \<or> hd s \<noteq> CHR ''/''"
  shows "\<exists>c \<in> set (Dir s). c \<noteq> CHR ''/''"
proof -
  let ?d = "rev (dropWhile (\<lambda>c. c \<noteq> CHR ''/'') (rev s))"
  obtain t where "rev s = t @ dropWhile (\<lambda>c. c \<noteq> CHR ''/'') (rev s)" by (metis takeWhile_dropWhile_id)
  then have "s = ?d @ rev t" by (metis rev_append rev_rev_ident)
  then have "?d = [] \<or> hd ?d \<noteq> CHR ''/''" using assms by (metis append_is_Nil_conv hd_append2)
  then show ?thesis unfolding Dir_def by (rule Clean_relative_part)
qed


section \<open>Names of the proto files\<close>

text \<open>
  The names of a proto file are identifiers, its paths have no special characters and every default
  is a plain word unless it is printed as a quoted literal.
\<close>

definition name_text :: "ScopedName \<Rightarrow> bool" where
  "name_text nm \<longleftrightarrow> inert (ProtoName nm) \<and> list_all inert (LocalPath nm)"

definition default_text :: "MessageFieldDefinition \<Rightarrow> bool" where
  "default_text field \<longleftrightarrow> (case fd_DefaultValue field of None \<Rightarrow> True
     | Some dflt \<Rightarrow> inert (po_Source dflt) \<or> fd_ScalarValueType field = ''string'' \<or>
         fd_ScalarValueType field = ''bytes'' \<and> po_IsString dflt)"

definition message_text :: "MessageDefinition \<Rightarrow> bool" where
  "message_text m \<longleftrightarrow> name_text (md_Name m) \<and>
     list_all (\<lambda>field. inert (ProtoName (fd_Name field)) \<and> default_text field) (md_Fields m)"

definition enum_text :: "EnumDefinition \<Rightarrow> bool" where
  "enum_text e \<longleftrightarrow> name_text (ed_Name e) \<and> list_all (\<lambda>val. inert (ProtoName (ev_Name val))) (ed_Values e)"

definition relative_path :: "string \<Rightarrow> bool" where
  "relative_path p \<longleftrightarrow> path_text p \<and> (p = [] \<or> hd p \<noteq> CHR ''/'')"

definition proto_text :: "ProtoFile \<Rightarrow> bool" where
  "proto_text f \<longleftrightarrow> relative_path (f_RelativePath f) \<and> inert (package_name f) \<and> relative_path (go_package f) \<and>
     list_all message_text (f_Messages f) \<and> list_all enum_text (f_Enums f)"

lemma inert_ReplaceAll [simp]: "inert s \<Longrightarrow> inert_char b \<Longrightarrow> inert (ReplaceAll a b s)"
  by (induction s) (auto simp: ReplaceAll_def)

lemma inert_cleanup [simp]: "inert s \<Longrightarrow> inert (cleanupPackageName s)"
  by (simp add: cleanupPackageName_def inert_char_def)

lemma relative_Base: "relative_path p \<Longrightarrow> inert (Base p)"
  by (rule Base_inert) (auto simp: relative_path_def intro: list.set_sel(1))

lemma package_text:
  assumes "proto_text f" and "path_text outBase" "path_text modulePath"
  shows "inert (fst (getGoPackage outBase modulePath f)) \<and> path_text (snd (getGoPackage outBase modulePath f))"
proof -
  have rel: "path_text (f_RelativePath f)" and "f_RelativePath f = [] \<or> hd (f_RelativePath f) \<noteq> CHR ''/''"
    using assms(1) by (auto simp: proto_text_def relative_path_def)
  then have "inert (Base (Dir (f_RelativePath f)))"
    using Dir_relative_part by (intro Base_inert) auto
  with assms rel show ?thesis
    by (auto simp: getGoPackage_def Let_def proto_text_def relative_Base, simp_all add: relative_path_def)
qed

lemma inert_join [simp]: "list_all inert ps \<Longrightarrow> inert_char c \<Longrightarrow> inert (join_on c ps)"
  by (rule list_all_join_on) (auto simp: list_all_iff)

lemma underscore_inert [simp]: "inert_char CHR ''_''" "inert_char CHR ''.''"
  by (simp_all add: inert_char_def)

lemma struct_name_inert: "name_text (md_Name m) \<Longrightarrow> inert (struct_name m)"
  by (auto simp: struct_name_def name_text_def Let_def)

lemma enum_names_inert: "name_text (ed_Name e) \<Longrightarrow> inert (fst (enum_names e)) \<and> inert (snd (enum_names e))"
  by (auto simp: enum_names_def name_text_def Let_def)

lemma to_upper_inert: "inert_char c \<Longrightarrow> inert_char (to_upper c)"
proof -
  have "\<forall>n \<in> set [65..<91]. inert_char (char_of (n :: nat))" by code_simp
  then have "65 \<le> n \<Longrightarrow> n < 91 \<Longrightarrow> inert_char (char_of (n :: nat))" for n
    by (simp only: set_upt atLeastLessThan_iff)
  then show "inert_char c \<Longrightarrow> inert_char (to_upper c)" by (auto simp: to_upper_def)
qed

lemma camel_inert: "inert s \<Longrightarrow> inert (camel upper s)"
  by (induction upper s rule: camel.induct) (auto simp: to_upper_inert)


section \<open>The mapping keeps the texts closed\<close>

lemma NewEnumType_closed:
  assumes "enum_text e"
  shows "enum_closed (NewEnumType ref e)"
  using assms enum_names_inert [of e]
  by (auto simp: NewEnumType_def enum_closed_def enum_text_def parseValues_def list_all_iff inert_neutral neutral_append split: prod.split)

lemma NewStructType_closed: "message_text m \<Longrightarrow> struct_closed (NewStructType ref m)"
  by (simp add: NewStructType_def struct_closed_def message_text_def struct_name_inert inert_neutral)

lemma go_basic_neutral: "neutral (go_basic_name t)"
proof -
  have "\<forall>nm \<in> set (map snd goBasicTypesMap). nm = ''[]byte'' \<or> inert nm" by code_simp
  then have "map_of goBasicTypesMap t = Some nm \<Longrightarrow> nm = ''[]byte'' \<or> inert nm" for nm
    by (force dest!: map_of_SomeD)
  moreover have "neutral ''[]byte''" by (rule neutralI) simp
  ultimately show ?thesis by (auto simp: go_basic_name_def inert_neutral split: option.split)
qed

lemma bytes_only: "go_basic_name t = ''[]byte'' \<Longrightarrow> t = ''bytes''" "go_basic_name t = ''string'' \<Longrightarrow> t = ''string''"
  by (auto simp: go_basic_name_def goBasicTypesMap_def split: option.splits if_splits)

text \<open>The literal of a default value is closed, and so is the file that imports what it needs.\<close>

lemma math_default_closed: "neutral call \<Longrightarrow> neutral (bt_Name t) \<Longrightarrow> value_closed (GenBasic (math_default call t))"
  by (auto simp: math_default_def intro!: neutralI)

lemma parseDefaultValue_closed:
  assumes "quotes quote" and "file_closed g" and "default_text field" and "value_closed (GenBasic t)"
    and "bt_Name t = go_basic_name (fd_ScalarValueType field)" and "parseDefaultValue quote field t g = (t', g')"
  shows "value_closed (GenBasic t') \<and> file_closed g'"
proof -
  have calls: "neutral ''math.Inf(1)''" "neutral ''math.Inf(-1)''" "neutral ''math.NaN()''" by (rule neutralI; simp)+
  have "neutral ''bytes''" "neutral ''math''" "str_text ''bytes''" "str_text ''math''" by (rule neutralI; simp) (rule neutralI; simp | code_simp)+
  then have imported: "file_closed (AddImport ''bytes'' ''bytes'' g)" "file_closed (AddImport ''math'' ''math'' g)"
    using AddImport_closed assms(2) by blast+
  show ?thesis
  proof (cases "fd_DefaultValue field")
    case None
    then show ?thesis using assms by (auto simp: parseDefaultValue_def)
  next
    case (Some dflt)
    have "bt_Name t = ''[]byte'' \<Longrightarrow> neutral (''[]byte('' @ (if po_IsString dflt then quote (po_Source dflt) else po_Source dflt) @ '')'')"
      using assms(1,3,5) Some bytes_only(1) [of "fd_ScalarValueType field"] by (intro neutralI) (auto simp: default_text_def)
    moreover have "bt_Name t \<noteq> ''[]byte'' \<Longrightarrow> bt_Name t \<noteq> ''string'' \<Longrightarrow> neutral (po_Source dflt)"
      using assms(3,5) Some by (auto simp: default_text_def inert_neutral go_basic_name_def goBasicTypesMap_def)
    ultimately show ?thesis
      using assms Some imported calls math_default_closed
      by (auto simp: parseDefaultValue_def parseByteDefaultValue_def split: if_splits)
  qed
qed

lemma find_closed: "find P xs = Some x \<Longrightarrow> list_all Q xs \<Longrightarrow> Q x"
  by (auto simp: find_Some_iff list_all_iff)

text \<open>What holds of every generated file while the files are mapped.\<close>

definition go_closed :: "nat \<Rightarrow> GoGeneratedFile \<Rightarrow> bool" where
  "go_closed n g \<longleftrightarrow> file_closed g \<and> str_text (gf_FullPackageName g) \<and> gf_ProtoFile g < n \<and> (\<forall>t. knows g t \<longrightarrow> t < n)"

definition all_closed :: "nat \<Rightarrow> GoGeneratedFile list \<Rightarrow> bool" where
  "all_closed n goFiles \<longleftrightarrow> length goFiles = n \<and> (\<forall>i < n. go_closed n (goFiles ! i))"

lemma all_closed_update: "all_closed n goFiles \<Longrightarrow> i < n \<longrightarrow> go_closed n g \<Longrightarrow> all_closed n (goFiles[i := g])"
  by (auto simp: all_closed_def nth_update_any)

lemma import_update_closed:
  assumes "list_all import_closed imps" and "\<And>imp. gi_Alias (h imp) = gi_Alias imp" "\<And>imp. gi_Path (h imp) = gi_Path imp"
  shows "list_all import_closed (imps[k := h (imps ! k)])"
  using assms by (auto simp: list_all_length import_closed_def nth_update_any)

lemma findInImports_closed:
  assumes "all_closed n goFiles" and "go_closed n g" and "findInImports look goFiles t g = (g', al, r)"
    and "\<And>f x. file_closed f \<Longrightarrow> look f = Some x \<Longrightarrow> Q x"
  shows "go_closed n g' \<and> neutral al \<and> (\<forall>x. r = Some x \<longrightarrow> Q x)"
proof -
  have look: "k < n \<Longrightarrow> look (goFiles ! k) = Some x \<Longrightarrow> Q x" for k x
    using assms(1,4) by (auto simp: all_closed_def go_closed_def)
  have know: "knows g k \<Longrightarrow> k < n" for k using assms(2) by (simp add: go_closed_def)
  have "gf_ProtoFile g' = gf_ProtoFile g" "knows g' k \<longleftrightarrow> knows g k" for k
    using extends_findInImports [of g look goFiles t] assms(3) by (simp_all add: extends_def)
  moreover have "file_closed g' \<and> gf_FullPackageName g' = gf_FullPackageName g"
    using assms(2,3) import_update_closed [of "gf_imports g" "\<lambda>imp. imp\<lparr>gi_Used := True\<rparr>"]
    by (auto simp: findInImports_def go_closed_def file_closed_def split: option.splits)
  moreover have "neutral al"
    using assms(2,3) by (auto simp: findInImports_def go_closed_def file_closed_def list_all_length import_closed_def
      dest!: find_index_Some split: option.splits)
  moreover have "r = Some x \<Longrightarrow> Q x" for x
  proof (cases "find (\<lambda>k. gf_ProtoFile (goFiles ! k) = t) (gf_samePackageImports g)")
    case (Some k)
    then have "knows g k" by (auto simp: knows_def find_Some_iff)
    then show "r = Some x \<Longrightarrow> Q x" using Some assms(3) look [of k x] know [of k] by (simp add: findInImports_def)
  next
    case None
    assume r: "r = Some x"
    then obtain j where j: "find_index (\<lambda>goImport. list_ex (\<lambda>k. gf_ProtoFile (goFiles ! k) = t) (gi_GoFiles goImport)) (gf_imports g) = Some j"
      "first_some (\<lambda>k. look (goFiles ! k)) (gi_GoFiles (gf_imports g ! j)) = Some x"
      using None assms(3) by (auto simp: findInImports_def split: option.splits)
    then obtain k where "k \<in> set (gi_GoFiles (gf_imports g ! j))" "look (goFiles ! k) = Some x" using first_some_Some by force
    moreover then have "knows g k" using find_index_Some [OF j(1)] by (auto simp: knows_def)
    ultimately show "Q x" using look know by blast
  qed
  ultimately show ?thesis using assms(2) by (simp add: go_closed_def)
qed

lemma map_type_closed: "map_type field vt = Inr ty \<Longrightarrow> value_closed vt \<Longrightarrow> field_closed ty \<and> packs_values ty"
  by (auto simp: map_type_def resolveMapKeyType_def Let_def go_basic_neutral split: sum.splits if_splits)

lemma resolveScalarType_closed:
  assumes "quotes quote" and "go_closed n g" and "default_text field" and "resolveScalarType quote field g = (g', r)"
  shows "go_closed n g' \<and> (\<forall>ty. r = Inr ty \<longrightarrow> field_closed ty \<and> packs_values ty)"
proof -
  let ?t = "\<lparr>bt_Name = go_basic_name (fd_ScalarValueType field), bt_ProtoType = fd_ScalarValueType field, bt_DefaultValue = [], bt_Required = fd_Required field\<rparr>"
  have t: "value_closed (GenBasic ?t)" by (simp add: go_basic_neutral)
  obtain t' h where parsed: "parseDefaultValue quote field ?t g = (t', h)" by fastforce
  then have "value_closed (GenBasic t') \<and> file_closed h"
    using parseDefaultValue_closed [OF assms(1) _ assms(3) t _ parsed] assms(2) by (simp add: go_closed_def)
  moreover have "knows h k \<longleftrightarrow> knows g k" "gf_ProtoFile h = gf_ProtoFile g" "gf_FullPackageName h = gf_FullPackageName g" for k
    using parsed extends_AddImport by (auto simp: parseDefaultValue_def extends_def AddImport_def knows_def split: option.splits if_splits)
  ultimately show ?thesis
    using assms(2,4) parsed t map_type_closed [of field "GenBasic ?t"]
    by (auto simp: resolveScalarType_def Let_def go_closed_def split: if_splits simp del: value_closed.simps)
qed

lemma GetEnumForDefault_neutral: "enum_closed e \<Longrightarrow> neutral (GetEnumForDefault e d)"
  by (auto simp: GetEnumForDefault_def enum_closed_def find_Some_iff split: option.split)

lemma FindEnum_closed: "file_closed f \<Longrightarrow> FindEnum f ref = Some x \<Longrightarrow> enum_closed x"
  by (auto simp: FindEnum_def file_closed_def intro: find_closed)

lemma FindStruct_closed: "file_closed f \<Longrightarrow> FindStruct f ref = Some x \<Longrightarrow> struct_closed x"
  by (auto simp: FindStruct_def file_closed_def intro: find_closed)

lemma enum_target_closed:
  assumes "all_closed n goFiles" and "go_closed n g" and "enum_target goFiles field g = (h, pkg, enumType)"
  shows "go_closed n h \<and> neutral pkg \<and> (\<forall>x. enumType = Some x \<longrightarrow> enum_closed x)"
proof -
  have "file_closed g" using assms(2) by (simp add: go_closed_def)
  moreover have "FindEnumInImports goFiles t ref g = (h1, al, r1) \<Longrightarrow>
      go_closed n h1 \<and> neutral al \<and> (\<forall>x. r1 = Some x \<longrightarrow> enum_closed x)" for t ref h1 al r1
    unfolding FindEnumInImports_def by (rule findInImports_closed [OF assms(1,2) _ FindEnum_closed])
  ultimately show ?thesis
    using assms(2,3) FindEnum_closed by (auto simp: enum_target_def bind_eq_Some_conv split: option.splits)
qed

lemma msg_target_closed:
  assumes "all_closed n goFiles" and "go_closed n g" and "msg_target goFiles field g = (h, pkg, msgType)"
  shows "go_closed n h \<and> neutral pkg \<and> (\<forall>x. msgType = Some x \<longrightarrow> struct_closed x)"
proof -
  have "file_closed g" using assms(2) by (simp add: go_closed_def)
  moreover have "FindStructInImports goFiles t ref g = (h1, al, r1) \<Longrightarrow>
      go_closed n h1 \<and> neutral al \<and> (\<forall>x. r1 = Some x \<longrightarrow> struct_closed x)" for t ref h1 al r1
    unfolding FindStructInImports_def by (rule findInImports_closed [OF assms(1,2) _ FindStruct_closed])
  ultimately show ?thesis
    using assms(2,3) FindStruct_closed by (auto simp: msg_target_def bind_eq_Some_conv split: option.splits)
qed

lemma qualify_neutral: "neutral pkg \<Longrightarrow> neutral (qualify pkg)"
  by (rule neutralI) (simp add: qualify_def)

lemma resolveEnumType_closed:
  assumes "all_closed n goFiles" and "go_closed n g" and "resolveEnumType proto2 goFiles field g = (g', r)"
  shows "go_closed n g' \<and> (\<forall>ty. r = Inr ty \<longrightarrow> field_closed ty \<and> packs_values ty)"
proof
  show "go_closed n g'"
    using enum_target_closed [OF assms(1,2)] resolveEnumType_file [of proto2 goFiles field g] assms(3) by (metis fst_conv prod_cases3)
  have "field_closed ty \<and> packs_values ty" if "r = Inr ty" for ty
  proof (rule resolveEnumType_type [OF assms(3) [unfolded that]])
    fix pkg enum vt
    assume t: "enum_target goFiles field g = (g', pkg, Some enum)"
      and vt: "vt = \<lparr>et_EnumName = qualify pkg @ ge_EnumName enum, et_DefaultValue = [], et_Required = fd_Required field\<rparr>"
      and ty: "ty = GenRepeatedPacked (GenEnum vt) (fd_Required field) \<or> map_type field (GenEnum vt) = Inr ty \<or>
        ty = GenValue (GenEnum (if proto2 then vt\<lparr>et_DefaultValue := ''0''\<rparr> else resolveDefaultValue field (qualify pkg) enum vt))"
    have e: "enum_closed enum" "neutral (qualify pkg)" using enum_target_closed [OF assms(1,2) t] qualify_neutral by auto
    then have closed: "value_closed (GenEnum vt)" using vt by (simp add: enum_closed_def neutral_append)
    moreover have "neutral ''0''" by (rule neutralI) simp
    ultimately have "value_closed (GenEnum (if proto2 then vt\<lparr>et_DefaultValue := ''0''\<rparr> else resolveDefaultValue field (qualify pkg) enum vt))"
      using e GetEnumForDefault_neutral by (simp add: resolveDefaultValue_def neutral_append split: option.split)
    with ty closed map_type_closed show ?thesis by (elim disjE) (simp_all del: value_closed.simps)
  qed
  then show "\<forall>ty. r = Inr ty \<longrightarrow> field_closed ty \<and> packs_values ty" by blast
qed

lemma resolveMsgType_closed:
  assumes "all_closed n goFiles" and "go_closed n g" and "resolveMsgType goFiles field g = (g', r)"
  shows "go_closed n g' \<and> (\<forall>ty. r = Inr ty \<longrightarrow> field_closed ty \<and> packs_values ty)"
proof
  show "go_closed n g'"
    using msg_target_closed [OF assms(1,2)] resolveMsgType_file [of goFiles field g] assms(3) by (metis fst_conv prod_cases3)
  have "field_closed ty \<and> packs_values ty" if "r = Inr ty" for ty
  proof (rule resolveMsgType_type [OF assms(3) [unfolded that]])
    fix pkg msg vt
    assume t: "msg_target goFiles field g = (g', pkg, Some msg)"
      and vt: "vt = GenStruct \<lparr>st_StructPackage = pkg, st_StructName = gs_StructName msg, st_Required = fd_Required field\<rparr>"
      and ty: "ty = GenRepeated vt (fd_Required field) \<or> map_type field vt = Inr ty \<or> ty = GenValue vt"
    have "value_closed vt" using msg_target_closed [OF assms(1,2) t] vt by (simp add: struct_closed_def)
    with ty map_type_closed show ?thesis by (elim disjE) simp_all
  qed
  then show "\<forall>ty. r = Inr ty \<longrightarrow> field_closed ty \<and> packs_values ty" by blast
qed

lemma ResolveType_closed:
  assumes "quotes quote" and "all_closed n goFiles" and "go_closed n g" and "default_text field"
    and "ResolveType quote proto2 goFiles field g = (g', r)"
  shows "go_closed n g' \<and> (\<forall>ty. r = Inr ty \<longrightarrow> field_closed ty \<and> packs_values ty)"
  using assms resolveScalarType_closed [OF assms(1,3,4)] resolveEnumType_closed [OF assms(2,3)] resolveMsgType_closed [OF assms(2,3)]
  by (auto simp: ResolveType_def split: if_splits)

lemma AddProtoImport_closed:
  assumes "go_closed n g" and "go_closed n T" and "t < n"
  shows "go_closed n (AddProtoImport t T g)"
proof -
  have "neutral (next_alias (gf_imports g) (gf_ShortPackageName T))"
    using assms(2) by (intro neutralI) (simp add: next_alias_def Let_def go_closed_def file_closed_def)
  moreover have "list_all import_closed (gf_imports g)" "str_text (gf_FullPackageName T)"
    using assms by (auto simp: go_closed_def file_closed_def)
  ultimately have "list_all import_closed (gf_imports (AddProtoImport t T g))"
    using import_update_closed [of "gf_imports g" "\<lambda>imp. imp\<lparr>gi_GoFiles := gi_GoFiles imp @ [t]\<rparr>"]
    by (auto simp: AddProtoImport_def import_closed_def split: option.split)
  moreover have "gf_ShortPackageName (AddProtoImport t T g) = gf_ShortPackageName g" "gf_FullPackageName (AddProtoImport t T g) = gf_FullPackageName g"
    by (auto simp: AddProtoImport_def split: option.split)
  ultimately show ?thesis
    using assms by (simp add: go_closed_def file_closed_def AddProtoImport_keeps AddProtoImport_knows)
qed

lemma map_import_closed:
  assumes "map_import files i imp st = Ok st'" and "all_closed n (fst st)"
  shows "all_closed n (fst st')"
proof (cases "im_TargetFile imp")
  case None
  then show ?thesis using assms(1) by (simp add: map_import_def split: prod.splits)
next
  case (Some t)
  obtain goFiles errors where st: "st = (goFiles, errors)" by fastforce
  show ?thesis
  proof (cases "find_index (\<lambda>g. gf_ProtoFile g = t) goFiles")
    case None
    then show ?thesis using assms Some st by (auto simp: map_import_def)
  next
    case found: (Some k)
    then have "k < n" using assms(2) st find_index_Some [OF found] by (simp add: all_closed_def)
    then have "i < n \<longrightarrow> go_closed n (AddProtoImport k (goFiles ! k) (goFiles ! i))"
      using assms(2) st AddProtoImport_closed by (simp add: all_closed_def)
    then show ?thesis using assms Some st found all_closed_update by (auto simp: map_import_def)
  qed
qed

lemma mapImports_closed: "mapImports files goFiles = Ok st \<Longrightarrow> all_closed n goFiles \<Longrightarrow> all_closed n (fst st)"
  unfolding mapImports_def
  by (erule gfold_invariant [where P = "\<lambda>st. all_closed n (fst st)"])
    (auto elim!: gfold_invariant [where P = "\<lambda>st. all_closed n (fst st)"] intro: map_import_closed)

lemma start_closed:
  assumes "\<forall>f \<in> set files. proto_text f" and "path_text outBase" "path_text modulePath"
  shows "all_closed (length files) (map (\<lambda>(i, pkg). newGoFile i pkg) (enumerate 0 (map (getGoPackage outBase modulePath) files)))"
  using package_text [OF _ assms(2,3)] assms(1)
  by (auto simp: all_closed_def nth_enumerate_eq go_closed_def newGoFile_def file_closed_def knows_def inert_neutral split: prod.split)

lemma add_types_closed:
  assumes "go_closed (length files) g" and "\<forall>f \<in> set files. proto_text f"
  shows "go_closed (length files) (add_types files g)"
proof -
  have "proto_text (files ! gf_ProtoFile g)" using assms by (simp add: go_closed_def)
  then have "list_all enum_closed (map (\<lambda>(j, e). NewEnumType (gf_ProtoFile g, j) e) (enumerate 0 (f_Enums (files ! gf_ProtoFile g))))"
    "list_all struct_closed (map (\<lambda>(j, m). NewStructType (gf_ProtoFile g, j) m) (enumerate 0 (f_Messages (files ! gf_ProtoFile g))))"
    using NewEnumType_closed NewStructType_closed
    by (auto simp: proto_text_def list_all_iff in_set_enumerate_eq)
  then show ?thesis using assms(1) by (auto simp: go_closed_def file_closed_def add_types_def Let_def knows_def)
qed

lemma AddField_closed:
  assumes "struct_closed g" and "field_closed ty" "packs_values ty" and "inert (ProtoName (fd_Name field))"
  shows "struct_closed (AddField field ty g)"
proof -
  have "tag_text (ProtoName (fd_Name field))" using assms(4) by (auto simp: tag_text_def list_all_iff inert_char_def)
  then show ?thesis using assms by (simp add: AddField_def struct_closed_def sfield_closed_def field_name_def camel_inert inert_neutral)
qed

lemma map_field_closed:
  assumes "quotes quote" and "all_closed n (fst st)" and "default_text field" "inert (ProtoName (fd_Name field))"
  shows "all_closed n (fst (map_field quote files i j field st))"
proof (cases "i < n")
  case False
  then show ?thesis using assms(2) by (auto simp: map_field_def all_closed_def nth_update_any split: prod.split sum.split)
next
  case True
  obtain goFiles errors where st: "st = (goFiles, errors)" by fastforce
  obtain g r where res: "ResolveType quote (f_Proto2 (files ! i)) goFiles field (goFiles ! i) = (g, r)" by fastforce
  have g: "go_closed n g" and ty: "\<And>ty. r = Inr ty \<Longrightarrow> field_closed ty \<and> packs_values ty"
    using ResolveType_closed [OF assms(1) _ _ assms(3) res] assms(2) st True by (auto simp: all_closed_def)
  have "go_closed n (g\<lparr>gf_structs := (gf_structs g)[j := AddField field ty (gf_structs g ! j)]\<rparr>)" if "r = Inr ty" for ty
    using g ty [OF that] AddField_closed [OF _ _ _ assms(4), of "gf_structs g ! j"]
    by (auto simp: go_closed_def file_closed_def knows_def list_all_length nth_update_any)
  then show ?thesis
    using g assms(2) st res all_closed_update by (auto simp: map_field_def split: sum.split)
qed

lemma map_fields_closed:
  assumes "quotes quote" and "all_closed n (fst st)" and "list_all message_text (f_Messages (files ! i))"
  shows "all_closed n (fst (map_fields quote files i st))"
proof -
  let ?closed = "\<lambda>st. all_closed n (fst st)"
  have one: "?closed (fold (map_field quote files i j) (md_Fields m) st)" if "?closed st" "message_text m" for j m st
    using that map_field_closed [OF assms(1)]
    by (intro fold_invariant [where P = ?closed and Q = "\<lambda>field. inert (ProtoName (fd_Name field)) \<and> default_text field"])
      (auto simp: message_text_def list_all_iff)
  show ?thesis
    unfolding map_fields_def
  proof (rule fold_invariant [where P = ?closed and Q = "\<lambda>(j, m). message_text m"])
    show "x \<in> set (enumerate 0 (f_Messages (files ! i))) \<Longrightarrow> (case x of (j, m) \<Rightarrow> message_text m)" for x
      using assms(3) by (auto simp: list_all_iff in_set_enumerate_eq)
    show "case x of (j, m) \<Rightarrow> message_text m \<Longrightarrow> ?closed s \<Longrightarrow>
        ?closed ((case x of (j, message) \<Rightarrow> fold (map_field quote files i j) (md_Fields message)) s)" for x s
      using one by (cases x) simp
  qed (rule assms(2))
qed

lemma MapProtoFiles_closed:
  assumes "MapProtoFiles quote outBase modulePath files = Ok (goFiles, errors)" and "quotes quote"
    and "\<forall>f \<in> set files. proto_text f" and "path_text outBase" "path_text modulePath" and "g \<in> set goFiles"
  shows "go_closed (length files) g"
proof -
  let ?n = "length files" and ?start = "map (\<lambda>(i, pkg). newGoFile i pkg) (enumerate 0 (map (getGoPackage outBase modulePath) files))"
  obtain gs es where gs: "mapImports files ?start = Ok (gs, es)"
    using assms(1) by (auto simp: MapProtoFiles_def Let_def gbind_Ok_iff split: if_splits)
  let ?typed = "map (add_types files) (map (\<lambda>g. g\<lparr>gf_FullOutputPath := buildOutputPath outBase (files ! gf_ProtoFile g)\<rparr>) gs)"
  have "all_closed ?n gs" using mapImports_closed [OF gs start_closed [OF assms(3-5)]] by simp
  moreover have "go_closed ?n (add_types files (g\<lparr>gf_FullOutputPath := p\<rparr>))" if "go_closed ?n g" for g p
    by (rule add_types_closed [OF _ assms(3)]) (use that in \<open>simp add: go_closed_def file_closed_def knows_def\<close>)
  ultimately have typed: "all_closed ?n ?typed" by (simp add: all_closed_def)
  have "all_closed ?n (fst (fold (map_fields quote files) [0..<?n] (?typed, [])))"
    using typed map_fields_closed [OF assms(2)] assms(3)
    by (intro fold_invariant [where P = "\<lambda>st. all_closed ?n (fst st)" and Q = "\<lambda>i. i < ?n"]) (auto simp: proto_text_def)
  moreover have "es = []" using assms(1,6) gs by (auto simp: MapProtoFiles_def Let_def split: if_splits)
  then have "goFiles = fst (fold (map_fields quote files) [0..<length gs] (?typed, []))"
    using assms(1) gs by (simp add: MapProtoFiles_def Let_def split: if_splits)
  moreover have "length gs = ?n" using typed by (simp add: all_closed_def)
  ultimately have "all_closed ?n goFiles" by simp
  then show ?thesis using assms(6) by (auto simp: all_closed_def in_set_conv_nth)
qed

text \<open>
  C7. What the compiler prints is closed: for proto files whose names are identifiers and whose
  paths have no special characters, printing a generated file never panics, and in the printed Go text every
  bracket is closed by its counterpart and every string literal, struct tag and comment ends.
\<close>

theorem generated_text_closed:
  assumes "MapProtoFiles quote outBase modulePath files = Ok (goFiles, errors)" and "\<forall>s. neutral (quote s)"
    and "\<forall>f \<in> set files. proto_text f" and "path_text outBase" "path_text modulePath" and "g \<in> set goFiles"
  shows "\<exists>code. GenerateCode quote (f_RelativePath (files ! gf_ProtoFile g)) g = Some code \<and> go_scan (Code []) code = Code []"
proof -
  have quote: "quotes quote" using assms(2) by (simp add: quotes_def)
  have g: "go_closed (length files) g" using MapProtoFiles_closed [OF assms(1) quote assms(3-6)] .
  then have "proto_text (files ! gf_ProtoFile g)" using assms(3) by (simp add: go_closed_def)
  then have "NL \<notin> set (f_RelativePath (files ! gf_ProtoFile g))" by (simp add: proto_text_def relative_path_def)
  with g file_neutral quote show ?thesis unfolding go_closed_def by (metis neutral_scan)
qed

text \<open>A quoting function for ASCII text: quotes, backslashes and control characters are escaped.\<close>

definition quote_char :: "char \<Rightarrow> string" where
  "quote_char c =
     (if c = CHR 0x22 then [CHR 0x5C, CHR 0x22] else if c = CHR 0x5C then [CHR 0x5C, CHR 0x5C]
      else if c = NL then [CHR 0x5C, CHR ''n''] else if c = TAB then [CHR 0x5C, CHR ''t''] else [c])"

definition ascii_quote :: "string \<Rightarrow> string" where
  "ascii_quote s = CHR 0x22 # concat (map quote_char s) @ [CHR 0x22]"

lemma ascii_quote_neutral: "neutral (ascii_quote s)"
proof (rule neutralI)
  have "go_scan (Str st) (quote_char c) = Str st" for st c by (simp add: quote_char_def)
  then have "go_scan (Str st) (concat (map quote_char s)) = Str st" for st by (induction s) simp_all
  then show "go_scan (Code st) (ascii_quote s) = Code st" for st by (simp add: ascii_quote_def)
qed

theorem generated_text_closed_witness:
  "\<exists>code. GenerateCode ascii_quote ''app.proto'' (ex_generated ! 1) = Some code \<and> go_scan (Code []) code = Code []"
proof -
  have gen: "MapProtoFiles ascii_quote ''/w'' ''nc'' ex_resolved = Ok (ex_generated, [])"
    by code_simp
  have texts: "\<forall>f \<in> set ex_resolved. proto_text f" by code_simp
  have g: "ex_generated ! 1 \<in> set ex_generated" "f_RelativePath (ex_resolved ! gf_ProtoFile (ex_generated ! 1)) = ''app.proto''"
    "path_text ''/w''" "path_text ''nc''" by code_simp+
  have "\<forall>s. neutral (ascii_quote s)" using ascii_quote_neutral by blast
  from generated_text_closed [OF gen this texts g(3,4,1)] g(2) show ?thesis by simp
qed

end
