(* ===== verification/Gremlinc.thy ===== *)
theory Gremlinc
  imports Go_Lexical
begin

text \<open>
  The compiler as a program: \<^verbatim>\<open>gremlinc/main.go\<close> with the writing of the generated files
  (\<^verbatim>\<open>golang/golang.go\<close>), and the helpers of \<^verbatim>\<open>internal/pathutils\<close>. The operating system, the walk over
  the folders and the proto parser are arguments; the state is what is on the disk. Printed messages
  other than the errors are left out.
\<close>

section \<open>The operating system\<close>

text \<open>
  What the program asks: the absolute path of a folder, the calls of the walk below it, opening and parsing
  a file, whether making a folder fails, and whether writing a file fails, with what is then left of it. The
  errors of the goroutines of ParseStruct arrive in some order.
\<close>

record 'e os =
  os_Abs :: "string \<Rightarrow> 'e + string"
  os_WalkDir :: "string \<Rightarrow> 'e dir_call list"
  os_Parse :: "string \<Rightarrow> 'e + visitee list"
  os_MkdirAll :: "string \<Rightarrow> 'e option"
  os_WriteFile :: "string \<Rightarrow> string \<Rightarrow> ('e \<times> string option) option"
  os_Order :: "parse_error list list \<Rightarrow> parse_error list"

record disk =
  disk_files :: "string \<rightharpoonup> string"
  disk_made :: "string list"

definition MkdirAll :: "'e os \<Rightarrow> string \<Rightarrow> disk \<Rightarrow> 'e option \<times> disk" where
  "MkdirAll os p d =
     (case os_MkdirAll os p of None \<Rightarrow> (None, d\<lparr>disk_made := disk_made d @ [p]\<rparr>) | Some e \<Rightarrow> (Some e, d))"

definition WriteFile :: "'e os \<Rightarrow> string \<Rightarrow> string \<Rightarrow> disk \<Rightarrow> 'e option \<times> disk" where
  "WriteFile os p content d =
     (case os_WriteFile os p content of
        None \<Rightarrow> (None, d\<lparr>disk_files := (disk_files d)(p \<mapsto> content)\<rparr>)
      | Some (e, rest) \<Rightarrow> (Some e, d\<lparr>disk_files := (disk_files d)(p := rest)\<rparr>))"


section \<open>Writing the generated files\<close>

datatype 'e main_error = ParseErr parse_error | FrontErr front_error | GenErr gen_error | WriteErr 'e

text \<open>The loop of Generate; None in place of the errors is a panic of the printer.\<close>

fun write_targets :: "(string \<Rightarrow> string) \<Rightarrow> 'e os \<Rightarrow> ProtoFile list \<Rightarrow> GoGeneratedFile list \<Rightarrow> 'e main_error list \<Rightarrow> disk \<Rightarrow>
    'e main_error list option \<times> disk" where
  "write_targets quote os targets [] errors d = (Some errors, d)"
| "write_targets quote os targets (target # mapped) errors d =
     (case GenerateCode quote (f_RelativePath (targets ! gf_ProtoFile target)) target of
        None \<Rightarrow> (None, d)
      | Some content \<Rightarrow>
          let (_, d) = MkdirAll os (Dir (gf_FullOutputPath target)) d;
              (err, d) = WriteFile os (gf_FullOutputPath target) content d in
          write_targets quote os targets mapped (case err of None \<Rightarrow> errors | Some e \<Rightarrow> errors @ [WriteErr e]) d)"

definition Generate :: "(string \<Rightarrow> string) \<Rightarrow> 'e os \<Rightarrow> string \<Rightarrow> string \<Rightarrow> ProtoFile list \<Rightarrow> disk \<Rightarrow> 'e main_error list option \<times> disk" where
  "Generate quote os outBase modulePath targets d =
     (case MapProtoFiles quote outBase modulePath targets of
        Ok (mapped, errors) \<Rightarrow>
          if length errors > 0 then (Some (map GenErr errors), d) else write_targets quote os targets mapped [] d
      | _ \<Rightarrow> (None, d))"


section \<open>The main function\<close>

definition CreateTargetFolder :: "'e os \<Rightarrow> string \<Rightarrow> disk \<Rightarrow> 'e option \<times> disk" where
  "CreateTargetFolder os targetPath d = MkdirAll os targetPath d"

text \<open>\<^verbatim>\<open>strings.TrimSpace\<close> on ASCII text.\<close>

definition is_space :: "char \<Rightarrow> bool" where
  "is_space c \<longleftrightarrow> c \<in> {CHR '' '', CHR 0x09, CHR 0x0A, CHR 0x0B, CHR 0x0C, CHR 0x0D}"

definition TrimSpace :: "string \<Rightarrow> string" where
  "TrimSpace s = rev (dropWhile is_space (rev (dropWhile is_space s)))"

record main_flags =
  fl_src :: string
  fl_out :: string
  fl_module :: string
  fl_ignore :: string

definition ignore_list :: "main_flags \<Rightarrow> string list" where
  "ignore_list flags =
     (if fl_ignore flags \<noteq> [] then map TrimSpace (split_on CHR '','' (fl_ignore flags)) else DefaultIgnorePatterns)"

text \<open>How the program ends: log.Fatal, a panic with an error, another panic, the exit status -1 after printing errors, or success.\<close>

datatype 'e main_exit =
    MissingFlag string
  | PanicError 'e
  | PanicParse string 'e
  | Crash
  | FatalFront front_exit
  | ExitErrors "'e main_error list"
  | Done

definition main_generate :: "(string \<Rightarrow> string) \<Rightarrow> 'e os \<Rightarrow> main_flags \<Rightarrow> ProtoFile list \<Rightarrow> disk \<Rightarrow> 'e main_exit \<times> disk" where
  "main_generate quote os flags targets d =
     (case Generate quote os (fl_out flags) (fl_module flags) targets d of
        (None, d) \<Rightarrow> (Crash, d)
      | (Some errors, d) \<Rightarrow> (if length errors > 0 then ExitErrors errors else Done, d))"

definition main_resolve :: "(string \<Rightarrow> string) \<Rightarrow> 'e os \<Rightarrow> main_flags \<Rightarrow> ProtoFile list \<Rightarrow> disk \<Rightarrow> 'e main_exit \<times> disk" where
  "main_resolve quote os flags targets d =
     (case ResolveImportsAndReferences quote targets of
        Ok (targets, errors) \<Rightarrow>
          if length errors > 0 then (ExitErrors (map FrontErr errors), d) else main_generate quote os flags targets d
      | Err e \<Rightarrow> (FatalFront e, d)
      | _ \<Rightarrow> (Crash, d))"

definition main_parse :: "(string \<Rightarrow> string) \<Rightarrow> 'e os \<Rightarrow> main_flags \<Rightarrow> ProtoFile list \<Rightarrow> disk \<Rightarrow> 'e main_exit \<times> disk" where
  "main_parse quote os flags targets d =
     (case ParseProtoFiles (os_Parse os) targets of
        Err (p, e) \<Rightarrow> (PanicParse p e, d)
      | Ok parsed \<Rightarrow>
          let targets = map (\<lambda>(file, tree). fst (extractProtoStruct tree file)) parsed;
              errors = os_Order os (map (\<lambda>(file, tree). snd (extractProtoStruct tree file)) parsed) in
          if length errors > 0 then (ExitErrors (map ParseErr errors), d)
          else main_resolve quote os flags targets d
      | _ \<Rightarrow> (Crash, d))"

definition main :: "(string \<Rightarrow> string) \<Rightarrow> 'e os \<Rightarrow> main_flags \<Rightarrow> disk \<Rightarrow> 'e main_exit \<times> disk" where
  "main quote os flags d =
     (if fl_src flags = [] then (MissingFlag ''-src'', d)
      else if fl_out flags = [] then (MissingFlag ''-out'', d)
      else
        case CreateTargetFolder os (fl_out flags) d of
          (Some e, d) \<Rightarrow> (PanicError e, d)
        | (None, d) \<Rightarrow>
            let absPath = os_Abs os (fl_src flags);
                calls = (case absPath of Inl e \<Rightarrow> [] | Inr absCwd \<Rightarrow> os_WalkDir os absCwd) in
            (case FindAllProtobufFiles absPath calls (ignore_list flags) of
               Err e \<Rightarrow> (PanicError e, d)
             | Ok targets \<Rightarrow> main_parse quote os flags targets d
             | _ \<Rightarrow> (Crash, d)))"

text \<open>What ParseStruct leaves is one of the orders its goroutines can produce.\<close>

lemma main_parse_struct:
  assumes "\<forall>errs. os_Order os errs \<in> interleavings errs"
  shows "fst (ParseStruct parsed) = map (\<lambda>(file, tree). fst (extractProtoStruct tree file)) parsed"
    "os_Order os (map (\<lambda>(file, tree). snd (extractProtoStruct tree file)) parsed) \<in> snd (ParseStruct parsed)"
proof -
  have "map snd (map (\<lambda>(file, tree). extractProtoStruct tree file) parsed) = map (\<lambda>(file, tree). snd (extractProtoStruct tree file)) parsed"
    by auto
  then show "os_Order os (map (\<lambda>(file, tree). snd (extractProtoStruct tree file)) parsed) \<in> snd (ParseStruct parsed)"
    using assms by (metis ParseStruct_def snd_conv)
qed (auto simp: ParseStruct_def Let_def)


section \<open>What a run leaves on the disk\<close>

text \<open>A run whose stages in front of the printer all succeed, with what each of them returns.\<close>

definition compiled :: "(string \<Rightarrow> string) \<Rightarrow> 'e os \<Rightarrow> main_flags \<Rightarrow> (ProtoFile \<times> visitee list) list \<Rightarrow> ProtoFile list \<Rightarrow>
    GoGeneratedFile list \<Rightarrow> bool" where
  "compiled quote os flags parsed resolved goFiles \<longleftrightarrow>
     (\<exists>absCwd found. os_Abs os (fl_src flags) = Inr absCwd \<and>
       FindAllProtobufFiles (Inr absCwd) (os_WalkDir os absCwd) (ignore_list flags) = Ok found \<and>
       ParseProtoFiles (os_Parse os) found = Ok parsed) \<and>
     os_Order os (map (\<lambda>(file, tree). snd (extractProtoStruct tree file)) parsed) = [] \<and>
     ResolveImportsAndReferences quote (map (\<lambda>(file, tree). fst (extractProtoStruct tree file)) parsed) = Ok (resolved, []) \<and>
     MapProtoFiles quote (fl_out flags) (fl_module flags) resolved = Ok (goFiles, [])"

text \<open>How the result of the writer ends the program.\<close>

definition exit_of :: "'e main_error list option \<times> disk \<Rightarrow> 'e main_exit \<times> disk" where
  "exit_of r = (case r of (None, d) \<Rightarrow> (Crash, d) | (Some errors, d) \<Rightarrow> (if length errors > 0 then ExitErrors errors else Done, d))"

lemma main_generate_stage:
  assumes "main_generate quote os flags targets d = r"
  shows "snd r = d \<and> fst r \<noteq> Done \<or>
    (\<exists>goFiles. MapProtoFiles quote (fl_out flags) (fl_module flags) targets = Ok (goFiles, []) \<and>
      r = exit_of (write_targets quote os targets goFiles [] d))"
  using assms unfolding main_generate_def Generate_def exit_of_def
  by (cases "MapProtoFiles quote (fl_out flags) (fl_module flags) targets") (auto split: if_splits)

lemma main_resolve_stage:
  assumes "main_resolve quote os flags targets d = r"
  shows "snd r = d \<and> fst r \<noteq> Done \<or>
    (\<exists>resolved goFiles. ResolveImportsAndReferences quote targets = Ok (resolved, []) \<and>
      MapProtoFiles quote (fl_out flags) (fl_module flags) resolved = Ok (goFiles, []) \<and>
      r = exit_of (write_targets quote os resolved goFiles [] d))"
proof (cases "ResolveImportsAndReferences quote targets")
  case (Ok x)
  then show ?thesis
    using assms main_generate_stage [of quote os flags "fst x" d] by (cases x) (auto simp: main_resolve_def split: if_splits)
qed (use assms in \<open>auto simp: main_resolve_def\<close>)

lemma main_parse_stage:
  assumes "main_parse quote os flags found d = r"
  shows "snd r = d \<and> fst r \<noteq> Done \<or>
    (\<exists>parsed resolved goFiles. ParseProtoFiles (os_Parse os) found = Ok parsed \<and>
      os_Order os (map (\<lambda>(file, tree). snd (extractProtoStruct tree file)) parsed) = [] \<and>
      ResolveImportsAndReferences quote (map (\<lambda>(file, tree). fst (extractProtoStruct tree file)) parsed) = Ok (resolved, []) \<and>
      MapProtoFiles quote (fl_out flags) (fl_module flags) resolved = Ok (goFiles, []) \<and>
      r = exit_of (write_targets quote os resolved goFiles [] d))"
proof (cases "ParseProtoFiles (os_Parse os) found")
  case (Ok parsed)
  show ?thesis
    using assms Ok main_resolve_stage [of quote os flags "map (\<lambda>(file, tree). fst (extractProtoStruct tree file)) parsed" d r]
    unfolding main_parse_def Let_def by (auto split: if_splits)
qed (use assms in \<open>auto simp: main_parse_def split: prod.splits\<close>)

lemma main_stages:
  assumes "main quote os flags d = (out, d')"
  shows "disk_files d' = disk_files d \<and> out \<noteq> Done \<or>
    (\<exists>parsed resolved goFiles d1. compiled quote os flags parsed resolved goFiles \<and> disk_files d1 = disk_files d \<and>
      (out, d') = exit_of (write_targets quote os resolved goFiles [] d1))"
proof -
  obtain e d1 where made: "CreateTargetFolder os (fl_out flags) d = (e, d1)" by fastforce
  then have same: "disk_files d1 = disk_files d"
    by (auto simp: CreateTargetFolder_def MkdirAll_def split: option.splits)
  show ?thesis
  proof (cases "fl_src flags = [] \<or> fl_out flags = [] \<or> e \<noteq> None")
    case True
    then show ?thesis using assms made same by (auto simp: main_def split: if_splits)
  next
    case go: False
    show ?thesis
    proof (cases "os_Abs os (fl_src flags)")
      case (Inl err)
      then show ?thesis using assms made same go by (auto simp: main_def FindAllProtobufFiles_def)
    next
      case (Inr absCwd)
      show ?thesis
      proof (cases "FindAllProtobufFiles (Inr absCwd) (os_WalkDir os absCwd) (ignore_list flags)")
        case (Ok found)
        then have "main_parse quote os flags found d1 = (out, d')" using assms made go Inr by (simp add: main_def)
        from main_parse_stage [OF this] Ok Inr same show ?thesis unfolding compiled_def by auto
      qed (use assms made same go Inr in \<open>auto simp: main_def\<close>)
    qed
  qed
qed

text \<open>The disk after all files were written without an error.\<close>

lemma write_targets_paths: "snd (write_targets quote os targets gs errors d) = d' \<Longrightarrow>
    p \<notin> gf_FullOutputPath ` set gs \<Longrightarrow> disk_files d' p = disk_files d p"
proof (induction gs arbitrary: errors d)
  case (Cons g gs)
  show ?case
  proof (cases "GenerateCode quote (f_RelativePath (targets ! gf_ProtoFile g)) g")
    case None
    then show ?thesis using Cons.prems by simp
  next
    case (Some content)
    obtain x d1 where d1: "MkdirAll os (Dir (gf_FullOutputPath g)) d = (x, d1)" by fastforce
    obtain err d2 where d2: "WriteFile os (gf_FullOutputPath g) content d1 = (err, d2)" by fastforce
    have "disk_files d2 p = disk_files d p"
      using d1 d2 Cons.prems(2) by (auto simp: MkdirAll_def WriteFile_def split: option.splits prod.splits)
    then show ?thesis using Cons.IH [of "case err of None \<Rightarrow> errors | Some e \<Rightarrow> errors @ [WriteErr e]" d2] Cons.prems Some d1 d2 by simp
  qed
qed simp

lemma write_targets_ok:
  assumes "write_targets quote os targets gs errors d = (Some [], d')"
  shows "errors = [] \<and> (\<forall>i < length gs. (\<forall>j < length gs. i < j \<longrightarrow> gf_FullOutputPath (gs ! j) \<noteq> gf_FullOutputPath (gs ! i)) \<longrightarrow>
    (\<exists>code. GenerateCode quote (f_RelativePath (targets ! gf_ProtoFile (gs ! i))) (gs ! i) = Some code \<and>
      disk_files d' (gf_FullOutputPath (gs ! i)) = Some code))"
  using assms
proof (induction gs arbitrary: errors d)
  case (Cons g gs)
  obtain content where content: "GenerateCode quote (f_RelativePath (targets ! gf_ProtoFile g)) g = Some content"
    using Cons.prems by (auto split: option.splits)
  obtain x d1 where d1: "MkdirAll os (Dir (gf_FullOutputPath g)) d = (x, d1)" by fastforce
  obtain err d2 where d2: "WriteFile os (gf_FullOutputPath g) content d1 = (err, d2)" by fastforce
  have rest: "write_targets quote os targets gs (case err of None \<Rightarrow> errors | Some e \<Rightarrow> errors @ [WriteErr e]) d2 = (Some [], d')"
    using Cons.prems content d1 d2 by simp
  note IH = Cons.IH [OF rest]
  then have err: "err = None" "errors = []" by (auto split: option.splits)
  have "disk_files d2 (gf_FullOutputPath g) = Some content"
    using d2 err by (auto simp: WriteFile_def split: option.splits prod.splits)
  then have "gf_FullOutputPath g \<notin> gf_FullOutputPath ` set gs \<Longrightarrow> disk_files d' (gf_FullOutputPath g) = Some content"
    using write_targets_paths [of quote os targets gs _ d2 d'] rest by (metis snd_conv)
  note first = this
  show ?case
  proof (intro conjI allI impI)
    show "errors = []" by (rule err)
    fix i assume i: "i < length (g # gs)"
      and later: "\<forall>j < length (g # gs). i < j \<longrightarrow> gf_FullOutputPath ((g # gs) ! j) \<noteq> gf_FullOutputPath ((g # gs) ! i)"
    show "\<exists>code. GenerateCode quote (f_RelativePath (targets ! gf_ProtoFile ((g # gs) ! i))) ((g # gs) ! i) = Some code \<and>
        disk_files d' (gf_FullOutputPath ((g # gs) ! i)) = Some code"
    proof (cases i)
      case 0
      have "gf_FullOutputPath (gs ! j) \<noteq> gf_FullOutputPath g" if "j < length gs" for j
        using later [rule_format, of "Suc j"] that 0 by simp
      then have "gf_FullOutputPath g \<notin> gf_FullOutputPath ` set gs" by (metis imageE in_set_conv_nth)
      with first content 0 show ?thesis by simp
    next
      case (Suc k)
      have "gf_FullOutputPath (gs ! j) \<noteq> gf_FullOutputPath (gs ! k)" if "j < length gs" "k < j" for j
        using later [rule_format, of "Suc j"] that Suc by simp
      with IH i Suc show ?thesis by simp
    qed
  qed
qed simp

text \<open>
  C9. A run of the compiler that ends with success has found, parsed, resolved and mapped every file without an
  error, and the disk then holds, at the output path of every generated file, the text that the
  printer makes of it, unless a later file has the same output path; all other files are as before.
\<close>

theorem gremlinc_success:
  assumes "main quote os flags d = (Done, d')"
  shows "\<exists>parsed resolved goFiles. compiled quote os flags parsed resolved goFiles \<and>
    (\<forall>i < length goFiles. (\<forall>j < length goFiles. i < j \<longrightarrow> gf_FullOutputPath (goFiles ! j) \<noteq> gf_FullOutputPath (goFiles ! i)) \<longrightarrow>
      (\<exists>code. GenerateCode quote (f_RelativePath (resolved ! gf_ProtoFile (goFiles ! i))) (goFiles ! i) = Some code \<and>
        disk_files d' (gf_FullOutputPath (goFiles ! i)) = Some code)) \<and>
    (\<forall>p. p \<notin> gf_FullOutputPath ` set goFiles \<longrightarrow> disk_files d' p = disk_files d p)"
proof -
  from main_stages [OF assms] obtain parsed resolved goFiles d1 where c: "compiled quote os flags parsed resolved goFiles"
    and d1: "disk_files d1 = disk_files d" and "(Done, d') = exit_of (write_targets quote os resolved goFiles [] d1)"
    by auto
  then have w: "write_targets quote os resolved goFiles [] d1 = (Some [], d')"
    by (auto simp: exit_of_def split: prod.splits option.splits if_splits)
  then have "snd (write_targets quote os resolved goFiles [] d1) = d'" by simp
  from write_targets_paths [OF this] write_targets_ok [OF w] d1 c show ?thesis by auto
qed

text \<open>
  C10. The compiler writes nothing before everything is resolved: when a run, however it ends, has changed a file,
  then all files were found, parsed, resolved and mapped without an error, and the changed file is the
  output of one of them.
\<close>

theorem gremlinc_no_early_output:
  assumes "main quote os flags d = (out, d')" and "disk_files d' p \<noteq> disk_files d p"
  shows "\<exists>parsed resolved goFiles. compiled quote os flags parsed resolved goFiles \<and> p \<in> gf_FullOutputPath ` set goFiles"
proof -
  have "disk_files d' \<noteq> disk_files d" using assms(2) by auto
  with main_stages [OF assms(1)] obtain parsed resolved goFiles d1 where c: "compiled quote os flags parsed resolved goFiles"
    and d1: "disk_files d1 = disk_files d" and w: "(out, d') = exit_of (write_targets quote os resolved goFiles [] d1)"
    by auto
  then have "snd (write_targets quote os resolved goFiles [] d1) = d'"
    by (auto simp: exit_of_def split: prod.splits option.splits)
  from write_targets_paths [OF this, of p] d1 c assms(2) show ?thesis by auto
qed

text \<open>One file with an enum, compiled from its folder.\<close>

definition ex_os :: "unit os" where
  "ex_os = \<lparr>os_Abs = Inr, os_WalkDir = (\<lambda>_. [(''/w/c.proto'', Some False, None)]),
     os_Parse = (\<lambda>_. Inr [VPackage ''paint'', VEnum \<lparr>pe_Name = ''Color'', pe_Parent = OtherParent,
       pe_Elements = [Some \<lparr>pv_Name = ''RED'', pv_Integer = 0, pv_Elements = []\<rparr>, Some \<lparr>pv_Name = ''BLUE'', pv_Integer = - 1, pv_Elements = []\<rparr>]\<rparr>]),
     os_MkdirAll = (\<lambda>_. None), os_WriteFile = (\<lambda>_ _. None), os_Order = concat\<rparr>"

definition ex_flags :: main_flags where
  "ex_flags = \<lparr>fl_src = ''/w'', fl_out = ''/out'', fl_module = ''nc'', fl_ignore = ''tmp, vendor''\<rparr>"

definition ex_disk :: disk where
  "ex_disk = \<lparr>disk_files = Map.empty, disk_made = []\<rparr>"

lemma ex_run: "fst (main ascii_quote ex_os ex_flags ex_disk) = Done"
    "disk_files (snd (main ascii_quote ex_os ex_flags ex_disk)) ''/out/paint/c.pb2.go'' \<noteq> None"
  by code_simp+

theorem gremlinc_success_witness:
  "\<exists>parsed resolved goFiles. compiled ascii_quote ex_os ex_flags parsed resolved goFiles \<and>
    (\<forall>p. p \<notin> gf_FullOutputPath ` set goFiles \<longrightarrow> disk_files (snd (main ascii_quote ex_os ex_flags ex_disk)) p = None)"
proof -
  have "main ascii_quote ex_os ex_flags ex_disk = (Done, snd (main ascii_quote ex_os ex_flags ex_disk))"
    using ex_run(1) by (simp add: prod_eq_iff)
  from gremlinc_success [OF this] show ?thesis by (auto simp: ex_disk_def)
qed

theorem gremlinc_no_early_output_witness:
  "\<exists>parsed resolved goFiles. compiled ascii_quote ex_os ex_flags parsed resolved goFiles \<and>
    ''/out/paint/c.pb2.go'' \<in> gf_FullOutputPath ` set goFiles"
proof -
  have "main ascii_quote ex_os ex_flags ex_disk =
      (fst (main ascii_quote ex_os ex_flags ex_disk), snd (main ascii_quote ex_os ex_flags ex_disk))" by simp
  moreover have "disk_files (snd (main ascii_quote ex_os ex_flags ex_disk)) ''/out/paint/c.pb2.go'' \<noteq> disk_files ex_disk ''/out/paint/c.pb2.go''"
    using ex_run(2) by (simp add: ex_disk_def)
  ultimately show ?thesis by (rule gremlinc_no_early_output)
qed

text \<open>
  A file of a package and a file without package in a folder of that name have the same output path: the second
  replaces the first.
\<close>

lemma output_path_collision:
  "buildOutputPath ''/out'' ((new_file ''/w/a/x.proto'')\<lparr>f_RelativePath := ''a/x.proto'',
      f_Package := Some \<lparr>pkg_Name = ParseName ''p''\<rparr>\<rparr>) =
   buildOutputPath ''/out'' ((new_file ''/w/a/p/x.proto'')\<lparr>f_RelativePath := ''a/p/x.proto''\<rparr>)"
  by code_simp


section \<open>Helpers for paths\<close>

text \<open>
  \<^verbatim>\<open>pathutils.go\<close>: the search for the folder with the Makefile goes up, at most \<open>maxDepth\<close> folders, with the names of a
  folder and the absolute path of its parent from the system.
\<close>

datatype 'e path_error = TooDeep int | ReadDirError 'e | AbsError 'e

function searchProjectRootFromTopToBottom :: "(string \<Rightarrow> 'e + string list) \<Rightarrow> (string \<Rightarrow> 'e + string) \<Rightarrow> string \<Rightarrow> int \<Rightarrow> int \<Rightarrow>
    'e path_error + string" where
  "searchProjectRootFromTopToBottom readDir absolute currentPath depth maxDepth =
     (if depth > maxDepth then Inl (TooDeep depth)
      else case readDir currentPath of
        Inl e \<Rightarrow> Inl (ReadDirError e)
      | Inr files \<Rightarrow>
          if list_ex (\<lambda>f. f = ''Makefile'') files then Inr currentPath
          else case absolute (currentPath @ ''/..'') of
            Inl e \<Rightarrow> Inl (AbsError e)
          | Inr p \<Rightarrow> searchProjectRootFromTopToBottom readDir absolute p (depth + 1) maxDepth)"
  by pat_completeness auto
termination
  by (relation "measure (\<lambda>(_, _, _, depth, maxDepth). nat (maxDepth + 1 - depth))") auto

declare searchProjectRootFromTopToBottom.simps [simp del]

definition GetProjectRootByMakefile :: "(string \<Rightarrow> 'e + string list) \<Rightarrow> (string \<Rightarrow> 'e + string) \<Rightarrow> string \<Rightarrow> int \<Rightarrow> 'e path_error + string" where
  "GetProjectRootByMakefile readDir absolute currentPath maxDepth =
     searchProjectRootFromTopToBottom readDir absolute currentPath 0 maxDepth"

text \<open>Existence is a successful stat; a folder that exists is not made again.\<close>

definition Exists :: "(string \<Rightarrow> 'e + 'i) \<Rightarrow> string \<Rightarrow> 'i option \<times> bool" where
  "Exists stat path = (case stat path of Inl e \<Rightarrow> (None, False) | Inr info \<Rightarrow> (Some info, True))"

definition MkPath :: "(string \<Rightarrow> 'e + 'i) \<Rightarrow> 'e os \<Rightarrow> string \<Rightarrow> disk \<Rightarrow> (string \<times> 'e) option \<times> disk" where
  "MkPath stat os path d =
     (if snd (Exists stat path) then (None, d)
      else case MkdirAll os path d of
        (Some e, d) \<Rightarrow> (Some (path, e), d)
      | (None, d) \<Rightarrow> (None, d))"

text \<open>The folders on the way up: each is the absolute path of the parent of the one before.\<close>

fun upward :: "(string \<Rightarrow> 'e + string) \<Rightarrow> string \<Rightarrow> nat \<Rightarrow> string option" where
  "upward absolute p 0 = Some p"
| "upward absolute p (Suc k) = (case absolute (p @ ''/..'') of Inl e \<Rightarrow> None | Inr q \<Rightarrow> upward absolute q k)"

lemma search_root_nearest:
  "searchProjectRootFromTopToBottom readDir absolute p depth maxDepth = Inr r \<longleftrightarrow>
    (\<exists>k. depth + int k \<le> maxDepth \<and> upward absolute p k = Some r \<and> (\<exists>fs. readDir r = Inr fs \<and> ''Makefile'' \<in> set fs) \<and>
      (\<forall>j < k. \<exists>q fs. upward absolute p j = Some q \<and> readDir q = Inr fs \<and> ''Makefile'' \<notin> set fs))"
proof (induction readDir absolute p depth maxDepth rule: searchProjectRootFromTopToBottom.induct)
  case (1 readDir absolute p depth maxDepth)
  let ?found = "\<lambda>p depth k. depth + int k \<le> maxDepth \<and> upward absolute p k = Some r \<and> (\<exists>fs. readDir r = Inr fs \<and> ''Makefile'' \<in> set fs) \<and>
      (\<forall>j < k. \<exists>q fs. upward absolute p j = Some q \<and> readDir q = Inr fs \<and> ''Makefile'' \<notin> set fs)"
  have ex: "(\<exists>k. P k) \<longleftrightarrow> P 0 \<or> (\<exists>k. P (Suc k))" for P :: "nat \<Rightarrow> bool" by (metis not0_implies_Suc)
  have zero: "?found p depth 0 \<longleftrightarrow> depth \<le> maxDepth \<and> p = r \<and> (\<exists>fs. readDir p = Inr fs \<and> ''Makefile'' \<in> set fs)" by auto
  have step: "?found p depth (Suc k) \<longleftrightarrow> (\<exists>fs q. readDir p = Inr fs \<and> ''Makefile'' \<notin> set fs \<and> absolute (p @ ''/..'') = Inr q \<and> ?found q (depth + 1) k)" for k
    by (cases "absolute (p @ ''/..'')") (auto simp: All_less_Suc2 algebra_simps)
  have "(\<exists>k. ?found p depth k) \<longleftrightarrow> ?found p depth 0 \<or> (\<exists>k. ?found p depth (Suc k))" by (rule ex)
  also have "\<dots> \<longleftrightarrow> searchProjectRootFromTopToBottom readDir absolute p depth maxDepth = Inr r"
    unfolding zero step using 1
    by (subst searchProjectRootFromTopToBottom.simps) (auto simp: list_ex_iff split: sum.split)
  finally show ?case by simp
qed

end
