(* ===== verification/St3215_Memory.thy ===== *)
theory St3215_Memory
  imports Go_Base
begin

text \<open>
  The register reads of the ST3215 servo, \<^verbatim>\<open>software/drivers/st3215/memory.go\<close>: a memory dump is
  a byte slice, every register is little-endian, and a dump too short for a register reads
  as 0, false or, for the error flag, true.
\<close>

definition ADDR_PRESENT_POSITION :: nat where "ADDR_PRESENT_POSITION = 0x38"
definition ADDR_PRESENT_CURRENT :: nat where "ADDR_PRESENT_CURRENT = 0x45"
definition ADDR_PRESENT_VELOCITY :: nat where "ADDR_PRESENT_VELOCITY = 0x3A"
definition ADDR_GOAL_POSITION :: nat where "ADDR_GOAL_POSITION = 0x2A"
definition ADDR_STATUS :: nat where "ADDR_STATUS = 0x40"
definition ADDR_TORQUE_ENABLE :: nat where "ADDR_TORQUE_ENABLE = 0x28"
definition SIGN_BIT_MASK :: u16 where "SIGN_BIT_MASK = 0x8000"
definition MAX_ANGLE_STEP :: u16 where "MAX_ANGLE_STEP = 4095"
definition BUFFER_SIZE :: nat where "BUFFER_SIZE = 0x47"

lemmas st3215_consts = ADDR_PRESENT_POSITION_def ADDR_PRESENT_CURRENT_def ADDR_PRESENT_VELOCITY_def
  ADDR_GOAL_POSITION_def ADDR_STATUS_def ADDR_TORQUE_ENABLE_def SIGN_BIT_MASK_def
  MAX_ANGLE_STEP_def BUFFER_SIZE_def

text \<open>An index expression, which panics outside the slice, and the little-endian pair the source
  spells out as \<^verbatim>\<open>uint16(data[a]) | uint16(data[a+1])<<8\<close>.\<close>

definition byte_of :: "bytes \<Rightarrow> nat \<Rightarrow> u8 option" where
  "byte_of data i = (if i < length data then Some (data ! i) else None)"

definition le16 :: "bytes \<Rightarrow> nat \<Rightarrow> u16 option" where
  "le16 data a =
     Option.bind (byte_of data a) (\<lambda>lo. Option.bind (byte_of data (a + 1)) (\<lambda>hi.
       Some (ucast lo OR push_bit 8 (ucast hi))))"

definition GetMotorPosition :: "bytes \<Rightarrow> u16 option" where
  "GetMotorPosition data =
     (if length data < ADDR_PRESENT_POSITION + 2 then Some 0
      else Option.bind (le16 data ADDR_PRESENT_POSITION) (\<lambda>position.
        if position AND SIGN_BIT_MASK \<noteq> 0 then
          let magnitude = position AND MAX_ANGLE_STEP
          in Some ((MAX_ANGLE_STEP + 1 - magnitude) AND MAX_ANGLE_STEP)
        else Some (position AND MAX_ANGLE_STEP)))"

definition GetMotorGoalPosition :: "bytes \<Rightarrow> u16 option" where
  "GetMotorGoalPosition data =
     (if length data < ADDR_GOAL_POSITION + 2 then Some 0
      else Option.bind (byte_of data ADDR_TORQUE_ENABLE) (\<lambda>t.
        let torqueEnabled = (t \<noteq> 0) in
        if \<not> torqueEnabled then GetMotorPosition data
        else le16 data ADDR_GOAL_POSITION))"

definition GetMotorCurrent :: "bytes \<Rightarrow> u16 option" where
  "GetMotorCurrent data =
     (if length data < ADDR_PRESENT_CURRENT + 2 then Some 0 else le16 data ADDR_PRESENT_CURRENT)"

definition GetMotorVelocity :: "bytes \<Rightarrow> u16 option" where
  "GetMotorVelocity data =
     (if length data < ADDR_PRESENT_VELOCITY + 2 then Some 0 else le16 data ADDR_PRESENT_VELOCITY)"

definition IsError :: "bytes \<Rightarrow> bool option" where
  "IsError data =
     (if length data < BUFFER_SIZE then Some True
      else map_option (\<lambda>b. b \<noteq> 0) (byte_of data ADDR_STATUS))"

definition IsTorqueEnabled :: "bytes \<Rightarrow> bool option" where
  "IsTorqueEnabled data =
     (if length data < ADDR_TORQUE_ENABLE + 1 then Some False
      else map_option (\<lambda>b. b \<noteq> 0) (byte_of data ADDR_TORQUE_ENABLE))"


section \<open>Correctness of the register reads\<close>

lemma byte_of_ok: "i < length data \<Longrightarrow> byte_of data i = Some (data ! i)"
  by (simp add: byte_of_def)

lemma unat_le16: "unat ((ucast (lo :: u8) :: u16) OR push_bit 8 (ucast (hi :: u8))) = unat lo + 256 * unat hi"
proof -
  have "(ucast lo :: u16) OR push_bit 8 (ucast hi) = ucast lo + push_bit 8 (ucast hi)"
    by (rule disjunctive_add [symmetric]) (auto simp: bit_simps dest: bit_imp_le_length)
  moreover have "unat (push_bit 8 (ucast hi) :: u16) = 256 * unat hi"
    using unat_less_pow [of hi] by (simp add: unat_word_ariths push_bit_eq_mult)
  moreover have "unat lo + 256 * unat hi < 65536"
    using unat_less_pow [of lo] unat_less_pow [of hi] by linarith
  ultimately show ?thesis by (simp add: unat_word_ariths)
qed

lemma le16_ok:
  "a + 1 < length data \<Longrightarrow> \<exists>w. le16 data a = Some w \<and> unat w = unat (data ! a) + 256 * unat (data ! (a + 1))"
  by (simp add: le16_def byte_of_def unat_le16)

lemma and_4095: "unat ((w :: u16) AND 4095) = unat w mod 4096"
proof -
  have "w AND 4095 = take_bit 12 w" by (simp add: take_bit_eq_mask mask_eq_exp_minus_1)
  then have "unat (w AND 4095) = take_bit 12 (unat w)" by (simp only: unsigned_take_bit_eq)
  then show ?thesis by (simp only: take_bit_eq_mod) simp
qed

lemma sign_bit: "(w :: u16) AND 0x8000 \<noteq> 0 \<longleftrightarrow> 32768 \<le> unat w"
proof -
  have "w AND 0x8000 \<noteq> 0 \<longleftrightarrow> bit w 15"
    using bit_iff_and_push_bit_not_eq_0 [of w 15] by simp
  also have "\<dots> \<longleftrightarrow> bit (unat w) 15" by (simp add: bit_unsigned_iff)
  also have "\<dots> \<longleftrightarrow> odd (unat w div 32768)" by (simp add: bit_iff_odd)
  also have "\<dots> \<longleftrightarrow> 32768 \<le> unat w"
  proof -
    have "unat w < 65536" using unsigned_less [of w, where ?'a = nat] by simp
    then have "unat w div 32768 < 2" by (simp add: div_less_iff_less_mult)
    then show ?thesis by (cases "32768 \<le> unat w") (auto simp: less_2_cases_iff div_eq_0_iff)
  qed
  finally show ?thesis .
qed

text \<open>
  C39. The present position is always a step of one revolution, 0 to 4095, and never panics. A dump
  that holds the register gives the register value modulo 4096 when the sign bit is clear and
  its negation modulo 4096 when it is set.
\<close>

theorem motor_position_correct:
  assumes "ADDR_PRESENT_POSITION + 2 \<le> length data"
    and "v = unat (data ! ADDR_PRESENT_POSITION) + 256 * unat (data ! (ADDR_PRESENT_POSITION + 1))"
  shows "\<exists>w. GetMotorPosition data = Some w \<and> unat w < 4096 \<and>
    int (unat w) = (if v < 32768 then int v else - int v) mod 4096"
proof -
  obtain p where p: "le16 data ADDR_PRESENT_POSITION = Some p" "unat p = v"
    using le16_ok [of ADDR_PRESENT_POSITION data] assms by auto
  have pos: "GetMotorPosition data =
      Some (if 32768 \<le> v then (4096 - (p AND 4095)) AND 4095 else p AND 4095)"
    using assms(1) p sign_bit [of p] by (simp add: GetMotorPosition_def Let_def st3215_consts)
  have "unat (p AND 4095) = v mod 4096" by (simp add: and_4095 p(2))
  moreover have "unat ((4096 - (p AND 4095)) AND 4095) = (4096 - v mod 4096) mod 4096"
  proof -
    have "v mod 4096 \<le> 4096" by (simp add: less_imp_le)
    then have "unat (4096 - (p AND 4095)) = 4096 - v mod 4096"
      by (subst unat_sub) (simp_all add: word_le_nat_alt and_4095 p(2))
    then show ?thesis by (simp add: and_4095)
  qed
  moreover have "int ((4096 - v mod 4096) mod 4096) = (- int v) mod 4096"
    by (simp add: of_nat_mod of_nat_diff less_imp_le mod_diff_eq mod_minus_eq zmod_int)
  moreover have "int (v mod 4096) = int v mod 4096" by (simp add: of_nat_mod)
  ultimately show ?thesis
    using pos by (cases "v < 32768") (simp_all add: not_less del: of_nat_unat)
qed


theorem motor_position_correct_witness:
  "\<exists>w. GetMotorPosition (replicate 56 0 @ [0x10, 0x80]) = Some w \<and> unat w < 4096 \<and>
    int (unat w) = (if (32784 :: nat) < 32768 then int 32784 else - int 32784) mod 4096"
  by (rule motor_position_correct) (simp_all add: st3215_consts nth_append)

text \<open>
  No register read panics, whatever the dump; a short dump reads as error, torque off, and 0.
\<close>

theorem st3215_reads_total:
  "GetMotorPosition data \<noteq> None \<and> GetMotorGoalPosition data \<noteq> None \<and> GetMotorCurrent data \<noteq> None \<and>
    GetMotorVelocity data \<noteq> None \<and> IsError data \<noteq> None \<and> IsTorqueEnabled data \<noteq> None \<and>
    (length data < ADDR_TORQUE_ENABLE + 1 \<longrightarrow> IsError data = Some True \<and> IsTorqueEnabled data = Some False \<and>
      GetMotorPosition data = Some 0 \<and> GetMotorGoalPosition data = Some 0)"
  by (auto simp: GetMotorPosition_def GetMotorGoalPosition_def GetMotorCurrent_def GetMotorVelocity_def
      IsError_def IsTorqueEnabled_def le16_def byte_of_def st3215_consts Let_def)

theorem st3215_reads_total_witness:
  "IsError [] = Some True \<and> IsTorqueEnabled [] = Some False"
  using st3215_reads_total [of "[]"] by (simp add: st3215_consts)

text \<open>
  While the torque is off the goal position is the present position, so a released servo has
  no position error.
\<close>

theorem goal_position_torque_off:
  assumes "IsTorqueEnabled data = Some False"
  shows "GetMotorGoalPosition data = GetMotorPosition data"
  using assms
  by (auto simp: GetMotorPosition_def GetMotorGoalPosition_def IsTorqueEnabled_def byte_of_def st3215_consts
      Let_def split: if_splits)

theorem goal_position_torque_off_witness:
  "GetMotorGoalPosition (replicate 71 0) = GetMotorPosition (replicate 71 0)"
  by (rule goal_position_torque_off) (simp add: IsTorqueEnabled_def byte_of_def st3215_consts)

end
