(* ===== verification/Go_Float.thy ===== *)
theory Go_Float
  imports Main
begin

text \<open>
  Go's float64 as a sign, an integer mantissa and a power of two, with the operations the programs use:
  quotients and sums that are rounded to 53 bits, to nearest with ties to even, as IEEE 754
  asks. The values are far from overflow and underflow.
\<close>

section \<open>Floating-point quotients\<close>

record f64 =
  fneg :: bool
  fmant :: int
  fexp :: int

definition f64_zero :: f64 where
  "f64_zero = \<lparr>fneg = False, fmant = 0, fexp = 0\<rparr>"

text \<open>A literal of the source, as an exact binary fraction.\<close>

definition f64_lit :: "int \<Rightarrow> int \<Rightarrow> f64" where
  "f64_lit m e = \<lparr>fneg = False, fmant = m, fexp = e\<rparr>"

text \<open>The exponent \<open>k\<close> that brings \<open>n * 2 ^ k / d\<close> to at least 2 to the 52.\<close>

function norm_shift :: "int \<Rightarrow> int \<Rightarrow> nat \<Rightarrow> nat" where
  "norm_shift n d k =
     (if n \<le> 0 then k else if n * 2 ^ k < 2 ^ 52 * d then norm_shift n d (k + 1) else k)"
  by pat_completeness auto
termination
proof (relation "measure (\<lambda>(n, d, k). nat (2 ^ 52 * d - n * 2 ^ k))")
  fix n d :: int and k :: nat
  assume "\<not> n \<le> 0" and "n * 2 ^ k < 2 ^ 52 * d"
  moreover have "n * 2 ^ k < n * 2 ^ (k + 1)" using \<open>\<not> n \<le> 0\<close> by simp
  ultimately show "((n, d, k + 1), n, d, k) \<in> measure (\<lambda>(n, d, k). nat (2 ^ 52 * d - n * 2 ^ k))"
    by simp
qed simp

declare norm_shift.simps [simp del]

definition round_even :: "int \<Rightarrow> int \<Rightarrow> int" where
  "round_even n d =
     (let q = n div d; r = n mod d
      in if 2 * r < d then q else if 2 * r > d then q + 1 else if even q then q else q + 1)"

text \<open>The quotient of an integer and a positive float constant.\<close>

definition f64_div :: "int \<Rightarrow> f64 \<Rightarrow> f64" where
  "f64_div v sc =
     (if v = 0 then f64_zero
      else let n = \<bar>v\<bar> * 2 ^ nat (- fexp sc); d = fmant sc * 2 ^ nat (fexp sc);
               k = norm_shift n d 0
        in \<lparr>fneg = v < 0, fmant = round_even (n * 2 ^ k) d, fexp = - int k\<rparr>)"

section \<open>The quotient is correctly rounded\<close>

lemma round_even_error: "0 < d \<Longrightarrow> 2 * \<bar>round_even n d * d - n\<bar> \<le> d"
proof -
  assume d: "0 < d"
  define q r where "q = n div d" and "r = n mod d"
  have n: "n = q * d + r" unfolding q_def r_def by simp
  have "0 \<le> r" "r < d" using d by (simp_all add: r_def)
  then show ?thesis
    unfolding round_even_def Let_def q_def [symmetric] r_def [symmetric]
    by (auto simp: n algebra_simps)
qed

lemma norm_shift_ge: "0 < n \<Longrightarrow> 2 ^ 52 * d \<le> n * 2 ^ norm_shift n d k"
proof (induction n d k rule: norm_shift.induct)
  case (1 n d k)
  then show ?case by (subst norm_shift.simps) (auto simp: not_less)
qed

lemma norm_shift_le: "n * 2 ^ k < 2 ^ 53 * d \<Longrightarrow> n * 2 ^ norm_shift n d k < 2 ^ 53 * d"
proof (induction n d k rule: norm_shift.induct)
  case (1 n d k)
  show ?case
  proof (cases "0 < n \<and> n * 2 ^ k < 2 ^ 52 * d")
    case True
    then have "n * 2 ^ (k + 1) < 2 ^ 53 * d" by simp
    with True 1 show ?thesis by (subst norm_shift.simps) simp
  next
    case False
    with 1(2) show ?thesis by (subst norm_shift.simps) auto
  qed
qed

text \<open>
  With a divisor \<open>d / 2 ^ s\<close>, the mantissa is within half a unit of the exact quotient at its exponent
  and has 53 bits.
\<close>

lemma f64_div_rounds:
  assumes "v \<noteq> 0" and "0 < fmant sc" and "fexp sc \<le> 0"
    and "\<bar>v\<bar> * 2 ^ nat (- fexp sc) < 2 ^ 53 * fmant sc"
  shows "\<exists>k. fexp (f64_div v sc) = - int k \<and> fneg (f64_div v sc) = (v < 0) \<and>
    2 * \<bar>fmant (f64_div v sc) * fmant sc - \<bar>v\<bar> * 2 ^ nat (- fexp sc) * 2 ^ k\<bar> \<le> fmant sc \<and>
    2 ^ 52 \<le> fmant (f64_div v sc) \<and> fmant (f64_div v sc) \<le> 2 ^ 53"
proof -
  define n where "n = \<bar>v\<bar> * 2 ^ nat (- fexp sc)"
  define k where "k = norm_shift n (fmant sc) 0"
  have n0: "0 < n" using assms(1) by (simp add: n_def)
  have f: "f64_div v sc = \<lparr>fneg = v < 0, fmant = round_even (n * 2 ^ k) (fmant sc), fexp = - int k\<rparr>"
    using assms(1,3) by (simp add: f64_div_def Let_def n_def k_def)
  have lo: "2 ^ 52 * fmant sc \<le> n * 2 ^ k" unfolding k_def by (rule norm_shift_ge [OF n0])
  have hi: "n * 2 ^ k < 2 ^ 53 * fmant sc"
    unfolding k_def using assms(4) by (intro norm_shift_le) (simp add: n_def)
  have "2 ^ 52 \<le> n * 2 ^ k div fmant sc"
    using lo assms(2) by (simp add: zdiv_mono1 [of "2 ^ 52 * fmant sc" _ "fmant sc", simplified])
  moreover have "n * 2 ^ k div fmant sc < 2 ^ 53"
  proof -
    have "n * 2 ^ k div fmant sc * fmant sc \<le> n * 2 ^ k"
      using assms(2) by (simp add: minus_mod_eq_div_mult [symmetric])
    then have "n * 2 ^ k div fmant sc * fmant sc < 2 ^ 53 * fmant sc" using hi by (rule le_less_trans)
    then show ?thesis using assms(2) by (simp only: mult_less_cancel_right)
  qed
  ultimately have "2 ^ 52 \<le> round_even (n * 2 ^ k) (fmant sc)" "round_even (n * 2 ^ k) (fmant sc) \<le> 2 ^ 53"
    by (auto simp: round_even_def Let_def)
  moreover have "2 * \<bar>round_even (n * 2 ^ k) (fmant sc) * fmant sc - n * 2 ^ k\<bar> \<le> fmant sc"
    using assms(2) by (rule round_even_error)
  ultimately show ?thesis unfolding f by (intro exI [of _ k]) (simp add: n_def)
qed

end
