(* ===== verification/Vesc_Buffer.thy ===== *)
theory Vesc_Buffer
  imports Go_Base Go_Float
begin

text \<open>
  The packet reader of the VESC driver, \<^verbatim>\<open>software/drivers/vesc-trampa/buffer.go\<close>: a cursor over
  the bytes of a payload with big-endian reads that report a short payload as an error.

  The reader only divides a 16-bit or 32-bit integer by a constant, with the quotient of \<open>Go_Float\<close>.
\<close>

section \<open>The packet reader\<close>

record packet_reader =
  pdata :: bytes
  poff :: nat

datatype vesc_err =
    TooShort string nat int
  | EmptyPayload
  | UnexpectedCommand u8
  | UnknownKind string

type_synonym 'a pread = "packet_reader \<Rightarrow> (vesc_err, 'a \<times> packet_reader) gres"

definition CommandGetValues :: u8 where "CommandGetValues = 4"
definition CommandGetMotorConfig :: u8 where "CommandGetMotorConfig = 14"
definition CommandGetAppConfig :: u8 where "CommandGetAppConfig = 17"
definition CommandGetValuesSel :: u8 where "CommandGetValuesSel = 50"

lemmas vesc_commands = CommandGetValues_def CommandGetMotorConfig_def CommandGetAppConfig_def
  CommandGetValuesSel_def

definition newPacketReader :: "bytes \<Rightarrow> packet_reader" where
  "newPacketReader data = \<lparr>pdata = data, poff = 0\<rparr>"

definition remaining :: "packet_reader \<Rightarrow> int" where
  "remaining r = int (length (pdata r)) - int (poff r)"

definition extra :: "packet_reader \<Rightarrow> bytes" where
  "extra r = (if poff r \<ge> length (pdata r) then [] else drop (poff r) (pdata r))"

definition need :: "string \<Rightarrow> nat \<Rightarrow> packet_reader \<Rightarrow> (vesc_err, unit) gres" where
  "need field n r = (if remaining r < int n then Err (TooShort field n (remaining r)) else Ok ())"

definition read_u8 :: "string \<Rightarrow> u8 pread" where
  "read_u8 field r =
     gbind (need field 1 r) (\<lambda>_.
     gbind (slice_index (slice_of (pdata r)) (int (poff r))) (\<lambda>v.
     Ok (v, r\<lparr>poff := poff r + 1\<rparr>)))"

text \<open>An int8 is its bit pattern read with sint.\<close>

definition read_i8 :: "string \<Rightarrow> u8 pread" where
  "read_i8 field r = read_u8 field r"

definition read_bool8 :: "string \<Rightarrow> bool pread" where
  "read_bool8 field r = gmap (\<lambda>(v, r). (v \<noteq> 0, r)) (read_u8 field r)"

text \<open>\<^verbatim>\<open>binary.BigEndian\<close>: the library reads the bytes in order and panics on a short slice.\<close>

fun be_Uint16 :: "bytes \<Rightarrow> ('e, u16) gres" where
  "be_Uint16 (b0 # b1 # bs) = Ok (ucast b1 OR push_bit 8 (ucast b0))"
| "be_Uint16 _ = Panic"

fun be_Uint32 :: "bytes \<Rightarrow> ('e, u32) gres" where
  "be_Uint32 (b0 # b1 # b2 # b3 # bs) =
     Ok (ucast b3 OR push_bit 8 (ucast b2) OR push_bit 16 (ucast b1) OR push_bit 24 (ucast b0))"
| "be_Uint32 _ = Panic"

definition read_u16 :: "string \<Rightarrow> u16 pread" where
  "read_u16 field r =
     gbind (need field 2 r) (\<lambda>_.
     gbind (be_Uint16 (drop (poff r) (pdata r))) (\<lambda>v.
     Ok (v, r\<lparr>poff := poff r + 2\<rparr>)))"

definition read_i16 :: "string \<Rightarrow> u16 pread" where
  "read_i16 field r = read_u16 field r"

definition read_u32 :: "string \<Rightarrow> u32 pread" where
  "read_u32 field r =
     gbind (need field 4 r) (\<lambda>_.
     gbind (be_Uint32 (drop (poff r) (pdata r))) (\<lambda>v.
     Ok (v, r\<lparr>poff := poff r + 4\<rparr>)))"

definition read_i32 :: "string \<Rightarrow> i32 pread" where
  "read_i32 field r = read_u32 field r"

definition read_float16 :: "string \<Rightarrow> f64 \<Rightarrow> f64 pread" where
  "read_float16 field sc r = gbind (read_i16 field r) (\<lambda>(v, r). Ok (f64_div (sint v) sc, r))"

definition read_float32 :: "string \<Rightarrow> f64 \<Rightarrow> f64 pread" where
  "read_float32 field sc r = gbind (read_i32 field r) (\<lambda>(v, r). Ok (f64_div (sint v) sc, r))"

text \<open>
  The significand is built exactly: \<^verbatim>\<open>sigI/2^24 + 0.5\<close> is \<open>(sigI + 2^23) / 2^24\<close>, and
  \<^verbatim>\<open>math.Ldexp\<close> shifts it by \<^verbatim>\<open>exp\<close>.
\<close>

definition float32_auto :: "u32 \<Rightarrow> f64" where
  "float32_auto res =
     (let exp = uint (drop_bit 23 res AND 0xff);
          sigI = uint (res AND 0x7fffff);
          neg = (res AND push_bit 31 1 \<noteq> 0)
      in if exp \<noteq> 0 \<or> sigI \<noteq> 0
         then \<lparr>fneg = neg, fmant = sigI + 2 ^ 23, fexp = (exp - 126) - 24\<rparr>
         else \<lparr>fneg = neg, fmant = 0, fexp = 0\<rparr>)"

definition read_float32Auto :: "string \<Rightarrow> f64 pread" where
  "read_float32Auto field r = gbind (read_u32 field r) (\<lambda>(res, r). Ok (float32_auto res, r))"

definition expectCommand :: "bytes \<Rightarrow> u8 list \<Rightarrow> (vesc_err, u8 \<times> bytes) gres" where
  "expectCommand payload expected =
     (case payload of
        [] \<Rightarrow> Err EmptyPayload
      | commandID # body \<Rightarrow>
          if commandID \<in> set expected then Ok (commandID, body)
          else Err (UnexpectedCommand commandID))"


section \<open>The contract of a read\<close>

text \<open>
  Every read takes a fixed number of bytes, decodes them and moves the cursor behind them; a
  payload with fewer bytes left gives an error. No read panics.
\<close>

definition cursor_ok :: "packet_reader \<Rightarrow> bool" where
  "cursor_ok r \<longleftrightarrow> poff r \<le> length (pdata r)"

lemma newPacketReader_ok: "cursor_ok (newPacketReader data)"
  by (simp add: cursor_ok_def newPacketReader_def)

locale fixed_read =
  fixes rd :: "'a pread"
    and width :: nat
    and dec :: "bytes \<Rightarrow> 'a"
  assumes read_ok: "poff r + width \<le> length (pdata r) \<Longrightarrow>
      rd r = Ok (dec (take width (drop (poff r) (pdata r))), r\<lparr>poff := poff r + width\<rparr>)"
    and read_short: "cursor_ok r \<Longrightarrow> length (pdata r) < poff r + width \<Longrightarrow> \<exists>e. rd r = Err e"
begin

lemma read_iff: "cursor_ok r \<Longrightarrow> (\<exists>v r'. rd r = Ok (v, r')) \<longleftrightarrow> poff r + width \<le> length (pdata r)"
  using read_ok [of r] read_short [of r] by (cases "poff r + width \<le> length (pdata r)") auto

lemma read_cursor:
  assumes "cursor_ok r" and "rd r = Ok (v, r')"
  shows "cursor_ok r' \<and> pdata r' = pdata r \<and> poff r' = poff r + width"
  using assms read_ok [of r] read_short [of r]
  by (cases "poff r + width \<le> length (pdata r)") (auto simp: cursor_ok_def)

lemma map_read: "fixed_read (\<lambda>r. gbind (rd r) (\<lambda>(v, r). Ok (f v, r))) width (\<lambda>bs. f (dec bs))"
proof
  show "cursor_ok r \<Longrightarrow> length (pdata r) < poff r + width \<Longrightarrow>
      \<exists>e. gbind (rd r) (\<lambda>(v, r). Ok (f v, r)) = Err e" for r
    using read_short [of r] by auto
qed (simp add: read_ok)

end

lemma need_ok: "poff r + n \<le> length (pdata r) \<Longrightarrow> need field n r = Ok ()"
  by (simp add: need_def remaining_def)

lemma need_short: "length (pdata r) < poff r + n \<Longrightarrow> need field n r = Err (TooShort field n (remaining r))"
  by (simp add: need_def remaining_def)

lemma drop_cons: "a < length xs \<Longrightarrow> drop a xs = xs ! a # drop (Suc a) xs"
  by (rule Cons_nth_drop_Suc [symmetric])

definition dec_u16 :: "bytes \<Rightarrow> u16" where
  "dec_u16 bs = ucast (bs ! 1) OR push_bit 8 (ucast (bs ! 0))"

definition dec_u32 :: "bytes \<Rightarrow> u32" where
  "dec_u32 bs = ucast (bs ! 3) OR push_bit 8 (ucast (bs ! 2)) OR push_bit 16 (ucast (bs ! 1)) OR
     push_bit 24 (ucast (bs ! 0))"

lemma be_Uint16_dec: "2 \<le> length bs \<Longrightarrow> be_Uint16 bs = Ok (dec_u16 bs)"
  by (cases bs rule: be_Uint16.cases) (simp_all add: dec_u16_def)

lemma be_Uint32_dec: "4 \<le> length bs \<Longrightarrow> be_Uint32 bs = Ok (dec_u32 bs)"
  by (cases bs rule: be_Uint32.cases) (simp_all add: dec_u32_def numeral_3_eq_3 numeral_2_eq_2)

lemma dec_take [simp]: "dec_u16 (take 2 bs) = dec_u16 bs" "dec_u32 (take 4 bs) = dec_u32 bs"
  by (simp_all add: dec_u16_def dec_u32_def)

interpretation rd_u8: fixed_read "read_u8 field" 1 "\<lambda>bs. bs ! 0" for field
  by unfold_locales (auto simp: read_u8_def need_ok need_short slice_index_def slice_len_def slice_of_def)

interpretation rd_i8: fixed_read "read_i8 field" 1 "\<lambda>bs. bs ! 0" for field
  unfolding read_i8_def by unfold_locales

interpretation rd_u16: fixed_read "read_u16 field" 2 dec_u16 for field
  by unfold_locales (auto simp: read_u16_def need_ok need_short be_Uint16_dec)

interpretation rd_i16: fixed_read "read_i16 field" 2 dec_u16 for field
  unfolding read_i16_def by unfold_locales

interpretation rd_u32: fixed_read "read_u32 field" 4 dec_u32 for field
  by unfold_locales (auto simp: read_u32_def need_ok need_short be_Uint32_dec)

interpretation rd_i32: fixed_read "read_i32 field" 4 dec_u32 for field
  unfolding read_i32_def by unfold_locales

interpretation rd_bool8: fixed_read "read_bool8 field" 1 "\<lambda>bs. bs ! 0 \<noteq> 0" for field
proof -
  have "read_bool8 field = (\<lambda>r. gbind (read_u8 field r) (\<lambda>(v, r). Ok (v \<noteq> 0, r)))"
    by (rule ext) (simp add: read_bool8_def gmap_gbind case_prod_unfold)
  then show "fixed_read (read_bool8 field) 1 (\<lambda>bs. bs ! 0 \<noteq> 0)"
    using rd_u8.map_read [of field "\<lambda>v. v \<noteq> 0"] by simp
qed

interpretation rd_float16: fixed_read "read_float16 field sc" 2 "\<lambda>bs. f64_div (sint (dec_u16 bs)) sc" for field sc
  unfolding read_float16_def by (rule rd_i16.map_read)

interpretation rd_float32: fixed_read "read_float32 field sc" 4 "\<lambda>bs. f64_div (sint (dec_u32 bs)) sc" for field sc
  unfolding read_float32_def by (rule rd_i32.map_read)

interpretation rd_float32Auto: fixed_read "read_float32Auto field" 4 "\<lambda>bs. float32_auto (dec_u32 bs)" for field
  unfolding read_float32Auto_def by (rule rd_u32.map_read)

section \<open>A scaled reading is correctly rounded\<close>

text \<open>
  A scaled reading of four bytes is the correctly rounded quotient of the signed big-endian
  number and the divisor: its sign is the sign of the number, its mantissa has 53 bits and is
  within half a unit of the exact quotient, and the cursor moves behind the four bytes.
\<close>

theorem scaled_read_correct:
  assumes "poff r + 4 \<le> length (pdata r)" and "v = sint (dec_u32 (drop (poff r) (pdata r)))" and "v \<noteq> 0"
    and "0 < fmant sc" and "fexp sc \<le> 0" and "\<bar>v\<bar> * 2 ^ nat (- fexp sc) < 2 ^ 53 * fmant sc"
  shows "\<exists>q k. read_float32 field sc r = Ok (q, r\<lparr>poff := poff r + 4\<rparr>) \<and>
    fexp q = - int k \<and> fneg q = (v < 0) \<and>
    2 * \<bar>fmant q * fmant sc - \<bar>v\<bar> * 2 ^ nat (- fexp sc) * 2 ^ k\<bar> \<le> fmant sc \<and>
    2 ^ 52 \<le> fmant q \<and> fmant q \<le> 2 ^ 53"
  using f64_div_rounds [OF assms(3-6)] rd_float32.read_ok [OF assms(1)] by (auto simp: assms(2))

theorem scaled_read_correct_witness:
  "\<exists>q k. read_float32 ''rpm'' (f64_lit 10 0) \<lparr>pdata = [0, 0, 1, 65], poff = 0\<rparr> =
      Ok (q, \<lparr>pdata = [0, 0, 1, 65], poff = 4\<rparr>) \<and>
    fexp q = - int k \<and> fneg q = ((321::int) < 0) \<and>
    2 * \<bar>fmant q * fmant (f64_lit 10 0) - \<bar>321\<bar> * 2 ^ nat (- fexp (f64_lit 10 0)) * 2 ^ k\<bar> \<le> fmant (f64_lit 10 0) \<and>
    2 ^ 52 \<le> fmant q \<and> fmant q \<le> 2 ^ 53"
proof -
  have "(321 :: int) = sint (dec_u32 (drop 0 [0, 0, 1, 65]))" by code_simp
  then show ?thesis
    using scaled_read_correct [of "\<lparr>pdata = [0, 0, 1, 65], poff = 0\<rparr>" 321 "f64_lit 10 0" "''rpm''"]
    by (simp add: f64_lit_def)
qed

end
