(* ===== verification/Vesc_Values.thy ===== *)
theory Vesc_Values
  imports Vesc_Buffer
begin

text \<open>
  The telemetry packet of the VESC driver, \<^verbatim>\<open>software/drivers/vesc-trampa/values.go\<close>. The bits
  of a mask choose which of the 22 fields the packet holds; \<^verbatim>\<open>ParseMotorTelemetry\<close> reads them in
  order. The lemmas give the exact length a packet needs for its mask: with fewer bytes the
  parser returns an error, with more it keeps the rest as extra bytes, and it never panics.
\<close>

section \<open>Telemetry\<close>

definition fullValuesMask :: u32 where
  "fullValuesMask = 0xffffffff"

record MotorTelemetry =
  CommandID :: u8
  Mask :: u32
  TempFetC :: f64
  TempMotorC :: f64
  AvgMotorCurrentA :: f64
  AvgInputCurrentA :: f64
  AvgID :: f64
  AvgIQ :: f64
  DutyCycle :: f64
  RPM :: f64
  InputVoltageV :: f64
  AmpHours :: f64
  AmpHoursCharged :: f64
  WattHours :: f64
  WattHoursCharged :: f64
  Tachometer :: i32
  TachometerAbs :: i32
  FaultCode :: u8
  PIDPosition :: f64
  ControllerID :: u8
  MosfetTempsC :: "f64 list"
  Vd :: f64
  Vq :: f64
  Status :: u8
  TimeoutActive :: bool
  KillSwitchActive :: bool
  RawPayloadLen :: nat
  ExtraBytes :: bytes

text \<open>The composite literal of the source: the other fields are zero.\<close>

definition newTelemetry :: "u8 \<Rightarrow> nat \<Rightarrow> MotorTelemetry" where
  "newTelemetry commandID len =
     \<lparr>CommandID = commandID, Mask = fullValuesMask,
      TempFetC = f64_zero, TempMotorC = f64_zero, AvgMotorCurrentA = f64_zero,
      AvgInputCurrentA = f64_zero, AvgID = f64_zero, AvgIQ = f64_zero, DutyCycle = f64_zero,
      RPM = f64_zero, InputVoltageV = f64_zero, AmpHours = f64_zero, AmpHoursCharged = f64_zero,
      WattHours = f64_zero, WattHoursCharged = f64_zero, Tachometer = 0, TachometerAbs = 0,
      FaultCode = 0, PIDPosition = f64_zero, ControllerID = 0,
      MosfetTempsC = [f64_zero, f64_zero, f64_zero], Vd = f64_zero, Vq = f64_zero, Status = 0,
      TimeoutActive = False, KillSwitchActive = False, RawPayloadLen = len,
      ExtraBytes = []\<rparr>"

definition has :: "MotorTelemetry \<Rightarrow> nat \<Rightarrow> bool" where
  "has v b = (Mask v AND push_bit b 1 \<noteq> 0)"

text \<open>The loop over the three MOSFET temperatures.\<close>

fun read_temps :: "nat \<Rightarrow> nat \<Rightarrow> f64 list pread" where
  "read_temps i 0 r = Ok ([], r)"
| "read_temps i (Suc n) r =
     gbind (read_float16 (''mosfet_temp_'' @ [char_of (49 + i)] @ ''_c'') (f64_lit 10 0) r) (\<lambda>(v, r).
       gmap (\<lambda>(vs, r). (v # vs, r)) (read_temps (i + 1) n r))"

text \<open>One conditional read of the source: \<^verbatim>\<open>if values.has(b) { if values.X, err = r.read(...) ... }\<close>.\<close>

type_synonym tstep =
  "MotorTelemetry \<times> packet_reader \<Rightarrow> (vesc_err, MotorTelemetry \<times> packet_reader) gres"

definition read_if :: "nat \<Rightarrow> 'a pread \<Rightarrow> ('a \<Rightarrow> MotorTelemetry \<Rightarrow> MotorTelemetry) \<Rightarrow> tstep" where
  "read_if b rd upd =
     (\<lambda>(values, r).
       if has values b then gbind (rd r) (\<lambda>(x, r). Ok (upd x values, r)) else Ok (values, r))"

fun run_steps :: "tstep list \<Rightarrow> tstep" where
  "run_steps [] s = Ok s"
| "run_steps (st # sts) s = gbind (st s) (run_steps sts)"

definition telemetry_steps :: "tstep list" where
  "telemetry_steps =
    [read_if 0 (read_float16 ''temp_fet_c'' (f64_lit 10 0)) (\<lambda>x v. v\<lparr>TempFetC := x\<rparr>),
     read_if 1 (read_float16 ''temp_motor_c'' (f64_lit 10 0)) (\<lambda>x v. v\<lparr>TempMotorC := x\<rparr>),
     read_if 2 (read_float32 ''avg_motor_current_a'' (f64_lit 100 0)) (\<lambda>x v. v\<lparr>AvgMotorCurrentA := x\<rparr>),
     read_if 3 (read_float32 ''avg_input_current_a'' (f64_lit 100 0)) (\<lambda>x v. v\<lparr>AvgInputCurrentA := x\<rparr>),
     read_if 4 (read_float32 ''avg_id'' (f64_lit 100 0)) (\<lambda>x v. v\<lparr>AvgID := x\<rparr>),
     read_if 5 (read_float32 ''avg_iq'' (f64_lit 100 0)) (\<lambda>x v. v\<lparr>AvgIQ := x\<rparr>),
     read_if 6 (read_float16 ''duty_cycle'' (f64_lit 1000 0)) (\<lambda>x v. v\<lparr>DutyCycle := x\<rparr>),
     read_if 7 (read_float32 ''rpm'' (f64_lit 1 0)) (\<lambda>x v. v\<lparr>RPM := x\<rparr>),
     read_if 8 (read_float16 ''input_voltage_v'' (f64_lit 10 0)) (\<lambda>x v. v\<lparr>InputVoltageV := x\<rparr>),
     read_if 9 (read_float32 ''amp_hours'' (f64_lit 10000 0)) (\<lambda>x v. v\<lparr>AmpHours := x\<rparr>),
     read_if 10 (read_float32 ''amp_hours_charged'' (f64_lit 10000 0)) (\<lambda>x v. v\<lparr>AmpHoursCharged := x\<rparr>),
     read_if 11 (read_float32 ''watt_hours'' (f64_lit 10000 0)) (\<lambda>x v. v\<lparr>WattHours := x\<rparr>),
     read_if 12 (read_float32 ''watt_hours_charged'' (f64_lit 10000 0)) (\<lambda>x v. v\<lparr>WattHoursCharged := x\<rparr>),
     read_if 13 (read_i32 ''tachometer'') (\<lambda>x v. v\<lparr>Tachometer := x\<rparr>),
     read_if 14 (read_i32 ''tachometer_abs'') (\<lambda>x v. v\<lparr>TachometerAbs := x\<rparr>),
     read_if 15 (read_u8 ''fault_code'') (\<lambda>x v. v\<lparr>FaultCode := x\<rparr>),
     read_if 16 (read_float32 ''pid_position'' (f64_lit 1000000 0)) (\<lambda>x v. v\<lparr>PIDPosition := x\<rparr>),
     read_if 17 (read_u8 ''controller_id'') (\<lambda>x v. v\<lparr>ControllerID := x\<rparr>),
     read_if 18 (read_temps 0 3) (\<lambda>x v. v\<lparr>MosfetTempsC := x\<rparr>),
     read_if 19 (read_float32 ''vd'' (f64_lit 1000 0)) (\<lambda>x v. v\<lparr>Vd := x\<rparr>),
     read_if 20 (read_float32 ''vq'' (f64_lit 1000 0)) (\<lambda>x v. v\<lparr>Vq := x\<rparr>),
     read_if 21 (read_u8 ''status'') (\<lambda>x v. v\<lparr>Status := x, TimeoutActive := (x AND 0x01 \<noteq> 0),
        KillSwitchActive := (x AND 0x02 \<noteq> 0)\<rparr>)]"

definition ParseMotorTelemetry :: "bytes \<Rightarrow> (vesc_err, MotorTelemetry) gres" where
  "ParseMotorTelemetry payload =
     gbind (expectCommand payload [CommandGetValues, CommandGetValuesSel]) (\<lambda>(commandID, body).
       let r = newPacketReader body;
           values = newTelemetry commandID (length payload)
       in gbind (if commandID = CommandGetValuesSel
                 then gbind (read_u32 ''values_mask'' r) (\<lambda>(m, r). Ok (values\<lparr>Mask := m\<rparr>, r))
                 else Ok (values, r)) (\<lambda>s.
          gbind (run_steps telemetry_steps s) (\<lambda>(values, r).
            Ok (values\<lparr>ExtraBytes := extra r\<rparr>))))"


section \<open>How many bytes a mask needs\<close>

text \<open>The mask bits with the widths of their fields.\<close>

definition field_layout :: "(nat \<times> nat) list" where
  "field_layout =
    [(0, 2), (1, 2), (2, 4), (3, 4), (4, 4), (5, 4), (6, 2), (7, 4), (8, 2), (9, 4), (10, 4), 
     (11, 4), (12, 4), (13, 4), (14, 4), (15, 1), (16, 4), (17, 1), (18, 6), (19, 4), (20, 4), (21, 1)]"

definition mask_width :: "u32 \<Rightarrow> nat" where
  "mask_width m = sum_list (map (\<lambda>(b, w). if bit m b then w else 0) field_layout)"

lemma has_bit: "has v b \<longleftrightarrow> bit (Mask v) b"
  by (simp only: has_def bit_iff_and_push_bit_not_eq_0)

text \<open>What a step leaves as it was, and what it consumes.\<close>

definition same_frame :: "MotorTelemetry \<Rightarrow> MotorTelemetry \<Rightarrow> bool" where
  "same_frame v v' \<longleftrightarrow> Mask v' = Mask v \<and> CommandID v' = CommandID v \<and> RawPayloadLen v' = RawPayloadLen v"

definition consumes :: "tstep \<Rightarrow> (u32 \<Rightarrow> nat) \<Rightarrow> bool" where
  "consumes st w \<longleftrightarrow> (\<forall>v r.
     (poff r + w (Mask v) \<le> length (pdata r) \<longrightarrow>
       (\<exists>v'. st (v, r) = Ok (v', r\<lparr>poff := poff r + w (Mask v)\<rparr>) \<and> same_frame v v')) \<and>
     (length (pdata r) < poff r + w (Mask v) \<longrightarrow> cursor_ok r \<longrightarrow> (\<exists>e. st (v, r) = Err e)))"

context fixed_read
begin

lemma consumes_read_if:
  assumes "\<And>x v. same_frame v (upd x v)"
  shows "consumes (read_if b rd upd) (\<lambda>m. if bit m b then width else 0)"
  unfolding consumes_def
proof (intro allI conjI impI)
  fix v :: MotorTelemetry and r :: packet_reader
  assume "poff r + (if bit (Mask v) b then width else 0) \<le> length (pdata r)"
  then show "\<exists>v'. read_if b rd upd (v, r) =
      Ok (v', r\<lparr>poff := poff r + (if bit (Mask v) b then width else 0)\<rparr>) \<and> same_frame v v'"
    using assms by (auto simp: read_if_def has_bit read_ok same_frame_def)
next
  fix v :: MotorTelemetry and r :: packet_reader
  assume "length (pdata r) < poff r + (if bit (Mask v) b then width else 0)" "cursor_ok r"
  then show "\<exists>e. read_if b rd upd (v, r) = Err e"
    using read_short [of r] by (auto simp: read_if_def has_bit cursor_ok_def split: if_splits)
qed

end

lemma consumes_Nil: "consumes (run_steps []) (\<lambda>m. 0)"
  by (auto simp: consumes_def same_frame_def cursor_ok_def)

lemma consumes_Cons:
  assumes "consumes st w" and "consumes (run_steps sts) w'"
  shows "consumes (run_steps (st # sts)) (\<lambda>m. w m + w' m)"
  unfolding consumes_def
proof (intro allI conjI impI)
  fix v :: MotorTelemetry and r :: packet_reader
  assume len: "poff r + (w (Mask v) + w' (Mask v)) \<le> length (pdata r)"
  then obtain v1 where v1: "st (v, r) = Ok (v1, r\<lparr>poff := poff r + w (Mask v)\<rparr>)" "same_frame v v1"
    using assms(1) unfolding consumes_def by (metis add_leD1 add.assoc)
  then have "poff (r\<lparr>poff := poff r + w (Mask v)\<rparr>) + w' (Mask v1) \<le> length (pdata (r\<lparr>poff := poff r + w (Mask v)\<rparr>))"
    using len by (simp add: same_frame_def)
  then obtain v2 where v2: "run_steps sts (v1, r\<lparr>poff := poff r + w (Mask v)\<rparr>) =
      Ok (v2, r\<lparr>poff := poff r + w (Mask v) + w' (Mask v1)\<rparr>)" "same_frame v1 v2"
    using assms(2) unfolding consumes_def by fastforce
  show "\<exists>v'. run_steps (st # sts) (v, r) =
      Ok (v', r\<lparr>poff := poff r + (w (Mask v) + w' (Mask v))\<rparr>) \<and> same_frame v v'"
    using v1 v2 by (auto simp: same_frame_def add.assoc)
next
  fix v :: MotorTelemetry and r :: packet_reader
  assume short: "length (pdata r) < poff r + (w (Mask v) + w' (Mask v))" and off: "cursor_ok r"
  show "\<exists>e. run_steps (st # sts) (v, r) = Err e"
  proof (cases "poff r + w (Mask v) \<le> length (pdata r)")
    case True
    then obtain v1 where v1: "st (v, r) = Ok (v1, r\<lparr>poff := poff r + w (Mask v)\<rparr>)" "same_frame v v1"
      using assms(1) unfolding consumes_def by blast
    then have "\<exists>e. run_steps sts (v1, r\<lparr>poff := poff r + w (Mask v)\<rparr>) = Err e"
      using assms(2) short True unfolding consumes_def
      by (auto simp: same_frame_def add.assoc cursor_ok_def)
    with v1 show ?thesis by auto
  next
    case False
    then obtain e where "st (v, r) = Err e" using assms(1) off unfolding consumes_def by (meson not_le)
    then show ?thesis by simp
  qed
qed

lemma fixed_read_seq:
  assumes "fixed_read rd1 w1 d1" and "fixed_read rd2 w2 d2"
  shows "fixed_read (\<lambda>r. gbind (rd1 r) (\<lambda>(x, r). gmap (\<lambda>(y, r). (f x y, r)) (rd2 r))) (w1 + w2)
    (\<lambda>bs. f (d1 (take w1 bs)) (d2 (drop w1 bs)))"
proof
  fix r :: packet_reader
  note r1 = fixed_read.read_ok [OF assms(1), of r] fixed_read.read_short [OF assms(1), of r]
  note r2 = fixed_read.read_ok [OF assms(2), of "r\<lparr>poff := poff r + w1\<rparr>"]
    fixed_read.read_short [OF assms(2), of "r\<lparr>poff := poff r + w1\<rparr>"]
  show "gbind (rd1 r) (\<lambda>(x, r). gmap (\<lambda>(y, r). (f x y, r)) (rd2 r)) =
      Ok (f (d1 (take w1 (take (w1 + w2) (drop (poff r) (pdata r)))))
        (d2 (drop w1 (take (w1 + w2) (drop (poff r) (pdata r))))), r\<lparr>poff := poff r + (w1 + w2)\<rparr>)"
    if "poff r + (w1 + w2) \<le> length (pdata r)"
    using that r1(1) r2(1) by (simp add: add.assoc drop_take add.commute [of w1])
  show "\<exists>e. gbind (rd1 r) (\<lambda>(x, r). gmap (\<lambda>(y, r). (f x y, r)) (rd2 r)) = Err e"
    if ok: "cursor_ok r" and short: "length (pdata r) < poff r + (w1 + w2)"
  proof (cases "poff r + w1 \<le> length (pdata r)")
    case True
    then obtain e where "rd2 (r\<lparr>poff := poff r + w1\<rparr>) = Err e" using r2(2) short by (auto simp: add.assoc cursor_ok_def)
    with r1(1) True show ?thesis by simp
  next
    case False
    then obtain e where "rd1 r = Err e" using r1(2) ok by auto
    then show ?thesis by simp
  qed
qed

fun dec_temps :: "nat \<Rightarrow> bytes \<Rightarrow> f64 list" where
  "dec_temps 0 bs = []"
| "dec_temps (Suc n) bs = f64_div (sint (dec_u16 (take 2 bs))) (f64_lit 10 0) # dec_temps n (drop 2 bs)"

lemma read_temps_fixed: "fixed_read (read_temps i n) (2 * n) (dec_temps n)"
proof (induction n arbitrary: i)
  case 0
  show ?case by unfold_locales (simp_all add: cursor_ok_def)
next
  case (Suc n)
  have "read_temps i (Suc n) = (\<lambda>r. gbind (read_float16 (''mosfet_temp_'' @ [char_of (49 + i)] @ ''_c'') (f64_lit 10 0) r)
      (\<lambda>(v, r). gmap (\<lambda>(vs, r). (v # vs, r)) (read_temps (i + 1) n r)))"
    by (rule ext) simp
  moreover have "2 * Suc n = 2 + 2 * n" by simp
  moreover have "dec_temps (Suc n) = (\<lambda>bs. f64_div (sint (dec_u16 (take 2 bs))) (f64_lit 10 0) # dec_temps n (drop 2 bs))"
    by (rule ext) simp
  ultimately show ?case
    using fixed_read_seq [OF rd_float16.fixed_read_axioms Suc.IH, where f = Cons] by simp
qed

interpretation rd_temps: fixed_read "read_temps 0 3" 6 "dec_temps 3"
  using read_temps_fixed [of 0 3] by simp

lemma consumes_steps:
  "list_all2 (\<lambda>st (b, w). consumes st (\<lambda>m. if bit m b then w else 0)) sts bws \<Longrightarrow>
    consumes (run_steps sts) (\<lambda>m. sum_list (map (\<lambda>(b, w). if bit m b then w else 0) bws))"
proof (induction rule: list_all2_induct)
  case (Cons st sts bw bws)
  then show ?case
    using consumes_Cons [of st "\<lambda>m. case bw of (b, w) \<Rightarrow> if bit m b then w else 0" sts]
    by (cases bw) (simp del: run_steps.simps)
qed (simp add: consumes_Nil del: run_steps.simps)

lemma telemetry_consumes: "consumes (run_steps telemetry_steps) mask_width"
proof -
  have "list_all2 (\<lambda>st (b, w). consumes st (\<lambda>m. if bit m b then w else 0)) telemetry_steps field_layout"
    by (simp add: telemetry_steps_def field_layout_def same_frame_def rd_float16.consumes_read_if
        rd_float32.consumes_read_if rd_i32.consumes_read_if rd_u8.consumes_read_if rd_temps.consumes_read_if del: One_nat_def)
  from consumes_steps [OF this] show ?thesis by (simp add: mask_width_def [abs_def])
qed

lemma extra_drop: "extra r = drop (poff r) (pdata r)"
  by (simp add: extra_def)

text \<open>The parse of a body after the mask is known.\<close>

lemma telemetry_body:
  assumes "cursor_ok r"
  shows "if poff r + mask_width (Mask v) \<le> length (pdata r)
    then \<exists>t. gbind (run_steps telemetry_steps (v, r)) (\<lambda>(values, r). Ok (values\<lparr>ExtraBytes := extra r\<rparr>)) = Ok t \<and>
      ExtraBytes t = drop (poff r + mask_width (Mask v)) (pdata r) \<and> same_frame v t
    else \<exists>e. gbind (run_steps telemetry_steps (v, r)) (\<lambda>(values, r). Ok (values\<lparr>ExtraBytes := extra r\<rparr>)) = Err e"
proof (cases "poff r + mask_width (Mask v) \<le> length (pdata r)")
  case True
  then obtain v' where "run_steps telemetry_steps (v, r) = Ok (v', r\<lparr>poff := poff r + mask_width (Mask v)\<rparr>)"
      "same_frame v v'"
    using telemetry_consumes unfolding consumes_def by blast
  with True show ?thesis by (simp add: extra_drop same_frame_def)
next
  case False
  then obtain e where "run_steps telemetry_steps (v, r) = Err e"
    using telemetry_consumes assms unfolding consumes_def by (meson not_le)
  with False show ?thesis by simp
qed

text \<open>
  A full telemetry packet parses exactly when its body has the bytes of all 22 fields, 73 of
  them; the rest is kept as extra bytes. A shorter packet gives an error, never a panic.
\<close>

theorem full_telemetry_length:
  "if 73 \<le> length body
   then \<exists>t. ParseMotorTelemetry (CommandGetValues # body) = Ok t \<and> ExtraBytes t = drop 73 body \<and>
     RawPayloadLen t = length body + 1 \<and> CommandID t = CommandGetValues
   else \<exists>e. ParseMotorTelemetry (CommandGetValues # body) = Err e"
proof -
  let ?v = "newTelemetry CommandGetValues (length body + 1)" and ?r = "newPacketReader body"
  have w: "mask_width (Mask ?v) = 73" by code_simp
  have p: "ParseMotorTelemetry (CommandGetValues # body) =
      gbind (run_steps telemetry_steps (?v, ?r)) (\<lambda>(values, r). Ok (values\<lparr>ExtraBytes := extra r\<rparr>))"
    by (simp add: ParseMotorTelemetry_def expectCommand_def Let_def vesc_commands)
  show ?thesis
    using telemetry_body [OF newPacketReader_ok [of body], of ?v] unfolding w p
    by (auto simp: newPacketReader_def same_frame_def newTelemetry_def split: if_splits)
qed

text \<open>
  C40. A selective telemetry packet parses exactly when its body has the four mask bytes and the
  fields the mask selects; the mask is read big-endian and the rest is kept as extra bytes.
\<close>

theorem selected_telemetry_length:
  "if 4 \<le> length body \<and> 4 + mask_width (dec_u32 body) \<le> length body
   then \<exists>t. ParseMotorTelemetry (CommandGetValuesSel # body) = Ok t \<and> Mask t = dec_u32 body \<and>
     ExtraBytes t = drop (4 + mask_width (dec_u32 body)) body
   else \<exists>e. ParseMotorTelemetry (CommandGetValuesSel # body) = Err e"
proof -
  let ?v = "(newTelemetry CommandGetValuesSel (length body + 1))\<lparr>Mask := dec_u32 body\<rparr>"
  let ?r = "(newPacketReader body)\<lparr>poff := 4\<rparr>"
  show ?thesis
  proof (cases "4 \<le> length body")
    case True
    then have "read_u32 ''values_mask'' (newPacketReader body) = Ok (dec_u32 body, ?r)"
      by (subst rd_u32.read_ok) (simp_all add: newPacketReader_def)
    then have p: "ParseMotorTelemetry (CommandGetValuesSel # body) =
        gbind (run_steps telemetry_steps (?v, ?r)) (\<lambda>(values, r). Ok (values\<lparr>ExtraBytes := extra r\<rparr>))"
      by (simp add: ParseMotorTelemetry_def expectCommand_def Let_def vesc_commands)
    have "cursor_ok ?r" using True by (simp add: cursor_ok_def newPacketReader_def)
    from telemetry_body [OF this, of ?v] True show ?thesis
      unfolding p by (auto simp: newPacketReader_def same_frame_def newTelemetry_def split: if_splits)
  next
    case False
    then obtain e where "read_u32 ''values_mask'' (newPacketReader body) = Err e"
      using rd_u32.read_short [OF newPacketReader_ok, of body "''values_mask''"]
      by (auto simp: newPacketReader_def)
    with False show ?thesis by (simp add: ParseMotorTelemetry_def expectCommand_def Let_def vesc_commands)
  qed
qed

end
