(* ===== verification/Vesc_Config.thy ===== *)
theory Vesc_Config
  imports Vesc_Values
begin

text \<open>
  The configuration packets of the VESC driver, \<^verbatim>\<open>software/drivers/vesc-trampa/config.go\<close>, and the
  dispatch of \<^verbatim>\<open>display.go\<close> over the kinds of packets. A configuration is a signature and a
  sequence of fields whose names, types and scales are the tables below, in the order of the
  source. The lemmas give the exact length a configuration needs and that the lookup of a
  field by its name finds the value read for it.
\<close>

section \<open>Field specifications\<close>

datatype configKind =
  configU8 | configI8 | configBool | configU16 | configU32 | configI32 | configFloat16 | configFloat32Auto

record configSpec =
  spec_name :: string
  spec_kind :: configKind
  spec_scale :: f64

datatype config_value =
    CU8 u8 | CI8 u8 | CBool bool | CU16 u16 | CU32 u32 | CI32 i32 | CFloat f64

record ConfigField =
  Name :: string
  Value :: config_value

record MotorConfig =
  mc_CommandID :: u8
  mc_Signature :: u32
  mc_Fields :: "ConfigField list"
  mc_RawPayloadLen :: nat
  mc_ExtraBytes :: bytes

record AppConfig =
  ac_CommandID :: u8
  ac_Signature :: u32
  ac_Fields :: "ConfigField list"
  ac_RawPayloadLen :: nat
  ac_ExtraBytes :: bytes

definition cfg_u8 :: "string \<Rightarrow> configSpec" where
  "cfg_u8 name = \<lparr>spec_name = name, spec_kind = configU8, spec_scale = f64_zero\<rparr>"

definition cfg_i8 :: "string \<Rightarrow> configSpec" where
  "cfg_i8 name = \<lparr>spec_name = name, spec_kind = configI8, spec_scale = f64_zero\<rparr>"

definition cfg_b8 :: "string \<Rightarrow> configSpec" where
  "cfg_b8 name = \<lparr>spec_name = name, spec_kind = configBool, spec_scale = f64_zero\<rparr>"

definition cfg_u16 :: "string \<Rightarrow> configSpec" where
  "cfg_u16 name = \<lparr>spec_name = name, spec_kind = configU16, spec_scale = f64_zero\<rparr>"

definition cfg_u32 :: "string \<Rightarrow> configSpec" where
  "cfg_u32 name = \<lparr>spec_name = name, spec_kind = configU32, spec_scale = f64_zero\<rparr>"

definition cfg_i32 :: "string \<Rightarrow> configSpec" where
  "cfg_i32 name = \<lparr>spec_name = name, spec_kind = configI32, spec_scale = f64_zero\<rparr>"

definition cfg_f16 :: "string \<Rightarrow> f64 \<Rightarrow> configSpec" where
  "cfg_f16 name scale = \<lparr>spec_name = name, spec_kind = configFloat16, spec_scale = scale\<rparr>"

definition cfg_fa :: "string \<Rightarrow> configSpec" where
  "cfg_fa name = \<lparr>spec_name = name, spec_kind = configFloat32Auto, spec_scale = f64_zero\<rparr>"

lemmas cfg_defs = cfg_u8_def cfg_i8_def cfg_b8_def cfg_u16_def cfg_u32_def cfg_i32_def cfg_f16_def cfg_fa_def

text \<open>The tables of the source. The scale \<^verbatim>\<open>0.1\<close> is the double nearest to one tenth.\<close>

definition motorConfigSpecs :: "configSpec list" where
  "motorConfigSpecs =
    [cfg_u8 ''pwm_mode'',
     cfg_u8 ''comm_mode'',
     cfg_u8 ''motor_type'',
     cfg_u8 ''sensor_mode'',
     cfg_fa ''l_current_max'',
     cfg_fa ''l_current_min'',
     cfg_fa ''l_in_current_max'',
     cfg_fa ''l_in_current_min'',
     cfg_f16 ''l_in_current_map_start'' (f64_lit 10000 0),
     cfg_f16 ''l_in_current_map_filter'' (f64_lit 10000 0),
     cfg_fa ''l_abs_current_max'',
     cfg_fa ''l_min_erpm'',
     cfg_fa ''l_max_erpm'',
     cfg_f16 ''l_erpm_start'' (f64_lit 10000 0),
     cfg_fa ''l_max_erpm_fbrake'',
     cfg_fa ''l_max_erpm_fbrake_cc'',
     cfg_f16 ''l_min_vin'' (f64_lit 10 0),
     cfg_f16 ''l_max_vin'' (f64_lit 10 0),
     cfg_f16 ''l_battery_cut_start'' (f64_lit 10 0),
     cfg_f16 ''l_battery_cut_end'' (f64_lit 10 0),
     cfg_f16 ''l_battery_regen_cut_start'' (f64_lit 10 0),
     cfg_f16 ''l_battery_regen_cut_end'' (f64_lit 10 0),
     cfg_b8 ''l_slow_abs_current'',
     cfg_u8 ''l_temp_fet_start'',
     cfg_u8 ''l_temp_fet_end'',
     cfg_u8 ''l_temp_motor_start'',
     cfg_u8 ''l_temp_motor_end'',
     cfg_f16 ''l_temp_accel_dec'' (f64_lit 10000 0),
     cfg_f16 ''l_min_duty'' (f64_lit 10000 0),
     cfg_f16 ''l_max_duty'' (f64_lit 10000 0),
     cfg_fa ''l_watt_max'',
     cfg_fa ''l_watt_min'',
     cfg_f16 ''l_current_max_scale'' (f64_lit 10000 0),
     cfg_f16 ''l_current_min_scale'' (f64_lit 10000 0),
     cfg_f16 ''l_duty_start'' (f64_lit 10000 0),
     cfg_u8 ''l_additional_faults'',
     cfg_fa ''sl_min_erpm'',
     cfg_fa ''sl_min_erpm_cycle_int_limit'',
     cfg_fa ''sl_max_fullbreak_current_dir_change'',
     cfg_f16 ''sl_cycle_int_limit'' (f64_lit 10 0),
     cfg_f16 ''sl_phase_advance_at_br'' (f64_lit 10000 0),
     cfg_fa ''sl_cycle_int_rpm_br'',
     cfg_fa ''sl_bemf_coupling_k'',
     cfg_i8 ''hall_table[0]'',
     cfg_i8 ''hall_table[1]'',
     cfg_i8 ''hall_table[2]'',
     cfg_i8 ''hall_table[3]'',
     cfg_i8 ''hall_table[4]'',
     cfg_i8 ''hall_table[5]'',
     cfg_i8 ''hall_table[6]'',
     cfg_i8 ''hall_table[7]'',
     cfg_fa ''hall_sl_erpm'',
     cfg_fa ''foc_current_kp'',
     cfg_fa ''foc_current_ki'',
     cfg_fa ''foc_f_zv'',
     cfg_fa ''foc_dt_us'',
     cfg_b8 ''foc_encoder_inverted'',
     cfg_fa ''foc_encoder_offset'',
     cfg_fa ''foc_encoder_ratio'',
     cfg_u8 ''foc_sensor_mode'',
     cfg_fa ''foc_pll_kp'',
     cfg_fa ''foc_pll_ki'',
     cfg_fa ''foc_motor_l'',
     cfg_fa ''foc_motor_ld_lq_diff'',
     cfg_fa ''foc_motor_r'',
     cfg_fa ''foc_motor_flux_linkage'',
     cfg_fa ''foc_observer_gain'',
     cfg_fa ''foc_observer_gain_slow'',
     cfg_f16 ''foc_observer_offset'' (f64_lit 1000 0),
     cfg_fa ''foc_duty_dowmramp_kp'',
     cfg_fa ''foc_duty_dowmramp_ki'',
     cfg_f16 ''foc_start_curr_dec'' (f64_lit 10000 0),
     cfg_fa ''foc_start_curr_dec_rpm'',
     cfg_fa ''foc_openloop_rpm'',
     cfg_f16 ''foc_openloop_rpm_low'' (f64_lit 1000 0),
     cfg_f16 ''foc_sl_openloop_hyst'' (f64_lit 100 0),
     cfg_f16 ''foc_sl_openloop_time_lock'' (f64_lit 100 0),
     cfg_f16 ''foc_sl_openloop_time_ramp'' (f64_lit 100 0),
     cfg_f16 ''foc_sl_openloop_time'' (f64_lit 100 0),
     cfg_f16 ''foc_sl_openloop_boost_q'' (f64_lit 100 0),
     cfg_f16 ''foc_sl_openloop_max_q'' (f64_lit 100 0),
     cfg_u8 ''foc_hall_table[0]'',
     cfg_u8 ''foc_hall_table[1]'',
     cfg_u8 ''foc_hall_table[2]'',
     cfg_u8 ''foc_hall_table[3]'',
     cfg_u8 ''foc_hall_table[4]'',
     cfg_u8 ''foc_hall_table[5]'',
     cfg_u8 ''foc_hall_table[6]'',
     cfg_u8 ''foc_hall_table[7]'',
     cfg_fa ''foc_hall_interp_erpm'',
     cfg_fa ''foc_sl_erpm_start'',
     cfg_fa ''foc_sl_erpm'',
     cfg_u8 ''foc_control_sample_mode'',
     cfg_u8 ''foc_current_sample_mode'',
     cfg_u8 ''foc_sat_comp_mode'',
     cfg_f16 ''foc_sat_comp'' (f64_lit 1000 0),
     cfg_b8 ''foc_temp_comp'',
     cfg_f16 ''foc_temp_comp_base_temp'' (f64_lit 100 0),
     cfg_f16 ''foc_current_filter_const'' (f64_lit 10000 0),
     cfg_u8 ''foc_cc_decoupling'',
     cfg_u8 ''foc_observer_type'',
     cfg_u8 ''foc_hfi_amb_mode'',
     cfg_f16 ''foc_hfi_amb_current'' (f64_lit 10 0),
     cfg_u8 ''foc_hfi_amb_tres'',
     cfg_f16 ''foc_hfi_voltage_start'' (f64_lit 10 0),
     cfg_f16 ''foc_hfi_voltage_run'' (f64_lit 10 0),
     cfg_f16 ''foc_hfi_voltage_max'' (f64_lit 10 0),
     cfg_f16 ''foc_hfi_gain'' (f64_lit 1000 0),
     cfg_f16 ''foc_hfi_max_err'' (f64_lit 1000 0),
     cfg_f16 ''foc_hfi_hyst'' (f64_lit 100 0),
     cfg_fa ''foc_sl_erpm_hfi'',
     cfg_fa ''foc_hfi_reset_erpm'',
     cfg_u16 ''foc_hfi_start_samples'',
     cfg_fa ''foc_hfi_obs_ovr_sec'',
     cfg_u8 ''foc_hfi_samples'',
     cfg_u8 ''foc_offsets_cal_mode'',
     cfg_fa ''foc_offsets_current[0]'',
     cfg_fa ''foc_offsets_current[1]'',
     cfg_fa ''foc_offsets_current[2]'',
     cfg_f16 ''foc_offsets_voltage[0]'' (f64_lit 10000 0),
     cfg_f16 ''foc_offsets_voltage[1]'' (f64_lit 10000 0),
     cfg_f16 ''foc_offsets_voltage[2]'' (f64_lit 10000 0),
     cfg_f16 ''foc_offsets_voltage_undriven[0]'' (f64_lit 10000 0),
     cfg_f16 ''foc_offsets_voltage_undriven[1]'' (f64_lit 10000 0),
     cfg_f16 ''foc_offsets_voltage_undriven[2]'' (f64_lit 10000 0),
     cfg_b8 ''foc_phase_filter_enable'',
     cfg_b8 ''foc_phase_filter_disable_fault'',
     cfg_fa ''foc_phase_filter_max_erpm'',
     cfg_u8 ''foc_mtpa_mode'',
     cfg_fa ''foc_fw_current_max'',
     cfg_f16 ''foc_fw_duty_start'' (f64_lit 10000 0),
     cfg_f16 ''foc_fw_ramp_time'' (f64_lit 1000 0),
     cfg_f16 ''foc_fw_q_current_factor'' (f64_lit 10000 0),
     cfg_f16 ''foc_fw_backoff'' (f64_lit 1000 0),
     cfg_u8 ''foc_speed_source'',
     cfg_b8 ''foc_short_ls_on_zero_duty'',
     cfg_f16 ''foc_overmod_factor'' (f64_lit 10000 0),
     cfg_f16 ''foc_mag_vd_max'' (f64_lit 10000 0),
     cfg_u8 ''sp_pid_loop_rate'',
     cfg_fa ''s_pid_kp'',
     cfg_fa ''s_pid_ki'',
     cfg_fa ''s_pid_kd'',
     cfg_f16 ''s_pid_kd_filter'' (f64_lit 10000 0),
     cfg_fa ''s_pid_min_erpm'',
     cfg_b8 ''s_pid_allow_braking'',
     cfg_fa ''s_pid_ramp_erpms_s'',
     cfg_u8 ''s_pid_speed_source'',
     cfg_fa ''p_pid_kp'',
     cfg_fa ''p_pid_ki'',
     cfg_fa ''p_pid_kd'',
     cfg_fa ''p_pid_kd_proc'',
     cfg_f16 ''p_pid_kd_filter'' (f64_lit 10000 0),
     cfg_fa ''p_pid_ang_div'',
     cfg_f16 ''p_pid_gain_dec_angle'' (f64_lit 10 0),
     cfg_fa ''p_pid_offset'',
     cfg_f16 ''cc_startup_boost_duty'' (f64_lit 10000 0),
     cfg_fa ''cc_min_current'',
     cfg_fa ''cc_gain'',
     cfg_f16 ''cc_ramp_step_max'' (f64_lit 10000 0),
     cfg_i32 ''m_fault_stop_time_ms'',
     cfg_f16 ''m_duty_ramp_step'' (f64_lit 10000 0),
     cfg_fa ''m_current_backoff_gain'',
     cfg_u32 ''m_encoder_counts'',
     cfg_f16 ''m_encoder_sin_amp'' (f64_lit 1000 0),
     cfg_f16 ''m_encoder_cos_amp'' (f64_lit 1000 0),
     cfg_f16 ''m_encoder_sin_offset'' (f64_lit 1000 0),
     cfg_f16 ''m_encoder_cos_offset'' (f64_lit 1000 0),
     cfg_f16 ''m_encoder_sincos_filter_constant'' (f64_lit 1000 0),
     cfg_f16 ''m_encoder_sincos_phase_correction'' (f64_lit 1000 0),
     cfg_u8 ''m_sensor_port_mode'',
     cfg_b8 ''m_invert_direction'',
     cfg_u8 ''m_drv8301_oc_mode'',
     cfg_u8 ''m_drv8301_oc_adj'',
     cfg_fa ''m_bldc_f_sw_min'',
     cfg_fa ''m_bldc_f_sw_max'',
     cfg_fa ''m_dc_f_sw'',
     cfg_fa ''m_ntc_motor_beta'',
     cfg_u8 ''m_out_aux_mode'',
     cfg_u8 ''m_motor_temp_sens_type'',
     cfg_fa ''m_ptc_motor_coeff'',
     cfg_f16 ''m_ntcx_ptcx_res'' (f64_lit 7205759403792794 (- 56)),
     cfg_f16 ''m_ntcx_ptcx_temp_base'' (f64_lit 10 0),
     cfg_u8 ''m_hall_extra_samples'',
     cfg_u8 ''m_batt_filter_const'',
     cfg_u8 ''si_motor_poles'',
     cfg_fa ''si_gear_ratio'',
     cfg_fa ''si_wheel_diameter'',
     cfg_u8 ''si_battery_type'',
     cfg_u8 ''si_battery_cells'',
     cfg_fa ''si_battery_ah'',
     cfg_fa ''si_motor_nl_current'',
     cfg_u8 ''bms.type'',
     cfg_u8 ''bms.limit_mode'',
     cfg_u8 ''bms.t_limit_start'',
     cfg_u8 ''bms.t_limit_end'',
     cfg_f16 ''bms.soc_limit_start'' (f64_lit 1000 0),
     cfg_f16 ''bms.soc_limit_end'' (f64_lit 1000 0),
     cfg_f16 ''bms.vmin_limit_start'' (f64_lit 1000 0),
     cfg_f16 ''bms.vmin_limit_end'' (f64_lit 1000 0),
     cfg_f16 ''bms.vmax_limit_start'' (f64_lit 1000 0),
     cfg_f16 ''bms.vmax_limit_end'' (f64_lit 1000 0),
     cfg_u8 ''bms.fwd_can_mode'']"

definition appConfigSpecs :: "configSpec list" where
  "appConfigSpecs =
    [cfg_u8 ''controller_id'',
     cfg_u32 ''timeout_msec'',
     cfg_fa ''timeout_brake_current'',
     cfg_u16 ''can_status_rate_1'',
     cfg_u16 ''can_status_rate_2'',
     cfg_u8 ''can_status_msgs_r1'',
     cfg_u8 ''can_status_msgs_r2'',
     cfg_u8 ''can_baud_rate'',
     cfg_b8 ''pairing_done'',
     cfg_b8 ''permanent_uart_enabled'',
     cfg_u8 ''shutdown_mode'',
     cfg_u8 ''can_mode'',
     cfg_u8 ''uavcan_esc_index'',
     cfg_u8 ''uavcan_raw_mode'',
     cfg_fa ''uavcan_raw_rpm_max'',
     cfg_u8 ''uavcan_status_current_mode'',
     cfg_b8 ''servo_out_enable'',
     cfg_u8 ''kill_sw_mode'',
     cfg_u8 ''app_to_use'',
     cfg_u8 ''app_ppm_conf.ctrl_type'',
     cfg_fa ''app_ppm_conf.pid_max_erpm'',
     cfg_fa ''app_ppm_conf.hyst'',
     cfg_fa ''app_ppm_conf.pulse_start'',
     cfg_fa ''app_ppm_conf.pulse_end'',
     cfg_fa ''app_ppm_conf.pulse_center'',
     cfg_b8 ''app_ppm_conf.median_filter'',
     cfg_u8 ''app_ppm_conf.safe_start'',
     cfg_fa ''app_ppm_conf.throttle_exp'',
     cfg_fa ''app_ppm_conf.throttle_exp_brake'',
     cfg_u8 ''app_ppm_conf.throttle_exp_mode'',
     cfg_fa ''app_ppm_conf.ramp_time_pos'',
     cfg_fa ''app_ppm_conf.ramp_time_neg'',
     cfg_b8 ''app_ppm_conf.multi_esc'',
     cfg_b8 ''app_ppm_conf.tc'',
     cfg_fa ''app_ppm_conf.tc_max_diff'',
     cfg_f16 ''app_ppm_conf.max_erpm_for_dir'' (f64_lit 1 0),
     cfg_fa ''app_ppm_conf.smart_rev_max_duty'',
     cfg_fa ''app_ppm_conf.smart_rev_ramp_time'',
     cfg_u8 ''app_adc_conf.ctrl_type'',
     cfg_fa ''app_adc_conf.hyst'',
     cfg_f16 ''app_adc_conf.voltage_start'' (f64_lit 1000 0),
     cfg_f16 ''app_adc_conf.voltage_end'' (f64_lit 1000 0),
     cfg_f16 ''app_adc_conf.voltage_min'' (f64_lit 1000 0),
     cfg_f16 ''app_adc_conf.voltage_max'' (f64_lit 1000 0),
     cfg_f16 ''app_adc_conf.voltage_center'' (f64_lit 1000 0),
     cfg_f16 ''app_adc_conf.voltage2_start'' (f64_lit 1000 0),
     cfg_f16 ''app_adc_conf.voltage2_end'' (f64_lit 1000 0),
     cfg_b8 ''app_adc_conf.use_filter'',
     cfg_u8 ''app_adc_conf.safe_start'',
     cfg_u8 ''app_adc_conf.buttons'',
     cfg_b8 ''app_adc_conf.voltage_inverted'',
     cfg_b8 ''app_adc_conf.voltage2_inverted'',
     cfg_fa ''app_adc_conf.throttle_exp'',
     cfg_fa ''app_adc_conf.throttle_exp_brake'',
     cfg_u8 ''app_adc_conf.throttle_exp_mode'',
     cfg_fa ''app_adc_conf.ramp_time_pos'',
     cfg_fa ''app_adc_conf.ramp_time_neg'',
     cfg_b8 ''app_adc_conf.multi_esc'',
     cfg_b8 ''app_adc_conf.tc'',
     cfg_fa ''app_adc_conf.tc_max_diff'',
     cfg_u16 ''app_adc_conf.update_rate_hz'',
     cfg_u32 ''app_uart_baudrate'',
     cfg_u8 ''app_chuk_conf.ctrl_type'',
     cfg_fa ''app_chuk_conf.hyst'',
     cfg_fa ''app_chuk_conf.ramp_time_pos'',
     cfg_fa ''app_chuk_conf.ramp_time_neg'',
     cfg_fa ''app_chuk_conf.stick_erpm_per_s_in_cc'',
     cfg_fa ''app_chuk_conf.throttle_exp'',
     cfg_fa ''app_chuk_conf.throttle_exp_brake'',
     cfg_u8 ''app_chuk_conf.throttle_exp_mode'',
     cfg_b8 ''app_chuk_conf.multi_esc'',
     cfg_b8 ''app_chuk_conf.tc'',
     cfg_fa ''app_chuk_conf.tc_max_diff'',
     cfg_b8 ''app_chuk_conf.use_smart_rev'',
     cfg_fa ''app_chuk_conf.smart_rev_max_duty'',
     cfg_fa ''app_chuk_conf.smart_rev_ramp_time'',
     cfg_f16 ''app_chuk_conf.coast_brake_level'' (f64_lit 1000 0),
     cfg_fa ''app_chuk_conf.coast_brake_ramp_time'',
     cfg_u8 ''app_nrf_conf.speed'',
     cfg_u8 ''app_nrf_conf.power'',
     cfg_u8 ''app_nrf_conf.crc_type'',
     cfg_u8 ''app_nrf_conf.retry_delay'',
     cfg_i8 ''app_nrf_conf.retries'',
     cfg_i8 ''app_nrf_conf.channel'',
     cfg_u8 ''app_nrf_conf.address[0]'',
     cfg_u8 ''app_nrf_conf.address[1]'',
     cfg_u8 ''app_nrf_conf.address[2]'',
     cfg_b8 ''app_nrf_conf.send_crc_ack'',
     cfg_u8 ''app_pas_conf.ctrl_type'',
     cfg_u8 ''app_pas_conf.sensor_type'',
     cfg_f16 ''app_pas_conf.current_scaling'' (f64_lit 1000 0),
     cfg_f16 ''app_pas_conf.pedal_rpm_start'' (f64_lit 10 0),
     cfg_f16 ''app_pas_conf.pedal_rpm_end'' (f64_lit 10 0),
     cfg_b8 ''app_pas_conf.invert_pedal_direction'',
     cfg_u16 ''app_pas_conf.magnets'',
     cfg_b8 ''app_pas_conf.use_filter'',
     cfg_f16 ''app_pas_conf.ramp_time_pos'' (f64_lit 100 0),
     cfg_f16 ''app_pas_conf.ramp_time_neg'' (f64_lit 100 0),
     cfg_u16 ''app_pas_conf.update_rate_hz'',
     cfg_u8 ''imu_conf.type'',
     cfg_u8 ''imu_conf.mode'',
     cfg_u8 ''imu_conf.filter'',
     cfg_f16 ''imu_conf.accel_lowpass_filter_x'' (f64_lit 1 0),
     cfg_f16 ''imu_conf.accel_lowpass_filter_y'' (f64_lit 1 0),
     cfg_f16 ''imu_conf.accel_lowpass_filter_z'' (f64_lit 1 0),
     cfg_f16 ''imu_conf.gyro_lowpass_filter'' (f64_lit 1 0),
     cfg_u16 ''imu_conf.sample_rate_hz'',
     cfg_b8 ''imu_conf.use_magnetometer'',
     cfg_fa ''imu_conf.accel_confidence_decay'',
     cfg_fa ''imu_conf.mahony_kp'',
     cfg_fa ''imu_conf.mahony_ki'',
     cfg_fa ''imu_conf.madgwick_beta'',
     cfg_fa ''imu_conf.rot_roll'',
     cfg_fa ''imu_conf.rot_pitch'',
     cfg_fa ''imu_conf.rot_yaw'',
     cfg_fa ''imu_conf.accel_offsets[0]'',
     cfg_fa ''imu_conf.accel_offsets[1]'',
     cfg_fa ''imu_conf.accel_offsets[2]'',
     cfg_fa ''imu_conf.gyro_offsets[0]'',
     cfg_fa ''imu_conf.gyro_offsets[1]'',
     cfg_fa ''imu_conf.gyro_offsets[2]'']"


section \<open>Parsing\<close>

definition readConfigField :: "configSpec \<Rightarrow> config_value pread" where
  "readConfigField spec r =
     (case spec_kind spec of
        configU8 \<Rightarrow> gbind (read_u8 (spec_name spec) r) (\<lambda>(v, r). Ok (CU8 v, r))
      | configI8 \<Rightarrow> gbind (read_i8 (spec_name spec) r) (\<lambda>(v, r). Ok (CI8 v, r))
      | configBool \<Rightarrow> gbind (read_bool8 (spec_name spec) r) (\<lambda>(v, r). Ok (CBool v, r))
      | configU16 \<Rightarrow> gbind (read_u16 (spec_name spec) r) (\<lambda>(v, r). Ok (CU16 v, r))
      | configU32 \<Rightarrow> gbind (read_u32 (spec_name spec) r) (\<lambda>(v, r). Ok (CU32 v, r))
      | configI32 \<Rightarrow> gbind (read_i32 (spec_name spec) r) (\<lambda>(v, r). Ok (CI32 v, r))
      | configFloat16 \<Rightarrow>
          gbind (read_float16 (spec_name spec) (spec_scale spec) r) (\<lambda>(v, r). Ok (CFloat v, r))
      | configFloat32Auto \<Rightarrow>
          gbind (read_float32Auto (spec_name spec) r) (\<lambda>(v, r). Ok (CFloat v, r)))"

fun readConfigFields :: "configSpec list \<Rightarrow> ConfigField list pread" where
  "readConfigFields [] r = Ok ([], r)"
| "readConfigFields (spec # specs) r =
     gbind (readConfigField spec r) (\<lambda>(value, r).
       gmap (\<lambda>(fields, r). (\<lparr>Name = spec_name spec, Value = value\<rparr> # fields, r)) (readConfigFields specs r))"

definition parseConfigBody ::
    "bytes \<Rightarrow> configSpec list \<Rightarrow> (vesc_err, u32 \<times> ConfigField list \<times> bytes) gres" where
  "parseConfigBody body specs =
     (let r = newPacketReader body in
      gbind (read_u32 ''signature'' r) (\<lambda>(signature, r).
      gbind (readConfigFields specs r) (\<lambda>(fields, r).
      Ok (signature, fields, extra r))))"

definition ParseMotorConfig :: "bytes \<Rightarrow> (vesc_err, MotorConfig) gres" where
  "ParseMotorConfig payload =
     gbind (expectCommand payload [CommandGetMotorConfig]) (\<lambda>(commandID, body).
     gbind (parseConfigBody body motorConfigSpecs) (\<lambda>(signature, fields, ext).
     Ok \<lparr>mc_CommandID = commandID, mc_Signature = signature, mc_Fields = fields,
         mc_RawPayloadLen = length payload, mc_ExtraBytes = ext\<rparr>))"

definition ParseAppConfig :: "bytes \<Rightarrow> (vesc_err, AppConfig) gres" where
  "ParseAppConfig payload =
     gbind (expectCommand payload [CommandGetAppConfig]) (\<lambda>(commandID, body).
     gbind (parseConfigBody body appConfigSpecs) (\<lambda>(signature, fields, ext).
     Ok \<lparr>ac_CommandID = commandID, ac_Signature = signature, ac_Fields = fields,
         ac_RawPayloadLen = length payload, ac_ExtraBytes = ext\<rparr>))"

text \<open>The found flag and the field are an option.\<close>

fun findConfigField :: "ConfigField list \<Rightarrow> string \<Rightarrow> ConfigField option" where
  "findConfigField [] name = None"
| "findConfigField (field # fs) name =
     (if Name field = name then Some field else findConfigField fs name)"

definition MotorConfig_Field :: "MotorConfig option \<Rightarrow> string \<Rightarrow> ConfigField option" where
  "MotorConfig_Field c name = (case c of None \<Rightarrow> None | Some c \<Rightarrow> findConfigField (mc_Fields c) name)"

definition AppConfig_Field :: "AppConfig option \<Rightarrow> string \<Rightarrow> ConfigField option" where
  "AppConfig_Field c name = (case c of None \<Rightarrow> None | Some c \<Rightarrow> findConfigField (ac_Fields c) name)"


section \<open>Payload dispatch\<close>

datatype payload =
    PayloadUnknown
  | PayloadValues MotorTelemetry
  | PayloadMotorConfig MotorConfig
  | PayloadAppConfig AppConfig

record ParsedPayload =
  pp_CommandID :: u8
  pp_Payload :: payload
  pp_RawPayloadLen :: nat

definition ParsePayload :: "bytes \<Rightarrow> (vesc_err, ParsedPayload) gres" where
  "ParsePayload payload =
     (case payload of
        [] \<Rightarrow> Err EmptyPayload
      | c # _ \<Rightarrow>
          gmap (\<lambda>p. \<lparr>pp_CommandID = c, pp_Payload = p, pp_RawPayloadLen = length payload\<rparr>)
            (if c = CommandGetValues \<or> c = CommandGetValuesSel
             then gmap PayloadValues (ParseMotorTelemetry payload)
             else if c = CommandGetMotorConfig then gmap PayloadMotorConfig (ParseMotorConfig payload)
             else if c = CommandGetAppConfig then gmap PayloadAppConfig (ParseAppConfig payload)
             else Ok PayloadUnknown))"


section \<open>Lengths and lookups\<close>

fun kind_width :: "configKind \<Rightarrow> nat" where
  "kind_width configU8 = 1"
| "kind_width configI8 = 1"
| "kind_width configBool = 1"
| "kind_width configU16 = 2"
| "kind_width configFloat16 = 2"
| "kind_width _ = 4"

definition spec_width :: "configSpec list \<Rightarrow> nat" where
  "spec_width specs = sum_list (map (\<lambda>s. kind_width (spec_kind s)) specs)"

fun dec_config :: "configSpec \<Rightarrow> bytes \<Rightarrow> config_value" where
  "dec_config s bs =
     (case spec_kind s of
        configU8 \<Rightarrow> CU8 (bs ! 0) | configI8 \<Rightarrow> CI8 (bs ! 0) | configBool \<Rightarrow> CBool (bs ! 0 \<noteq> 0)
      | configU16 \<Rightarrow> CU16 (dec_u16 bs) | configU32 \<Rightarrow> CU32 (dec_u32 bs) | configI32 \<Rightarrow> CI32 (dec_u32 bs)
      | configFloat16 \<Rightarrow> CFloat (f64_div (sint (dec_u16 bs)) (spec_scale s))
      | configFloat32Auto \<Rightarrow> CFloat (float32_auto (dec_u32 bs)))"

lemmas spec_reads = rd_u8.map_read rd_i8.map_read rd_bool8.map_read rd_u16.map_read rd_u32.map_read
  rd_i32.map_read rd_float16.map_read rd_float32Auto.map_read

lemma readConfigField_fixed: "fixed_read (readConfigField s) (kind_width (spec_kind s)) (dec_config s)"
  by (cases "spec_kind s") (simp_all add: readConfigField_def [abs_def] dec_config.simps [abs_def] spec_reads
      del: One_nat_def)

fun dec_fields :: "configSpec list \<Rightarrow> bytes \<Rightarrow> ConfigField list" where
  "dec_fields [] bs = []"
| "dec_fields (s # specs) bs =
     \<lparr>Name = spec_name s, Value = dec_config s (take (kind_width (spec_kind s)) bs)\<rparr> #
       dec_fields specs (drop (kind_width (spec_kind s)) bs)"

lemma readConfigFields_fixed: "fixed_read (readConfigFields specs) (spec_width specs) (dec_fields specs)"
proof (induction specs)
  case Nil
  show ?case by unfold_locales (simp_all add: cursor_ok_def spec_width_def)
next
  case (Cons s specs)
  have "readConfigFields (s # specs) = (\<lambda>r. gbind (readConfigField s r) (\<lambda>(x, r).
      gmap (\<lambda>(y, r). (\<lparr>Name = spec_name s, Value = x\<rparr> # y, r)) (readConfigFields specs r)))"
    by (rule ext) simp
  moreover have "spec_width (s # specs) = kind_width (spec_kind s) + spec_width specs"
    by (simp add: spec_width_def)
  moreover have "dec_fields (s # specs) = (\<lambda>bs. \<lparr>Name = spec_name s, Value = dec_config s (take (kind_width (spec_kind s)) bs)\<rparr> #
      dec_fields specs (drop (kind_width (spec_kind s)) bs))"
    by (rule ext) simp
  ultimately show ?case
    using fixed_read_seq [OF readConfigField_fixed Cons.IH, where f = "\<lambda>x y. \<lparr>Name = spec_name s, Value = x\<rparr> # y"]
    by simp
qed

lemma parseConfigBody_spec:
  "if 4 + spec_width specs \<le> length body
   then parseConfigBody body specs =
     Ok (dec_u32 body, dec_fields specs (take (spec_width specs) (drop 4 body)), drop (4 + spec_width specs) body)
   else \<exists>e. parseConfigBody body specs = Err e"
proof (cases "4 \<le> length body")
  case True
  let ?r = "(newPacketReader body)\<lparr>poff := 4\<rparr>"
  have sig: "read_u32 ''signature'' (newPacketReader body) = Ok (dec_u32 body, ?r)"
    using True by (subst rd_u32.read_ok) (simp_all add: newPacketReader_def)
  note f = fixed_read.read_ok [OF readConfigFields_fixed, of ?r specs]
    fixed_read.read_short [OF readConfigFields_fixed, of ?r specs]
  show ?thesis
    using sig f True by (auto simp: parseConfigBody_def extra_drop newPacketReader_def cursor_ok_def not_le)
next
  case False
  then obtain e where "read_u32 ''signature'' (newPacketReader body) = Err e"
    using rd_u32.read_short [OF newPacketReader_ok, of body "''signature''"]
    by (auto simp: newPacketReader_def)
  with False show ?thesis by (simp add: parseConfigBody_def)
qed

lemma dec_fields_names: "map Name (dec_fields specs bs) = map spec_name specs"
  by (induction specs arbitrary: bs) simp_all

lemma findConfigField_nth:
  "distinct (map Name fs) \<Longrightarrow> i < length fs \<Longrightarrow> findConfigField fs (Name (fs ! i)) = Some (fs ! i)"
proof (induction fs arbitrary: i)
  case (Cons f fs)
  then show ?case by (cases i) (auto simp: image_iff)
qed simp

text \<open>The names of a table are distinct: their hashes are, bucket by bucket.\<close>

definition name_hash :: "string \<Rightarrow> int" where
  "name_hash s = fold (\<lambda>c a. a * 3 + of_char c) s 0"

definition distinct_buckets :: "int list \<Rightarrow> bool" where
  "distinct_buckets xs = list_all (\<lambda>b. distinct (filter (\<lambda>x. x mod 16 = b) xs))
     [0, 1, 2, 3, 4, 5, 6, 7, 8, 9, 10, 11, 12, 13, 14, 15]"

lemma distinct_bucketsD:
  assumes "distinct_buckets xs"
  shows "distinct xs"
proof (rule ccontr)
  assume "\<not> distinct xs"
  then obtain as x bs cs where xs: "xs = as @ [x] @ bs @ [x] @ cs" by (auto dest: not_distinct_decomp)
  then have "\<not> distinct (filter (\<lambda>y. y mod 16 = x mod 16) xs)" by simp
  moreover have "x mod 16 \<in> set [0, 1, 2, 3, 4, 5, 6, 7, 8, 9, 10, 11, 12, 13, 14, 15]"
    by simp presburger
  ultimately show False using assms unfolding distinct_buckets_def list_all_iff by blast
qed

lemma names_distinct: "distinct_buckets (map name_hash names) \<Longrightarrow> distinct names"
  by (auto dest!: distinct_bucketsD simp: distinct_map)

lemma motor_names_distinct: "distinct (map spec_name motorConfigSpecs)"
  by (rule names_distinct) code_simp

lemma app_names_distinct: "distinct (map spec_name appConfigSpecs)"
  by (rule names_distinct) code_simp

lemma motor_width: "spec_width motorConfigSpecs = 484"
  by (simp add: motorConfigSpecs_def spec_width_def cfg_defs)

lemma app_width: "spec_width appConfigSpecs = 280"
  by (simp add: appConfigSpecs_def spec_width_def cfg_defs)

text \<open>
  A motor configuration packet parses exactly when its body has the four signature bytes and the
  484 bytes of the table; its fields then carry the names of the table in order, every field is
  found under its name, and the rest of the packet is kept. A shorter packet gives an error.
\<close>

theorem motor_config_parse:
  "if 488 \<le> length body
   then \<exists>c. ParseMotorConfig (CommandGetMotorConfig # body) = Ok c \<and>
     map Name (mc_Fields c) = map spec_name motorConfigSpecs \<and>
     (\<forall>f\<in>set (mc_Fields c). MotorConfig_Field (Some c) (Name f) = Some f) \<and>
     mc_Signature c = dec_u32 body \<and> mc_ExtraBytes c = drop 488 body
   else \<exists>e. ParseMotorConfig (CommandGetMotorConfig # body) = Err e"
proof -
  let ?fs = "dec_fields motorConfigSpecs (take 484 (drop 4 body))"
  have names: "map Name ?fs = map spec_name motorConfigSpecs" by (rule dec_fields_names)
  have "findConfigField ?fs (Name f) = Some f" if "f \<in> set ?fs" for f
    using findConfigField_nth [of ?fs] motor_names_distinct that names by (auto simp: in_set_conv_nth)
  then show ?thesis
    using parseConfigBody_spec [of motorConfigSpecs body] names
    by (auto simp: ParseMotorConfig_def expectCommand_def motor_width MotorConfig_Field_def split: if_splits)
qed

theorem motor_config_parse_witness:
  "\<exists>c. ParseMotorConfig (CommandGetMotorConfig # replicate 490 0) = Ok c \<and>
    map Name (mc_Fields c) = map spec_name motorConfigSpecs \<and>
    (\<forall>f\<in>set (mc_Fields c). MotorConfig_Field (Some c) (Name f) = Some f) \<and>
    mc_Signature c = dec_u32 (replicate 490 0) \<and> mc_ExtraBytes c = drop 488 (replicate 490 0)"
  using motor_config_parse [of "replicate 490 0"] by simp

text \<open>The same for an application configuration packet, whose table takes 280 bytes.\<close>

theorem app_config_parse:
  "if 284 \<le> length body
   then \<exists>c. ParseAppConfig (CommandGetAppConfig # body) = Ok c \<and>
     map Name (ac_Fields c) = map spec_name appConfigSpecs \<and>
     (\<forall>f\<in>set (ac_Fields c). AppConfig_Field (Some c) (Name f) = Some f) \<and>
     ac_Signature c = dec_u32 body \<and> ac_ExtraBytes c = drop 284 body
   else \<exists>e. ParseAppConfig (CommandGetAppConfig # body) = Err e"
proof -
  let ?fs = "dec_fields appConfigSpecs (take 280 (drop 4 body))"
  have names: "map Name ?fs = map spec_name appConfigSpecs" by (rule dec_fields_names)
  have "findConfigField ?fs (Name f) = Some f" if "f \<in> set ?fs" for f
    using findConfigField_nth [of ?fs] app_names_distinct that names by (auto simp: in_set_conv_nth)
  then show ?thesis
    using parseConfigBody_spec [of appConfigSpecs body] names
    by (auto simp: ParseAppConfig_def expectCommand_def app_width AppConfig_Field_def split: if_splits)
qed

theorem app_config_parse_witness:
  "\<exists>c. ParseAppConfig (CommandGetAppConfig # replicate 300 0) = Ok c \<and>
    map Name (ac_Fields c) = map spec_name appConfigSpecs \<and>
    (\<forall>f\<in>set (ac_Fields c). AppConfig_Field (Some c) (Name f) = Some f) \<and>
    ac_Signature c = dec_u32 (replicate 300 0) \<and> ac_ExtraBytes c = drop 284 (replicate 300 0)"
  using app_config_parse [of "replicate 300 0"] by simp

lemma expectCommand_returns [simp]: "returns (expectCommand payload expected)"
  by (simp add: expectCommand_def split: list.split)

lemma ParseMotorTelemetry_returns: "returns (ParseMotorTelemetry payload)"
proof -
  have body: "returns (gbind (run_steps telemetry_steps (v, r)) (\<lambda>(values, r). Ok (values\<lparr>ExtraBytes := extra r\<rparr>)))"
    if "cursor_ok r" for v r
    using telemetry_body [OF that, of v] by (auto split: if_splits)
  have mask: "read_u32 ''values_mask'' (newPacketReader b) = Ok (m, r) \<Longrightarrow> cursor_ok r" 
      "returns (read_u32 ''values_mask'' (newPacketReader b))" for b m r
    using rd_u32.read_ok [of "newPacketReader b" "''values_mask''"]
      rd_u32.read_short [OF newPacketReader_ok, of b "''values_mask''"]
    by (cases "4 \<le> length b"; auto simp: newPacketReader_def cursor_ok_def)+
  show ?thesis
    unfolding ParseMotorTelemetry_def Let_def
    by (auto intro!: returns_gbind body mask(2) newPacketReader_ok dest: mask(1) split: if_splits simp: gbind_Ok_iff)
qed

lemma parseConfigBody_returns [simp]: "returns (parseConfigBody body specs)"
  using parseConfigBody_spec [of specs body] by (auto split: if_splits)

lemma ParseConfig_returns: "returns (ParseMotorConfig payload)" "returns (ParseAppConfig payload)"
  by (auto simp: ParseMotorConfig_def ParseAppConfig_def intro!: returns_gbind)

text \<open>
  The dispatch over payloads returns on every input, with the parsed payload or with an error:
  no packet panics it. Where it returns a payload, that carries the command byte and the length.
\<close>

theorem parse_payload_total:
  "case ParsePayload payload of
     Ok p \<Rightarrow> pp_CommandID p = hd payload \<and> pp_RawPayloadLen p = length payload
   | Err e \<Rightarrow> True
   | _ \<Rightarrow> False"
  using ParseMotorTelemetry_returns [of payload] ParseConfig_returns [of payload]
  by (auto simp: ParsePayload_def returns_cases split: list.split)

end
