(* ===== verification/Vesc_Commands.thy ===== *)
theory Vesc_Commands
  imports Vesc_Config Message_Getters
begin

text \<open>
  What the VESC driver sends and receives: the commands of
  \<^verbatim>\<open>software/drivers/vesc-trampa/command.go\<close> and the envelope parser of \<^verbatim>\<open>display.go\<close>. Both work on
  generated messages; the schemas below are those of \<^verbatim>\<open>vesc_trampa.proto\<close>, and the
  methods of the messages are the definitions of the message codec. The theorems say that a
  receiver decodes the command that was sent, and that a received envelope gives the packet
  parser exactly the payload of the board packet.
\<close>

section \<open>The messages\<close>

definition pfield :: "wire_number \<Rightarrow> go_value_type \<Rightarrow> go_field" where
  "pfield tag t = \<lparr>field_tag = tag, field_type = GoValue t\<rparr>"

definition pbasic :: "wire_number \<Rightarrow> scalar \<Rightarrow> go_field" where
  "pbasic tag s = pfield tag (GoBasic s None False)"

definition pstruct :: "wire_number \<Rightarrow> string \<Rightarrow> go_field" where
  "pstruct tag n = pfield tag (GoStruct n False)"

definition penum :: "wire_number \<Rightarrow> go_field" where
  "penum tag = pfield tag (GoEnum None False)"

definition RxEnvelope :: "go_field list" where
  "RxEnvelope =
    [pbasic 1 PUint64, pbasic 2 PUint64, pbasic 3 PUint64, penum 10, pstruct 11 ''VescTrampaBoard'',
     pstruct 20 ''VescTrampaBoardPacket'', pstruct 30 ''TxEnvelope'', pbasic 50 PString]"

definition TxEnvelope :: "go_field list" where
  "TxEnvelope =
    [pbasic 1 PUint64, pbasic 2 PUint64, pbasic 5 PUint64, pbasic 3 PBytes, pbasic 4 PBytes,
     pstruct 10 ''VescTrampaBoardCommand'', pstruct 11 ''VescTrampaMotorModeCommand'']"

definition Command :: "go_field list" where
  "Command =
    [pbasic 1 PBytes, pstruct 10 ''VescTrampaBoardCommand'', pstruct 11 ''VescTrampaMotorModeCommand'']"

definition VescTrampaBoardCommand :: "go_field list" where
  "VescTrampaBoardCommand = [pbasic 1 PBytes, pbasic 2 PBool]"

definition VescTrampaMotorModeCommand :: "go_field list" where
  "VescTrampaMotorModeCommand = [penum 1]"

definition VescTrampaBoardPacket :: "go_field list" where
  "VescTrampaBoardPacket =
    [pbasic 1 PUint32, pbasic 2 PUint32, pbasic 3 PUint32, pbasic 4 PBytes, pbasic 5 PUint32,
     pbasic 6 PUint32]"

definition VescTrampaBoard :: "go_field list" where
  "VescTrampaBoard =
    [pbasic 1 PString, pbasic 2 PUint32, pbasic 3 PUint32, pbasic 4 PString, pbasic 5 PString,
     pbasic 6 PString, pbasic 7 PUint32, pbasic 20 PUint32, pbasic 21 PUint32, pbasic 22 PString,
     pbasic 23 PBytes, pbasic 24 PBool, pbasic 25 PUint32, pbasic 26 PUint32, pbasic 27 PUint32,
     pbasic 28 PBool, pbasic 29 PUint32, pbasic 30 PUint32, pbasic 31 PUint32, pbasic 32 PString,
     pbasic 33 PUint32, pbasic 34 PBytes, pbasic 35 PBytes]"

definition vescpb :: schema where
  "vescpb =
    [(''RxEnvelope'', RxEnvelope), (''TxEnvelope'', TxEnvelope), (''Command'', Command),
     (''VescTrampaBoardCommand'', VescTrampaBoardCommand),
     (''VescTrampaMotorModeCommand'', VescTrampaMotorModeCommand),
     (''VescTrampaBoardPacket'', VescTrampaBoardPacket), (''VescTrampaBoard'', VescTrampaBoard)]"

lemmas pfield_defs = pbasic_def pstruct_def penum_def pfield_def
lemmas vescpb_defs = RxEnvelope_def TxEnvelope_def Command_def VescTrampaBoardCommand_def
  VescTrampaMotorModeCommand_def VescTrampaBoardPacket_def VescTrampaBoard_def

lemma vescpb_ok: "schema_ok vescpb"
  by (simp add: vescpb_def vescpb_defs pfield_defs schema_ok_def struct_ok_def tag_ok_def)

lemma vescpb_fields [simp]:
  "struct_fields vescpb ''RxEnvelope'' = RxEnvelope" "struct_fields vescpb ''Command'' = Command"
  "struct_fields vescpb ''VescTrampaBoardCommand'' = VescTrampaBoardCommand"
  "struct_fields vescpb ''VescTrampaMotorModeCommand'' = VescTrampaMotorModeCommand"
  "struct_fields vescpb ''VescTrampaBoardPacket'' = VescTrampaBoardPacket"
  by (simp_all add: struct_fields_def vescpb_def)


section \<open>Sending commands\<close>

definition commandSetCurrent :: u8 where "commandSetCurrent = 6"

definition STC_VESC_TRAMPA_COMMAND :: u32 where "STC_VESC_TRAMPA_COMMAND = 4"

text \<open>\<^verbatim>\<open>binary.BigEndian.PutUint32\<close> into a slice of four bytes.\<close>

definition PutUint32_BE :: "u32 \<Rightarrow> bytes" where
  "PutUint32_BE v = [ucast (drop_bit 24 v), ucast (drop_bit 16 v), ucast (drop_bit 8 v), ucast v]"

definition int32Payload :: "u8 \<Rightarrow> i32 \<Rightarrow> bytes" where
  "int32Payload commandID value = commandID # PutUint32_BE value"

definition setCurrentPayload :: "i32 \<Rightarrow> bytes" where
  "setCurrentPayload currentMA = int32Payload commandSetCurrent currentMA"

definition boardPayloadCommand :: "bytes \<Rightarrow> bytes \<Rightarrow> gval list" where
  "boardPayloadCommand targetBoardUUID payload =
     [VBytes targetBoardUUID, VMsg (Some [VBytes payload, VBool False]), VMsg None]"

definition setCurrentCommand :: "bytes \<Rightarrow> i32 \<Rightarrow> gval list" where
  "setCurrentCommand targetBoardUUID currentMA =
     boardPayloadCommand targetBoardUUID (setCurrentPayload currentMA)"

definition motorModeCommand :: "bytes \<Rightarrow> i32 \<Rightarrow> gval list" where
  "motorModeCommand targetBoardUUID mode = [VBytes targetBoardUUID, VMsg None, VMsg (Some [V32 mode])]"

record DriverCommand =
  CommandId :: bytes
  dc_Type :: u32
  Body :: bytes

text \<open>\<open>None\<close> would be a panic of \<^verbatim>\<open>Marshal\<close>.\<close>

definition SetCurrentStationCommand :: "bytes \<Rightarrow> bytes \<Rightarrow> i32 \<Rightarrow> DriverCommand option" where
  "SetCurrentStationCommand commandID targetBoardUUID currentMA =
     map_option (\<lambda>body. \<lparr>CommandId = commandID, dc_Type = STC_VESC_TRAMPA_COMMAND, Body = body\<rparr>)
       (Marshal vescpb ''Command'' (Some (setCurrentCommand targetBoardUUID currentMA)))"

definition SetMotorModeStationCommand :: "bytes \<Rightarrow> bytes \<Rightarrow> i32 \<Rightarrow> DriverCommand option" where
  "SetMotorModeStationCommand commandID targetBoardUUID mode =
     map_option (\<lambda>body. \<lparr>CommandId = commandID, dc_Type = STC_VESC_TRAMPA_COMMAND, Body = body\<rparr>)
       (Marshal vescpb ''Command'' (Some (motorModeCommand targetBoardUUID mode)))"


section \<open>Receiving envelopes\<close>

datatype rx_err = WireError wire_err | VescError vesc_err

fun with_err :: "('e \<Rightarrow> 'f) \<Rightarrow> ('e, 'a) gres \<Rightarrow> ('f, 'a) gres" where
  "with_err f (Ok x) = Ok x"
| "with_err f (Err e) = Err (f e)"
| "with_err f Panic = Panic"
| "with_err f OutOfFuel = OutOfFuel"

record RxDisplay =
  SignalType :: u32
  rx_Payload :: "ParsedPayload option"
  rx_Error :: bytes

text \<open>The getters, by the positions of their fields in the messages.\<close>

fun rval_32 :: "rval \<Rightarrow> u32" where
  "rval_32 (RVal v) = as_32 v"
| "rval_32 _ = 0"

fun rval_bytes :: "rval \<Rightarrow> bytes" where
  "rval_bytes (RVal v) = as_bytes v"
| "rval_bytes _ = []"

fun rval_msg :: "rval \<Rightarrow> msg_reader option" where
  "rval_msg (RMsg m) = m"
| "rval_msg _ = None"

definition GetSignalType :: "nat \<Rightarrow> msg_reader \<Rightarrow> (wire_err, u32 \<times> msg_reader) gres" where
  "GetSignalType fuel m = gmap (\<lambda>(v, m). (rval_32 v, m)) (read_field fuel vescpb m 3)"

definition GetError :: "nat \<Rightarrow> msg_reader \<Rightarrow> (wire_err, bytes \<times> msg_reader) gres" where
  "GetError fuel m = gmap (\<lambda>(v, m). (rval_bytes v, m)) (read_field fuel vescpb m 7)"

definition GetBoardPacket :: "nat \<Rightarrow> msg_reader \<Rightarrow> (wire_err, msg_reader option \<times> msg_reader) gres" where
  "GetBoardPacket fuel m = gmap (\<lambda>(v, m). (rval_msg v, m)) (read_field fuel vescpb m 5)"

definition GetPayload :: "nat \<Rightarrow> msg_reader \<Rightarrow> (wire_err, bytes \<times> msg_reader) gres" where
  "GetPayload fuel m = gmap (\<lambda>(v, m). (rval_bytes v, m)) (read_field fuel vescpb m 3)"

definition ParseRxEnvelope :: "nat \<Rightarrow> slice \<Rightarrow> (rx_err, RxDisplay) gres" where
  "ParseRxEnvelope fuel data =
     gbind (with_err WireError (Unmarshal fuel vescpb (NewMsgReader vescpb ''RxEnvelope'') data)) (\<lambda>(envelope, err).
     case err of
       Some e \<Rightarrow> Err (WireError e)
     | None \<Rightarrow>
         gbind (with_err WireError (GetSignalType fuel envelope)) (\<lambda>(signalType, envelope).
         gbind (with_err WireError (GetError fuel envelope)) (\<lambda>(error, envelope).
         let display = \<lparr>SignalType = signalType, rx_Payload = None, rx_Error = error\<rparr> in
         gbind (with_err WireError (GetBoardPacket fuel envelope)) (\<lambda>(packetReader, envelope).
         case packetReader of
           None \<Rightarrow> Ok display
         | Some packetReader \<Rightarrow>
             gbind (with_err WireError (GetPayload fuel packetReader)) (\<lambda>(payloadBytes, packetReader).
             if length payloadBytes > 0
             then gmap (\<lambda>payload. display\<lparr>rx_Payload := Some payload\<rparr>)
               (with_err VescError (ParsePayload payloadBytes))
             else Ok display)))))"


section \<open>The sent command is the one decoded\<close>

lemma command_conforms:
  "conforms vescpb ''Command'' (Some (setCurrentCommand uuid ma))"
  "conforms vescpb ''Command'' (Some (motorModeCommand uuid mode))"
  by (simp_all add: conforms.simps setCurrentCommand_def boardPayloadCommand_def motorModeCommand_def
      vescpb_defs pfield_defs)

lemma SizeVarInt_le: "SizeVarInt v \<le> 10"
  by (simp add: SizeVarInt_def)

lemma SizeTag_le: "SizeTag tag \<le> 10"
  using SizeVarInt_le by (simp add: SizeTag_def)

lemma norm_payload_cong: "length (setCurrentPayload ma) = 5"
  by (simp add: setCurrentPayload_def int32Payload_def PutUint32_BE_def)

lemma SizeVarInt_pos [simp]: "SizeVarInt v \<noteq> 0"
  by (simp add: SizeVarInt_length)

lemma command_sizes:
  "XXX_PbContentSize vescpb ''VescTrampaBoardCommand'' (Some [VBytes (setCurrentPayload ma), VBool False]) =
    SizeTag 1 + SizeUint64 5 + 5"
  "XXX_PbContentSize vescpb ''VescTrampaMotorModeCommand'' (Some [V32 mode]) =
    (if mode = 0 then 0 else SizeTag 1 + SizeInt32 mode)"
  using norm_payload_cong [of ma]
  by (auto simp: XXX_PbContentSize.simps vescpb_defs pfield_defs SizeBytes_def Let_def)

lemma command_size:
  "XXX_PbContentSize vescpb ''Command'' (Some (setCurrentCommand uuid ma)) \<le> length uuid + 100"
  "XXX_PbContentSize vescpb ''Command'' (Some (motorModeCommand uuid mode)) \<le> length uuid + 100"
  using SizeTag_le [of 1] SizeTag_le [of 10] SizeTag_le [of 11] SizeVarInt_le [of "of_nat (length uuid)"] 
    SizeVarInt_le [of 5]
    SizeVarInt_le [of "of_nat (SizeTag 1 + SizeVarInt 5 + 5)"] SizeVarInt_le [of "scast mode"] 
    SizeVarInt_le [of "of_nat (SizeTag 1 + SizeVarInt (scast mode))"] SizeVarInt_le [of 0]
  by (auto simp add: XXX_PbContentSize.simps(2) [of _ "''Command''"] command_sizes setCurrentCommand_def boardPayloadCommand_def motorModeCommand_def
      Command_def pfield_defs SizeBytes_def SizeUint64_def SizeInt32_def Let_def)

lemma setCurrent_normal:
  "norm_fields vescpb ''Command'' (setCurrentCommand uuid ma) = setCurrentCommand uuid ma"
  using norm_payload_cong [of ma]
  by (auto simp add: norm_fields_def normalise.simps setCurrentCommand_def boardPayloadCommand_def command_sizes
      vescpb_defs pfield_defs)

lemma motorMode_normal:
  "norm_fields vescpb ''Command'' (motorModeCommand uuid mode) =
    (if mode = 0 then [VBytes uuid, VMsg None, VMsg None] else motorModeCommand uuid mode)"
  by (auto simp add: norm_fields_def normalise.simps motorModeCommand_def command_sizes
      vescpb_defs pfield_defs SizeInt32_def)

lemma dec_PutUint32_BE: "dec_u32 (PutUint32_BE v) = v"
proof (rule bit_word_eqI)
  fix n assume "n < LENGTH(32)"
  then consider "n < 8" | "8 \<le> n" "n < 16" | "16 \<le> n" "n < 24" | "24 \<le> n" "n < 32" by fastforce
  then show "bit (dec_u32 (PutUint32_BE v)) n = bit v n"
    by cases (auto simp add: dec_u32_def PutUint32_BE_def bit_simps)
qed


text \<open>
  C31. The station command that sets a motor current carries the VESC command: whoever unmarshals its
  body gets back the board's UUID and a payload of the command byte 6 and the current as a signed
  big-endian number, which decodes to the current that was asked for.
\<close>

theorem set_current_roundtrip:
  assumes "int (length targetBoardUUID) < 2 ^ 61" and "length targetBoardUUID + 100 < fuel"
  shows "\<exists>cmd m. SetCurrentStationCommand commandID targetBoardUUID currentMA = Some cmd \<and>
    CommandId cmd = commandID \<and> dc_Type cmd = STC_VESC_TRAMPA_COMMAND \<and>
    Unmarshal fuel vescpb (NewMsgReader vescpb ''Command'') (slice_of (Body cmd)) = Ok (m, None) \<and>
    gmap fst (ToStruct fuel vescpb m) =
      Ok [VBytes targetBoardUUID, VMsg (Some [VBytes (6 # PutUint32_BE currentMA), VBool False]), VMsg None] \<and>
    dec_u32 (PutUint32_BE currentMA) = currentMA"
proof -
  have "norm_fields vescpb ''Command'' (setCurrentCommand targetBoardUUID currentMA) =
      [VBytes targetBoardUUID, VMsg (Some [VBytes (6 # PutUint32_BE currentMA), VBool False]), VMsg None]"
    unfolding setCurrent_normal by (simp add: setCurrentCommand_def boardPayloadCommand_def
        setCurrentPayload_def int32Payload_def commandSetCurrent_def)
  then show ?thesis
    using Marshal_roundtrip [OF vescpb_ok command_conforms(1) [of targetBoardUUID currentMA], of fuel]
      command_size(1) [of targetBoardUUID currentMA] assms
    by (auto simp: SetCurrentStationCommand_def dec_PutUint32_BE)
qed

theorem set_current_roundtrip_witness:
  "\<exists>cmd m. SetCurrentStationCommand [1] [0xaa, 0xbb] (- 1500) = Some cmd \<and>
    CommandId cmd = [1] \<and> dc_Type cmd = STC_VESC_TRAMPA_COMMAND \<and>
    Unmarshal 103 vescpb (NewMsgReader vescpb ''Command'') (slice_of (Body cmd)) = Ok (m, None) \<and>
    gmap fst (ToStruct 103 vescpb m) =
      Ok [VBytes [0xaa, 0xbb], VMsg (Some [VBytes (6 # PutUint32_BE (- 1500)), VBool False]), VMsg None] \<and>
    dec_u32 (PutUint32_BE (- 1500)) = - 1500"
  by (rule set_current_roundtrip) simp_all

text \<open>
  The station command that sets the motor mode round-trips for every mode but 0: the unspecified
  mode makes the nested message empty, and the receiver sees no motor mode at all.
\<close>

theorem motor_mode_roundtrip:
  assumes "int (length targetBoardUUID) < 2 ^ 61" and "length targetBoardUUID + 100 < fuel"
  shows "\<exists>cmd m. SetMotorModeStationCommand commandID targetBoardUUID mode = Some cmd \<and>
    Unmarshal fuel vescpb (NewMsgReader vescpb ''Command'') (slice_of (Body cmd)) = Ok (m, None) \<and>
    gmap fst (ToStruct fuel vescpb m) =
      Ok [VBytes targetBoardUUID, VMsg None, VMsg (if mode = 0 then None else Some [V32 mode])]"
proof -
  have "norm_fields vescpb ''Command'' (motorModeCommand targetBoardUUID mode) =
      [VBytes targetBoardUUID, VMsg None, VMsg (if mode = 0 then None else Some [V32 mode])]"
    unfolding motorMode_normal by (simp add: motorModeCommand_def)
  then show ?thesis
    using Marshal_roundtrip [OF vescpb_ok command_conforms(2) [of targetBoardUUID mode], of fuel]
      command_size(2) [of targetBoardUUID mode] assms
    by (auto simp: SetMotorModeStationCommand_def)
qed

theorem motor_mode_roundtrip_witness:
  "\<exists>cmd m. SetMotorModeStationCommand [1] [0xaa] 1 = Some cmd \<and>
    Unmarshal 102 vescpb (NewMsgReader vescpb ''Command'') (slice_of (Body cmd)) = Ok (m, None) \<and>
    gmap fst (ToStruct 102 vescpb m) = Ok [VBytes [0xaa], VMsg None, VMsg (if (1 :: i32) = 0 then None else Some [V32 1])]"
  by (rule motor_mode_roundtrip) simp_all


section \<open>The received payload is the one parsed\<close>

text \<open>The payload of the board packet of an envelope, empty where there is no packet.\<close>

definition envelope_payload :: "gval list \<Rightarrow> bytes" where
  "envelope_payload vs = (case as_msg (vs ! 5) of None \<Rightarrow> [] | Some ws \<Rightarrow> as_bytes (ws ! 3))"

lemma payload_getter:
  assumes "conforms vescpb ''VescTrampaBoardPacket'' (Some ws)"
    and "elems sub = msg_enc vescpb ''VescTrampaBoardPacket'' (Some ws)" and "slice_len sub < 2 ^ 62"
  shows "\<exists>m'. GetPayload fuel (unmarshalled vescpb ''VescTrampaBoardPacket'' ws sub) = Ok (as_bytes (ws ! 3), m')"
proof -
  have t: "field_type (VescTrampaBoardPacket ! 3) = GoValue (GoBasic PBytes None False)"
    by (simp add: VescTrampaBoardPacket_def pfield_defs)
  have len: "3 < length VescTrampaBoardPacket" by (simp add: VescTrampaBoardPacket_def)
  note g = basic_field_getter [OF vescpb_ok assms, of 3]
  show ?thesis
    using g len by (auto simp: t GetPayload_def read_field_fresh split: gval.splits)
qed

lemma rx_fields:
  "field_type (RxEnvelope ! 3) = GoValue (GoEnum None False)"
  "field_type (RxEnvelope ! 5) = GoValue (GoStruct ''VescTrampaBoardPacket'' False)"
  "field_type (RxEnvelope ! 7) = GoValue (GoBasic PString None False)"
  "length RxEnvelope = 8"
  by (simp_all add: RxEnvelope_def pfield_defs)

lemma rx_getters:
  assumes conf: "conforms vescpb ''RxEnvelope'' (Some vs)"
    and d: "elems data = msg_enc vescpb ''RxEnvelope'' (Some vs)" "slice_len data < 2 ^ 62"
    and m: "rstruct m = ''RxEnvelope''" "rbuffer m = Some (NewReader data)"
      "roffsets m = roffsets (unmarshalled vescpb ''RxEnvelope'' vs data)"
  shows "rparsed m ! 3 = None \<Longrightarrow> \<exists>v. GetSignalType fuel m = Ok (as_32 (vs ! 3),
      MsgReader (rstruct m) (rbuffer m) (roffsets m) ((rparsed m)[3 := Some v]))"
    and "rparsed m ! 7 = None \<Longrightarrow> \<exists>v. GetError fuel m = Ok (as_bytes (vs ! 7),
      MsgReader (rstruct m) (rbuffer m) (roffsets m) ((rparsed m)[7 := Some v]))"
  using basic_field_getter [OF vescpb_ok conf d, of 3 _ fuel] basic_field_getter [OF vescpb_ok conf d, of 7 _ fuel] m
  by (auto simp: rx_fields GetSignalType_def GetError_def read_field_fresh split: gval.splits)

lemma nth_zip_mem: "i < length xs \<Longrightarrow> length ys = length xs \<Longrightarrow> (xs ! i, ys ! i) \<in> set (zip xs ys)"
  by (metis in_set_zip fst_conv snd_conv)

lemma packet_conforms:
  assumes "conforms vescpb ''RxEnvelope'' (Some vs)" and "as_msg (vs ! 5) = Some ws"
  shows "conforms vescpb ''VescTrampaBoardPacket'' (Some ws)"
proof -
  have len: "length vs = 8" using assms(1) by (simp add: conforms.simps rx_fields)
  then have "(RxEnvelope ! 5, vs ! 5) \<in> set (zip RxEnvelope vs)"
    by (intro nth_zip_mem) (simp_all add: rx_fields)
  then show ?thesis
    using assms by (auto simp: conforms.simps(2) [of _ "''RxEnvelope''"] list_all_iff rx_fields split: gval.splits)
qed

lemma packet_empty:
  assumes "conforms vescpb ''VescTrampaBoardPacket'' (Some ws)"
    and "XXX_PbContentSize vescpb ''VescTrampaBoardPacket'' (Some ws) = 0"
  shows "as_bytes (ws ! 3) = []"
proof -
  have "length ws = 6" using assms(1) by (simp add: conforms.simps VescTrampaBoardPacket_def)
  then obtain a b c d e f where "ws = [a, b, c, d, e, f]"
    by (auto simp: numeral_eq_Suc length_Suc_conv)
  with assms(2) show ?thesis
    by (auto simp: XXX_PbContentSize.simps VescTrampaBoardPacket_def pfield_defs Let_def SizeBytes_def split: if_splits)
qed

lemma packet_getter:
  assumes conf: "conforms vescpb ''RxEnvelope'' (Some vs)"
    and d: "elems data = msg_enc vescpb ''RxEnvelope'' (Some vs)" "slice_len data < 2 ^ 62"
    and m: "rstruct m = ''RxEnvelope''" "rbuffer m = Some (NewReader data)"
      "roffsets m = roffsets (unmarshalled vescpb ''RxEnvelope'' vs data)"
    and new: "rparsed m ! 5 = None" and fuel: "length (elems data) \<le> fuel"
  shows "\<exists>m'. GetBoardPacket fuel m = Ok (None, m') \<and> envelope_payload vs = [] \<or>
    (\<exists>ws sub. GetBoardPacket fuel m = Ok (Some (unmarshalled vescpb ''VescTrampaBoardPacket'' ws sub), m') \<and>
      conforms vescpb ''VescTrampaBoardPacket'' (Some ws) \<and> envelope_payload vs = as_bytes (ws ! 3) \<and>
      elems sub = msg_enc vescpb ''VescTrampaBoardPacket'' (Some ws) \<and> slice_len sub < 2 ^ 62)"
proof -
  have i: "5 < length (struct_fields vescpb ''RxEnvelope'')" by (simp add: rx_fields)
  have t: "field_type (struct_fields vescpb ''RxEnvelope'' ! 5) = GoValue (GoStruct ''VescTrampaBoardPacket'' False)"
    by (simp add: rx_fields)
  note g = struct_field_getter [OF vescpb_ok conf d i t fuel]
  show ?thesis
  proof (cases "normalise vescpb ''VescTrampaBoardPacket'' (as_msg (vs ! 5))")
    case None
    have "envelope_payload vs = []"
    proof (cases "as_msg (vs ! 5)")
      case (Some ws)
      then have "XXX_PbContentSize vescpb ''VescTrampaBoardPacket'' (Some ws) = 0"
        using None by (auto simp: normalise.simps split: if_splits)
      moreover have "conforms vescpb ''VescTrampaBoardPacket'' (Some ws)" by (rule packet_conforms [OF conf Some])
      ultimately show ?thesis using Some packet_empty [of ws] by (simp add: envelope_payload_def)
    qed (simp add: envelope_payload_def)
    with g None m new show ?thesis by (simp add: GetBoardPacket_def read_field_fresh rx_fields)
  next
    case (Some a)
    with g obtain ws sub where ws: "as_msg (vs ! 5) = Some ws" "conforms vescpb ''VescTrampaBoardPacket'' (Some ws)"
        "elems sub = msg_enc vescpb ''VescTrampaBoardPacket'' (Some ws)" "length (elems sub) < length (elems data)"
        "EntryReader fuel vescpb (Some (NewReader data)) (GoValue (GoStruct ''VescTrampaBoardPacket'' False))
          (roffsets (unmarshalled vescpb ''RxEnvelope'' vs data) ! 5) =
          Ok (RMsg (Some (unmarshalled vescpb ''VescTrampaBoardPacket'' ws sub)))" by auto
    from ws(5) m new obtain m' where
      "GetBoardPacket fuel m = Ok (Some (unmarshalled vescpb ''VescTrampaBoardPacket'' ws sub), m')"
      by (simp add: GetBoardPacket_def read_field_fresh rx_fields)
    moreover have "slice_len sub < 2 ^ 62" using ws(4) d(2) by (simp add: slice_len_def)
    ultimately show ?thesis using ws(1-3) by (auto simp: envelope_payload_def)
  qed
qed

text \<open>The parser on the bytes of an envelope.\<close>

lemma ParseRxEnvelope_enc:
  assumes "conforms vescpb ''RxEnvelope'' (Some vs)"
    and "int (XXX_PbContentSize vescpb ''RxEnvelope'' (Some vs)) < 2 ^ 62"
    and "XXX_PbContentSize vescpb ''RxEnvelope'' (Some vs) < fuel"
  shows "\<exists>bs. Marshal vescpb ''RxEnvelope'' (Some vs) = Some bs \<and>
    ParseRxEnvelope fuel (slice_of bs) =
      (let display = \<lparr>SignalType = as_32 (vs ! 3), rx_Payload = None, rx_Error = as_bytes (vs ! 7)\<rparr> in
       if envelope_payload vs = [] then Ok display
       else gmap (\<lambda>payload. display\<lparr>rx_Payload := Some payload\<rparr>)
         (with_err VescError (ParsePayload (envelope_payload vs))))"
proof -
  let ?d = "slice_of (msg_enc vescpb ''RxEnvelope'' (Some vs))"
  let ?u = "unmarshalled vescpb ''RxEnvelope'' vs ?d"
  have d: "elems ?d = msg_enc vescpb ''RxEnvelope'' (Some vs)" "slice_len ?d < 2 ^ 62" "length (elems ?d) < fuel"
    using assms(2,3) by (simp_all add: slice_of_def slice_len_def XXX_PbContentSize_length)
  obtain v1 where s: "GetSignalType fuel ?u = Ok (as_32 (vs ! 3),
      MsgReader ''RxEnvelope'' (rbuffer ?u) (roffsets ?u) ((rparsed ?u)[3 := Some v1]))"
    using rx_getters(1) [OF assms(1) d(1,2), of ?u] by (auto simp: rx_fields)
  define m1 where "m1 = MsgReader ''RxEnvelope'' (rbuffer ?u) (roffsets ?u) ((rparsed ?u)[3 := Some v1])"
  note s = s [folded m1_def]
  obtain v2 where e: "GetError fuel m1 = Ok (as_bytes (vs ! 7),
      MsgReader ''RxEnvelope'' (rbuffer m1) (roffsets m1) ((rparsed m1)[7 := Some v2]))"
    using rx_getters(2) [OF assms(1) d(1,2), of m1] by (auto simp: rx_fields m1_def)
  define m2 where "m2 = MsgReader ''RxEnvelope'' (rbuffer m1) (roffsets m1) ((rparsed m1)[7 := Some v2])"
  note e = e [folded m2_def]
  have p: "\<exists>m'. GetBoardPacket fuel m2 = Ok (None, m') \<and> envelope_payload vs = [] \<or>
    (\<exists>ws sub. GetBoardPacket fuel m2 = Ok (Some (unmarshalled vescpb ''VescTrampaBoardPacket'' ws sub), m') \<and>
      conforms vescpb ''VescTrampaBoardPacket'' (Some ws) \<and> envelope_payload vs = as_bytes (ws ! 3) \<and>
      elems sub = msg_enc vescpb ''VescTrampaBoardPacket'' (Some ws) \<and> slice_len sub < 2 ^ 62)"
    using d(3) by (intro packet_getter [OF assms(1) d(1,2)]) (simp_all add: m1_def m2_def rx_fields)
  have q: "ParseRxEnvelope fuel ?d = gbind (with_err WireError (GetBoardPacket fuel m2)) (\<lambda>(packetReader, envelope).
      case packetReader of
        None \<Rightarrow> Ok \<lparr>SignalType = as_32 (vs ! 3), rx_Payload = None, rx_Error = as_bytes (vs ! 7)\<rparr>
      | Some packetReader \<Rightarrow>
          gbind (with_err WireError (GetPayload fuel packetReader)) (\<lambda>(payloadBytes, packetReader).
          if length payloadBytes > 0
          then gmap (\<lambda>payload. \<lparr>SignalType = as_32 (vs ! 3), rx_Payload = None, rx_Error = as_bytes (vs ! 7)\<rparr>
            \<lparr>rx_Payload := Some payload\<rparr>)
            (with_err VescError (ParsePayload payloadBytes))
          else Ok \<lparr>SignalType = as_32 (vs ! 3), rx_Payload = None, rx_Error = as_bytes (vs ! 7)\<rparr>))"
    using s e Unmarshal_enc [OF vescpb_ok d]
    by (simp add: ParseRxEnvelope_def Let_def)
  have "ParseRxEnvelope fuel ?d =
      (let display = \<lparr>SignalType = as_32 (vs ! 3), rx_Payload = None, rx_Error = as_bytes (vs ! 7)\<rparr> in
       if envelope_payload vs = [] then Ok display
       else gmap (\<lambda>payload. display\<lparr>rx_Payload := Some payload\<rparr>)
         (with_err VescError (ParsePayload (envelope_payload vs))))"
    using p payload_getter [where fuel = fuel] unfolding q by (fastforce simp: Let_def)
  then show ?thesis using Marshal_enc [OF vescpb_ok] by blast
qed

text \<open>
  C32. For every envelope a board can send, the parser returns the signal type and error text of the
  envelope and parses exactly the payload of its board packet; an envelope without a packet or
  with an empty payload has none, and only a malformed payload makes it fail.
\<close>

theorem rx_envelope_roundtrip:
  assumes "conforms vescpb ''RxEnvelope'' (Some vs)"
    and "int (XXX_PbContentSize vescpb ''RxEnvelope'' (Some vs)) < 2 ^ 62"
    and "XXX_PbContentSize vescpb ''RxEnvelope'' (Some vs) < fuel"
  shows "\<exists>bs. Marshal vescpb ''RxEnvelope'' (Some vs) = Some bs \<and>
    ParseRxEnvelope fuel (slice_of bs) =
      (let display = \<lparr>SignalType = as_32 (vs ! 3), rx_Payload = None, rx_Error = as_bytes (vs ! 7)\<rparr> in
       if envelope_payload vs = [] then Ok display
       else gmap (\<lambda>payload. display\<lparr>rx_Payload := Some payload\<rparr>)
         (with_err VescError (ParsePayload (envelope_payload vs))))"
  by (rule ParseRxEnvelope_enc [OF assms])

definition rx_example :: "gval list" where
  "rx_example =
    [V64 1, V64 2, V64 3, V32 3, VMsg None,
     VMsg (Some [V32 2, V32 1, V32 0, VBytes [0x1e], V32 0, V32 3]), VMsg None, VBytes []]"

theorem rx_envelope_roundtrip_witness:
  "\<exists>bs. Marshal vescpb ''RxEnvelope'' (Some rx_example) = Some bs \<and>
    ParseRxEnvelope 25 (slice_of bs) =
      Ok \<lparr>SignalType = 3,
        rx_Payload = Some \<lparr>pp_CommandID = 0x1e, pp_Payload = PayloadUnknown, pp_RawPayloadLen = 1\<rparr>,
        rx_Error = []\<rparr>"
proof -
  have "conforms vescpb ''RxEnvelope'' (Some rx_example)" by code_simp
  moreover have "XXX_PbContentSize vescpb ''RxEnvelope'' (Some rx_example) = 20" by code_simp
  moreover have "envelope_payload rx_example = [0x1e]" by code_simp
  moreover have "ParsePayload [0x1e] = Ok \<lparr>pp_CommandID = 0x1e, pp_Payload = PayloadUnknown, pp_RawPayloadLen = 1\<rparr>"
    by code_simp
  moreover have "as_32 (rx_example ! 3) = 3" "as_bytes (rx_example ! 7) = []" by code_simp+
  ultimately show ?thesis
    using rx_envelope_roundtrip [of rx_example 25] by (simp add: Let_def)
qed

end
