(* ===== verification/Go_Fmt.thy ===== *)
theory Go_Fmt
  imports Go_Strings Go_Float
begin

text \<open>
  What the programs use of \<^verbatim>\<open>fmt\<close> and \<^verbatim>\<open>strconv\<close> for numbers: hexadecimal, padding, booleans, and the float
  verbs \<^verbatim>\<open>%.nf\<close> and \<^verbatim>\<open>%.ng\<close>. The lemmas say that a printed number can be read back and how far it is from
  the value.
\<close>

section \<open>Integers and booleans\<close>

definition hex_digit :: "nat \<Rightarrow> char" where
  "hex_digit d = (if d < 10 then char_of (48 + d) else char_of (87 + d))"

fun fmt_x :: "nat \<Rightarrow> string" where
  "fmt_x n = (if n < 16 then [hex_digit n] else fmt_x (n div 16) @ [hex_digit (n mod 16)])"

declare fmt_x.simps [simp del]

text \<open>The flag 0 with a width.\<close>

definition pad_zero :: "nat \<Rightarrow> string \<Rightarrow> string" where
  "pad_zero w s = replicate (w - length s) CHR ''0'' @ s"

definition fmt_t :: "bool \<Rightarrow> string" where
  "fmt_t b = (if b then ''true'' else ''false'')"


section \<open>Floats\<close>

text \<open>The magnitude of a float as numerator and denominator.\<close>

definition f64_num :: "f64 \<Rightarrow> int" where
  "f64_num x = fmant x * 2 ^ nat (fexp x)"

definition f64_den :: "f64 \<Rightarrow> int" where
  "f64_den x = 2 ^ nat (- fexp x)"

definition sign_text :: "f64 \<Rightarrow> string" where
  "sign_text x = (if fneg x then ''-'' else [])"

text \<open>The verb \<^verbatim>\<open>%.nf\<close>: the exact binary value is rounded to n decimals, to nearest with ties to even.\<close>

definition fixed_units :: "nat \<Rightarrow> f64 \<Rightarrow> nat" where
  "fixed_units prec x = nat (round_even (f64_num x * 10 ^ prec) (f64_den x))"

definition fixed_text :: "nat \<Rightarrow> nat \<Rightarrow> string" where
  "fixed_text prec u =
     fmt_d (u div 10 ^ prec) @ (if prec = 0 then [] else CHR ''.'' # pad_zero prec (fmt_d (u mod 10 ^ prec)))"

definition fmt_f :: "nat \<Rightarrow> f64 \<Rightarrow> string" where
  "fmt_f prec x = sign_text x @ fixed_text prec (fixed_units prec x)"

text \<open>
  The verb \<^verbatim>\<open>%.ng\<close>. The position of the decimal point is the number of digits in front of it, or minus the
  number of zeros behind it; the value is rounded to n digits, whose trailing zeros are cut.
\<close>

definition decimal_point :: "int \<Rightarrow> int \<Rightarrow> int" where
  "decimal_point n d =
     (if d \<le> n then int (length (fmt_d (nat (n div d)))) else 1 - int (length (fmt_d (nat ((d - 1) div n)))))"

definition round_digits :: "nat \<Rightarrow> int \<Rightarrow> int \<Rightarrow> nat \<times> int" where
  "round_digits prec n d =
     (let dp = decimal_point n d;
          m = nat (round_even (n * 10 ^ nat (int prec - dp)) (d * 10 ^ nat (dp - int prec))) in
      if m = 10 ^ prec then (m div 10, dp + 1) else (m, dp))"

definition cut_zeros :: "string \<Rightarrow> string" where
  "cut_zeros s = rev (dropWhile (\<lambda>c. c = CHR ''0'') (rev s))"

text \<open>Digits with the decimal point behind the first dp of them, as \<^verbatim>\<open>fmtF\<close> and \<^verbatim>\<open>fmtE\<close> of \<^verbatim>\<open>strconv\<close> print them.\<close>

definition digits_f :: "string \<Rightarrow> int \<Rightarrow> string" where
  "digits_f ds dp =
     (let whole = (if dp > 0 then take (nat dp) ds @ replicate (nat dp - length ds) CHR ''0'' else ''0'');
          frac = (if dp > 0 then drop (nat dp) ds else if ds = [] then [] else replicate (nat (- dp)) CHR ''0'' @ ds) in
      whole @ (if frac = [] then [] else CHR ''.'' # frac))"

definition digits_e :: "string \<Rightarrow> int \<Rightarrow> string" where
  "digits_e ds dp =
     (let e = dp - 1 in
      take 1 ds @ (if length ds > 1 then CHR ''.'' # drop 1 ds else []) @ CHR ''e'' #
      (if e < 0 then CHR ''-'' else CHR ''+'') # pad_zero 2 (fmt_d (nat \<bar>e\<bar>)))"

definition fmt_g :: "nat \<Rightarrow> f64 \<Rightarrow> string" where
  "fmt_g prec x =
     sign_text x @
     (if f64_num x = 0 then ''0''
      else
        let (m, dp) = round_digits prec (f64_num x) (f64_den x);
            ds = cut_zeros (fmt_d m);
            e = dp - 1;
            eprec = (if int prec > int (length ds) \<and> int (length ds) \<ge> dp then int (length ds) else int prec) in
        if e < - 4 \<or> e \<ge> eprec then digits_e ds dp else digits_f ds dp)"


text \<open>The forms that \<^verbatim>\<open>%.6g\<close> chooses.\<close>

lemma fmt_g_examples:
  "fmt_g 6 (f64_lit 1 0) = ''1''" "fmt_g 6 (f64_lit 25 (- 1)) = ''12.5''" "fmt_g 6 (f64_lit 3 (- 7)) = ''0.0234375''"
  "fmt_g 6 (f64_lit 100000 0) = ''100000''" "fmt_g 6 (f64_lit 1500000 0) = ''1.5e+06''" "fmt_g 6 (f64_lit 9999995 (- 3)) = ''1.25e+06''"
  "fmt_g 6 (f64_lit 1 (- 20)) = ''9.53674e-07''" "fmt_g 6 \<lparr>fneg = True, fmant = 7205759403792794, fexp = - 56\<rparr> = ''-0.1''" "fmt_g 6 f64_zero = ''0''"
  "fmt_g 6 (f64_lit 1999999 (- 1)) = ''1e+06''" "fmt_g 6 (f64_lit 1999997 (- 1)) = ''999998''"
  by (simp_all add: fmt_g_def f64_lit_def f64_zero_def f64_num_def f64_den_def round_digits_def decimal_point_def
      fmt_d.simps round_even_def Let_def sign_text_def cut_zeros_def digits_f_def digits_e_def pad_zero_def char_of_def bit_iff_odd)
    (simp add: numeral_eq_Suc)


section \<open>Reading numbers back\<close>

fun read_digits :: "nat \<Rightarrow> string \<Rightarrow> nat" where
  "read_digits acc [] = acc"
| "read_digits acc (c # cs) = read_digits (10 * acc + (of_char c - 48)) cs"

lemma of_char_digit: "d < 10 \<Longrightarrow> of_char (char_of (48 + d :: nat)) = (48 + d :: nat)"
  by (simp add: of_char_of)

lemma read_digits_append: "read_digits acc (s @ t) = read_digits (read_digits acc s) t"
  by (induction s arbitrary: acc) simp_all

lemma read_fmt_d: "read_digits acc (fmt_d n) = acc * 10 ^ length (fmt_d n) + n"
proof (induction n arbitrary: acc rule: fmt_d.induct)
  case (1 n)
  show ?case
  proof (cases "n < 10")
    case True
    then show ?thesis by (subst (1 2) fmt_d.simps) (simp add: of_char_digit)
  next
    case False
    from "1.IH" [OF False] have "read_digits acc (fmt_d n) = 10 * (acc * 10 ^ length (fmt_d (n div 10)) + n div 10) + n mod 10"
      using False by (subst fmt_d.simps) (simp add: read_digits_append of_char_digit)
    moreover have "length (fmt_d n) = Suc (length (fmt_d (n div 10)))" using False by (subst fmt_d.simps) simp
    ultimately show ?thesis by simp
  qed
qed

lemma fmt_d_less: "n < 10 ^ k \<Longrightarrow> 0 < k \<Longrightarrow> length (fmt_d n) \<le> k"
proof (induction n arbitrary: k rule: fmt_d.induct)
  case (1 n)
  show ?case
  proof (cases "n < 10")
    case True
    then show ?thesis using 1(3) by (subst fmt_d.simps) simp
  next
    case False
    with "1.prems" obtain j where k: "k = Suc j" "0 < j" by (cases k; cases "k - 1") auto
    then have "n div 10 < 10 ^ j" using "1.prems"(1) by (simp add: less_mult_imp_div_less mult.commute)
    with "1.IH" [OF False, of j] k False show ?thesis by (subst fmt_d.simps) simp
  qed
qed

lemma read_zeros: "read_digits acc (replicate k CHR ''0'' @ s) = read_digits (acc * 10 ^ k) s"
  by (induction k arbitrary: acc) (simp_all add: algebra_simps)

lemma read_pad_zero:
  assumes "n < 10 ^ w" and "0 < w"
  shows "read_digits acc (pad_zero w (fmt_d n)) = acc * 10 ^ w + n" and "length (pad_zero w (fmt_d n)) = w"
proof -
  have len: "length (fmt_d n) \<le> w" by (rule fmt_d_less [OF assms])
  then have "acc * 10 ^ (w - length (fmt_d n)) * 10 ^ length (fmt_d n) = acc * 10 ^ w"
    by (metis le_add_diff_inverse2 mult.assoc power_add)
  then show "read_digits acc (pad_zero w (fmt_d n)) = acc * 10 ^ w + n" by (simp add: pad_zero_def read_zeros read_fmt_d)
  show "length (pad_zero w (fmt_d n)) = w" using len by (simp add: pad_zero_def)
qed

text \<open>A decimal number: whether it has a minus sign, its digits as a number, and how many of them are decimals.\<close>

definition read_decimal :: "string \<Rightarrow> bool \<times> nat \<times> nat" where
  "read_decimal s =
     (let t = (if take 1 s = ''-'' then drop 1 s else s); parts = split_on CHR ''.'' t in
      (take 1 s = ''-'', read_digits 0 (concat parts), length (concat (tl parts))))"

text \<open>A printed number has digits, a minus sign and a point only.\<close>

definition is_digit :: "char \<Rightarrow> bool" where
  "is_digit c \<longleftrightarrow> 48 \<le> (of_char c :: nat) \<and> (of_char c :: nat) \<le> 57"

definition number_char :: "char \<Rightarrow> bool" where
  "number_char c \<longleftrightarrow> is_digit c \<or> c = CHR ''-'' \<or> c = CHR ''.''"

lemma digit_chars: "list_all is_digit (fmt_d n)" "list_all is_digit (pad_zero w (fmt_d n))"
proof -
  show digits: "list_all is_digit (fmt_d n)" by (rule fmt_d_digits) code_simp
  have "is_digit CHR ''0''" by code_simp
  with digits show "list_all is_digit (pad_zero w (fmt_d n))" by (auto simp: pad_zero_def list_all_iff)
qed

lemma digits_number: "list_all is_digit s \<Longrightarrow> list_all number_char s"
  unfolding list_all_iff number_char_def by blast

lemma digits_without: "list_all is_digit s \<Longrightarrow> \<not> is_digit c \<Longrightarrow> c \<notin> set s"
  unfolding list_all_iff by blast

lemma not_digits [simp]: "\<not> is_digit CHR ''-''" "\<not> is_digit CHR ''.''"
  by code_simp+

lemma fmt_f_chars: "list_all number_char (fmt_f prec x)"
  using digits_number [OF digit_chars(1)] digits_number [OF digit_chars(2)]
  by (simp add: fmt_f_def fixed_text_def sign_text_def number_char_def)

text \<open>The printed number reads as the rounded number of units, which is within half a unit of the value.\<close>

lemma read_fmt_f: "read_decimal (fmt_f prec x) = (fneg x, fixed_units prec x, prec)"
proof -
  let ?u = "fixed_units prec x" and ?t = "fixed_text prec (fixed_units prec x)"
  let ?a = "fmt_d (?u div 10 ^ prec)" and ?b = "pad_zero prec (fmt_d (?u mod 10 ^ prec))"
  have dot: "CHR ''.'' \<notin> set ?a" "CHR ''.'' \<notin> set ?b"
    by (rule digits_without [OF digit_chars(1)], simp) (rule digits_without [OF digit_chars(2)], simp)
  have minus: "take 1 ?t \<noteq> ''-''"
  proof -
    obtain c cs where a: "?a = c # cs" by (cases ?a) auto
    have "CHR ''-'' \<notin> set ?a" by (rule digits_without [OF digit_chars(1)]) simp
    then show ?thesis using a by (auto simp: fixed_text_def)
  qed
  have "read_digits 0 (concat (split_on CHR ''.'' ?t)) = ?u \<and> length (concat (tl (split_on CHR ''.'' ?t))) = prec"
  proof (cases "prec = 0")
    case True
    then show ?thesis using dot(1) by (simp add: fixed_text_def split_single read_fmt_d)
  next
    case False
    then have "split_on CHR ''.'' ?t = [?a, ?b]" using dot by (simp add: fixed_text_def split_app split_single)
    then show ?thesis using False by (simp add: read_digits_append read_fmt_d read_pad_zero div_mult_mod_eq)
  qed
  with minus show ?thesis by (auto simp: read_decimal_def fmt_f_def sign_text_def Let_def)
qed

lemma f64_den_pos [simp]: "0 < f64_den x"
  by (simp add: f64_den_def)

lemma round_even_nonneg: "0 \<le> n \<Longrightarrow> 0 < d \<Longrightarrow> 0 \<le> round_even n d"
  by (simp add: round_even_def Let_def pos_imp_zdiv_nonneg_iff)

lemma fixed_units_error:
  assumes "0 \<le> fmant x"
  shows "2 * \<bar>int (fixed_units prec x) * f64_den x - f64_num x * 10 ^ prec\<bar> \<le> f64_den x"
  using assms round_even_error [of "f64_den x" "f64_num x * 10 ^ prec"] round_even_nonneg [of "f64_num x * 10 ^ prec" "f64_den x"]
  by (simp add: fixed_units_def f64_num_def)

end
