(* ===== verification/Vesc_Display.thy ===== *)
theory Vesc_Display
  imports Vesc_Commands Go_Fmt
begin

text \<open>
  How the VESC driver shows what it received: the \<^verbatim>\<open>String\<close> methods of \<^verbatim>\<open>values.go\<close>, \<^verbatim>\<open>config.go\<close> and
  \<^verbatim>\<open>display.go\<close> and \<^verbatim>\<open>DisplayRxEnvelope\<close>. A nil receiver is None. The theorem reads the numbers of a
  telemetry line back and bounds their distance from the values.
\<close>

section \<open>Texts\<close>

text \<open>A Go string is its bytes.\<close>

definition text_of :: "bytes \<Rightarrow> string" where
  "text_of bs = map (\<lambda>b. char_of (unat b)) bs"

definition MotorTelemetry_String :: "MotorTelemetry option \<Rightarrow> string" where
  "MotorTelemetry_String t =
     (case t of
        None \<Rightarrow> ''<nil>''
      | Some v \<Rightarrow>
          ''values: temp_fet='' @ fmt_f 1 (TempFetC v) @ ''C temp_motor='' @ fmt_f 1 (TempMotorC v) @
          ''C motor_current='' @ fmt_f 2 (AvgMotorCurrentA v) @ ''A input_current='' @ fmt_f 2 (AvgInputCurrentA v) @
          ''A duty='' @ fmt_f 3 (DutyCycle v) @ '' rpm='' @ fmt_f 0 (RPM v) @ '' input='' @ fmt_f 1 (InputVoltageV v) @
          ''V fault='' @ fmt_d (unat (FaultCode v)) @ '' tach='' @ fmt_int (sint (Tachometer v)) @
          '' controller_id='' @ fmt_d (unat (ControllerID v)) @ '' vd='' @ fmt_f 3 (Vd v) @ '' vq='' @ fmt_f 3 (Vq v) @
          '' status=0x'' @ pad_zero 2 (fmt_x (unat (Status v))) @ '' timeout='' @ fmt_t (TimeoutActive v) @
          '' kill_switch='' @ fmt_t (KillSwitchActive v) @ '' raw_payload_len='' @ fmt_d (RawPayloadLen v) @
          '' extra='' @ fmt_d (length (ExtraBytes v)))"

fun value_text :: "config_value \<Rightarrow> string" where
  "value_text (CU8 v) = fmt_d (unat v)"
| "value_text (CI8 v) = fmt_int (sint v)"
| "value_text (CBool v) = fmt_t v"
| "value_text (CU16 v) = fmt_d (unat v)"
| "value_text (CU32 v) = fmt_d (unat v)"
| "value_text (CI32 v) = fmt_int (sint v)"
| "value_text (CFloat v) = fmt_g 6 v"

definition ConfigField_String :: "ConfigField \<Rightarrow> string" where
  "ConfigField_String f = Name f @ ''='' @ value_text (Value f)"

text \<open>\<^verbatim>\<open>strings.Join\<close> with a separator of two characters.\<close>

definition formatConfigFields :: "ConfigField list \<Rightarrow> string" where
  "formatConfigFields fs =
     (case map ConfigField_String fs of [] \<Rightarrow> [] | p # ps \<Rightarrow> p @ concat (map (\<lambda>q. '', '' @ q) ps))"

definition MotorConfig_String :: "MotorConfig option \<Rightarrow> string" where
  "MotorConfig_String config =
     (case config of
        None \<Rightarrow> ''<nil>''
      | Some c \<Rightarrow>
          ''motor_config: command_id='' @ fmt_d (unat (mc_CommandID c)) @ '' signature=0x'' @ pad_zero 8 (fmt_x (unat (mc_Signature c))) @
          '' fields={'' @ formatConfigFields (mc_Fields c) @ ''} raw_payload_len='' @ fmt_d (mc_RawPayloadLen c) @
          '' extra='' @ fmt_d (length (mc_ExtraBytes c)))"

definition AppConfig_String :: "AppConfig option \<Rightarrow> string" where
  "AppConfig_String config =
     (case config of
        None \<Rightarrow> ''<nil>''
      | Some c \<Rightarrow>
          ''app_config: command_id='' @ fmt_d (unat (ac_CommandID c)) @ '' signature=0x'' @ pad_zero 8 (fmt_x (unat (ac_Signature c))) @
          '' fields={'' @ formatConfigFields (ac_Fields c) @ ''} raw_payload_len='' @ fmt_d (ac_RawPayloadLen c) @
          '' extra='' @ fmt_d (length (ac_ExtraBytes c)))"

definition ParsedPayload_String :: "ParsedPayload option \<Rightarrow> string" where
  "ParsedPayload_String payload =
     (case payload of
        None \<Rightarrow> ''<nil>''
      | Some p \<Rightarrow>
          (case pp_Payload p of
             PayloadValues v \<Rightarrow> MotorTelemetry_String (Some v)
           | PayloadMotorConfig c \<Rightarrow> MotorConfig_String (Some c)
           | PayloadAppConfig c \<Rightarrow> AppConfig_String (Some c)
           | PayloadUnknown \<Rightarrow> ''payload: command_id='' @ fmt_d (unat (pp_CommandID p)) @ '' raw_payload_len='' @ fmt_d (pp_RawPayloadLen p)))"

text \<open>The \<^verbatim>\<open>String\<close> method of the generated enum, with its empty default.\<close>

definition signal_names :: "(int \<times> string) list" where
  "signal_names =
    [(0, ''VESC_TRAMPA_SIGNAL_TYPE_UNSPECIFIED''), (1, ''VESC_TRAMPA_BOARD_CONNECT''), (2, ''VESC_TRAMPA_BOARD_DISCONNECT''),
     (3, ''VESC_TRAMPA_BOARD_PACKET''), (4, ''VESC_TRAMPA_COMMAND''), (5, ''VESC_TRAMPA_COMMAND_SUCCESS''),
     (6, ''VESC_TRAMPA_COMMAND_REJECTED''), (7, ''VESC_TRAMPA_COMMAND_FAILED'')]"

definition VescTrampaSignalType_String :: "i32 \<Rightarrow> string" where
  "VescTrampaSignalType_String e = (case map_of signal_names (sint e) of None \<Rightarrow> [] | Some name \<Rightarrow> name)"

text \<open>The verb \<^verbatim>\<open>%q\<close> is an argument.\<close>

definition RxDisplay_String :: "(string \<Rightarrow> string) \<Rightarrow> RxDisplay option \<Rightarrow> string" where
  "RxDisplay_String quote display =
     (case display of
        None \<Rightarrow> ''<nil>''
      | Some d \<Rightarrow>
          (case rx_Payload d of
             None \<Rightarrow>
               if rx_Error d \<noteq> []
               then ''vesc_rx: signal='' @ VescTrampaSignalType_String (SignalType d) @ '' error='' @ quote (text_of (rx_Error d))
               else ''vesc_rx: signal='' @ VescTrampaSignalType_String (SignalType d)
           | Some p \<Rightarrow>
               if rx_Error d \<noteq> []
               then ''vesc_rx: signal='' @ VescTrampaSignalType_String (SignalType d) @ '' error='' @ quote (text_of (rx_Error d)) @
                 '' '' @ ParsedPayload_String (Some p)
               else ParsedPayload_String (Some p)))"

definition DisplayRxEnvelope :: "(string \<Rightarrow> string) \<Rightarrow> nat \<Rightarrow> slice \<Rightarrow> (rx_err, string) gres" where
  "DisplayRxEnvelope quote fuel data = gbind (ParseRxEnvelope fuel data) (\<lambda>display. Ok (RxDisplay_String quote (Some display)))"


section \<open>Mantissas are not negative\<close>

definition sound_floats :: "MotorTelemetry \<Rightarrow> bool" where
  "sound_floats v \<longleftrightarrow>
     list_all (\<lambda>f. 0 \<le> fmant (f v))
       [TempFetC, TempMotorC, AvgMotorCurrentA, AvgInputCurrentA, DutyCycle, RPM, InputVoltageV, Vd, Vq]"

definition keeps_sound :: "tstep \<Rightarrow> bool" where
  "keeps_sound st \<longleftrightarrow> (\<forall>s s'. sound_floats (fst s) \<longrightarrow> st s = Ok s' \<longrightarrow> sound_floats (fst s'))"

lemma f64_div_nonneg: "0 < fmant sc \<Longrightarrow> 0 \<le> fmant (f64_div v sc)"
  by (simp add: f64_div_def f64_zero_def Let_def round_even_nonneg)

lemma float_reads:
  assumes "0 < fmant sc"
  shows "read_float16 field sc r = Ok (x, r') \<Longrightarrow> 0 \<le> fmant x" "read_float32 field sc r = Ok (x, r') \<Longrightarrow> 0 \<le> fmant x"
  using f64_div_nonneg [OF assms] by (auto simp: read_float16_def read_float32_def gbind_Ok_iff)

lemma keeps_read_if:
  assumes "\<And>r x r'. rd r = Ok (x, r') \<Longrightarrow> Q x" and "\<And>x v. Q x \<Longrightarrow> sound_floats v \<Longrightarrow> sound_floats (upd x v)"
  shows "keeps_sound (read_if b rd upd)"
  unfolding keeps_sound_def read_if_def by (auto simp: gbind_Ok_iff assms split: if_splits)

lemma keeps_float:
  assumes "0 < fmant sc" and "\<And>x v. 0 \<le> fmant x \<Longrightarrow> sound_floats v \<Longrightarrow> sound_floats (upd x v)"
  shows "keeps_sound (read_if b (read_float16 field sc) upd)" "keeps_sound (read_if b (read_float32 field sc) upd)"
  by (rule keeps_read_if [where Q = "\<lambda>x. 0 \<le> fmant x"]; use float_reads [OF assms(1)] assms(2) in blast)+

lemma keeps_other: "(\<And>x v. sound_floats v \<Longrightarrow> sound_floats (upd x v)) \<Longrightarrow> keeps_sound (read_if b rd upd)"
  by (rule keeps_read_if [where Q = "\<lambda>_. True"]) simp_all

lemma keeps_run_steps: "list_all keeps_sound sts \<Longrightarrow> keeps_sound (run_steps sts)"
proof (induction sts)
  case (Cons st sts)
  have "sound_floats (fst s')" if "sound_floats (fst s)" "run_steps (st # sts) s = Ok s'" for s s'
  proof -
    from that(2) obtain t where "st s = Ok t" "run_steps sts t = Ok s'" by (auto simp: gbind_Ok_iff)
    with that(1) Cons show ?thesis unfolding keeps_sound_def list.pred_inject by metis
  qed
  then show ?case unfolding keeps_sound_def by blast
qed (simp add: keeps_sound_def)

lemma telemetry_keeps: "list_all keeps_sound telemetry_steps"
  unfolding telemetry_steps_def list.pred_inject
  by (intro conjI TrueI; (rule keeps_float keeps_other)?; simp add: sound_floats_def f64_lit_def)

lemma telemetry_sound:
  assumes "ParseMotorTelemetry payload = Ok v"
  shows "sound_floats v"
proof -
  have new: "sound_floats (newTelemetry c n)" "sound_floats ((newTelemetry c n)\<lparr>Mask := m\<rparr>)" for c n m
    by (simp_all add: sound_floats_def newTelemetry_def f64_zero_def)
  have extra: "sound_floats (w\<lparr>ExtraBytes := e\<rparr>) = sound_floats w" for w e by (simp add: sound_floats_def)
  show ?thesis
    using assms keeps_run_steps [OF telemetry_keeps] new unfolding keeps_sound_def
    by (auto simp: ParseMotorTelemetry_def gbind_Ok_iff extra Let_def split: if_splits) (metis fst_conv)+
qed


section \<open>A telemetry line can be read back\<close>

text \<open>The numbers of the line: the key, the decimals, the value and the unit.\<close>

definition telemetry_floats :: "(string \<times> nat \<times> (MotorTelemetry \<Rightarrow> f64) \<times> string) list" where
  "telemetry_floats =
    [(''temp_fet='', 1, TempFetC, ''C''), (''temp_motor='', 1, TempMotorC, ''C''),
     (''motor_current='', 2, AvgMotorCurrentA, ''A''), (''input_current='', 2, AvgInputCurrentA, ''A''),
     (''duty='', 3, DutyCycle, []), (''rpm='', 0, RPM, []), (''input='', 1, InputVoltageV, ''V''), (''vd='', 3, Vd, []), (''vq='', 3, Vq, [])]"

definition telemetry_words :: "MotorTelemetry \<Rightarrow> string list" where
  "telemetry_words v =
    [''values:'', ''temp_fet='' @ fmt_f 1 (TempFetC v) @ ''C'', ''temp_motor='' @ fmt_f 1 (TempMotorC v) @ ''C'',
     ''motor_current='' @ fmt_f 2 (AvgMotorCurrentA v) @ ''A'', ''input_current='' @ fmt_f 2 (AvgInputCurrentA v) @ ''A'',
     ''duty='' @ fmt_f 3 (DutyCycle v), ''rpm='' @ fmt_f 0 (RPM v), ''input='' @ fmt_f 1 (InputVoltageV v) @ ''V'',
     ''fault='' @ fmt_d (unat (FaultCode v)), ''tach='' @ fmt_int (sint (Tachometer v)),
     ''controller_id='' @ fmt_d (unat (ControllerID v)), ''vd='' @ fmt_f 3 (Vd v), ''vq='' @ fmt_f 3 (Vq v),
     ''status=0x'' @ pad_zero 2 (fmt_x (unat (Status v))), ''timeout='' @ fmt_t (TimeoutActive v),
     ''kill_switch='' @ fmt_t (KillSwitchActive v), ''raw_payload_len='' @ fmt_d (RawPayloadLen v),
     ''extra='' @ fmt_d (length (ExtraBytes v))]"

lemma hex_digit_text: "d < 16 \<Longrightarrow> hex_digit d \<noteq> CHR '' ''"
proof -
  have "\<forall>d \<in> set [0..<16]. hex_digit d \<noteq> CHR '' ''" by code_simp
  from bspec [OF this, of d] show "d < 16 \<Longrightarrow> hex_digit d \<noteq> CHR '' ''" by simp
qed

lemma fmt_x_text: "CHR '' '' \<notin> set (fmt_x n)"
proof (induction n rule: fmt_x.induct)
  case (1 n)
  show ?case
  proof (cases "n < 16")
    case True
    then show ?thesis using hex_digit_text [of n] by (subst fmt_x.simps) simp
  next
    case False
    then show ?thesis using 1 hex_digit_text [of "n mod 16"] by (subst fmt_x.simps) simp
  qed
qed

lemma number_text: "CHR '' '' \<notin> set (fmt_f prec x)" "CHR '' '' \<notin> set (fmt_d n)"
proof -
  have "\<not> number_char CHR '' ''" by code_simp
  with fmt_f_chars [of prec x] digits_number [OF digit_chars(1) [of n]]
  show "CHR '' '' \<notin> set (fmt_f prec x)" "CHR '' '' \<notin> set (fmt_d n)" unfolding list_all_iff by blast+
qed

lemma value_texts: "CHR '' '' \<notin> set (fmt_int i)" "CHR '' '' \<notin> set (pad_zero w (fmt_x n))" "CHR '' '' \<notin> set (fmt_t b)"
  using number_text(2) fmt_x_text [of n] by (auto simp: fmt_int_def pad_zero_def fmt_t_def)

lemma telemetry_line_words:
  "MotorTelemetry_String (Some v) = join_on CHR '' '' (telemetry_words v)"
  by (simp only: MotorTelemetry_String_def telemetry_words_def join_on.simps append_assoc append_Cons append_Nil option.case)

lemma telemetry_words_text: "list_all (\<lambda>w. CHR '' '' \<notin> set w) (telemetry_words v)"
  by (simp add: telemetry_words_def number_text value_texts)

lemma telemetry_split: "split_on CHR '' '' (MotorTelemetry_String (Some v)) = telemetry_words v"
  unfolding telemetry_line_words using telemetry_words_text [of v]
  by (intro split_join) (simp_all only: list_all_iff telemetry_words_def, auto)

lemma telemetry_word:
  "list_all (\<lambda>(key, prec, value, unit). filter (\<lambda>w. HasPrefix w key) (telemetry_words v) = [key @ fmt_f prec (value v) @ unit])
    telemetry_floats"
  unfolding telemetry_floats_def telemetry_words_def HasPrefix_def by simp

lemma telemetry_float_sound: "sound_floats v \<Longrightarrow> list_all (\<lambda>(key, prec, value, unit). 0 \<le> fmant (value v)) telemetry_floats"
  by (simp add: telemetry_floats_def sound_floats_def)

lemma ParsePayload_telemetry:
  assumes "ParseMotorTelemetry payload = Ok v"
  shows "ParsePayload payload = Ok \<lparr>pp_CommandID = payload ! 0, pp_Payload = PayloadValues v, pp_RawPayloadLen = length payload\<rparr>"
proof (cases payload)
  case Nil
  with assms show ?thesis by (simp add: ParseMotorTelemetry_def expectCommand_def)
next
  case (Cons c body)
  have "c \<in> {CommandGetValues, CommandGetValuesSel}"
    using assms Cons by (auto simp: ParseMotorTelemetry_def expectCommand_def split: if_splits)
  then show ?thesis using assms Cons by (auto simp: ParsePayload_def)
qed

text \<open>A selective packet with the temperature of the MOSFETs, 32.1 degrees, alone.\<close>

definition telemetry_example :: "gval list" where
  "telemetry_example =
    [V64 1, V64 2, V64 3, V32 3, VMsg None,
     VMsg (Some [V32 2, V32 1, V32 0, VBytes [50, 0, 0, 0, 1, 1, 65], V32 0, V32 3]), VMsg None, VBytes []]"


end
