(* ===== verification/Station_Streams.thy ===== *)
theory Station_Streams
  imports Vesc_Commands Go_Strings
begin

text \<open>
  The client side of the station, \<^verbatim>\<open>station/shared/station/streams.go\<close>: the address a client connects to and
  the queueing of driver commands, which are messages of \<^verbatim>\<open>station/commands.proto\<close>. The queue client is an
  argument.
\<close>

section \<open>Addresses\<close>

text \<open>\<^verbatim>\<open>NewStationClient\<close>: a server without a port gets the port 8888.\<close>

definition station_address :: "string \<Rightarrow> string" where
  "station_address server = (if CHR '':'' \<notin> set server then server @ '':'' @ fmt_d 8888 else server)"


section \<open>Sending commands\<close>

definition commandspb :: schema where
  "commandspb = [(''DriverCommand'', [pbasic 1 PBytes, penum 2, pbasic 3 PBytes])]"

definition command_fields :: "DriverCommand \<Rightarrow> gval list" where
  "command_fields cmd = [VBytes (CommandId cmd), V32 (dc_Type cmd), VBytes (Body cmd)]"

text \<open>
  Commands are pointers, and nil marshals to an empty slice. None in place of the packed bytes is a panic of
  \<^verbatim>\<open>Marshal\<close>. \<^verbatim>\<open>EnqueuePack\<close> is a method of the client; its ids are dropped.
\<close>

definition SendCommands :: "(string \<Rightarrow> bytes list \<Rightarrow> 'e option) \<Rightarrow> DriverCommand option list \<Rightarrow> 'e option option" where
  "SendCommands EnqueuePack commands =
     map_option (EnqueuePack ''commands'')
       (those (map (\<lambda>cmd. Marshal commandspb ''DriverCommand'' (map_option command_fields cmd)) commands))"

lemma commandspb_ok: "schema_ok commandspb"
  by (simp add: commandspb_def pfield_defs schema_ok_def struct_ok_def tag_ok_def)

lemma commandspb_fields: "struct_fields commandspb ''DriverCommand'' = [pbasic 1 PBytes, penum 2, pbasic 3 PBytes]"
  by (simp add: struct_fields_def commandspb_def)

lemma driver_command_conforms: "conforms commandspb ''DriverCommand'' (Some (command_fields cmd))"
  by (simp add: conforms.simps command_fields_def commandspb_fields pfield_defs)

lemma driver_command_normal: "norm_fields commandspb ''DriverCommand'' (command_fields cmd) = command_fields cmd"
  by (simp add: norm_fields_def command_fields_def commandspb_fields pfield_defs)

lemma driver_command_size:
  "XXX_PbContentSize commandspb ''DriverCommand'' (Some (command_fields cmd)) \<le> length (CommandId cmd) + length (Body cmd) + 60"
  using SizeTag_le [of 1] SizeTag_le [of 2] SizeTag_le [of 3] SizeVarInt_le [of "of_nat (length (CommandId cmd))"]
    SizeVarInt_le [of "of_nat (length (Body cmd))"] SizeVarInt_le [of "scast (dc_Type cmd)"]
  by (auto simp: XXX_PbContentSize.simps command_fields_def commandspb_fields pfield_defs SizeBytes_def SizeInt32_def SizeUint64_def Let_def)

text \<open>
  C36. Commands reach the station as they were given: for any list of commands, the queue named commands gets one
  entry per command, in order, and unmarshalling the entry gives back the id, the type and the
  body of the command; an error of the queue is the result.
\<close>

theorem sent_commands_roundtrip:
  assumes "\<forall>cmd \<in> set commands. int (length (CommandId cmd) + length (Body cmd)) < 2 ^ 61 \<and> length (CommandId cmd) + length (Body cmd) + 60 < fuel"
  shows "\<exists>packs. SendCommands EnqueuePack (map Some commands) = Some (EnqueuePack ''commands'' packs) \<and> length packs = length commands \<and>
    (\<forall>i < length commands. \<exists>m. Unmarshal fuel commandspb (NewMsgReader commandspb ''DriverCommand'') (slice_of (packs ! i)) = Ok (m, None) \<and>
      gmap fst (ToStruct fuel commandspb m) = Ok [VBytes (CommandId (commands ! i)), V32 (dc_Type (commands ! i)), VBytes (Body (commands ! i))])"
proof -
  let ?enc = "\<lambda>cmd. msg_enc commandspb ''DriverCommand'' (Some (command_fields cmd))"
  let ?reads = "\<lambda>cmd bs. \<exists>m. Unmarshal fuel commandspb (NewMsgReader commandspb ''DriverCommand'') (slice_of bs) = Ok (m, None) \<and>
    gmap fst (ToStruct fuel commandspb m) = Ok (command_fields cmd)"
  have one: "Marshal commandspb ''DriverCommand'' (Some (command_fields cmd)) = Some (?enc cmd)" for cmd
    by (rule Marshal_enc [OF commandspb_ok])
  have "?reads cmd (?enc cmd)" if "cmd \<in> set commands" for cmd
    using Marshal_roundtrip [OF commandspb_ok driver_command_conforms [of cmd], of fuel] driver_command_size [of cmd] assms that
    by (auto simp: one driver_command_normal)
  moreover have "those (map (\<lambda>cmd. Marshal commandspb ''DriverCommand'' (map_option command_fields cmd)) (map Some commands)) = Some (map ?enc commands)"
    by (induction commands) (simp_all add: one)
  ultimately show ?thesis unfolding SendCommands_def by (intro exI [of _ "map ?enc commands"]) (simp add: command_fields_def)
qed

theorem sent_commands_roundtrip_witness:
  "\<exists>packs. SendCommands (\<lambda>q ps. if length ps = 1 then None else Some q) (map Some [\<lparr>CommandId = [7], dc_Type = 4, Body = [1, 2]\<rparr>]) = Some None \<and>
    length packs = 1 \<and> (\<exists>m. Unmarshal 64 commandspb (NewMsgReader commandspb ''DriverCommand'') (slice_of (packs ! 0)) = Ok (m, None) \<and>
      gmap fst (ToStruct 64 commandspb m) = Ok [VBytes [7], V32 4, VBytes [1, 2]])"
  using sent_commands_roundtrip [of "[\<lparr>CommandId = [7], dc_Type = 4, Body = [1, 2]\<rparr>]" 64 "\<lambda>q ps. if length ps = 1 then None else Some q"]
  by auto

end
