(* ===== verification/Go_Time.thy ===== *)
theory Go_Time
  imports Go_Fmt
begin

text \<open>
  What the programs use of Go's \<^verbatim>\<open>time\<close> package: a Duration is an integer number of nanoseconds, which
  \<^verbatim>\<open>Sub\<close> saturates, \<^verbatim>\<open>Seconds\<close> turns into a float and \<^verbatim>\<open>String\<close> prints in hours, minutes and seconds.
\<close>

definition time_Sub :: "int \<Rightarrow> int \<Rightarrow> int" where
  "time_Sub t u = max (- (2 ^ 63)) (min (2 ^ 63 - 1) (t - u))"

text \<open>\<^verbatim>\<open>Seconds\<close> adds the whole seconds and the rest as floats; the sum of an integer and a float is rounded.\<close>

definition f64_plus :: "int \<Rightarrow> f64 \<Rightarrow> f64" where
  "f64_plus v x = (let k = nat (- fexp x) in f64_div (v * 2 ^ k + fmant x) (f64_lit 1 (int k)))"

definition Seconds :: "int \<Rightarrow> f64" where
  "Seconds d =
     (let sec = \<bar>d\<bar> div 10 ^ 9; nsec = \<bar>d\<bar> mod 10 ^ 9 in
      (f64_plus sec (f64_div nsec (f64_lit (10 ^ 9) 0)))\<lparr>fneg := d < 0\<rparr>)"

definition f64_positive :: "f64 \<Rightarrow> bool" where
  "f64_positive x \<longleftrightarrow> \<not> fneg x \<and> fmant x \<noteq> 0"

text \<open>\<^verbatim>\<open>Duration.String\<close>: decimals without trailing zeros, and the unit by the size.\<close>

definition frac_text :: "nat \<Rightarrow> nat \<Rightarrow> string" where
  "frac_text prec v =
     fmt_d (v div 10 ^ prec) @
     (let f = rev (dropWhile (\<lambda>c. c = CHR ''0'') (rev (pad_zero prec (fmt_d (v mod 10 ^ prec))))) in
      if v mod 10 ^ prec = 0 then [] else CHR ''.'' # f)"

definition Duration_String :: "int \<Rightarrow> string" where
  "Duration_String d =
     (if d = 0 then ''0s''
      else
        let u = nat \<bar>d\<bar>; secs = u div 10 ^ 9; mins = secs div 60 in
        (if d < 0 then ''-'' else []) @
        (if u < 10 ^ 3 then fmt_d u @ ''ns''
         else if u < 10 ^ 6 then frac_text 3 u @ [CHR 0xC2, CHR 0xB5] @ ''s''
         else if u < 10 ^ 9 then frac_text 6 u @ ''ms''
         else
           (if mins div 60 > 0 then fmt_d (mins div 60) @ ''h'' else []) @
           (if mins > 0 then fmt_d (mins mod 60) @ ''m'' else []) @
           frac_text 9 (secs mod 60 * 10 ^ 9 + u mod 10 ^ 9) @ ''s''))"

lemma Duration_String_examples:
  "Duration_String (45 * 10 ^ 9) = ''45s''" "Duration_String (60 * 10 ^ 9) = ''1m0s''" "Duration_String 1500000 = ''1.5ms''"
  "Duration_String (3723 * 10 ^ 9 + 4 * 10 ^ 7) = ''1h2m3.04s''"
  by (simp_all add: Duration_String_def frac_text_def pad_zero_def fmt_d.simps char_of_def bit_iff_odd Let_def)

end
