(* ===== verification/Vesc_Monitor.thy ===== *)
theory Vesc_Monitor
  imports Vesc_Display Station_Streams Go_Time
begin

text \<open>
  The monitor of a VESC board, \<^verbatim>\<open>station/examples/vesc-trampa-rx-go/main.go\<close>. The monitor follows a queue of envelopes, prints each
  one and shows the rates at which entries and telemetry arrive. The state is the record of the last
  times; the queue client, the clock and the printing of a time are arguments.
\<close>

section \<open>Rates\<close>

text \<open>A time is its monotonic reading in nanoseconds; the zero \<^verbatim>\<open>time.Time\<close> is None.\<close>

type_synonym nanos = int

record monitorRates =
  lastEntryAt :: "nanos option"
  lastValuesAt :: "string \<rightharpoonup> nanos"

definition newMonitorRates :: monitorRates where
  "newMonitorRates = \<lparr>lastEntryAt = None, lastValuesAt = Map.empty\<rparr>"

definition hertzSince :: "nanos option \<Rightarrow> nanos \<Rightarrow> f64" where
  "hertzSince prev now =
     (case prev of
        None \<Rightarrow> f64_zero
      | Some t \<Rightarrow>
          let elapsed = Seconds (time_Sub now t) in
          if \<not> f64_positive elapsed then f64_zero else f64_div 1 elapsed)"

definition updateEntry :: "nanos \<Rightarrow> monitorRates \<Rightarrow> f64 \<times> monitorRates" where
  "updateEntry now r = (hertzSince (lastEntryAt r) now, r\<lparr>lastEntryAt := Some now\<rparr>)"

definition updateValues :: "string \<Rightarrow> nanos \<Rightarrow> monitorRates \<Rightarrow> f64 \<times> monitorRates" where
  "updateValues boardKey now r =
     (hertzSince (lastValuesAt r boardKey) now, r\<lparr>lastValuesAt := (lastValuesAt r)(boardKey \<mapsto> now)\<rparr>)"

definition clearBoard :: "string \<Rightarrow> monitorRates \<Rightarrow> monitorRates" where
  "clearBoard boardKey r = r\<lparr>lastValuesAt := (lastValuesAt r)(boardKey := None)\<rparr>"

definition formatHz :: "f64 \<Rightarrow> string" where
  "formatHz hz = (if \<not> f64_positive hz then ''N/A'' else fmt_f 1 hz @ ''Hz'')"


section \<open>Boards\<close>

text \<open>Getters, by the positions of the fields in the messages.\<close>

fun rval_64 :: "rval \<Rightarrow> u64" where
  "rval_64 (RVal v) = as_64 v"
| "rval_64 _ = 0"

fun rval_bool :: "rval \<Rightarrow> bool" where
  "rval_bool (RVal v) = as_bool v"
| "rval_bool _ = False"

fun get_values :: "nat \<Rightarrow> msg_reader \<Rightarrow> nat list \<Rightarrow> (wire_err, rval list \<times> msg_reader) gres" where
  "get_values fuel m [] = Ok ([], m)"
| "get_values fuel m (i # is) =
     gbind (read_field fuel vescpb m i) (\<lambda>(v, m). gmap (\<lambda>(vs, m). (v # vs, m)) (get_values fuel m is))"

text \<open>\<^verbatim>\<open>hex.EncodeToString\<close>.\<close>

definition EncodeToString :: "bytes \<Rightarrow> string" where
  "EncodeToString bs = concat (map (\<lambda>b. pad_zero 2 (fmt_x (unat b))) bs)"

definition bytesHexOrNA :: "bytes \<Rightarrow> string" where
  "bytesHexOrNA value = (if length value = 0 then ''N/A'' else EncodeToString value)"

definition valueOrNA :: "bytes \<Rightarrow> string" where
  "valueOrNA value = (if value = [] then ''N/A'' else text_of value)"

definition rateBoardKey :: "nat \<Rightarrow> msg_reader option \<Rightarrow> (wire_err, string \<times> msg_reader option) gres" where
  "rateBoardKey fuel board =
     (case board of
        None \<Rightarrow> Ok (''<nil>'', None)
      | Some m \<Rightarrow>
          gbind (read_field fuel vescpb m 10) (\<lambda>(uuid, m).
          if length (rval_bytes uuid) > 0 then Ok (''uuid:'' @ EncodeToString (rval_bytes uuid), Some m)
          else gbind (read_field fuel vescpb m 0) (\<lambda>(port, m).
            if rval_bytes port \<noteq> [] then Ok (''port:'' @ text_of (rval_bytes port), Some m)
            else Ok (''<unknown>'', Some m))))"

definition formatBoardSummary :: "nat \<Rightarrow> msg_reader option \<Rightarrow> (wire_err, string \<times> msg_reader option) gres" where
  "formatBoardSummary fuel board =
     (case board of
        None \<Rightarrow> Ok (''<nil>'', None)
      | Some m \<Rightarrow>
          gbind (get_values fuel m [0, 10, 9, 7, 8, 3]) (\<lambda>(v, m).
          let parts =
            [''port='' @ valueOrNA (rval_bytes (v ! 0)), ''uuid='' @ bytesHexOrNA (rval_bytes (v ! 1)),
             ''hw='' @ valueOrNA (rval_bytes (v ! 2)), ''fw='' @ fmt_d (unat (rval_32 (v ! 3))) @ ''.'' @ fmt_d (unat (rval_32 (v ! 4)))] @
            (if rval_bytes (v ! 5) \<noteq> [] then [''serial='' @ text_of (rval_bytes (v ! 5))] else []) in
          Ok (join_on CHR '' '' parts, Some m)))"

definition formatBoardDetails :: "nat \<Rightarrow> msg_reader option \<Rightarrow> (wire_err, string \<times> msg_reader option) gres" where
  "formatBoardDetails fuel board =
     (case board of
        None \<Rightarrow> Ok (''<nil>'', None)
      | Some m \<Rightarrow>
          gbind (get_values fuel m ([0..<21] @ [22, 21])) (\<lambda>(v, m).
          let text = (\<lambda>i. valueOrNA (rval_bytes (v ! i))); num = (\<lambda>i. fmt_d (unat (rval_32 (v ! i))));
              hex = (\<lambda>w i. pad_zero w (fmt_x (unat (rval_32 (v ! i))))) in
          Ok (''port='' @ text 0 @ '' vid=0x'' @ hex 4 1 @ '' pid=0x'' @ hex 4 2 @ '' serial='' @ text 3 @
              '' manufacturer='' @ text 4 @ '' product='' @ text 5 @ '' baud='' @ num 6 @ '' fw='' @ num 7 @ ''.'' @ num 8 @
              '' hardware='' @ text 9 @ '' uuid='' @ bytesHexOrNA (rval_bytes (v ! 10)) @ '' pairing_done='' @ fmt_t (rval_bool (v ! 11)) @
              '' test_version='' @ num 12 @ '' hardware_type='' @ num 13 @ '' custom_config_count='' @ num 14 @
              '' phase_filters='' @ fmt_t (rval_bool (v ! 15)) @ '' qml_hw='' @ num 16 @ '' qml_app='' @ num 17 @
              '' nrf_flags=0x'' @ hex 2 18 @ '' firmware_name='' @ text 19 @ '' hardware_config_crc=0x'' @ hex 8 20 @
              '' raw_firmware_payload_len='' @ fmt_d (length (rval_bytes (v ! 21))) @
              '' extra_firmware_bytes='' @ fmt_d (length (rval_bytes (v ! 22))), Some m)))"


section \<open>Entries\<close>

text \<open>The id of an entry is shown by a method of the client library; an entry can carry an error in place of data.\<close>

record 'e StreamEntry =
  en_ID :: "string option"
  en_Data :: slice
  en_Err :: "'e option"

datatype 'e monitor_err = EntryErr 'e | DecodeErr wire_err

definition formatEntryID :: "string option \<Rightarrow> string" where
  "formatEntryID i = (case i of None \<Rightarrow> ''<nil>'' | Some s \<Rightarrow> s)"

fun vesc_err_text :: "vesc_err \<Rightarrow> string" where
  "vesc_err_text (TooShort field n have) =
     ''vesc payload too short for '' @ field @ '': need '' @ fmt_d n @ '' bytes, have '' @ fmt_int have"
| "vesc_err_text EmptyPayload = ''empty VESC payload''"
| "vesc_err_text (UnexpectedCommand c) = ''unexpected VESC command id '' @ fmt_d (unat c)"
| "vesc_err_text (UnknownKind field) = ''unknown config field kind for '' @ field"

definition printBoardPacket :: "nat \<Rightarrow> msg_reader option \<Rightarrow> string \<Rightarrow> nanos \<Rightarrow> monitorRates \<Rightarrow> (wire_err, string list \<times> monitorRates) gres" where
  "printBoardPacket fuel packet boardKey now rates =
     (case packet of
        None \<Rightarrow> Ok ([''  packet: <nil>''], rates)
      | Some m \<Rightarrow>
          gbind (get_values fuel m [3, 2, 1, 4]) (\<lambda>(v, m).
          let payload = rval_bytes (v ! 0);
              line = ''  packet: command_id='' @ fmt_d (unat (rval_32 (v ! 1))) @ '' payload_len='' @ fmt_d (unat (rval_32 (v ! 2))) @
                '' crc=0x'' @ pad_zero 4 (fmt_x (unat (rval_32 (v ! 3)))) @ '' raw_payload_len='' @ fmt_d (length payload) in
          case ParsePayload payload of
            Err e \<Rightarrow> Ok ([line, ''  payload_parse_error: '' @ vesc_err_text e], rates)
          | Ok parsed \<Rightarrow>
              (case pp_Payload parsed of
                 PayloadValues values \<Rightarrow>
                   let (valuesHz, rates) = updateValues boardKey now rates in
                   Ok ([line, ''  motor: values_hz='' @ formatHz valuesHz @ '' '' @ MotorTelemetry_String (Some values)], rates)
               | PayloadMotorConfig c \<Rightarrow> Ok ([line, ''  config: '' @ ParsedPayload_String (Some parsed)], rates)
               | PayloadAppConfig c \<Rightarrow> Ok ([line, ''  config: '' @ ParsedPayload_String (Some parsed)], rates)
               | PayloadUnknown \<Rightarrow> Ok ([line, ''  payload: '' @ ParsedPayload_String (Some parsed)], rates))
          | Panic \<Rightarrow> Panic
          | OutOfFuel \<Rightarrow> OutOfFuel))"

text \<open>The switch over the signal type; the last branch covers failed commands and all other signals.\<close>

definition printSignal :: "nat \<Rightarrow> i32 \<Rightarrow> msg_reader \<Rightarrow> msg_reader option \<Rightarrow> string \<Rightarrow> nanos \<Rightarrow> monitorRates \<Rightarrow>
    (wire_err, string list \<times> monitorRates) gres" where
  "printSignal fuel signalType envelope board boardKey now rates =
     (if signalType = 1 then
        gbind (formatBoardDetails fuel board) (\<lambda>(details, board). Ok ([''  board: '' @ details], rates))
      else if signalType = 2 then Ok ([''  board: disconnected''], clearBoard boardKey rates)
      else if signalType = 3 then
        gbind (GetBoardPacket fuel envelope) (\<lambda>(packet, envelope). printBoardPacket fuel packet boardKey now rates)
      else
        gbind (GetError fuel envelope) (\<lambda>(errText, envelope).
        Ok (if errText \<noteq> [] then [''  error: '' @ text_of errText] else [], rates)))"

definition printEntry :: "(nanos \<Rightarrow> string) \<Rightarrow> nat \<Rightarrow> nanos \<Rightarrow> 'e StreamEntry \<Rightarrow> monitorRates \<Rightarrow>
    ('e monitor_err, string list \<times> monitorRates) gres" where
  "printEntry formatTime fuel now entry rates =
     (case en_Err entry of
        Some e \<Rightarrow> Err (EntryErr e)
      | None \<Rightarrow>
          with_err DecodeErr
           (gbind (Unmarshal fuel vescpb (NewMsgReader vescpb ''RxEnvelope'') (en_Data entry)) (\<lambda>(envelope, err).
            case err of
              Some e \<Rightarrow> Err e
            | None \<Rightarrow>
                gbind (GetSignalType fuel envelope) (\<lambda>(signalType, envelope).
                gbind (read_field fuel vescpb envelope 4) (\<lambda>(board, envelope).
                gbind (rateBoardKey fuel (rval_msg board)) (\<lambda>(boardKey, board).
                let (queueHz, rates) = updateEntry now rates in
                gbind (get_values fuel envelope [0, 1]) (\<lambda>(stamps, envelope).
                gbind (formatBoardSummary fuel board) (\<lambda>(summary, board).
                let line = ''['' @ formatTime now @ ''] entry='' @ formatEntryID (en_ID entry) @ '' queue_hz='' @ formatHz queueHz @
                      '' signal='' @ VescTrampaSignalType_String signalType @ '' monotonic='' @ fmt_d (unat (rval_64 (stamps ! 0))) @
                      '' local='' @ fmt_d (unat (rval_64 (stamps ! 1))) @ '' board='' @ summary in
                gbind (printSignal fuel signalType envelope board boardKey now rates) (\<lambda>(rest, rates).
                Ok (line # rest, rates))))))))))"


section \<open>The loop\<close>

text \<open>
  What the select statement receives: from the error channel, where None is a closed channel and Some None a
  nil error, or from the entries with the time at which the entry is printed.
\<close>

datatype 'e rx_event = FromErrs "'e option option" | FromEntries "('e StreamEntry \<times> nanos) option"

text \<open>How the loop ends: it returned, with an error or without, or it waits for the next event.\<close>

datatype 'e run_end = Returned "'e option" | Waiting

record 'e monitor_run =
  mr_stdout :: "string list"
  mr_stderr :: "(string option \<times> 'e monitor_err) list"
  mr_rates :: monitorRates
  mr_end :: "'e run_end"

text \<open>An error of an entry is reported and the loop goes on; the loop itself has no error value.\<close>

fun run_loop :: "(nanos \<Rightarrow> string) \<Rightarrow> nat \<Rightarrow> 'e rx_event list \<Rightarrow> 'e monitor_run \<Rightarrow> (unit, 'e monitor_run) gres" where
  "run_loop formatTime fuel [] st = Ok st"
| "run_loop formatTime fuel (FromErrs e # evs) st =
     Ok (st\<lparr>mr_end := Returned (case e of None \<Rightarrow> None | Some err \<Rightarrow> err)\<rparr>)"
| "run_loop formatTime fuel (FromEntries None # evs) st = Ok (st\<lparr>mr_end := Returned None\<rparr>)"
| "run_loop formatTime fuel (FromEntries (Some (entry, now)) # evs) st =
     (case printEntry formatTime fuel now entry (mr_rates st) of
        Ok (out, rates) \<Rightarrow> run_loop formatTime fuel evs (st\<lparr>mr_stdout := mr_stdout st @ out, mr_rates := rates\<rparr>)
      | Err e \<Rightarrow> run_loop formatTime fuel evs (st\<lparr>mr_stderr := mr_stderr st @ [(en_ID entry, e)]\<rparr>)
      | Panic \<Rightarrow> Panic
      | OutOfFuel \<Rightarrow> OutOfFuel)"

definition rxQueueID :: string where
  "rxQueueID = ''vesc-trampa/rx''"

text \<open>The client library connects to an address, or fails, and follows a queue.\<close>

record 'e station_env =
  se_NewClient :: "string \<Rightarrow> 'e option"
  se_Follow :: "string \<Rightarrow> string \<Rightarrow> 'e rx_event list"

definition run :: "(string \<Rightarrow> string) \<Rightarrow> (nanos \<Rightarrow> string) \<Rightarrow> nat \<Rightarrow> 'e station_env \<Rightarrow> string \<Rightarrow> (unit, 'e monitor_run) gres" where
  "run quote formatTime fuel env server =
     (case se_NewClient env (station_address server) of
        Some e \<Rightarrow> Ok \<lparr>mr_stdout = [], mr_stderr = [], mr_rates = newMonitorRates, mr_end = Returned (Some e)\<rparr>
      | None \<Rightarrow>
          run_loop formatTime fuel (se_Follow env (station_address server) rxQueueID)
            \<lparr>mr_stdout = [''following queue '' @ quote rxQueueID @ '' on '' @ server], mr_stderr = [],
             mr_rates = newMonitorRates, mr_end = Waiting\<rparr>)"

text \<open>The exit status of the program once it has returned.\<close>

definition main_status :: "'e monitor_run \<Rightarrow> int option" where
  "main_status r = (case mr_end r of Waiting \<Rightarrow> None | Returned None \<Rightarrow> Some 0 | Returned (Some e) \<Rightarrow> Some 1)"


section \<open>One entry\<close>

lemma get_values_views:
  assumes "encodes vescpb n vs data" and "views fuel vescpb n vs data m"
    and "\<forall>i \<in> set is. i < length (struct_fields vescpb n) \<and> basic_field (struct_fields vescpb n ! i)"
  shows "\<exists>m'. get_values fuel m is = Ok (map (\<lambda>i. RVal (field_value vescpb n vs i)) is, m') \<and> views fuel vescpb n vs data m'"
  using assms(2,3)
proof (induction "is" arbitrary: m)
  case (Cons i "is")
  from views_basic [OF assms(1) Cons.prems(1)] Cons.prems(2) obtain m1 where
    "read_field fuel vescpb m i = Ok (RVal (field_value vescpb n vs i), m1)" "views fuel vescpb n vs data m1" by auto
  with Cons.IH [of m1] Cons.prems(2) show ?case by auto
qed simp

text \<open>What an envelope means for the rates: the key of its board and whether it brings telemetry.\<close>

definition board_key :: "gval list \<Rightarrow> string" where
  "board_key vs =
     (case as_msg (vs ! 4) of
        None \<Rightarrow> ''<nil>''
      | Some bv \<Rightarrow>
          if XXX_PbContentSize vescpb ''VescTrampaBoard'' (Some bv) = 0 then ''<nil>''
          else if as_bytes (bv ! 10) \<noteq> [] then ''uuid:'' @ EncodeToString (as_bytes (bv ! 10))
          else if as_bytes (bv ! 0) \<noteq> [] then ''port:'' @ text_of (as_bytes (bv ! 0))
          else ''<unknown>'')"

datatype mon_event = ValuesOf string | GoneOf string | OtherEvent

definition brings_values :: "bytes \<Rightarrow> bool" where
  "brings_values payload =
     (case ParsePayload payload of Ok p \<Rightarrow> (case pp_Payload p of PayloadValues v \<Rightarrow> True | _ \<Rightarrow> False) | _ \<Rightarrow> False)"

definition event_of :: "gval list \<Rightarrow> mon_event" where
  "event_of vs =
     (if as_32 (vs ! 3) = 2 then GoneOf (board_key vs)
      else if as_32 (vs ! 3) = 3 \<and> brings_values (envelope_payload vs) then ValuesOf (board_key vs)
      else OtherEvent)"

definition apply_event :: "nanos \<Rightarrow> mon_event \<Rightarrow> monitorRates \<Rightarrow> monitorRates" where
  "apply_event now e r =
     (case e of
        ValuesOf key \<Rightarrow> r\<lparr>lastEntryAt := Some now, lastValuesAt := (lastValuesAt r)(key \<mapsto> now)\<rparr>
      | GoneOf key \<Rightarrow> r\<lparr>lastEntryAt := Some now, lastValuesAt := (lastValuesAt r)(key := None)\<rparr>
      | OtherEvent \<Rightarrow> r\<lparr>lastEntryAt := Some now\<rparr>)"

lemma board_fields [simp]: "struct_fields vescpb ''VescTrampaBoard'' = VescTrampaBoard"
  by (simp add: struct_fields_def vescpb_def)

lemma all_basic: "list_all basic_field VescTrampaBoard" "list_all basic_field VescTrampaBoardPacket"
    "length VescTrampaBoard = 23" "length VescTrampaBoardPacket = 6"
    "basic_field (RxEnvelope ! 0)" "basic_field (RxEnvelope ! 1)" "basic_field (RxEnvelope ! 3)" "basic_field (RxEnvelope ! 7)"
  by (simp_all add: VescTrampaBoard_def VescTrampaBoardPacket_def RxEnvelope_def pfield_defs basic_field_def)

lemma board_basic: "i < 23 \<Longrightarrow> basic_field (VescTrampaBoard ! i)" "i < 6 \<Longrightarrow> basic_field (VescTrampaBoardPacket ! i)"
  using all_basic by (simp_all add: list_all_length)

text \<open>Without a default, what a getter returns is the value of the field.\<close>

lemma plain_bytes: "field_type (struct_fields env n ! i) \<in> {GoValue (GoBasic PBytes None False), GoValue (GoBasic PString None False)} \<Longrightarrow>
    as_bytes (field_value env n vs i) = as_bytes (vs ! i)"
  by (auto simp: field_value_def)

lemma plain_enum: "field_type (struct_fields env n ! i) = GoValue (GoEnum None False) \<Longrightarrow> as_32 (field_value env n vs i) = as_32 (vs ! i)"
  by (auto simp: field_value_def)

lemma text_fields:
  "field_type (VescTrampaBoard ! 0) = GoValue (GoBasic PString None False)" "field_type (VescTrampaBoard ! 10) = GoValue (GoBasic PBytes None False)"
  "field_type (VescTrampaBoardPacket ! 3) = GoValue (GoBasic PBytes None False)"
  "field_type (RxEnvelope ! 4) = GoValue (GoStruct ''VescTrampaBoard'' False)"
  by (simp_all add: VescTrampaBoard_def VescTrampaBoardPacket_def RxEnvelope_def pfield_defs)

definition board_view :: "nat \<Rightarrow> gval list \<Rightarrow> msg_reader option \<Rightarrow> bool" where
  "board_view fuel vs b \<longleftrightarrow>
     (case as_msg (vs ! 4) of
        None \<Rightarrow> b = None
      | Some bv \<Rightarrow>
          if XXX_PbContentSize vescpb ''VescTrampaBoard'' (Some bv) = 0 then b = None
          else \<exists>m sub. b = Some m \<and> encodes vescpb ''VescTrampaBoard'' bv sub \<and> views fuel vescpb ''VescTrampaBoard'' bv sub m)"

lemma rateBoardKey_view:
  assumes "board_view fuel vs b"
  shows "\<exists>b'. rateBoardKey fuel b = Ok (board_key vs, b') \<and> board_view fuel vs b'"
proof (cases b)
  case None
  then show ?thesis using assms by (auto simp: board_view_def rateBoardKey_def board_key_def split: option.splits if_splits)
next
  case (Some m)
  with assms obtain bv sub where bv: "as_msg (vs ! 4) = Some bv" "XXX_PbContentSize vescpb ''VescTrampaBoard'' (Some bv) \<noteq> 0"
    and e: "encodes vescpb ''VescTrampaBoard'' bv sub" and v: "views fuel vescpb ''VescTrampaBoard'' bv sub m"
    by (auto simp: board_view_def split: option.splits if_splits)
  have again: "board_view fuel vs (Some m')" if "views fuel vescpb ''VescTrampaBoard'' bv sub m'" for m'
    using that bv e by (auto simp: board_view_def)
  from views_basic [OF e v, of 10] obtain m1 where m1: "views fuel vescpb ''VescTrampaBoard'' bv sub m1"
    "read_field fuel vescpb m 10 = Ok (RVal (field_value vescpb ''VescTrampaBoard'' bv 10), m1)"
    by (auto simp: board_basic all_basic)
  from views_basic [OF e m1(1), of 0] obtain m2 where m2: "views fuel vescpb ''VescTrampaBoard'' bv sub m2"
    "read_field fuel vescpb m1 0 = Ok (RVal (field_value vescpb ''VescTrampaBoard'' bv 0), m2)"
    by (auto simp: board_basic all_basic)
  show ?thesis
    using Some m1(2) m2(2) again [OF m1(1)] again [OF m2(1)] bv
    by (auto simp: rateBoardKey_def board_key_def plain_bytes text_fields)
qed

lemma board_texts:
  assumes "board_view fuel vs b"
  shows "\<exists>s b'. formatBoardSummary fuel b = Ok (s, b') \<and> board_view fuel vs b'" "\<exists>s b'. formatBoardDetails fuel b = Ok (s, b')"
proof -
  have "(\<exists>s b'. formatBoardSummary fuel b = Ok (s, b') \<and> board_view fuel vs b') \<and> (\<exists>s b'. formatBoardDetails fuel b = Ok (s, b'))"
  proof (cases b)
    case None
    with assms show ?thesis by (simp add: formatBoardSummary_def formatBoardDetails_def)
  next
    case (Some m)
    with assms obtain bv sub where bv: "as_msg (vs ! 4) = Some bv" "XXX_PbContentSize vescpb ''VescTrampaBoard'' (Some bv) \<noteq> 0"
      and e: "encodes vescpb ''VescTrampaBoard'' bv sub" and v: "views fuel vescpb ''VescTrampaBoard'' bv sub m"
      by (auto simp: board_view_def split: option.splits if_splits)
    have again: "board_view fuel vs (Some m')" if "views fuel vescpb ''VescTrampaBoard'' bv sub m'" for m'
      using that bv e by (auto simp: board_view_def)
    have "\<exists>m'. get_values fuel m is = Ok (map (\<lambda>i. RVal (field_value vescpb ''VescTrampaBoard'' bv i)) is, m') \<and>
        views fuel vescpb ''VescTrampaBoard'' bv sub m'" if "set is \<subseteq> {..<23}" for "is"
      using that by (intro get_values_views [OF e v]) (auto simp: board_basic all_basic)
    from this [of "[0, 10, 9, 7, 8, 3]"] this [of "[0..<21] @ [22, 21]"] obtain vs1 m1 vs2 m2 where
      "get_values fuel m [0, 10, 9, 7, 8, 3] = Ok (vs1, m1)" "views fuel vescpb ''VescTrampaBoard'' bv sub m1"
      "get_values fuel m ([0..<21] @ [22, 21]) = Ok (vs2, m2)" by force
    with again [of m1] show ?thesis
      unfolding Some formatBoardSummary_def formatBoardDetails_def option.case by (simp only: gbind.simps prod.case Let_def) blast
  qed
  then show "\<exists>s b'. formatBoardSummary fuel b = Ok (s, b') \<and> board_view fuel vs b'" "\<exists>s b'. formatBoardDetails fuel b = Ok (s, b')"
    by blast+
qed

lemma packet_view:
  assumes "encodes vescpb ''VescTrampaBoardPacket'' ws sub" and "views fuel vescpb ''VescTrampaBoardPacket'' ws sub m"
  shows "\<exists>out. printBoardPacket fuel (Some m) key now rates =
    Ok (out, if brings_values (as_bytes (ws ! 3)) then snd (updateValues key now rates) else rates)"
proof -
  have "\<exists>m'. get_values fuel m [3, 2, 1, 4] = Ok (map (\<lambda>i. RVal (field_value vescpb ''VescTrampaBoardPacket'' ws i)) [3, 2, 1, 4], m') \<and>
      views fuel vescpb ''VescTrampaBoardPacket'' ws sub m'"
    by (rule get_values_views [OF assms]) (simp add: board_basic all_basic)
  then obtain vs m' where g: "get_values fuel m [3, 2, 1, 4] = Ok (vs, m')"
    and v: "vs ! 0 = RVal (field_value vescpb ''VescTrampaBoardPacket'' ws 3)" by force
  have payload: "rval_bytes (vs ! 0) = as_bytes (ws ! 3)" by (simp add: v plain_bytes text_fields)
  show ?thesis
  proof (cases "ParsePayload (as_bytes (ws ! 3))")
    case (Ok p)
    then show ?thesis
      unfolding printBoardPacket_def option.case g gbind.simps prod.case Let_def payload brings_values_def
      by (cases "pp_Payload p") (simp_all add: updateValues_def)
  next
    case (Err e)
    then show ?thesis
      unfolding printBoardPacket_def option.case g gbind.simps prod.case Let_def payload brings_values_def by simp
  qed (use parse_payload_total [of "as_bytes (ws ! 3)"] in simp_all)
qed

lemma no_packet_values: "\<not> brings_values []"
  by (simp add: brings_values_def ParsePayload_def)

lemma printSignal_event:
  assumes e: "encodes vescpb ''RxEnvelope'' vs data" and v: "views fuel vescpb ''RxEnvelope'' vs data m"
    and fuel: "length (elems data) \<le> fuel" and b: "board_view fuel vs b"
  shows "\<exists>out. printSignal fuel (as_32 (vs ! 3)) m b (board_key vs) now (rates\<lparr>lastEntryAt := Some now\<rparr>) =
    Ok (out, apply_event now (event_of vs) rates)"
proof -
  let ?s = "as_32 (vs ! 3)" and ?r = "rates\<lparr>lastEntryAt := Some now\<rparr>"
  consider "?s = 1" | "?s = 2" | "?s = 3" | "?s \<noteq> 1" "?s \<noteq> 2" "?s \<noteq> 3" by blast
  then show ?thesis
  proof cases
    case 1
    then show ?thesis using board_texts(2) [OF b] by (auto simp: printSignal_def event_of_def apply_event_def)
  next
    case 2
    then show ?thesis by (simp add: printSignal_def event_of_def apply_event_def clearBoard_def)
  next
    case 3
    have i: "5 < length (struct_fields vescpb ''RxEnvelope'')"
      and t: "field_type (struct_fields vescpb ''RxEnvelope'' ! 5) = GoValue (GoStruct ''VescTrampaBoardPacket'' False)"
      by (simp_all add: rx_fields)
    obtain m' where p: "case as_msg (vs ! 5) of
        None \<Rightarrow> read_field fuel vescpb m 5 = Ok (RMsg None, m')
      | Some ws \<Rightarrow>
          if XXX_PbContentSize vescpb ''VescTrampaBoardPacket'' (Some ws) = 0 then read_field fuel vescpb m 5 = Ok (RMsg None, m')
          else \<exists>sub. encodes vescpb ''VescTrampaBoardPacket'' ws sub \<and> length (elems sub) < length (elems data) \<and>
            read_field fuel vescpb m 5 = Ok (RMsg (Some (unmarshalled vescpb ''VescTrampaBoardPacket'' ws sub)), m')"
      using views_struct [OF e v i t fuel] by blast
    have conf: "conforms vescpb ''RxEnvelope'' (Some vs)" using e by (simp add: encodes_def)
    show ?thesis
    proof (cases "envelope_payload vs = [] \<and> read_field fuel vescpb m 5 = Ok (RMsg None, m')")
      case True
      with 3 show ?thesis
        by (simp add: printSignal_def GetBoardPacket_def printBoardPacket_def event_of_def no_packet_values apply_event_def)
    next
      case False
      with p packet_empty packet_conforms [OF conf] obtain ws sub where ws: "as_msg (vs ! 5) = Some ws"
          "encodes vescpb ''VescTrampaBoardPacket'' ws sub"
          "read_field fuel vescpb m 5 = Ok (RMsg (Some (unmarshalled vescpb ''VescTrampaBoardPacket'' ws sub)), m')"
        by (auto simp: envelope_payload_def split: option.splits if_splits)
      from packet_view [OF ws(2) views_unmarshalled, of fuel "board_key vs" now ?r] 3 ws(1,3) show ?thesis
        by (auto simp: printSignal_def GetBoardPacket_def event_of_def envelope_payload_def apply_event_def updateValues_def)
    qed
  next
    case 4
    from views_basic [OF e v, of 7] obtain m' where "read_field fuel vescpb m 7 = Ok (RVal (field_value vescpb ''RxEnvelope'' vs 7), m')"
      by (auto simp: rx_fields all_basic)
    with 4 show ?thesis by (simp add: printSignal_def GetError_def event_of_def apply_event_def)
  qed
qed

lemma printEntry_event:
  assumes "encodes vescpb ''RxEnvelope'' vs data" and "length (elems data) < fuel" and "en_Err entry = None" and "en_Data entry = data"
  shows "\<exists>out. printEntry formatTime fuel now entry rates = Ok (out, apply_event now (event_of vs) rates)"
proof -
  let ?n = "''RxEnvelope''"
  have u: "Unmarshal fuel vescpb (NewMsgReader vescpb ?n) data = Ok (unmarshalled vescpb ?n vs data, None)"
    using assms(1,2) by (intro Unmarshal_enc) (simp_all add: encodes_def)
  from views_basic [OF assms(1) views_unmarshalled, of 3 fuel] obtain m1 where m1: "views fuel vescpb ?n vs data m1"
    "read_field fuel vescpb (unmarshalled vescpb ?n vs data) 3 = Ok (RVal (field_value vescpb ?n vs 3), m1)"
    by (auto simp: rx_fields all_basic)
  then have s: "GetSignalType fuel (unmarshalled vescpb ?n vs data) = Ok (as_32 (vs ! 3), m1)"
    by (simp add: GetSignalType_def plain_enum rx_fields)
  obtain b m2 where m2: "views fuel vescpb ?n vs data m2" "read_field fuel vescpb m1 4 = Ok (RMsg b, m2)" "board_view fuel vs b"
    using views_struct [OF assms(1) m1(1), of 4] assms(2) views_unmarshalled
    by (fastforce simp: rx_fields text_fields board_view_def split: option.splits if_splits)
  obtain b1 where b1: "rateBoardKey fuel b = Ok (board_key vs, b1)" "board_view fuel vs b1" using rateBoardKey_view [OF m2(3)] by blast
  have "\<exists>m3. get_values fuel m2 [0, 1] = Ok (map (\<lambda>i. RVal (field_value vescpb ?n vs i)) [0, 1], m3) \<and> views fuel vescpb ?n vs data m3"
    by (rule get_values_views [OF assms(1) m2(1)]) (simp add: all_basic rx_fields del: One_nat_def)
  then obtain vs3 m3 where m3: "get_values fuel m2 [0, 1] = Ok (vs3, m3)" "views fuel vescpb ?n vs data m3" by blast
  obtain sm b2 where b2: "formatBoardSummary fuel b1 = Ok (sm, b2)" "board_view fuel vs b2" using board_texts(1) [OF b1(2)] by blast
  obtain out where "printSignal fuel (as_32 (vs ! 3)) m3 b2 (board_key vs) now (rates\<lparr>lastEntryAt := Some now\<rparr>) =
      Ok (out, apply_event now (event_of vs) rates)"
    using printSignal_event [OF assms(1) m3(2) _ b2(2)] assms(2) by fastforce
  then show ?thesis
    unfolding printEntry_def using assms(3,4) u s m2(2) b1(1) m3(1) b2(1)
    by (simp add: updateEntry_def Let_def del: get_values.simps)
qed


section \<open>The rates refine the history\<close>

text \<open>A delivered entry: its id, the error in place of data or the envelope that was sent, and the time.\<close>

type_synonym 'e delivery = "string option \<times> ('e + gval list) \<times> nanos"

fun delivered :: "'e delivery \<Rightarrow> 'e rx_event" where
  "delivered (i, Inl e, now) = FromEntries (Some (\<lparr>en_ID = i, en_Data = slice_of [], en_Err = Some e\<rparr>, now))"
| "delivered (i, Inr vs, now) =
     FromEntries (Some (\<lparr>en_ID = i, en_Data = slice_of (case Marshal vescpb ''RxEnvelope'' (Some vs) of None \<Rightarrow> [] | Some bs \<Rightarrow> bs), en_Err = None\<rparr>, now))"

fun sendable :: "nat \<Rightarrow> 'e delivery \<Rightarrow> bool" where
  "sendable fuel (i, Inl e, now) = True"
| "sendable fuel (i, Inr vs, now) \<longleftrightarrow> conforms vescpb ''RxEnvelope'' (Some vs) \<and>
     int (XXX_PbContentSize vescpb ''RxEnvelope'' (Some vs)) < 2 ^ 62 \<and> XXX_PbContentSize vescpb ''RxEnvelope'' (Some vs) < fuel"

text \<open>The history of a run and what the rates should be: the time of the last envelope, and for a board the time of its last
  telemetry unless it was disconnected since.\<close>

fun history :: "'e delivery list \<Rightarrow> (nanos \<times> mon_event) list" where
  "history [] = []"
| "history ((i, Inl e, now) # ds) = history ds"
| "history ((i, Inr vs, now) # ds) = (now, event_of vs) # history ds"

fun failures :: "'e delivery list \<Rightarrow> (string option \<times> 'e monitor_err) list" where
  "failures [] = []"
| "failures ((i, Inl e, now) # ds) = (i, EntryErr e) # failures ds"
| "failures ((i, Inr vs, now) # ds) = failures ds"

definition last_entry :: "(nanos \<times> mon_event) list \<Rightarrow> nanos option" where
  "last_entry h = (if h = [] then None else Some (fst (last h)))"

definition last_values :: "(nanos \<times> mon_event) list \<Rightarrow> string \<Rightarrow> nanos option" where
  "last_values h key =
     (case find (\<lambda>(t, e). e = ValuesOf key \<or> e = GoneOf key) (rev h) of Some (t, ValuesOf k) \<Rightarrow> Some t | _ \<Rightarrow> None)"

definition rates_of :: "(nanos \<times> mon_event) list \<Rightarrow> monitorRates" where
  "rates_of h = \<lparr>lastEntryAt = last_entry h, lastValuesAt = last_values h\<rparr>"

lemma apply_event_history: "apply_event now e (rates_of h) = rates_of (h @ [(now, e)])"
  by (cases e) (auto simp: apply_event_def rates_of_def last_entry_def last_values_def fun_eq_iff)

lemma rates_of_Nil: "rates_of [] = newMonitorRates"
  by (simp add: rates_of_def last_entry_def last_values_def newMonitorRates_def fun_eq_iff)

lemma delivered_encodes:
  assumes "sendable fuel (i, Inr vs, now)"
  shows "\<exists>data. delivered (i, Inr vs, now) = FromEntries (Some (\<lparr>en_ID = i, en_Data = data, en_Err = None\<rparr>, now)) \<and>
    encodes vescpb ''RxEnvelope'' vs data \<and> length (elems data) < fuel"
proof -
  let ?d = "slice_of (msg_enc vescpb ''RxEnvelope'' (Some vs))"
  have "encodes vescpb ''RxEnvelope'' vs ?d" "length (elems ?d) < fuel"
    using assms by (simp_all add: encodes_def vescpb_ok slice_of_def slice_len_def XXX_PbContentSize_length)
  then show ?thesis using Marshal_enc [OF vescpb_ok, of "''RxEnvelope''" "Some vs"] by auto
qed

lemma run_loop_history:
  fixes st :: "'e monitor_run"
  shows "list_all (sendable fuel) ds \<Longrightarrow> mr_rates st = rates_of h \<Longrightarrow>
    \<exists>out. run_loop formatTime fuel (map delivered ds @ evs) st =
      run_loop formatTime fuel evs (st\<lparr>mr_stdout := out, mr_stderr := mr_stderr st @ failures ds, mr_rates := rates_of (h @ history ds)\<rparr>)"
proof (induction ds arbitrary: st h)
  case Nil
  have "st = st\<lparr>mr_stdout := mr_stdout st, mr_stderr := mr_stderr st, mr_rates := mr_rates st\<rparr>" by simp
  with Nil show ?case by (metis append_Nil2 failures.simps(1) history.simps(1) list.map(1) append_Nil)
next
  case (Cons d ds)
  obtain i m now where d: "d = (i, m, now)" by (cases d)
  show ?case
  proof (cases m)
    case (Inl e)
    then have step: "run_loop formatTime fuel (map delivered (d # ds) @ evs) st =
        run_loop formatTime fuel (map delivered ds @ evs) (st\<lparr>mr_stderr := mr_stderr st @ [(i, EntryErr e)]\<rparr>)"
      by (simp add: d printEntry_def)
    show ?thesis
      using Cons.IH [of "st\<lparr>mr_stderr := mr_stderr st @ [(i, EntryErr e)]\<rparr>" h] Cons.prems Inl unfolding step by (simp add: d)
  next
    case (Inr vs)
    obtain data where data: "delivered d = FromEntries (Some (\<lparr>en_ID = i, en_Data = data, en_Err = None\<rparr>, now))"
        "encodes vescpb ''RxEnvelope'' vs data" "length (elems data) < fuel"
      using delivered_encodes [of fuel i vs now] Cons.prems(1) Inr d by auto
    obtain out where "printEntry formatTime fuel now (\<lparr>en_ID = i, en_Data = data, en_Err = None\<rparr> :: 'e StreamEntry) (mr_rates st) =
        Ok (out, apply_event now (event_of vs) (mr_rates st))"
      using printEntry_event [OF data(2,3), of "\<lparr>en_ID = i, en_Data = data, en_Err = None\<rparr>" formatTime now "mr_rates st"] by auto
    then have step: "run_loop formatTime fuel (map delivered (d # ds) @ evs) st =
        run_loop formatTime fuel (map delivered ds @ evs)
          (st\<lparr>mr_stdout := mr_stdout st @ out, mr_rates := rates_of (h @ [(now, event_of vs)])\<rparr>)"
      using Cons.prems(2) by (simp add: data(1) apply_event_history)
    show ?thesis
      using Cons.IH [of "st\<lparr>mr_stdout := mr_stdout st @ out, mr_rates := rates_of (h @ [(now, event_of vs)])\<rparr>" "h @ [(now, event_of vs)]"]
        Cons.prems Inr unfolding step by (simp add: d)
  qed
qed


text \<open>A board without UUID sends telemetry twice, an entry fails, and the board is disconnected and sends again.\<close>

definition board_at :: "u32 \<Rightarrow> gval list" where
  "board_at signal =
    [V64 1, V64 2, V64 3, V32 signal,
     VMsg (Some ([VBytes [84], V32 0, V32 0, VBytes [], VBytes [], VBytes [], V32 0, V32 0, V32 0, VBytes [], VBytes [], VBool False,
       V32 0, V32 0, V32 0, VBool False, V32 0, V32 0, V32 0, VBytes [], V32 0, VBytes [], VBytes []])),
     VMsg (Some [V32 2, V32 1, V32 0, VBytes [50, 0, 0, 0, 1, 1, 65], V32 0, V32 3]), VMsg None, VBytes []]"

definition ex_deliveries :: "string delivery list" where
  "ex_deliveries =
    [(Some ''1'', Inr (board_at 3), 10), (Some ''2'', Inr (board_at 3), 30), (Some ''3'', Inl ''lost'', 40), (Some ''4'', Inr (board_at 2), 50)]"

definition ex_station :: "string station_env" where
  "ex_station = \<lparr>se_NewClient = (\<lambda>a. if a = ''pi:8888'' then None else Some ''no route''),
    se_Follow = (\<lambda>_ _. map delivered ex_deliveries @ [FromErrs None])\<rparr>"

end
