(* ===== verification/Vesc_Rates.thy ===== *)
theory Vesc_Rates
  imports Vesc_Monitor Complex_Main
begin

text \<open>
  How exact the rates of the monitor are: the float operations of \<^verbatim>\<open>hertzSince\<close> as approximations of real
  numbers, and the theorem on the number that is shown.
\<close>

section \<open>The shown rate\<close>

text \<open>The magnitude of a float as a real number, and the relative error of a quotient.\<close>

definition f64_mag :: "f64 \<Rightarrow> real" where
  "f64_mag x = real_of_int (f64_num x) / real_of_int (f64_den x)"

lemma f64_div_mag:
  assumes "0 < v" and "0 < fmant sc"
  shows "\<bar>f64_mag (f64_div v sc) - real_of_int v / f64_mag sc\<bar> \<le> real_of_int v / f64_mag sc / 2 ^ 53"
proof -
  define n d where "n = v * 2 ^ nat (- fexp sc)" and "d = fmant sc * 2 ^ nat (fexp sc)"
  define k where "k = norm_shift n d 0"
  define R where "R = round_even (n * 2 ^ k) d"
  have pos: "0 < n" "0 < d" using assms by (simp_all add: n_def d_def)
  have q: "real_of_int v / f64_mag sc = real_of_int n / real_of_int d"
    by (simp add: f64_mag_def f64_num_def f64_den_def n_def d_def)
  have mag: "f64_mag (f64_div v sc) = real_of_int R / 2 ^ k"
    using assms by (simp add: f64_div_def Let_def f64_mag_def f64_num_def f64_den_def R_def k_def n_def d_def)
  have "real_of_int (2 * \<bar>R * d - n * 2 ^ k\<bar>) \<le> real_of_int d"
    unfolding of_int_le_iff R_def by (rule round_even_error [OF pos(2)])
  then have err: "2 * \<bar>real_of_int R * d - n * 2 ^ k\<bar> \<le> d" by simp
  have "real_of_int (2 ^ 52 * d) \<le> real_of_int (n * 2 ^ k)"
    unfolding of_int_le_iff k_def by (rule norm_shift_ge [OF pos(1)])
  then have lo: "2 ^ 52 * real_of_int d \<le> n * 2 ^ k" by simp
  have "\<bar>real_of_int R / 2 ^ k - n / d\<bar> = \<bar>real_of_int R * d - n * 2 ^ k\<bar> / (2 ^ k * d)"
    using pos by (simp add: field_simps abs_div)
  also have "\<dots> \<le> (d / 2) / (2 ^ k * d)" using err pos by (intro divide_right_mono) simp_all
  also have "\<dots> \<le> n / d / 2 ^ 53" using lo pos by (simp add: field_simps)
  finally show ?thesis unfolding q mag .
qed

lemma f64_div_positive: "0 < v \<Longrightarrow> 0 < fmant sc \<Longrightarrow> fexp (f64_div v sc) \<le> 0 \<and> \<not> fneg (f64_div v sc) \<and> 0 \<le> fmant (f64_div v sc)"
  by (simp add: f64_div_def Let_def round_even_nonneg)

lemma f64_mag_fmant: "0 < f64_mag x \<longleftrightarrow> 0 < fmant x"
  by (simp add: f64_mag_def f64_num_def f64_den_def zero_less_divide_iff zero_less_mult_iff)

lemma within: "\<bar>a - s\<bar> \<le> e \<longleftrightarrow> a \<le> s + e \<and> s \<le> a + e" for a s e :: real
  by auto

lemma power_values: "(2 :: real) ^ 50 = 1125899906842624" "(2 :: real) ^ 51 = 2251799813685248" "(2 :: real) ^ 53 = 9007199254740992"
  by simp_all

lemmas linear_error = within power_values

lemma two_errors:
  fixes s y z :: real
  assumes "0 < s" "\<bar>y - s\<bar> \<le> s / 2 ^ 53" "\<bar>z - y\<bar> \<le> y / 2 ^ 53"
  shows "\<bar>z - s\<bar> \<le> s / 2 ^ 51"
proof -
  have "y \<le> 2 * s" using assms(1,2) unfolding linear_error by linarith
  then have "y / 2 ^ 53 \<le> 2 * s / 2 ^ 53" by (rule divide_right_mono) simp
  then show ?thesis using assms unfolding linear_error by linarith
qed

lemma f64_plus_mag:
  assumes "0 \<le> v" and "0 \<le> fmant x" and "fexp x \<le> 0" and "0 < real_of_int v + f64_mag x"
  shows "\<bar>f64_mag (f64_plus v x) - (v + f64_mag x)\<bar> \<le> (v + f64_mag x) / 2 ^ 53 \<and> \<not> fneg (f64_plus v x)"
proof -
  define k where "k = nat (- fexp x)"
  have x: "f64_mag x = fmant x / 2 ^ k" 
  proof -
    have "nat (fexp x) = 0" using assms(3) by simp
    then show ?thesis by (simp only: f64_mag_def f64_num_def f64_den_def k_def) simp
  qed
  have sum: "real_of_int (v * 2 ^ k + fmant x) / f64_mag (f64_lit 1 (int k)) = v + f64_mag x"
  proof -
    have "f64_mag (f64_lit 1 (int k)) = 2 ^ k" by (simp add: f64_mag_def f64_num_def f64_den_def f64_lit_def)
    then show ?thesis unfolding x by (simp add: field_simps)
  qed
  have "real_of_int (v * 2 ^ k + fmant x) = (v + f64_mag x) * 2 ^ k" by (simp add: x field_simps)
  then have "0 < real_of_int (v * 2 ^ k + fmant x)" using assms(4) by simp
  then have pos: "0 < v * 2 ^ k + fmant x" by (simp only: of_int_0_less_iff)
  have p: "f64_plus v x = f64_div (v * 2 ^ k + fmant x) (f64_lit 1 (int k))" by (simp add: f64_plus_def k_def)
  have lit: "0 < fmant (f64_lit 1 (int k))" by (simp add: f64_lit_def)
  show ?thesis using f64_div_mag [OF pos lit] f64_div_positive [OF pos lit] unfolding sum p by simp
qed

lemma Seconds_mag:
  assumes "0 < d"
  shows "\<bar>f64_mag (Seconds d) - d / 10 ^ 9\<bar> \<le> d / 10 ^ 9 / 2 ^ 51" and "\<not> fneg (Seconds d)"
proof -
  define sec nsec where "sec = d div 10 ^ 9" and "nsec = d mod 10 ^ 9"
  define x where "x = f64_div nsec (f64_lit (10 ^ 9) 0)"
  define s where "s = real_of_int d / 10 ^ 9"
  have sec: "0 \<le> sec" "0 \<le> nsec" using assms by (simp_all add: sec_def nsec_def pos_imp_zdiv_nonneg_iff)
  have "d = sec * 10 ^ 9 + nsec" by (simp add: sec_def nsec_def)
  then have "real_of_int d = real_of_int (sec * 10 ^ 9 + nsec)" by (rule arg_cong)
  then have s: "s = sec + nsec / 10 ^ 9" by (simp add: s_def add_divide_distrib)
  have s0: "0 < s" using assms by (simp add: s_def)
  have x: "\<bar>f64_mag x - nsec / 10 ^ 9\<bar> \<le> nsec / 10 ^ 9 / 2 ^ 53 \<and> fexp x \<le> 0 \<and> 0 \<le> fmant x"
  proof (cases "nsec = 0")
    case True
    then show ?thesis by (simp add: x_def f64_div_def f64_zero_def f64_mag_def f64_num_def)
  next
    case False
    then have "0 < nsec" using sec by simp
    from f64_div_mag [OF this, of "f64_lit (10 ^ 9) 0"] f64_div_positive [OF this, of "f64_lit (10 ^ 9) 0"] show ?thesis
      by (simp add: x_def f64_lit_def f64_mag_def f64_num_def f64_den_def)
  qed
  define q where "q = real_of_int nsec / 10 ^ 9"
  have "q \<le> s" "s = sec + q" "\<bar>f64_mag x - q\<bar> \<le> q / 2 ^ 53" using s sec x by (simp_all add: q_def)
  then have dx: "\<bar>sec + f64_mag x - s\<bar> \<le> s / 2 ^ 53" unfolding linear_error by linarith
  then have "0 < sec + f64_mag x" using s0 unfolding linear_error by linarith
  from f64_plus_mag [OF sec(1) _ _ this] x have dy:
      "\<bar>f64_mag (f64_plus sec x) - (sec + f64_mag x)\<bar> \<le> (sec + f64_mag x) / 2 ^ 53" "\<not> fneg (f64_plus sec x)" by simp_all
  from two_errors [OF s0 dx dy(1)] have "\<bar>f64_mag (f64_plus sec x) - s\<bar> \<le> s / 2 ^ 51" .
  moreover have "f64_mag (Seconds d) = f64_mag (f64_plus sec x)" "fneg (Seconds d) = (d < 0)"
    using assms by (simp_all add: Seconds_def Let_def sec_def nsec_def x_def f64_mag_def f64_num_def f64_den_def)
  ultimately show "\<bar>f64_mag (Seconds d) - d / 10 ^ 9\<bar> \<le> d / 10 ^ 9 / 2 ^ 51" "\<not> fneg (Seconds d)"
    using assms by (simp_all add: s_def)
qed

lemma near_positive: "0 < s \<Longrightarrow> \<bar>a - s\<bar> \<le> s / 2 ^ 51 \<Longrightarrow> 0 < a" for a s :: real
  unfolding linear_error by linarith

lemma quotient_error:
  fixes a s h :: real
  assumes "0 < s" and "\<bar>a - s\<bar> \<le> s / 2 ^ 51" and "\<bar>h - 1 / a\<bar> \<le> 1 / a / 2 ^ 53"
  shows "\<bar>h - 1 / s\<bar> \<le> 1 / s / 2 ^ 50" and "0 < h"
proof -
  have a: "0 < a" by (rule near_positive [OF assms(1,2)])
  have "\<bar>1 / a - 1 / s\<bar> = \<bar>a - s\<bar> / (a * s)" using a assms(1) by (simp add: field_simps abs_div abs_minus_commute)
  also have "\<dots> \<le> (s / 2 ^ 51) / (a * s)" using assms(1,2) a by (intro divide_right_mono) simp_all
  also have "\<dots> = 1 / a / 2 ^ 51" using assms(1) a by simp
  finally have ainv: "\<bar>1 / a - 1 / s\<bar> \<le> 1 / a / 2 ^ 51" .
  define u v where "u = 1 / a" and "v = 1 / s"
  have uv: "\<bar>u - v\<bar> \<le> u / 2 ^ 51" "\<bar>h - u\<bar> \<le> u / 2 ^ 53" "0 < u" "0 < v" using ainv assms a by (simp_all add: u_def v_def)
  then show "\<bar>h - 1 / s\<bar> \<le> 1 / s / 2 ^ 50" unfolding v_def [symmetric] linear_error by linarith
  from uv show "0 < h" unfolding linear_error by linarith
qed

lemma hertz_mag:
  assumes "t < now" and "now - t < 2 ^ 63"
  shows "\<bar>f64_mag (hertzSince (Some t) now) - 10 ^ 9 / real_of_int (now - t)\<bar> \<le> 10 ^ 9 / real_of_int (now - t) / 2 ^ 50"
    and "f64_positive (hertzSince (Some t) now)" and "0 \<le> fmant (hertzSince (Some t) now)"
proof -
  define d where "d = now - t"
  have d: "0 < d" "time_Sub now t = d" using assms by (simp_all add: d_def time_Sub_def)
  have s: "0 < real_of_int d / 10 ^ 9" using d by simp
  have near: "\<bar>f64_mag (Seconds d) - d / 10 ^ 9\<bar> \<le> d / 10 ^ 9 / 2 ^ 51" "\<not> fneg (Seconds d)" using Seconds_mag [OF d(1)] by simp_all
  have m: "0 < fmant (Seconds d)" using near_positive [OF s near(1)] by (simp only: f64_mag_fmant)
  have h: "hertzSince (Some t) now = f64_div 1 (Seconds d)"
    using near(2) m d(2) by (simp add: hertzSince_def f64_positive_def Let_def)
  note q = quotient_error [OF s near(1)]
  have "\<bar>f64_mag (f64_div 1 (Seconds d)) - 1 / f64_mag (Seconds d)\<bar> \<le> 1 / f64_mag (Seconds d) / 2 ^ 53"
    using f64_div_mag [of 1 "Seconds d"] m by simp
  from q [OF this] have e: "\<bar>f64_mag (f64_div 1 (Seconds d)) - 10 ^ 9 / d\<bar> \<le> 10 ^ 9 / d / 2 ^ 50" "0 < fmant (f64_div 1 (Seconds d))"
    by (simp_all add: f64_mag_fmant)
  then show "\<bar>f64_mag (hertzSince (Some t) now) - 10 ^ 9 / real_of_int (now - t)\<bar> \<le> 10 ^ 9 / real_of_int (now - t) / 2 ^ 50"
    unfolding h by (simp add: d_def)
  show "f64_positive (hertzSince (Some t) now)" "0 \<le> fmant (hertzSince (Some t) now)"
    unfolding h using e(2) f64_div_positive [of 1 "Seconds d"] m by (simp_all add: f64_positive_def)
qed

text \<open>
  C35. The telemetry rate shown for a board is right: it is N/A when no time is recorded for the board or the
  clock did not advance, and otherwise a number with one decimal that is within 0.05 and a
  relative 2 to the -50 of the inverse of the elapsed time, although it is computed in three rounded
  float operations.
\<close>

theorem rate_shown:
  assumes "\<forall>t. lastValuesAt r key = Some t \<longrightarrow> now - t < 2 ^ 63"
  shows "case lastValuesAt r key of
      None \<Rightarrow> formatHz (fst (updateValues key now r)) = ''N/A''
    | Some t \<Rightarrow>
        if now \<le> t then formatHz (fst (updateValues key now r)) = ''N/A''
        else \<exists>number u. formatHz (fst (updateValues key now r)) = number @ ''Hz'' \<and> read_decimal number = (False, u, 1) \<and>
          \<bar>real u / 10 - 10 ^ 9 / real_of_int (now - t)\<bar> \<le> 1 / 20 + 10 ^ 9 / real_of_int (now - t) / 2 ^ 50"
proof (cases "lastValuesAt r key")
  case None
  then show ?thesis by (simp add: updateValues_def hertzSince_def formatHz_def f64_positive_def f64_zero_def)
next
  case (Some t)
  show ?thesis
  proof (cases "now \<le> t")
    case True
    then have "\<not> f64_positive (Seconds (time_Sub now t))"
      by (auto simp: f64_positive_def Seconds_def Let_def time_Sub_def f64_plus_def f64_div_def f64_zero_def f64_lit_def)
    then have "hertzSince (Some t) now = f64_zero" by (simp add: hertzSince_def Let_def)
    with True Some show ?thesis by (simp add: updateValues_def formatHz_def f64_positive_def f64_zero_def)
  next
    case False
    define h where "h = hertzSince (Some t) now"
    have h: "\<bar>f64_mag h - 10 ^ 9 / real_of_int (now - t)\<bar> \<le> 10 ^ 9 / real_of_int (now - t) / 2 ^ 50" "f64_positive h" "0 \<le> fmant h"
      using hertz_mag [of t now] False assms Some by (simp_all add: h_def)
    have "real_of_int (2 * \<bar>int (fixed_units 1 h) * f64_den h - f64_num h * 10 ^ 1\<bar>) \<le> real_of_int (f64_den h)"
      unfolding of_int_le_iff by (rule fixed_units_error [OF h(3)])
    then have "\<bar>real (fixed_units 1 h) * f64_den h - f64_num h * 10\<bar> / f64_den h \<le> 1 / 2" by (simp add: pos_divide_le_eq)
    moreover have "\<bar>real (fixed_units 1 h) * f64_den h - f64_num h * 10\<bar> / f64_den h = \<bar>real (fixed_units 1 h) - f64_mag h * 10\<bar>"
    proof -
      have "(real (fixed_units 1 h) * f64_den h - f64_num h * 10) / f64_den h = real (fixed_units 1 h) - f64_mag h * 10"
        by (simp add: f64_mag_def diff_divide_distrib f64_den_def)
      then show ?thesis using f64_den_pos [of h] by (metis abs_divide abs_of_pos of_int_0_less_iff)
    qed
    ultimately have "\<bar>real (fixed_units 1 h) / 10 - f64_mag h\<bar> \<le> 1 / 20" by linarith
    with h(1) have "\<bar>real (fixed_units 1 h) / 10 - 10 ^ 9 / real_of_int (now - t)\<bar> \<le> 1 / 20 + 10 ^ 9 / real_of_int (now - t) / 2 ^ 50"
      by linarith
    moreover have "formatHz h = fmt_f 1 h @ ''Hz''" "read_decimal (fmt_f 1 h) = (False, fixed_units 1 h, 1)"
      using h(2) read_fmt_f [of 1 h] by (simp_all add: formatHz_def f64_positive_def)
    ultimately show ?thesis using False Some by (auto simp: updateValues_def h_def)
  qed
qed

theorem rate_shown_witness:
  "\<exists>number u. formatHz (fst (updateValues ''b'' 30000000 (newMonitorRates\<lparr>lastValuesAt := [''b'' \<mapsto> 10000000]\<rparr>))) = number @ ''Hz'' \<and>
    read_decimal number = (False, u, 1) \<and> \<bar>real u / 10 - 50\<bar> \<le> 1 / 20 + 50 / 2 ^ 50"
  using rate_shown [of "newMonitorRates\<lparr>lastValuesAt := [''b'' \<mapsto> 10000000]\<rparr>" "''b''" 30000000]
  by simp
end
