(* ===== verification/Dataset_Frames.thy ===== *)
theory Dataset_Frames
  imports Go_Base Go_Strings
begin

text \<open>
  The data the dataset generator passes around: the rows of the dataset
  (\<^verbatim>\<open>dataset-generator/internal/framedef.go\<close>), the messages to the terminal interface
  (\<^verbatim>\<open>messages.go\<close>) and the input frames as the getters of the generated \<^verbatim>\<open>normvla\<close> readers return
  them.

  A getter on a nil reader returns the default, so a joint or an image is a plain record. The
  queue positions \<^verbatim>\<open>uintn.UintN\<close> of the \<^verbatim>\<open>normfs\<close> package are natural numbers.
\<close>

section \<open>Input frames\<close>

record JointReader =
  jr_RangeMin :: u32
  jr_RangeMax :: u32
  jr_Position :: u32
  jr_PositionNorm :: u32
  jr_Goal :: u32
  jr_GoalNorm :: u32
  jr_CurrentMa :: u32
  jr_Velocity :: u32

record FrameReader =
  fr_GlobalFrameId :: bytes
  fr_MonotonicStampNs :: u64
  fr_Joints :: "JointReader list"
  fr_Images :: "bytes list"


section \<open>Dataset rows\<close>

record Joint =
  RangeMin :: u32
  RangeMax :: u32
  Position :: u32
  PositionNorm :: u32
  Goal :: u32
  GoalNorm :: u32
  CurrentMA :: u32
  Velocity :: u32

record Image =
  JPEG :: bytes

record Frame =
  EpisodeStartNS :: u64
  GlobalFrameID :: bytes
  TimestampNsSinceEpisodeStart :: u64
  Joints :: "Joint list"
  Images :: "Image list"
  Task :: string


section \<open>Messages to the terminal interface\<close>

datatype ui_msg =
    ProgressMsg nat nat u64 u64 string
  | EpisodeStartedMsg u64
  | EpisodeSavedMsg u64 nat
  | EpisodeDiscardedMsg u64 string string
  | EpisodeSkipMarkedMsg u64 string
  | FrameBufferedMsg
  | LogMsg string string
  | DoneMsg "string option"
  | TickMsg

end
