(* ===== verification/Episodes.thy ===== *)
theory Episodes
  imports Dataset_Frames "HOL-Library.AList"
begin

text \<open>
  The episode detector of the dataset generator,
  \<^verbatim>\<open>software/station/bin/dataset-generator/internal/episodes.go\<close>: it cuts a stream of frames into
  episodes and writes each good one as a file of rows.

  The state is the struct \<^verbatim>\<open>EpisodeDetector\<close>, extended by the effects the code has outside of it:
  the messages sent to the terminal program, the files of the output directory and the merged
  output file. What the surroundings decide is an argument: the clock, the outcome of the
  file operations, the rendering of a frame id by the \<^verbatim>\<open>uintn\<close> package (\<open>fid\<close>) and the bytes that
  the \<^verbatim>\<open>parquet\<close> package writes for a list of rows (\<open>pqw\<close>). Log output is left out. An index
  out of range is a panic.
\<close>

section \<open>State\<close>

record Stats =
  EpisodesStarted :: u64
  EpisodesSaved :: u64
  EpisodesDiscarded :: u64
  TotalFramesSaved :: u64
  FramesSkippedWrongImageCount :: u64

record EpisodeDetector =
  path :: string
  duration :: i64
  task :: string
  minCommands :: u64
  lastGoals :: "u32 list"
  commandsCnt :: u64
  lastMovementStamp :: u64
  episodeIndex :: u64
  episodeMonotonicStart :: u64
  episodeLocalStart :: u64
  episodeSkipReason :: string
  episodeSkipFrameId :: string
  buffer :: "Frame list"
  stats :: Stats
  program :: bool

record 'f detector = EpisodeDetector +
  sent :: "ui_msg list"
  files :: "(string \<times> 'f) list"
  merged :: "'f option"

record EpisodeDetectorConfig =
  cfg_Path :: string
  cfg_Duration :: i64
  cfg_Task :: string
  cfg_MinCommands :: u64
  cfg_Program :: bool

definition NewEpisodeDetector :: "EpisodeDetectorConfig \<Rightarrow> 'f detector" where
  "NewEpisodeDetector cfg =
     \<lparr>path = cfg_Path cfg, duration = cfg_Duration cfg, task = cfg_Task cfg,
      minCommands = cfg_MinCommands cfg, lastGoals = [], commandsCnt = 0, lastMovementStamp = 0,
      episodeIndex = 0, episodeMonotonicStart = 0, episodeLocalStart = 0, episodeSkipReason = [],
      episodeSkipFrameId = [], buffer = [],
      stats = \<lparr>EpisodesStarted = 0, EpisodesSaved = 0, EpisodesDiscarded = 0, TotalFramesSaved = 0,
        FramesSkippedWrongImageCount = 0\<rparr>,
      program = cfg_Program cfg, sent = [], files = [], merged = None\<rparr>"


section \<open>Operations\<close>

definition send :: "ui_msg \<Rightarrow> 'f detector \<Rightarrow> 'f detector" where
  "send msg ed = (if program ed then ed\<lparr>sent := sent ed @ [msg]\<rparr> else ed)"

definition convertJoints :: "JointReader list \<Rightarrow> Joint list" where
  "convertJoints = map (\<lambda>j.
     \<lparr>RangeMin = jr_RangeMin j, RangeMax = jr_RangeMax j, Position = jr_Position j,
      PositionNorm = jr_PositionNorm j, Goal = jr_Goal j, GoalNorm = jr_GoalNorm j,
      CurrentMA = jr_CurrentMa j, Velocity = jr_Velocity j\<rparr>)"

definition convertImages :: "bytes list \<Rightarrow> Image list" where
  "convertImages = map (\<lambda>img. \<lparr>JPEG = img\<rparr>)"

definition hasCommandsChanged :: "'f detector \<Rightarrow> u32 list \<Rightarrow> bool" where
  "hasCommandsChanged ed currentGoals =
     (if lastGoals ed = [] then False
      else if length (lastGoals ed) \<noteq> length currentGoals then True
      else list_ex (\<lambda>i. lastGoals ed ! i \<noteq> currentGoals ! i) [0..<length currentGoals])"

definition updateGoalTracking :: "u32 list \<Rightarrow> 'f detector \<Rightarrow> 'f detector" where
  "updateGoalTracking goals ed = ed\<lparr>lastGoals := goals\<rparr>"

definition bufferFrame :: "FrameReader \<Rightarrow> u64 \<Rightarrow> 'f detector \<Rightarrow> 'f detector" where
  "bufferFrame frame inEpisodeStamp ed =
     (let f = \<lparr>EpisodeStartNS = episodeLocalStart ed, GlobalFrameID = fr_GlobalFrameId frame,
               TimestampNsSinceEpisodeStart = inEpisodeStamp, Joints = convertJoints (fr_Joints frame),
               Images = convertImages (fr_Images frame), Task = task ed\<rparr>
      in send FrameBufferedMsg (ed\<lparr>buffer := buffer ed @ [f]\<rparr>))"

definition startNewEpisode :: "u64 \<Rightarrow> FrameReader \<Rightarrow> 'f detector \<Rightarrow> 'f detector" where
  "startNewEpisode now frame ed =
     (let stamp = fr_MonotonicStampNs frame;
          ed = ed\<lparr>episodeMonotonicStart := stamp, episodeLocalStart := now, lastMovementStamp := stamp,
                  commandsCnt := 1,
                  stats := (stats ed)\<lparr>EpisodesStarted := EpisodesStarted (stats ed) + 1\<rparr>,
                  buffer := []\<rparr>;
          ed = bufferFrame frame 0 ed
      in send (EpisodeStartedMsg (episodeIndex ed)) ed)"

definition markEpisodeSkip :: "(bytes \<Rightarrow> string) \<Rightarrow> FrameReader \<Rightarrow> string \<Rightarrow> 'f detector \<Rightarrow> 'f detector" where
  "markEpisodeSkip fid frame reason ed =
     (if episodeSkipReason ed \<noteq> [] then ed
      else send (EpisodeSkipMarkedMsg (episodeIndex ed) reason)
        (ed\<lparr>episodeSkipReason := reason, episodeSkipFrameId := fid (fr_GlobalFrameId frame)\<rparr>))"

text \<open>The outcomes of the file operations of a save; a failed write leaves some bytes behind.\<close>

datatype 'f save_io = MkdirErr | CreateErr | WriteErr 'f | SaveOk

definition episode_file :: "nat \<Rightarrow> string" where
  "episode_file i = fmt_d i @ ''.parquet''"

definition discard :: "'f detector \<Rightarrow> 'f detector" where
  "discard ed = ed\<lparr>stats := (stats ed)\<lparr>EpisodesDiscarded := EpisodesDiscarded (stats ed) + 1\<rparr>\<rparr>"

definition trySaveCurrentEpisode ::
    "(bytes \<Rightarrow> string) \<Rightarrow> (Frame list \<Rightarrow> 'f) \<Rightarrow> 'f save_io \<Rightarrow> 'f detector \<Rightarrow> (unit, 'f detector) gres" where
  "trySaveCurrentEpisode fid pqw io ed =
     (if episodeSkipReason ed \<noteq> [] then
        Ok (discard (send (EpisodeDiscardedMsg (episodeIndex ed) (episodeSkipReason ed) (episodeSkipFrameId ed)) ed))
      else if commandsCnt ed < minCommands ed then
        (if buffer ed = [] then Panic
         else Ok (discard (send (EpisodeDiscardedMsg (episodeIndex ed)
           (''insufficient commands ('' @ fmt_d (unat (commandsCnt ed)) @ '' < '' @ fmt_d (unat (minCommands ed)) @ '')'')
           (fid (GlobalFrameID (last (buffer ed))))) ed)))
      else if buffer ed = [] then (if program ed then Panic else Ok (discard ed))
      else (case io of
          MkdirErr \<Rightarrow> Ok ed
        | CreateErr \<Rightarrow> Ok ed
        | WriteErr partial \<Rightarrow>
            Ok (ed\<lparr>files := AList.update (episode_file (unat (episodeIndex ed))) partial (files ed)\<rparr>)
        | SaveOk \<Rightarrow>
            (let ed = ed\<lparr>files := AList.update (episode_file (unat (episodeIndex ed))) (pqw (buffer ed)) (files ed)\<rparr>;
                 ed = send (EpisodeSavedMsg (episodeIndex ed) (length (buffer ed))) ed
             in Ok (ed\<lparr>stats := (stats ed)\<lparr>EpisodesSaved := EpisodesSaved (stats ed) + 1,
                                       TotalFramesSaved := TotalFramesSaved (stats ed) + of_nat (length (buffer ed))\<rparr>,
                       episodeIndex := episodeIndex ed + 1\<rparr>))))"

definition resetEpisode :: "'f detector \<Rightarrow> 'f detector" where
  "resetEpisode ed =
     ed\<lparr>episodeMonotonicStart := 0, episodeLocalStart := 0, episodeSkipReason := [],
        episodeSkipFrameId := [], commandsCnt := 0, buffer := []\<rparr>"

text \<open>500 milliseconds and 5 seconds in nanoseconds.\<close>

definition maxGap :: u64 where "maxGap = 500000000"

definition restTime :: i64 where "restTime = 5000000000"

definition current_goals :: "FrameReader \<Rightarrow> u32 list" where
  "current_goals frame = map jr_Goal (fr_Joints frame)"

definition checkGap :: "(bytes \<Rightarrow> string) \<Rightarrow> FrameReader \<Rightarrow> u64 \<Rightarrow> 'f detector \<Rightarrow> 'f detector" where
  "checkGap fid frame inEpisodeStamp ed =
     (if episodeSkipReason ed = [] \<and> length (buffer ed) > 0 then
        (let lastStamp = TimestampNsSinceEpisodeStart (last (buffer ed));
             gap = inEpisodeStamp - lastStamp
         in if gap > maxGap
            then markEpisodeSkip fid frame
              (''frame gap '' @ fmt_d (unat (gap div 1000000)) @ ''ms > 500ms'') ed
            else ed)
      else ed)"

text \<open>The parts of the handler inside an episode: command tracking, and the gap check with the buffering.\<close>

definition track_commands :: "FrameReader \<Rightarrow> 'f detector \<Rightarrow> 'f detector" where
  "track_commands frame ed =
     (if hasCommandsChanged ed (current_goals frame)
      then (updateGoalTracking (current_goals frame) (ed\<lparr>commandsCnt := commandsCnt ed + 1\<rparr>))
        \<lparr>lastMovementStamp := fr_MonotonicStampNs frame\<rparr>
      else ed)"

definition buffer_or_skip :: "(bytes \<Rightarrow> string) \<Rightarrow> FrameReader \<Rightarrow> u64 \<Rightarrow> 'f detector \<Rightarrow> 'f detector" where
  "buffer_or_skip fid frame st ed =
     (let ed = checkGap fid frame st ed
      in if episodeSkipReason ed = [] then bufferFrame frame st ed else ed)"

definition ProcessFrame ::
    "(bytes \<Rightarrow> string) \<Rightarrow> (Frame list \<Rightarrow> 'f) \<Rightarrow> u64 \<Rightarrow> 'f save_io \<Rightarrow> FrameReader \<Rightarrow> 'f detector \<Rightarrow> (unit, 'f detector) gres" where
  "ProcessFrame fid pqw now io frame ed =
     (if fr_Images frame = [] then
        Ok (ed\<lparr>stats := (stats ed)\<lparr>FramesSkippedWrongImageCount := FramesSkippedWrongImageCount (stats ed) + 1\<rparr>\<rparr>)
      else if episodeMonotonicStart ed = 0 then
        Ok (updateGoalTracking (current_goals frame)
          (if hasCommandsChanged ed (current_goals frame) then startNewEpisode now frame ed else ed))
      else
        let ed = track_commands frame ed;
            stamp = fr_MonotonicStampNs frame;
            inEpisodeStamp = stamp - episodeMonotonicStart ed;
            ed = buffer_or_skip fid frame inEpisodeStamp ed
        in if sint (duration ed) \<le> sint inEpisodeStamp \<and> sint restTime \<le> sint (stamp - lastMovementStamp ed)
           then gmap resetEpisode (trySaveCurrentEpisode fid pqw io ed)
           else Ok ed)"

definition GetSkipInfo :: "'f detector \<Rightarrow> u64 \<times> string" where
  "GetSkipInfo ed =
     (if FramesSkippedWrongImageCount (stats ed) > 0
      then (FramesSkippedWrongImageCount (stats ed), ''no images'') else (0, []))"

text \<open>
  Merging: \<open>open_ok\<close> says which files can be opened, \<open>pqr\<close> gives the row groups' rows that the \<^verbatim>\<open>parquet\<close>
  package finds in a file, \<open>pqc\<close> the bytes of a file the row groups are copied to.
\<close>

datatype 'f merge_io = OutCreateErr | CopyErr 'f | CloseErr 'f | MergeOk

fun open_all :: "(string \<Rightarrow> bool) \<Rightarrow> ('f \<Rightarrow> Frame list option) \<Rightarrow> (string \<times> 'f) list \<Rightarrow> nat list \<Rightarrow> Frame list list option" where
  "open_all open_ok pqr fs [] = Some []"
| "open_all open_ok pqr fs (i # is) =
     (if \<not> open_ok (episode_file i) then None
      else case map_of fs (episode_file i) of
          None \<Rightarrow> None
        | Some b \<Rightarrow> (case pqr b of
              None \<Rightarrow> None
            | Some rows \<Rightarrow> map_option (\<lambda>rs. rows # rs) (open_all open_ok pqr fs is)))"

definition mergeParquetFiles ::
    "(string \<Rightarrow> bool) \<Rightarrow> ('f \<Rightarrow> Frame list option) \<Rightarrow> (Frame list list \<Rightarrow> 'f) \<Rightarrow> 'f merge_io \<Rightarrow> 'f detector \<Rightarrow> 'f detector" where
  "mergeParquetFiles open_ok pqr pqc io ed =
     (if episodeIndex ed = 0 then ed
      else case open_all open_ok pqr (files ed) [0..<unat (episodeIndex ed)] of
          None \<Rightarrow> ed
        | Some rowGroups \<Rightarrow> (case io of
              OutCreateErr \<Rightarrow> ed
            | CopyErr partial \<Rightarrow> ed\<lparr>merged := Some partial\<rparr>
            | CloseErr partial \<Rightarrow> ed\<lparr>merged := Some partial\<rparr>
            | MergeOk \<Rightarrow>
                ed\<lparr>merged := Some (pqc rowGroups),
                   files := fold (\<lambda>i. AList.delete (episode_file i)) [0..<unat (episodeIndex ed)] (files ed)\<rparr>))"

definition Finalize ::
    "(bytes \<Rightarrow> string) \<Rightarrow> (Frame list \<Rightarrow> 'f) \<Rightarrow> 'f save_io \<Rightarrow> (string \<Rightarrow> bool) \<Rightarrow> ('f \<Rightarrow> Frame list option)
      \<Rightarrow> (Frame list list \<Rightarrow> 'f) \<Rightarrow> 'f merge_io \<Rightarrow> 'f detector \<Rightarrow> (unit, 'f detector) gres" where
  "Finalize fid pqw io open_ok pqr pqc mio ed =
     gmap (mergeParquetFiles open_ok pqr pqc mio)
       (if episodeMonotonicStart ed \<noteq> 0 then trySaveCurrentEpisode fid pqw io ed else Ok ed)"


section \<open>What an episode file holds\<close>

definition good_rows :: "string \<Rightarrow> u64 \<Rightarrow> Frame list \<Rightarrow> bool" where
  "good_rows t start fs \<longleftrightarrow> fs \<noteq> [] \<and> TimestampNsSinceEpisodeStart (hd fs) = 0 \<and>
     successively (\<lambda>f g. TimestampNsSinceEpisodeStart g - TimestampNsSinceEpisodeStart f \<le> maxGap) fs \<and>
     (\<forall>f\<in>set fs. EpisodeStartNS f = start \<and> Task f = t \<and> Images f \<noteq> [])"

definition goals_of :: "Frame \<Rightarrow> u32 list" where
  "goals_of f = map Goal (Joints f)"

fun goal_changes :: "Frame list \<Rightarrow> nat" where
  "goal_changes (f # g # fs) = (if goals_of f \<noteq> goals_of g then 1 else 0) + goal_changes (g # fs)"
| "goal_changes fs = 0"

definition all_joints :: "Frame list \<Rightarrow> bool" where
  "all_joints fs \<longleftrightarrow> (\<forall>f\<in>set fs. Joints f \<noteq> [])"

lemma goal_changes_snoc:
  "fs \<noteq> [] \<Longrightarrow> goal_changes (fs @ [f]) = goal_changes fs + (if goals_of (last fs) \<noteq> goals_of f then 1 else 0)"
  by (induction fs rule: goal_changes.induct) auto

lemma good_rows_snoc:
  assumes "good_rows t start fs" and "TimestampNsSinceEpisodeStart f - TimestampNsSinceEpisodeStart (last fs) \<le> maxGap"
    and "EpisodeStartNS f = start" and "Task f = t" and "Images f \<noteq> []"
  shows "good_rows t start (fs @ [f])"
  using assms by (auto simp: good_rows_def successively_append_iff)

lemma hasCommandsChanged_iff: "hasCommandsChanged ed gs \<longleftrightarrow> lastGoals ed \<noteq> [] \<and> lastGoals ed \<noteq> gs"
  by (cases "length (lastGoals ed) = length gs")
    (auto simp: hasCommandsChanged_def list_ex_iff Bex_def list_eq_iff_nth_eq [of "lastGoals ed" gs])


section \<open>Reachable states\<close>

text \<open>\<open>P\<close> restricts the frames and file outcomes of a run; the clock is free.\<close>

inductive detector_reach ::
    "(bytes \<Rightarrow> string) \<Rightarrow> (Frame list \<Rightarrow> 'f) \<Rightarrow> ('f save_io \<Rightarrow> FrameReader \<Rightarrow> bool) \<Rightarrow> EpisodeDetectorConfig \<Rightarrow> 'f detector \<Rightarrow> bool"
  for fid pqw P cfg where
  reach_new: "detector_reach fid pqw P cfg (NewEpisodeDetector cfg)"
| reach_step: "detector_reach fid pqw P cfg ed \<Longrightarrow> P io frame \<Longrightarrow> ProcessFrame fid pqw now io frame ed = Ok ed' \<Longrightarrow>
    detector_reach fid pqw P cfg ed'"

text \<open>The invariant: an open episode has a good buffer, and every file below the index a good episode.\<close>

definition saved_rows :: "'f detector \<Rightarrow> Frame list \<Rightarrow> bool" where
  "saved_rows ed rows \<longleftrightarrow> (\<exists>start. good_rows (task ed) start rows) \<and>
     (all_joints rows \<longrightarrow> unat (minCommands ed) \<le> 1 + goal_changes rows)"

definition buffer_inv :: "'f detector \<Rightarrow> bool" where
  "buffer_inv ed \<longleftrightarrow> good_rows (task ed) (episodeLocalStart ed) (buffer ed) \<and>
     (episodeSkipReason ed = [] \<longrightarrow> all_joints (buffer ed) \<longrightarrow>
       commandsCnt ed = of_nat (1 + goal_changes (buffer ed)) \<and> lastGoals ed = goals_of (last (buffer ed)))"

definition files_inv :: "(Frame list \<Rightarrow> 'f) \<Rightarrow> (Frame list \<Rightarrow> bool) \<Rightarrow> 'f detector \<Rightarrow> bool" where
  "files_inv pqw Q ed \<longleftrightarrow> (\<forall>i < unat (episodeIndex ed). \<exists>rows.
     map_of (files ed) (episode_file i) = Some (pqw rows) \<and> saved_rows ed rows \<and> Q rows)"

lemma episode_file_inj: "episode_file i = episode_file j \<longleftrightarrow> i = j"
  by (simp add: episode_file_def fmt_d_inj)

lemma send_sel [simp]:
  "path (send m ed) = path ed"
  "duration (send m ed) = duration ed"
  "task (send m ed) = task ed"
  "minCommands (send m ed) = minCommands ed"
  "lastGoals (send m ed) = lastGoals ed"
  "commandsCnt (send m ed) = commandsCnt ed"
  "lastMovementStamp (send m ed) = lastMovementStamp ed"
  "episodeIndex (send m ed) = episodeIndex ed"
  "episodeMonotonicStart (send m ed) = episodeMonotonicStart ed"
  "episodeLocalStart (send m ed) = episodeLocalStart ed"
  "episodeSkipReason (send m ed) = episodeSkipReason ed"
  "episodeSkipFrameId (send m ed) = episodeSkipFrameId ed"
  "buffer (send m ed) = buffer ed"
  "stats (send m ed) = stats ed"
  "program (send m ed) = program ed"
  "files (send m ed) = files ed"
  "merged (send m ed) = merged ed"
  by (simp_all add: send_def)

lemma bufferFrame_sel [simp]:
  "path (bufferFrame frame st ed) = path ed"
  "duration (bufferFrame frame st ed) = duration ed"
  "task (bufferFrame frame st ed) = task ed"
  "minCommands (bufferFrame frame st ed) = minCommands ed"
  "lastGoals (bufferFrame frame st ed) = lastGoals ed"
  "commandsCnt (bufferFrame frame st ed) = commandsCnt ed"
  "lastMovementStamp (bufferFrame frame st ed) = lastMovementStamp ed"
  "episodeIndex (bufferFrame frame st ed) = episodeIndex ed"
  "episodeMonotonicStart (bufferFrame frame st ed) = episodeMonotonicStart ed"
  "episodeLocalStart (bufferFrame frame st ed) = episodeLocalStart ed"
  "episodeSkipReason (bufferFrame frame st ed) = episodeSkipReason ed"
  "episodeSkipFrameId (bufferFrame frame st ed) = episodeSkipFrameId ed"
  "stats (bufferFrame frame st ed) = stats ed"
  "program (bufferFrame frame st ed) = program ed"
  "files (bufferFrame frame st ed) = files ed"
  "merged (bufferFrame frame st ed) = merged ed"
  by (simp_all add: bufferFrame_def Let_def)

lemma checkGap_sel [simp]:
  "path (checkGap fid frame st ed) = path ed"
  "duration (checkGap fid frame st ed) = duration ed"
  "task (checkGap fid frame st ed) = task ed"
  "minCommands (checkGap fid frame st ed) = minCommands ed"
  "lastGoals (checkGap fid frame st ed) = lastGoals ed"
  "commandsCnt (checkGap fid frame st ed) = commandsCnt ed"
  "lastMovementStamp (checkGap fid frame st ed) = lastMovementStamp ed"
  "episodeIndex (checkGap fid frame st ed) = episodeIndex ed"
  "episodeMonotonicStart (checkGap fid frame st ed) = episodeMonotonicStart ed"
  "episodeLocalStart (checkGap fid frame st ed) = episodeLocalStart ed"
  "buffer (checkGap fid frame st ed) = buffer ed"
  "stats (checkGap fid frame st ed) = stats ed"
  "program (checkGap fid frame st ed) = program ed"
  "files (checkGap fid frame st ed) = files ed"
  "merged (checkGap fid frame st ed) = merged ed"
  by (simp_all add: checkGap_def markEpisodeSkip_def Let_def)

lemma discard_sel [simp]:
  "path (discard ed) = path ed"
  "duration (discard ed) = duration ed"
  "task (discard ed) = task ed"
  "minCommands (discard ed) = minCommands ed"
  "lastGoals (discard ed) = lastGoals ed"
  "commandsCnt (discard ed) = commandsCnt ed"
  "lastMovementStamp (discard ed) = lastMovementStamp ed"
  "episodeIndex (discard ed) = episodeIndex ed"
  "episodeMonotonicStart (discard ed) = episodeMonotonicStart ed"
  "episodeLocalStart (discard ed) = episodeLocalStart ed"
  "episodeSkipReason (discard ed) = episodeSkipReason ed"
  "episodeSkipFrameId (discard ed) = episodeSkipFrameId ed"
  "buffer (discard ed) = buffer ed"
  "program (discard ed) = program ed"
  "files (discard ed) = files ed"
  "merged (discard ed) = merged ed"
  by (simp_all add: discard_def)


text \<open>The row that is buffered.\<close>

lemma bufferFrame_buffer:
  "\<exists>f. buffer (bufferFrame frame st ed) = buffer ed @ [f] \<and> EpisodeStartNS f = episodeLocalStart ed \<and>
     TimestampNsSinceEpisodeStart f = st \<and> Task f = task ed \<and> (Images f = [] \<longleftrightarrow> fr_Images frame = []) \<and>
     goals_of f = current_goals frame \<and> (Joints f = [] \<longleftrightarrow> fr_Joints frame = [])"
  by (simp add: bufferFrame_def Let_def goals_of_def current_goals_def convertJoints_def convertImages_def comp_def)

lemma startNewEpisode_inv:
  assumes "fr_Images frame \<noteq> []" and "episodeSkipReason ed = []"
  shows "buffer_inv (updateGoalTracking (current_goals frame) (startNewEpisode now frame ed))"
  using assms bufferFrame_buffer [of frame 0 "ed\<lparr>episodeMonotonicStart := fr_MonotonicStampNs frame, 
      episodeLocalStart := now, lastMovementStamp := fr_MonotonicStampNs frame, commandsCnt := 1,
      stats := (stats ed)\<lparr>EpisodesStarted := EpisodesStarted (stats ed) + 1\<rparr>, buffer := []\<rparr>"]
  by (auto simp: startNewEpisode_def Let_def updateGoalTracking_def buffer_inv_def good_rows_def)


lemma track_commands_sel [simp]:
  "path (track_commands frame ed) = path ed" "duration (track_commands frame ed) = duration ed"
  "task (track_commands frame ed) = task ed" "minCommands (track_commands frame ed) = minCommands ed"
  "episodeIndex (track_commands frame ed) = episodeIndex ed"
  "episodeMonotonicStart (track_commands frame ed) = episodeMonotonicStart ed"
  "episodeLocalStart (track_commands frame ed) = episodeLocalStart ed"
  "episodeSkipReason (track_commands frame ed) = episodeSkipReason ed"
  "buffer (track_commands frame ed) = buffer ed" "stats (track_commands frame ed) = stats ed"
  "program (track_commands frame ed) = program ed" "files (track_commands frame ed) = files ed"
  "sent (track_commands frame ed) = sent ed"
  by (simp_all add: track_commands_def updateGoalTracking_def)

lemma buffer_or_skip_sel [simp]:
  "path (buffer_or_skip fid frame st ed) = path ed" "duration (buffer_or_skip fid frame st ed) = duration ed"
  "task (buffer_or_skip fid frame st ed) = task ed" "minCommands (buffer_or_skip fid frame st ed) = minCommands ed"
  "episodeIndex (buffer_or_skip fid frame st ed) = episodeIndex ed"
  "episodeMonotonicStart (buffer_or_skip fid frame st ed) = episodeMonotonicStart ed"
  "episodeLocalStart (buffer_or_skip fid frame st ed) = episodeLocalStart ed"
  "commandsCnt (buffer_or_skip fid frame st ed) = commandsCnt ed"
  "lastGoals (buffer_or_skip fid frame st ed) = lastGoals ed"
  "stats (buffer_or_skip fid frame st ed) = stats ed"
  "program (buffer_or_skip fid frame st ed) = program ed" "files (buffer_or_skip fid frame st ed) = files ed"
  by (simp_all add: buffer_or_skip_def Let_def)

lemma ProcessFrame_in_episode:
  assumes "fr_Images frame \<noteq> []" and "episodeMonotonicStart ed \<noteq> 0"
  shows "ProcessFrame fid pqw now io frame ed =
    (let st = fr_MonotonicStampNs frame - episodeMonotonicStart ed;
         ed' = buffer_or_skip fid frame st (track_commands frame ed)
     in if sint (duration ed') \<le> sint st \<and> sint restTime \<le> sint (fr_MonotonicStampNs frame - lastMovementStamp ed')
        then gmap resetEpisode (trySaveCurrentEpisode fid pqw io ed') else Ok ed')"
  using assms by (simp add: ProcessFrame_def Let_def)

lemma checkGap_kept:
  assumes "episodeSkipReason (checkGap fid frame st ed) = []" and "buffer ed \<noteq> []"
  shows "episodeSkipReason ed = [] \<and> st - TimestampNsSinceEpisodeStart (last (buffer ed)) \<le> maxGap"
  using assms by (auto simp: checkGap_def markEpisodeSkip_def Let_def not_less split: if_splits)

lemma buffer_or_skip_inv:
  assumes inv: "buffer_inv ed" and img: "fr_Images frame \<noteq> []"
  shows "buffer_inv (buffer_or_skip fid frame st (track_commands frame ed)) \<and>
    (episodeSkipReason (buffer_or_skip fid frame st (track_commands frame ed)) = [] \<longrightarrow>
      TimestampNsSinceEpisodeStart (last (buffer (buffer_or_skip fid frame st (track_commands frame ed)))) = st)"
proof (cases "episodeSkipReason (checkGap fid frame st (track_commands frame ed)) = []")
  case True
  let ?ed = "checkGap fid frame st (track_commands frame ed)"
  have ne: "buffer ed \<noteq> []" using inv by (simp add: buffer_inv_def good_rows_def)
  from checkGap_kept [OF True] ne have gap: "episodeSkipReason ed = []"
      "st - TimestampNsSinceEpisodeStart (last (buffer ed)) \<le> maxGap" by simp_all
  obtain f where f: "buffer (bufferFrame frame st ?ed) = buffer ed @ [f]" "EpisodeStartNS f = episodeLocalStart ed"
      "TimestampNsSinceEpisodeStart f = st" "Task f = task ed" "Images f \<noteq> []" "goals_of f = current_goals frame"
      "Joints f = [] \<longleftrightarrow> fr_Joints frame = []"
    using bufferFrame_buffer [of frame st ?ed] img by auto
  have "good_rows (task ed) (episodeLocalStart ed) (buffer ed @ [f])"
    using inv f gap(2) by (intro good_rows_snoc) (simp_all add: buffer_inv_def)
  moreover have "commandsCnt (track_commands frame ed) = of_nat (1 + goal_changes (buffer ed @ [f])) \<and>
      lastGoals (track_commands frame ed) = goals_of f" if "all_joints (buffer ed @ [f])"
  proof -
    have a: "commandsCnt ed = of_nat (1 + goal_changes (buffer ed))" "lastGoals ed = goals_of (last (buffer ed))"
      using inv that gap(1) by (auto simp: buffer_inv_def all_joints_def)
    have "Joints (last (buffer ed)) \<noteq> []" using that ne by (simp add: all_joints_def)
    then have "lastGoals ed \<noteq> []" using a(2) by (simp add: goals_of_def)
    then show ?thesis
      using a ne f(6) by (auto simp: track_commands_def hasCommandsChanged_iff updateGoalTracking_def goal_changes_snoc)
  qed
  ultimately show ?thesis
    using True f(1,3) by (simp add: buffer_inv_def buffer_or_skip_def Let_def)
next
  case False
  with inv show ?thesis by (simp add: buffer_inv_def buffer_or_skip_def Let_def)
qed

text \<open>A save keeps the files of the earlier episodes and adds a good one, or changes only the file
  that the next save will overwrite.\<close>

lemma unat_Suc_le:
  assumes "x + 1 \<noteq> 0"
  shows "unat (x :: u64) \<le> unat (x + 1)"
proof -
  have e: "unat (x + 1) = (unat x + 1) mod 2 ^ 64" using unat_word_ariths(1) [of x 1] by simp
  show ?thesis
  proof (cases "unat x + 1 < 2 ^ 64")
    case True
    then have "(unat x + 1) mod 2 ^ 64 = unat x + 1" by (rule mod_less)
    with e show ?thesis by linarith
  next
    case False
    moreover have "unat x < 2 ^ 64" using unsigned_less [of x, where ?'a = nat] by simp
    ultimately have "unat x + 1 = 2 ^ 64" by linarith
    with e have "unat (x + 1) = 0" by simp
    with assms show ?thesis by (simp add: unat_eq_zero)
  qed
qed

lemma files_inv_update:
  assumes "files_inv pqw Q ed" and "files ed' = AList.update (episode_file (unat (episodeIndex ed))) b (files ed)"
    and "task ed' = task ed" and "minCommands ed' = minCommands ed"
    and "episodeIndex ed' = episodeIndex ed \<or>
      episodeIndex ed' = episodeIndex ed + 1 \<and> (\<exists>rows. b = pqw rows \<and> saved_rows ed rows \<and> Q rows)"
  shows "files_inv pqw Q ed'"
  unfolding files_inv_def
proof (intro allI impI)
  fix i assume i: "i < unat (episodeIndex ed')"
  have rows: "saved_rows ed' = saved_rows ed" using assms(3,4) by (simp add: saved_rows_def fun_eq_iff)
  show "\<exists>rows. map_of (files ed') (episode_file i) = Some (pqw rows) \<and> saved_rows ed' rows \<and> Q rows"
  proof (cases "i < unat (episodeIndex ed)")
    case True
    with assms(1,2) show ?thesis
      by (auto simp: files_inv_def rows update_conv' episode_file_inj)
  next
    case False
    then have "episodeIndex ed' = episodeIndex ed + 1" using assms(5) i by auto
    moreover from this have "i = unat (episodeIndex ed)"
      using i False unat_word_ariths(1) [of "episodeIndex ed" 1] mod_less_eq_dividend [of "unat (episodeIndex ed) + 1"]
      by (simp add: not_less)
    ultimately show ?thesis
      using assms(2,5) False i by (auto simp: rows update_conv')
  qed
qed

lemma trySave_inv:
  assumes "buffer_inv ed" and "files_inv pqw Q ed" and "episodeSkipReason ed = [] \<Longrightarrow> Q (buffer ed)"
  shows "\<exists>ed'. trySaveCurrentEpisode fid pqw io ed = Ok ed' \<and> files_inv pqw Q ed' \<and> task ed' = task ed \<and>
    minCommands ed' = minCommands ed \<and> duration ed' = duration ed"
proof -
  have ne: "buffer ed \<noteq> []" using assms(1) by (simp add: buffer_inv_def good_rows_def)
  have rows: "saved_rows ed (buffer ed)" if "episodeSkipReason ed = []" "\<not> commandsCnt ed < minCommands ed"
  proof -
    have "unat (of_nat (1 + goal_changes (buffer ed)) :: u64) \<le> 1 + goal_changes (buffer ed)"
      unfolding unat_of_nat by simp
    moreover have "unat (minCommands ed) \<le> unat (commandsCnt ed)" using that(2) by (simp add: not_less word_le_nat_alt)
    ultimately show ?thesis using assms(1) that(1) by (auto simp: saved_rows_def buffer_inv_def simp del: of_nat_add of_nat_Suc)
  qed
  have same: "files_inv pqw Q ed'" if "files ed' = files ed" "episodeIndex ed' = episodeIndex ed"
      "task ed' = task ed" "minCommands ed' = minCommands ed" for ed'
    using assms(2) that by (simp add: files_inv_def saved_rows_def)
  show ?thesis
  proof (cases "episodeSkipReason ed = [] \<and> \<not> commandsCnt ed < minCommands ed")
    case False
    then show ?thesis using ne by (auto simp: trySaveCurrentEpisode_def intro!: same)
  next
    case True
    with rows assms(3) have r: "saved_rows ed (buffer ed)" "Q (buffer ed)" by auto
    show ?thesis
      using True ne r
      by (cases io) (auto simp: trySaveCurrentEpisode_def Let_def intro!: files_inv_update [OF assms(2)] assms(2))
  qed
qed


definition complete :: "i64 \<Rightarrow> Frame list \<Rightarrow> bool" where
  "complete d rows \<longleftrightarrow> sint d \<le> sint (TimestampNsSinceEpisodeStart (last rows))"

definition detector_inv :: "(Frame list \<Rightarrow> 'f) \<Rightarrow> EpisodeDetectorConfig \<Rightarrow> 'f detector \<Rightarrow> bool" where
  "detector_inv pqw cfg ed \<longleftrightarrow>
     task ed = cfg_Task cfg \<and> minCommands ed = cfg_MinCommands cfg \<and> duration ed = cfg_Duration cfg \<and>
     (if episodeMonotonicStart ed = 0 then episodeSkipReason ed = [] else buffer_inv ed) \<and>
     files_inv pqw (complete (cfg_Duration cfg)) ed"

lemma files_inv_cong:
  "files_inv pqw Q ed \<Longrightarrow> files ed' = files ed \<Longrightarrow> episodeIndex ed' = episodeIndex ed \<Longrightarrow> task ed' = task ed \<Longrightarrow>
    minCommands ed' = minCommands ed \<Longrightarrow> files_inv pqw Q ed'"
  by (simp add: files_inv_def saved_rows_def)

lemma startNewEpisode_sel [simp]:
  "files (startNewEpisode now frame ed) = files ed" "episodeIndex (startNewEpisode now frame ed) = episodeIndex ed"
  "task (startNewEpisode now frame ed) = task ed" "minCommands (startNewEpisode now frame ed) = minCommands ed"
  "duration (startNewEpisode now frame ed) = duration ed" "program (startNewEpisode now frame ed) = program ed"
  "episodeSkipReason (startNewEpisode now frame ed) = episodeSkipReason ed"
  "episodeMonotonicStart (startNewEpisode now frame ed) = fr_MonotonicStampNs frame"
  "stats (startNewEpisode now frame ed) = (stats ed)\<lparr>EpisodesStarted := EpisodesStarted (stats ed) + 1\<rparr>"
  by (simp_all add: startNewEpisode_def Let_def)

lemma detector_inv_new: "detector_inv pqw cfg (NewEpisodeDetector cfg)"
  by (simp add: detector_inv_def NewEpisodeDetector_def files_inv_def)

lemma ProcessFrame_keeps:
  assumes inv: "detector_inv pqw cfg ed"
  shows "\<exists>ed'. ProcessFrame fid pqw now io frame ed = Ok ed' \<and> detector_inv pqw cfg ed'"
proof -
  note d = inv [unfolded detector_inv_def]
  consider "fr_Images frame = []" | "fr_Images frame \<noteq> []" "episodeMonotonicStart ed = 0"
    | "fr_Images frame \<noteq> []" "episodeMonotonicStart ed \<noteq> 0" by blast
  then show ?thesis
  proof cases
    case 1
    with d show ?thesis
      by (auto simp: ProcessFrame_def detector_inv_def buffer_inv_def intro: files_inv_cong)
  next
    case 2
    then have skip: "episodeSkipReason ed = []" using d by simp
    show ?thesis
      using 2 d startNewEpisode_inv [OF 2(1) skip, of now]
      by (auto simp: ProcessFrame_def detector_inv_def updateGoalTracking_def intro: files_inv_cong)
  next
    case 3
    define st where "st = fr_MonotonicStampNs frame - episodeMonotonicStart ed"
    define ed1 where "ed1 = buffer_or_skip fid frame st (track_commands frame ed)"
    have b: "buffer_inv ed" using d 3 by simp
    have inv1: "buffer_inv ed1" "episodeSkipReason ed1 = [] \<Longrightarrow> TimestampNsSinceEpisodeStart (last (buffer ed1)) = st"
      using buffer_or_skip_inv [OF b 3(1), of fid st] by (auto simp: ed1_def)
    have files1: "files_inv pqw (complete (cfg_Duration cfg)) ed1"
      using d by (auto simp: ed1_def intro: files_inv_cong)
    have cfg1: "task ed1 = cfg_Task cfg" "minCommands ed1 = cfg_MinCommands cfg" "duration ed1 = cfg_Duration cfg"
      using d by (simp_all add: ed1_def)
    have p: "ProcessFrame fid pqw now io frame ed =
        (if sint (duration ed1) \<le> sint st \<and> sint restTime \<le> sint (fr_MonotonicStampNs frame - lastMovementStamp ed1)
         then gmap resetEpisode (trySaveCurrentEpisode fid pqw io ed1) else Ok ed1)"
      using ProcessFrame_in_episode [OF 3, of fid pqw now io] unfolding Let_def ed1_def st_def .
    show ?thesis
    proof (cases "sint (duration ed1) \<le> sint st \<and> sint restTime \<le> sint (fr_MonotonicStampNs frame - lastMovementStamp ed1)")
      case True
      then obtain ed2 where "trySaveCurrentEpisode fid pqw io ed1 = Ok ed2"
          "files_inv pqw (complete (cfg_Duration cfg)) ed2" "task ed2 = task ed1"
          "minCommands ed2 = minCommands ed1" "duration ed2 = duration ed1"
        using trySave_inv [OF inv1(1) files1, of fid io] inv1(2) cfg1(3) by (auto simp: complete_def)
      with True p cfg1 show ?thesis
        by (auto simp: detector_inv_def resetEpisode_def intro: files_inv_cong)
    next
      case False
      moreover have "episodeMonotonicStart ed1 \<noteq> 0" using 3 by (simp add: ed1_def)
      ultimately show ?thesis using p inv1(1) files1 cfg1 by (auto simp: detector_inv_def)
    qed
  qed
qed

lemma reach_inv: "detector_reach fid pqw P cfg ed \<Longrightarrow> detector_inv pqw cfg ed"
proof (induction rule: detector_reach.induct)
  case reach_new
  show ?case by (rule detector_inv_new)
next
  case (reach_step ed io frame now ed')
  then show ?case using ProcessFrame_keeps [of pqw cfg ed fid now io frame] by auto
qed


section \<open>The accounts of the detector\<close>

definition open_episodes :: "'f detector \<Rightarrow> u64" where
  "open_episodes ed = (if episodeMonotonicStart ed = 0 then 0 else 1)"

definition accounts :: "'f detector \<Rightarrow> bool" where
  "accounts ed \<longleftrightarrow> episodeIndex ed = EpisodesSaved (stats ed) \<and>
     EpisodesStarted (stats ed) = EpisodesSaved (stats ed) + EpisodesDiscarded (stats ed) + open_episodes ed"

lemma trySave_accounts:
  assumes "trySaveCurrentEpisode fid pqw SaveOk ed = Ok ed'"
  shows "EpisodesStarted (stats ed') = EpisodesStarted (stats ed) \<and>
    EpisodesSaved (stats ed') + EpisodesDiscarded (stats ed') = EpisodesSaved (stats ed) + EpisodesDiscarded (stats ed) + 1 \<and>
    episodeIndex ed' - EpisodesSaved (stats ed') = episodeIndex ed - EpisodesSaved (stats ed) \<and>
    episodeMonotonicStart ed' = episodeMonotonicStart ed"
  using assms by (auto simp: trySaveCurrentEpisode_def discard_def Let_def split: if_splits)

lemma ProcessFrame_accounts:
  assumes acc: "accounts ed" and step: "ProcessFrame fid pqw now SaveOk frame ed = Ok ed'"
    and "fr_MonotonicStampNs frame \<noteq> 0"
  shows "accounts ed'"
proof -
  consider "fr_Images frame = []" | "fr_Images frame \<noteq> []" "episodeMonotonicStart ed = 0"
    | "fr_Images frame \<noteq> []" "episodeMonotonicStart ed \<noteq> 0" by blast
  then show ?thesis
  proof cases
    case 1
    then show ?thesis using acc step by (auto simp: ProcessFrame_def accounts_def open_episodes_def)
  next
    case 2
    then show ?thesis
      using acc step assms(3) by (auto simp: ProcessFrame_def accounts_def open_episodes_def updateGoalTracking_def split: if_splits)
  next
    case 3
    define ed1 where "ed1 = buffer_or_skip fid frame (fr_MonotonicStampNs frame - episodeMonotonicStart ed) (track_commands frame ed)"
    have same: "stats ed1 = stats ed" "episodeIndex ed1 = episodeIndex ed" "episodeMonotonicStart ed1 = episodeMonotonicStart ed"
      by (simp_all add: ed1_def)
    from step [unfolded ProcessFrame_in_episode [OF 3] Let_def, folded ed1_def]
    consider ed2 where "trySaveCurrentEpisode fid pqw SaveOk ed1 = Ok ed2" "ed' = resetEpisode ed2" | "ed' = ed1"
      by (auto simp: gmap_Ok_iff split: if_splits)
    then show ?thesis
    proof cases
      case 1
      from trySave_accounts [OF 1(1)] acc show ?thesis
        using 1(2) 3 by (simp add: accounts_def open_episodes_def resetEpisode_def same)
    next
      case 2
      then show ?thesis using acc by (simp add: accounts_def open_episodes_def same)
    qed
  qed
qed


section \<open>A run over a list of frames\<close>

definition frame_step ::
    "(bytes \<Rightarrow> string) \<Rightarrow> (Frame list \<Rightarrow> 'f) \<Rightarrow> u64 \<times> 'f save_io \<times> FrameReader \<Rightarrow> 'f detector \<Rightarrow> (unit, 'f detector) gres" where
  "frame_step fid pqw = (\<lambda>(now, io, frame). ProcessFrame fid pqw now io frame)"

abbreviation process_frames ::
    "(bytes \<Rightarrow> string) \<Rightarrow> (Frame list \<Rightarrow> 'f) \<Rightarrow> (u64 \<times> 'f save_io \<times> FrameReader) list \<Rightarrow> 'f detector \<Rightarrow> (unit, 'f detector) gres" where
  "process_frames fid pqw \<equiv> gfold (frame_step fid pqw)"

interpretation det: invariant_step "frame_step fid pqw" "detector_inv pqw cfg" for fid pqw cfg
  using ProcessFrame_keeps by unfold_locales (auto simp: frame_step_def split: prod.split)

lemma reach_process_frames:
  assumes "detector_reach fid pqw P cfg ed" and "list_all (\<lambda>(now, io, frame). P io frame) is"
    and "process_frames fid pqw is ed = Ok ed'"
  shows "detector_reach fid pqw P cfg ed'"
  using assms
proof (induction "is" arbitrary: ed)
  case (Cons i "is")
  then show ?case by (cases i) (auto simp: frame_step_def gbind_Ok_iff intro: reach_step)
qed simp

lemma Finalize_returns:
  assumes "detector_inv pqw cfg ed"
  shows "returns (Finalize fid pqw io open_ok pqr pqc mio ed)"
proof -
  have "returns (trySaveCurrentEpisode fid pqw io ed)" if "episodeMonotonicStart ed \<noteq> 0"
    using that assms by (auto simp: trySaveCurrentEpisode_def detector_inv_def buffer_inv_def good_rows_def Let_def split: save_io.split)
  then show ?thesis by (auto simp: Finalize_def)
qed

text \<open>An example: a movement, then five seconds of rest in frames 500 milliseconds apart.\<close>

definition demo_frame :: "u64 \<Rightarrow> u32 \<Rightarrow> FrameReader" where
  "demo_frame stamp goal = \<lparr>fr_GlobalFrameId = [1], fr_MonotonicStampNs = stamp,
     fr_Joints = [\<lparr>jr_RangeMin = 0, jr_RangeMax = 9, jr_Position = 1, jr_PositionNorm = 0, jr_Goal = goal,
       jr_GoalNorm = 0, jr_CurrentMa = 0, jr_Velocity = 0\<rparr>], fr_Images = [[0xff]]\<rparr>"

definition demo_inputs :: "(u64 \<times> Frame list save_io \<times> FrameReader) list" where
  "demo_inputs = (0, SaveOk, demo_frame 50 1) #
     map (\<lambda>k. (7, SaveOk, demo_frame (100 + k * maxGap) 2)) [0, 1, 2, 3, 4, 5, 6, 7, 8, 9, 10]"

definition demo_cfg :: EpisodeDetectorConfig where
  "demo_cfg = \<lparr>cfg_Path = ''out'', cfg_Duration = 1000000000, cfg_Task = ''pick'', cfg_MinCommands = 1,
     cfg_Program = True\<rparr>"

definition demo_pqw :: "Frame list \<Rightarrow> Frame list" where
  "demo_pqw rows = rows"

definition demo_run :: "Frame list detector" where
  "demo_run = (case process_frames (\<lambda>b. ''id'') demo_pqw demo_inputs (NewEpisodeDetector demo_cfg) of
     Ok ed \<Rightarrow> ed | _ \<Rightarrow> NewEpisodeDetector demo_cfg)"

lemma demo_run_ok:
  "case process_frames (\<lambda>b. ''id'') demo_pqw demo_inputs (NewEpisodeDetector demo_cfg) of
     Ok ed \<Rightarrow> episodeIndex ed = 1 \<and> map (\<lambda>(n, rows). (n, length rows)) (files ed) = [(episode_file 0, 11)] | _ \<Rightarrow> False"
  by code_simp

lemma demo_facts:
  "process_frames (\<lambda>b. ''id'') demo_pqw demo_inputs (NewEpisodeDetector demo_cfg) = Ok demo_run"
  "episodeIndex demo_run = 1" "map (\<lambda>(n, rows). (n, length rows)) (files demo_run) = [(episode_file 0, 11)]"
  using demo_run_ok by (auto simp: demo_run_def split: gres.splits)

lemma demo_reach:
  "detector_reach (\<lambda>b. ''id'') demo_pqw (\<lambda>io frame. io = SaveOk \<and> fr_MonotonicStampNs frame \<noteq> 0) demo_cfg demo_run"
proof (rule reach_process_frames [OF reach_new _ demo_facts(1)])
  show "list_all (\<lambda>(now, io, frame). io = SaveOk \<and> fr_MonotonicStampNs frame \<noteq> 0) demo_inputs"
    by code_simp
qed

text \<open>A save leaves the files of the earlier episodes alone.\<close>

definition kept_files :: "'f detector \<Rightarrow> 'f detector \<Rightarrow> bool" where
  "kept_files ed ed' \<longleftrightarrow> merged ed' = merged ed \<and>
     (\<forall>i < unat (episodeIndex ed). map_of (files ed') (episode_file i) = map_of (files ed) (episode_file i)) \<and>
     (episodeIndex ed' \<noteq> 0 \<longrightarrow> unat (episodeIndex ed) \<le> unat (episodeIndex ed'))"

lemma trySave_kept: "trySaveCurrentEpisode fid pqw io ed = Ok ed' \<Longrightarrow> kept_files ed ed'"
  by (auto simp: trySaveCurrentEpisode_def Let_def kept_files_def update_conv' episode_file_inj unat_Suc_le
      split: if_splits save_io.splits)

lemma open_all_saved:
  assumes "\<And>fs. pqr (pqw fs) = Some fs"
    and "\<forall>i\<in>set is. \<exists>rows. map_of fs (episode_file i) = Some (pqw rows) \<and> G rows"
  shows "\<exists>rgs. open_all (\<lambda>f. True) pqr fs is = Some rgs \<and> list_all2 (\<lambda>i rows. map_of fs (episode_file i) = Some (pqw rows)) is rgs \<and>
    list_all G rgs"
  using assms(2)
proof (induction "is")
  case (Cons i "is")
  then obtain rows rgs where "map_of fs (episode_file i) = Some (pqw rows)" "G rows"
      "open_all (\<lambda>f. True) pqr fs is = Some rgs" "list_all2 (\<lambda>i rows. map_of fs (episode_file i) = Some (pqw rows)) is rgs"
      "list_all G rgs" by auto
  then show ?case by (intro exI [of _ "rows # rgs"]) (simp add: assms(1))
qed simp

lemma fold_delete_None:
  "map_of (fold (\<lambda>i. AList.delete (episode_file i)) is fs) (episode_file i) =
    (if i \<in> set is then None else map_of fs (episode_file i))"
  by (induction "is" arbitrary: fs) (auto simp: delete_conv' episode_file_inj)








text \<open>
  C37. Finalizing after any run, with working files and a \<^verbatim>\<open>parquet\<close> package that reads back the rows it
  wrote, leaves no episode file behind: the merged file is made of the row groups of all
  episodes in the order of their index, each of them good, or there was no episode at all.
\<close>

theorem finalize_merges:
  assumes reach: "detector_reach fid pqw P cfg ed" and parquet: "\<And>fs. pqr (pqw fs) = Some fs"
  shows "\<exists>ed'. Finalize fid pqw SaveOk (\<lambda>f. True) pqr pqc MergeOk ed = Ok ed' \<and>
    (if episodeIndex ed' = 0 then merged ed' = merged ed
     else \<exists>rgs. merged ed' = Some (pqc rgs) \<and> length rgs = unat (episodeIndex ed') \<and>
       list_all (\<lambda>rows. \<exists>start. good_rows (cfg_Task cfg) start rows) rgs \<and>
       (\<forall>i < unat (episodeIndex ed). map_of (files ed) (episode_file i) = Some (pqw (rgs ! i))) \<and>
       (\<forall>i < unat (episodeIndex ed'). map_of (files ed') (episode_file i) = None))"
proof -
  have inv: "detector_inv pqw cfg ed" using reach by (rule reach_inv)
  have f: "files_inv pqw (\<lambda>_. True) ed" using inv by (auto simp: detector_inv_def files_inv_def)
  obtain ed1 where ed1: "(if episodeMonotonicStart ed \<noteq> 0 then trySaveCurrentEpisode fid pqw SaveOk ed else Ok ed) = Ok ed1"
      "files_inv pqw (\<lambda>_. True) ed1" "task ed1 = task ed" "kept_files ed ed1"
  proof (cases "episodeMonotonicStart ed = 0")
    case True
    with f show ?thesis by (intro that [of ed]) (simp_all add: kept_files_def)
  next
    case False
    then have "buffer_inv ed" using inv by (simp add: detector_inv_def)
    from trySave_inv [OF this f] False trySave_kept show ?thesis by (metis that)
  qed
  have fin: "Finalize fid pqw SaveOk (\<lambda>f. True) pqr pqc MergeOk ed = Ok (mergeParquetFiles (\<lambda>f. True) pqr pqc MergeOk ed1)"
    using ed1(1) by (simp add: Finalize_def)
  show ?thesis
  proof (cases "episodeIndex ed1 = 0")
    case True
    with fin ed1(4) show ?thesis by (simp add: mergeParquetFiles_def kept_files_def)
  next
    case False
    let ?is = "[0..<unat (episodeIndex ed1)]"
    have "\<forall>i\<in>set ?is. \<exists>rows. map_of (files ed1) (episode_file i) = Some (pqw rows) \<and>
        (\<exists>start. good_rows (cfg_Task cfg) start rows)"
      using ed1(2,3) inv by (fastforce simp: files_inv_def saved_rows_def detector_inv_def)
    from open_all_saved [OF parquet this] obtain rgs where rgs:
      "open_all (\<lambda>f. True) pqr (files ed1) ?is = Some rgs"
      "list_all2 (\<lambda>i rows. map_of (files ed1) (episode_file i) = Some (pqw rows)) ?is rgs"
      "list_all (\<lambda>rows. \<exists>start. good_rows (cfg_Task cfg) start rows) rgs" by blast
    have nth: "map_of (files ed1) (episode_file i) = Some (pqw (rgs ! i))" if "i < unat (episodeIndex ed1)" for i
      using rgs(2) that by (auto simp: list_all2_conv_all_nth)
    have "length rgs = unat (episodeIndex ed1)" using list_all2_lengthD [OF rgs(2)] by simp
    moreover have "map_of (files ed) (episode_file i) = Some (pqw (rgs ! i))" if "i < unat (episodeIndex ed)" for i
      using ed1(4) that nth False by (auto simp: kept_files_def)
    ultimately show ?thesis
      using fin False rgs(1,3) by (auto simp: mergeParquetFiles_def fold_delete_None intro!: exI [of _ rgs])
  qed
qed

theorem finalize_merges_witness:
  "\<exists>ed'. Finalize (\<lambda>b. ''id'') demo_pqw SaveOk (\<lambda>f. True) Some concat MergeOk demo_run = Ok ed' \<and>
    (if episodeIndex ed' = 0 then merged ed' = merged demo_run
     else \<exists>rgs. merged ed' = Some (concat rgs) \<and> length rgs = unat (episodeIndex ed') \<and>
       list_all (\<lambda>rows. \<exists>start. good_rows (cfg_Task demo_cfg) start rows) rgs \<and>
       (\<forall>i < unat (episodeIndex demo_run). map_of (files demo_run) (episode_file i) = Some (demo_pqw (rgs ! i))) \<and>
       (\<forall>i < unat (episodeIndex ed'). map_of (files ed') (episode_file i) = None))"
proof -
  have "Some (demo_pqw fs) = Some fs" for fs by (simp add: demo_pqw_def)
  from finalize_merges [OF demo_reach this, of concat] show ?thesis .
qed

text \<open>
  After a frame without joints inside an episode no movement is detected until the episode ends:
  the remembered goals are empty, every comparison with them says unchanged, and so they are not
  replaced.
\<close>

theorem goal_tracking_stuck:
  assumes "episodeMonotonicStart ed \<noteq> 0" and "lastGoals ed = []"
    and "ProcessFrame fid pqw now io frame ed = Ok ed'" and "episodeMonotonicStart ed' \<noteq> 0"
  shows "lastGoals ed' = [] \<and> commandsCnt ed' = commandsCnt ed \<and> lastMovementStamp ed' = lastMovementStamp ed"
proof (cases "fr_Images frame = []")
  case True
  with assms show ?thesis by (auto simp: ProcessFrame_def)
next
  case False
  define ed1 where "ed1 = buffer_or_skip fid frame (fr_MonotonicStampNs frame - episodeMonotonicStart ed) (track_commands frame ed)"
  have t: "track_commands frame ed = ed" using assms(2) by (simp add: track_commands_def hasCommandsChanged_iff)
  have "ed' = ed1 \<or> (\<exists>ed2. ed' = resetEpisode ed2)"
    using assms(3) unfolding ProcessFrame_in_episode [OF False assms(1)] Let_def ed1_def [symmetric]
    by (auto simp: gmap_Ok_iff split: if_splits)
  then have "ed' = ed1" using assms(4) by (auto simp: resetEpisode_def)
  then show ?thesis using assms(2) t by (simp add: ed1_def buffer_or_skip_def Let_def)
qed


theorem goal_tracking_stuck_witness:
  "\<exists>ed'. ProcessFrame (\<lambda>b. ''id'') demo_pqw 3 SaveOk (demo_frame 200 5)
      ((NewEpisodeDetector demo_cfg)\<lparr>episodeMonotonicStart := 100, lastMovementStamp := 100, commandsCnt := 1\<rparr>) = Ok ed' \<and>
    lastGoals ed' = [] \<and> commandsCnt ed' = 1 \<and> lastMovementStamp ed' = 100"
proof -
  let ?ed = "(NewEpisodeDetector demo_cfg)\<lparr>episodeMonotonicStart := 100, lastMovementStamp := 100, commandsCnt := 1\<rparr>"
  have "case ProcessFrame (\<lambda>b. ''id'') demo_pqw 3 SaveOk (demo_frame 200 5) ?ed of
      Ok ed' \<Rightarrow> episodeMonotonicStart ed' \<noteq> 0 | _ \<Rightarrow> False" by code_simp
  then obtain ed' where ed': "ProcessFrame (\<lambda>b. ''id'') demo_pqw 3 SaveOk (demo_frame 200 5) ?ed = Ok ed'"
      "episodeMonotonicStart ed' \<noteq> 0" by (auto split: gres.splits)
  from goal_tracking_stuck [OF _ _ this] show ?thesis
    using ed'(1) by (simp add: NewEpisodeDetector_def)
qed

end
