(* ===== verification/Ui_Model.thy ===== *)
theory Ui_Model
  imports Episodes
begin

text \<open>
  The terminal interface of the dataset generator,
  \<^verbatim>\<open>software/station/bin/dataset-generator/internal/ui\<close>: the state that \<^verbatim>\<open>Update\<close> keeps from the
  messages of the detector, the log lines it shows, and the log writer; \<open>Ui_View\<close> has the whole screen. The theorems relate
  the numbers on the screen to the detector's own, and say when rendering a log line panics.
\<close>

section \<open>The model and its updates\<close>

definition minLogLines :: int where "minLogLines = 3"

record Model =
  current :: nat
  framesProcessed :: u64
  framesSkipped :: u64
  framesSkipReason :: string
  episodeCount :: u64
  episodesDiscarded :: u64
  discardedReasons :: "string list"
  discardedFrameIds :: "string list"
  currentEpisodeIndex :: u64
  framesInEpisode :: int
  totalFramesSaved :: int
  m_episodeSkipReason :: string
  logs :: "(string \<times> string) list"
  ui_done :: bool
  err :: "string option"
  width :: int
  height :: int

definition NewModel :: "nat \<Rightarrow> Model" where
  "NewModel from =
     \<lparr>current = from, framesProcessed = 0, framesSkipped = 0, framesSkipReason = [], episodeCount = 0,
      episodesDiscarded = 0, discardedReasons = [], discardedFrameIds = [], currentEpisodeIndex = 0,
      framesInEpisode = 0, totalFramesSaved = 0, m_episodeSkipReason = [], logs = [], ui_done = False,
      err = None, width = 80, height = 24\<rparr>"

definition maxLogLines :: "Model \<Rightarrow> int" where
  "maxLogLines m =
     (let available = height m - 12 in if available < minLogLines then minLogLines else available)"

text \<open>The messages of the terminal library beside those of the generator, and the returned commands.\<close>

datatype tea_msg = KeyMsg string | WindowSizeMsg int int | Internal ui_msg

datatype tea_cmd = NoCmd | Quit | TickCmd

fun Update :: "tea_msg \<Rightarrow> Model \<Rightarrow> Model \<times> tea_cmd" where
  "Update (KeyMsg k) m =
     (if ui_done m then (m, Quit) else if k = ''ctrl+c'' \<or> k = ''q'' then (m, Quit) else (m, NoCmd))"
| "Update (WindowSizeMsg w h) m = (m\<lparr>width := w, height := h\<rparr>, NoCmd)"
| "Update (Internal TickMsg) m = (m, TickCmd)"
| "Update (Internal (ProgressMsg cur tot processed skipped reason)) m =
     (m\<lparr>current := cur, framesProcessed := processed, framesSkipped := skipped, framesSkipReason := reason\<rparr>, NoCmd)"
| "Update (Internal (EpisodeStartedMsg index)) m =
     (m\<lparr>currentEpisodeIndex := index, framesInEpisode := 0, m_episodeSkipReason := []\<rparr>, NoCmd)"
| "Update (Internal (EpisodeSkipMarkedMsg index reason)) m = (m\<lparr>m_episodeSkipReason := reason\<rparr>, NoCmd)"
| "Update (Internal (EpisodeSavedMsg index frames)) m =
     (m\<lparr>episodeCount := episodeCount m + 1, totalFramesSaved := totalFramesSaved m + int frames,
        framesInEpisode := 0, m_episodeSkipReason := []\<rparr>, NoCmd)"
| "Update (Internal (EpisodeDiscardedMsg index reason frameId)) m =
     (m\<lparr>episodesDiscarded := episodesDiscarded m + 1, discardedReasons := discardedReasons m @ [reason],
        discardedFrameIds := discardedFrameIds m @ [frameId], framesInEpisode := 0, m_episodeSkipReason := []\<rparr>, NoCmd)"
| "Update (Internal FrameBufferedMsg) m = (m\<lparr>framesInEpisode := framesInEpisode m + 1\<rparr>, NoCmd)"
| "Update (Internal (LogMsg level message)) m =
     (let m = m\<lparr>logs := logs m @ [(level, message)]\<rparr>; maxLogs = maxLogLines m
      in (if int (length (logs m)) > maxLogs
          then m\<lparr>logs := drop (nat (int (length (logs m)) - maxLogs)) (logs m)\<rparr> else m, NoCmd))"
| "Update (Internal (DoneMsg e)) m = (m\<lparr>ui_done := True, err := e\<rparr>, Quit)"

definition show_msgs :: "ui_msg list \<Rightarrow> Model \<Rightarrow> Model" where
  "show_msgs msgs m = fold (\<lambda>msg m. fst (Update (Internal msg) m)) msgs m"


section \<open>Rendering\<close>

text \<open>Slicing a string by bytes, \<^verbatim>\<open>s[:n]\<close>: a panic outside of the string.\<close>

definition str_prefix :: "string \<Rightarrow> int \<Rightarrow> (unit, string) gres" where
  "str_prefix s n = (if 0 \<le> n \<and> n \<le> int (length s) then Ok (take (nat n) s) else Panic)"

definition render_log :: "Model \<Rightarrow> string \<times> string \<Rightarrow> (unit, string) gres" where
  "render_log m = (\<lambda>(level, message).
     let maxLen = width m - 10 in
     gmap (\<lambda>msg. ''['' @ level @ ''] '' @ msg)
       (if maxLen > 0 \<and> int (length message) > maxLen
        then gmap (\<lambda>p. p @ ''...'') (str_prefix message (maxLen - 3))
        else Ok message))"

fun render_lines :: "Model \<Rightarrow> (string \<times> string) list \<Rightarrow> (unit, string list) gres" where
  "render_lines m [] = Ok []"
| "render_lines m (l # ls) = gbind (render_log m l) (\<lambda>s. gmap (\<lambda>ss. s # ss) (render_lines m ls))"

definition renderLogs :: "Model \<Rightarrow> (unit, string list) gres" where
  "renderLogs m =
     (if logs m = [] then Ok [''(no logs yet)'']
      else let maxLogs = maxLogLines m;
               ls = (if int (length (logs m)) > maxLogs
                     then drop (nat (int (length (logs m)) - maxLogs)) (logs m) else logs m)
           in render_lines m ls)"

definition two_digits :: "nat \<Rightarrow> string" where
  "two_digits n = (if n < 10 then ''0'' @ fmt_d n else fmt_d n)"

text \<open>Of a non-negative duration in nanoseconds; below a thousand hours the float operations of the source are exact enough
  to give these whole numbers.\<close>

definition formatDuration :: "nat \<Rightarrow> string" where
  "formatDuration d =
     (let h = d div 3600000000000; m = d div 60000000000 mod 60; s = d div 1000000000 mod 60
      in two_digits h @ '':'' @ two_digits m @ '':'' @ two_digits s)"

text \<open>The task in the parameter line, cut to 50 bytes.\<close>

definition short_task :: "string \<Rightarrow> (unit, string) gres" where
  "short_task t = (if length t > 50 then gmap (\<lambda>p. p @ ''...'') (str_prefix t 47) else Ok t)"


section \<open>The log writer\<close>

fun is_prefix_of :: "string \<Rightarrow> string \<Rightarrow> bool" where
  "is_prefix_of [] ys = True"
| "is_prefix_of (x # xs) [] = False"
| "is_prefix_of (x # xs) (y # ys) = (x = y \<and> is_prefix_of xs ys)"

text \<open>\<^verbatim>\<open>strings.Index\<close>, with \<open>None\<close> for -1.\<close>

fun str_index :: "string \<Rightarrow> string \<Rightarrow> nat option" where
  "str_index s sub = (if is_prefix_of sub s then Some 0
     else case s of [] \<Rightarrow> None | c # s' \<Rightarrow> map_option Suc (str_index s' sub))"

declare str_index.simps [simp del]

definition str_contains :: "string \<Rightarrow> string \<Rightarrow> bool" where
  "str_contains s sub \<longleftrightarrow> str_index s sub \<noteq> None"

definition quoted :: "string \<Rightarrow> string" where
  "quoted s = char_of (34 :: nat) # s @ [char_of (34 :: nat)]"

definition log_Write :: "string \<Rightarrow> ui_msg" where
  "log_Write p =
     (let line = (if p \<noteq> [] \<and> last p = char_of (10 :: nat) then butlast p else p);
          level = (if str_contains line (quoted ''level'') then
                     (if str_contains line (quoted ''warn'') \<or> str_contains line (quoted ''warning'') then ''WRN''
                      else if str_contains line (quoted ''error'') then ''ERR''
                      else if str_contains line (quoted ''debug'') then ''DBG'' else ''INF'')
                   else ''INF'');
          key = quoted ''message'' @ '':'' @ [char_of (34 :: nat)];
          message = (case str_index line key of
              None \<Rightarrow> line
            | Some idx \<Rightarrow> (let start = idx + 11 in
                case str_index (drop start line) [char_of (34 :: nat)] of
                  None \<Rightarrow> line
                | Some e \<Rightarrow> take e (drop start line)))
      in LogMsg level message)"



section \<open>The numbers on the screen\<close>

lemma show_msgs_append [simp]: "show_msgs (ms @ ms') m = show_msgs ms' (show_msgs ms m)"
  by (simp add: show_msgs_def)

lemma show_msgs_Cons [simp]: "show_msgs (x # ms) m = show_msgs ms (fst (Update (Internal x) m))"
  by (simp add: show_msgs_def)

lemma show_msgs_Nil [simp]: "show_msgs [] m = m"
  by (simp add: show_msgs_def)

text \<open>What the screen shows of a detector that has a program attached.\<close>

definition screen :: "'f detector \<Rightarrow> Model" where
  "screen ed = show_msgs (sent ed) (NewModel 0)"

definition screen_ok :: "'f detector \<Rightarrow> bool" where
  "screen_ok ed \<longleftrightarrow>
     episodeCount (screen ed) = EpisodesSaved (stats ed) \<and>
     episodesDiscarded (screen ed) = EpisodesDiscarded (stats ed) \<and>
     of_int (totalFramesSaved (screen ed)) = TotalFramesSaved (stats ed) \<and>
     (episodeMonotonicStart ed \<noteq> 0 \<longrightarrow> framesInEpisode (screen ed) = int (length (buffer ed)) - 1)"

lemma screen_send:
  "screen (send m ed) = (if program ed then fst (Update (Internal m) (screen ed)) else screen ed)"
  by (simp add: screen_def send_def)

lemma screen_cong: "sent ed' = sent ed \<Longrightarrow> screen ed' = screen ed"
  by (simp add: screen_def)

lemma screen_bufferFrame:
  "program ed \<Longrightarrow> screen (bufferFrame frame st ed) = (screen ed)\<lparr>framesInEpisode := framesInEpisode (screen ed) + 1\<rparr>"
  by (simp add: bufferFrame_def Let_def screen_send screen_cong [of "ed\<lparr>buffer := _\<rparr>" ed])

lemma screen_checkGap:
  "\<exists>r. screen (checkGap fid frame st ed) = (screen ed)\<lparr>m_episodeSkipReason := r\<rparr>"
  by (auto simp: checkGap_def markEpisodeSkip_def Let_def screen_send screen_cong [of "ed\<lparr>episodeSkipReason := _, episodeSkipFrameId := _\<rparr>" ed]
      intro: exI [of _ "m_episodeSkipReason (screen ed)"])

lemma screen_buffer_or_skip:
  assumes "program ed" and "screen_ok ed" and "episodeMonotonicStart ed \<noteq> 0"
  shows "screen_ok (buffer_or_skip fid frame st (track_commands frame ed))"
proof -
  have t: "screen (track_commands frame ed) = screen ed" by (rule screen_cong) simp
  obtain r where r: "screen (checkGap fid frame st (track_commands frame ed)) = (screen ed)\<lparr>m_episodeSkipReason := r\<rparr>"
    using screen_checkGap [of fid frame st "track_commands frame ed"] t by auto
  have "program (checkGap fid frame st (track_commands frame ed))" using assms(1) by simp
  note b = screen_bufferFrame [OF this, of frame st]
  obtain f where "buffer (bufferFrame frame st (checkGap fid frame st (track_commands frame ed))) = buffer ed @ [f]"
    using bufferFrame_buffer [of frame st "checkGap fid frame st (track_commands frame ed)"] by auto
  then show ?thesis
    using assms(2,3) r b by (auto simp: screen_ok_def buffer_or_skip_def Let_def)
qed

lemma screen_trySave:
  assumes "program ed" and "screen_ok ed" and "trySaveCurrentEpisode fid pqw io ed = Ok ed'"
  shows "screen_ok (resetEpisode ed')"
  using assms by (auto simp: screen_ok_def screen_def trySaveCurrentEpisode_def Let_def send_def discard_def resetEpisode_def
      split: if_splits save_io.splits)

lemma trySave_program: "trySaveCurrentEpisode fid pqw io ed = Ok ed' \<Longrightarrow> program ed' = program ed"
  by (auto simp: trySaveCurrentEpisode_def Let_def split: if_splits save_io.splits)

lemma ProcessFrame_screen:
  assumes "program ed" and "screen_ok ed" and step: "ProcessFrame fid pqw now io frame ed = Ok ed'"
  shows "screen_ok ed' \<and> program ed'"
proof -
  consider "fr_Images frame = []" | "fr_Images frame \<noteq> []" "episodeMonotonicStart ed = 0"
    | "fr_Images frame \<noteq> []" "episodeMonotonicStart ed \<noteq> 0" by blast
  then show ?thesis
  proof cases
    case 1
    then show ?thesis using assms by (auto simp: ProcessFrame_def screen_ok_def screen_def)
  next
    case 2
    then have ed': "ed' = updateGoalTracking (current_goals frame)
        (if hasCommandsChanged ed (current_goals frame) then startNewEpisode now frame ed else ed)"
      using step by (simp add: ProcessFrame_def)
    show ?thesis
      unfolding ed' using assms(1,2) 2
      by (auto simp: screen_ok_def screen_def startNewEpisode_def bufferFrame_def Let_def send_def updateGoalTracking_def)
  next
    case 3
    define ed1 where "ed1 = buffer_or_skip fid frame (fr_MonotonicStampNs frame - episodeMonotonicStart ed) (track_commands frame ed)"
    have ed1: "screen_ok ed1" "program ed1"
      unfolding ed1_def using assms(1,2) 3 by (simp_all add: screen_buffer_or_skip)
    from step [unfolded ProcessFrame_in_episode [OF 3] Let_def, folded ed1_def]
    consider ed2 where "trySaveCurrentEpisode fid pqw io ed1 = Ok ed2" "ed' = resetEpisode ed2" | "ed' = ed1"
      by (auto simp: gmap_Ok_iff split: if_splits)
    then show ?thesis
    proof cases
      case 1
      then show ?thesis using screen_trySave [OF ed1(2,1) 1(1)] trySave_program [OF 1(1)] ed1(2)
        by (simp add: resetEpisode_def)
    qed (use ed1 in simp)
  qed
qed

text \<open>
  C20. The screen shows the detector's numbers: with a program attached, the counts of saved and
  discarded episodes and of saved frames that the interface keeps from the messages are the
  detector's statistics; the count of frames in the current episode is one too low, because the
  first frame is announced before the episode is.
\<close>

theorem screen_agrees:
  assumes "detector_reach fid pqw P cfg ed" and "cfg_Program cfg"
  shows "episodeCount (screen ed) = EpisodesSaved (stats ed) \<and>
    episodesDiscarded (screen ed) = EpisodesDiscarded (stats ed) \<and>
    of_int (totalFramesSaved (screen ed)) = TotalFramesSaved (stats ed) \<and>
    (episodeMonotonicStart ed \<noteq> 0 \<longrightarrow> framesInEpisode (screen ed) = int (length (buffer ed)) - 1)"
proof -
  from assms(1) have "screen_ok ed \<and> program ed"
  proof (induction rule: detector_reach.induct)
    case reach_new
    show ?case using assms(2) by (simp add: screen_ok_def screen_def NewEpisodeDetector_def NewModel_def)
  next
    case (reach_step ed io frame now ed')
    then show ?case using ProcessFrame_screen by blast
  qed
  then show ?thesis by (simp add: screen_ok_def)
qed

theorem screen_agrees_witness:
  "episodeCount (screen demo_run) = EpisodesSaved (stats demo_run) \<and>
    episodesDiscarded (screen demo_run) = EpisodesDiscarded (stats demo_run) \<and>
    of_int (totalFramesSaved (screen demo_run)) = TotalFramesSaved (stats demo_run)"
  using screen_agrees [OF demo_reach] by (simp add: demo_cfg_def)


section \<open>Log lines\<close>

text \<open>
  Rendering a log line panics exactly when the terminal is 11 or 12 columns wide and the message is
  longer than the 1 or 2 columns left for it: the slice for the cut message then has a negative
  bound.
\<close>

theorem render_log_panics_iff:
  "render_log m (level, message) = Panic \<longleftrightarrow> (width m = 11 \<or> width m = 12) \<and> int (length message) > width m - 10"
  by (auto simp: render_log_def Let_def str_prefix_def)

text \<open>
  However many log messages arrive, the model keeps at most as many lines as the window shows,
  and always the newest.
\<close>

theorem logs_bounded:
  "let m' = fst (Update (Internal (LogMsg level message)) m) in
   int (length (logs m')) \<le> maxLogLines m' \<and> logs m' \<noteq> [] \<and> last (logs m') = (level, message) \<and>
   (\<exists>k. logs m' = drop k (logs m @ [(level, message)]))"
proof -
  have pos: "3 \<le> maxLogLines m" by (simp add: maxLogLines_def minLogLines_def Let_def)
  have same: "maxLogLines (m\<lparr>logs := ls\<rparr>) = maxLogLines m" for ls by (simp add: maxLogLines_def)
  let ?ls = "logs m @ [(level, message)]"
  show ?thesis
  proof (cases "int (length ?ls) > maxLogLines m")
    case True
    define k where "k = nat (int (length ?ls) - maxLogLines m)"
    have k: "k \<le> length (logs m)" "int (length ?ls) - int k \<le> maxLogLines m" using True pos by (auto simp: k_def)
    have "fst (Update (Internal (LogMsg level message)) m) = m\<lparr>logs := drop k ?ls\<rparr>"
      using True by (simp add: Let_def same k_def del: drop_append)
    then show ?thesis using k pos by (auto simp: same Let_def intro: exI [of _ k])
  next
    case False
    then show ?thesis by (auto simp: same Let_def intro: exI [of _ 0])
  qed
qed

text \<open>
  The list of discarded episodes in the summary never runs out of frame ids: every update keeps
  as many ids as reasons.
\<close>

theorem discarded_ids_match:
  "length (discardedFrameIds (show_msgs msgs (NewModel from))) = length (discardedReasons (show_msgs msgs (NewModel from)))"
proof (induction msgs rule: rev_induct)
  case (snoc x msgs)
  then show ?case by (cases x) (simp_all add: Let_def)
qed (simp add: NewModel_def)

end
