(* ===== verification/Ui_View.thy ===== *)
theory Ui_View
  imports Ui_Model Go_Time
begin

text \<open>
  What the terminal interface of the dataset generator draws: \<^verbatim>\<open>View\<close> of \<^verbatim>\<open>internal/ui/model.go\<close> with its parts,
  and the summary printed at the end. The styles of the \<^verbatim>\<open>lipgloss\<close> package and the progress of the \<^verbatim>\<open>uintn\<close>
  package are arguments; the parameters and the elapsed time, which the model keeps from its creation on, are
  arguments too. Texts are byte strings, so a box character is three bytes.
\<close>

section \<open>The parts of the screen\<close>

record Params =
  p_Robot :: string
  p_Queue :: string
  p_Task :: string
  p_Duration :: int
  p_Output :: string
  p_From :: nat
  p_To :: nat

record view_env =
  ve_Render :: "string \<Rightarrow> string \<Rightarrow> string"
  ve_Progress :: "nat \<Rightarrow> nat \<Rightarrow> nat \<Rightarrow> f64"
  ve_String :: "nat \<Rightarrow> string"

text \<open>\<^verbatim>\<open>strings.Repeat\<close> panics on a negative count.\<close>

definition Repeat :: "string \<Rightarrow> int \<Rightarrow> (unit, string) gres" where
  "Repeat s n = (if n < 0 then Panic else Ok (concat (replicate (nat n) s)))"

definition full_block :: string where "full_block = [CHR 0xE2, CHR 0x96, CHR 0x88]"

definition light_shade :: string where "light_shade = [CHR 0xE2, CHR 0x96, CHR 0x91]"

definition horizontal :: string where "horizontal = [CHR 0xE2, CHR 0x94, CHR 0x80]"

text \<open>The product of a non-negative integer and a float, and the conversion of a float to an integer.\<close>

definition f64_times :: "int \<Rightarrow> f64 \<Rightarrow> f64" where
  "f64_times v x = (f64_div (v * fmant x) (f64_lit 1 (- fexp x)))\<lparr>fneg := fneg x\<rparr>"

definition f64_trunc :: "f64 \<Rightarrow> int" where
  "f64_trunc x = (if fneg x then - (f64_num x div f64_den x) else f64_num x div f64_den x)"

text \<open>The verb \<^verbatim>\<open>%5.1f\<close>.\<close>

definition pad_space :: "nat \<Rightarrow> string \<Rightarrow> string" where
  "pad_space w s = replicate (w - length s) CHR '' '' @ s"

definition bar_width :: "view_env \<Rightarrow> Params \<Rightarrow> Model \<Rightarrow> int" where
  "bar_width env params m =
     (let fixedWidth = 22 + int (length (ve_String env (current m))) + int (length (ve_String env (p_To params)));
          barWidth = width m - fixedWidth in
      if barWidth < 10 then 10 else barWidth)"

definition renderProgress :: "view_env \<Rightarrow> Params \<Rightarrow> Model \<Rightarrow> (unit, string) gres" where
  "renderProgress env params m =
     (let progress = ve_Progress env (current m) (p_From params) (p_To params);
          percent = f64_times 100 progress;
          barWidth = bar_width env params m;
          filled = f64_trunc (f64_times barWidth progress);
          rest = barWidth - filled in
      gbind (Repeat full_block filled) (\<lambda>b1.
      gbind (Repeat light_shade rest) (\<lambda>b2.
      Ok (''Progress: ['' @ ve_Render env ''progressBarStyle'' b1 @ ve_Render env ''progressEmptyStyle'' b2 @ ''] '' @
          pad_space 5 (fmt_f 1 percent) @ ''%  '' @ ve_String env (current m) @ ''/'' @ ve_String env (p_To params)))))"

text \<open>The rate of frames over a positive time; counts are below 2 to the 53.\<close>

definition frame_rate :: "u64 \<Rightarrow> int \<Rightarrow> f64" where
  "frame_rate frames elapsed =
     (if elapsed > 0 \<and> frames > 0 then f64_div (uint frames) (Seconds elapsed) else f64_zero)"

definition renderStats :: "view_env \<Rightarrow> int \<Rightarrow> Model \<Rightarrow> string" where
  "renderStats env elapsed m =
     (let episodeStatus = (if m_episodeSkipReason m \<noteq> [] then ''skip: '' @ m_episodeSkipReason m else ''working'');
          episodeLine = ''Episode: #'' @ fmt_d (unat (currentEpisodeIndex m)) @ '' ('' @ episodeStatus @ '')    Frames in episode: '' @
            fmt_int (framesInEpisode m) @ ''    Total saved: '' @ fmt_int (totalFramesSaved m);
          rateLine = ''Rate: '' @ fmt_f 0 (frame_rate (framesProcessed m) elapsed) @ '' frames/sec   Elapsed: '' @
            formatDuration (nat elapsed) @ ''   Episodes saved: '' @ fmt_d (unat (episodeCount m)) @ ''   Episodes discarded: '' @
            fmt_d (unat (episodesDiscarded m)) @ ''   Frames processed: '' @ fmt_d (unat (framesProcessed m)) in
      ve_Render env ''statsStyle'' (episodeLine @ CHR 0x0A # rateLine))"

definition renderParams :: "view_env \<Rightarrow> Params \<Rightarrow> (unit, string) gres" where
  "renderParams env params =
     gmap (\<lambda>task.
       let line1 = ''Robot: '' @ p_Robot params @ ''    Queue: '' @ p_Queue params @ ''    Duration: '' @ Duration_String (p_Duration params);
           line2 = ''Output: '' @ p_Output params @ ''    Task: '' @ task in
       ve_Render env ''paramsStyle'' (line1 @ CHR 0x0A # line2))
     (short_task (p_Task params))"

definition log_style :: "string \<Rightarrow> string" where
  "log_style level =
     (if level = ''WRN'' \<or> level = ''WARN'' then ''logWarnStyle''
      else if level = ''ERR'' \<or> level = ''ERROR'' then ''logErrorStyle'' else ''logInfoStyle'')"

fun styled_lines :: "view_env \<Rightarrow> Model \<Rightarrow> (string \<times> string) list \<Rightarrow> (unit, string list) gres" where
  "styled_lines env m [] = Ok []"
| "styled_lines env m (l # ls) =
     gbind (render_log m l) (\<lambda>s. gmap (\<lambda>ss. ve_Render env (log_style (fst l)) s # ss) (styled_lines env m ls))"

definition shown_logs :: "Model \<Rightarrow> (string \<times> string) list" where
  "shown_logs m =
     (if int (length (logs m)) > maxLogLines m then drop (nat (int (length (logs m)) - maxLogLines m)) (logs m) else logs m)"

definition view_logs :: "view_env \<Rightarrow> Model \<Rightarrow> (unit, string) gres" where
  "view_logs env m =
     (if logs m = [] then Ok (ve_Render env ''paramsStyle'' ''(no logs yet)'')
      else gmap (join_on (CHR 0x0A)) (styled_lines env m (shown_logs m)))"

definition renderSeparator :: "view_env \<Rightarrow> Model \<Rightarrow> (unit, string) gres" where
  "renderSeparator env m = gmap (ve_Render env ''separatorStyle'') (Repeat horizontal (width m))"

definition View :: "view_env \<Rightarrow> Params \<Rightarrow> int \<Rightarrow> Model \<Rightarrow> (unit, string) gres" where
  "View env params elapsed m =
     gbind (renderProgress env params m) (\<lambda>progress.
     gbind (renderSeparator env m) (\<lambda>sep1.
     gbind (Ok (renderStats env elapsed m)) (\<lambda>stats.
     gbind (renderSeparator env m) (\<lambda>sep2.
     gbind (renderParams env params) (\<lambda>ps.
     gbind (renderSeparator env m) (\<lambda>sep3.
     gbind (view_logs env m) (\<lambda>ls.
     Ok (concat (map (\<lambda>s. s @ [CHR 0x0A]) [progress, sep1, stats, sep2, ps, sep3]) @ ls @
       (if ui_done m then
          CHR 0x0A # (case err m of
            Some e \<Rightarrow> ve_Render env ''logErrorStyle'' (''Error: '' @ e)
          | None \<Rightarrow> ve_Render env ''titleStyle'' ''Processing complete!'')
        else [])))))))))"


section \<open>The summary\<close>

definition str_index_at :: "string list \<Rightarrow> nat \<Rightarrow> (unit, string) gres" where
  "str_index_at xs i = (if i < length xs then Ok (xs ! i) else Panic)"

fun reason_lines :: "Model \<Rightarrow> nat \<Rightarrow> string list \<Rightarrow> (unit, string list) gres" where
  "reason_lines m i [] = Ok []"
| "reason_lines m i (reason # rs) =
     gbind (str_index_at (discardedFrameIds m) i) (\<lambda>frame.
     gmap (\<lambda>ls. (''- Frame '' @ frame @ '': '' @ reason) # ls) (reason_lines m (i + 1) rs))"

definition check_mark :: string where "check_mark = [CHR 0xE2, CHR 0x9C, CHR 0x85]"

definition cross_mark :: string where "cross_mark = [CHR 0xE2, CHR 0x9D, CHR 0x8C]"

definition warn_mark :: string where "warn_mark = [CHR 0xE2, CHR 0x9A, CHR 0xA0, CHR 0xEF, CHR 0xB8, CHR 0x8F]"

text \<open>The printed lines, without their line breaks.\<close>

definition PrintSummary :: "view_env \<Rightarrow> Params \<Rightarrow> int \<Rightarrow> Model \<Rightarrow> (unit, string list) gres" where
  "PrintSummary env params elapsed m =
     (case err m of
        Some e \<Rightarrow> Ok [[], cross_mark @ '' Processing failed: '' @ e, []]
      | None \<Rightarrow>
          gbind (if length (discardedReasons m) > 0
                 then gmap (\<lambda>ls. ''Discarded reasons:'' # ls) (reason_lines m 0 (discardedReasons m)) else Ok []) (\<lambda>reasons.
          Ok ([[], check_mark @ '' Processing complete!'', [],
               ''Progress: 100% - '' @ ve_String env (p_To params) @ ''/'' @ ve_String env (p_To params),
               ''Episodes saved: '' @ fmt_d (unat (episodeCount m)), ''Episodes discarded: '' @ fmt_d (unat (episodesDiscarded m))] @
              reasons @
              [''Total frames saved: '' @ fmt_int (totalFramesSaved m), ''Frames processed: '' @ fmt_d (unat (framesProcessed m))] @
              (if framesSkipped m > 0 then
                 [warn_mark @ ''  Frames skipped: '' @ fmt_d (unat (framesSkipped m)) @
                  (if framesSkipReason m \<noteq> [] then '' ('' @ framesSkipReason m @ '')'' else [])]
               else []) @
              [''Rate: '' @ fmt_f 0 (frame_rate (framesProcessed m) elapsed) @ '' frames/sec'',
               ''Elapsed: '' @ formatDuration (nat elapsed), ''Output: '' @ p_Output params, ''Task: '' @ p_Task params, []])))"


section \<open>When drawing panics\<close>

lemma round_even_le:
  assumes "0 < d" and "n \<le> q * d"
  shows "round_even n d \<le> q"
proof -
  have "n div d \<le> q" using zdiv_mono1 [OF assms(2,1)] assms(1) by simp
  moreover have "n div d < q" if "0 < n mod d"
  proof -
    have "n div d * d < n" using that by (metis add.commute add_less_cancel_left div_mult_mod_eq less_add_same_cancel2)
    then have "n div d * d < q * d" using assms(2) by linarith
    then show ?thesis using assms(1) by simp
  qed
  ultimately show ?thesis using assms(1) by (auto simp: round_even_def Let_def)
qed

text \<open>A fraction fills part of the bar, rounding included.\<close>

definition fraction :: "f64 \<Rightarrow> bool" where
  "fraction p \<longleftrightarrow> \<not> fneg p \<and> 0 \<le> fmant p \<and> f64_num p \<le> f64_den p"

lemma filled_bounds:
  assumes "fraction p" and "0 \<le> v"
  shows "0 \<le> f64_trunc (f64_times v p) \<and> f64_trunc (f64_times v p) \<le> v"
proof (cases "v * fmant p = 0")
  case True
  then show ?thesis using assms by (simp add: f64_times_def f64_div_def f64_trunc_def f64_zero_def f64_num_def fraction_def)
next
  case False
  define k where "k = norm_shift (v * f64_num p) (f64_den p) 0"
  define R where "R = round_even (v * f64_num p * 2 ^ k) (f64_den p)"
  have "0 \<le> v * fmant p" using assms by (simp add: fraction_def)
  then have t: "f64_trunc (f64_times v p) = R div 2 ^ k"
    using False assms(1) by (simp add: f64_times_def f64_div_def f64_lit_def Let_def f64_trunc_def f64_num_def f64_den_def R_def k_def
      fraction_def mult.assoc)
  have num: "0 \<le> f64_num p" "f64_num p \<le> f64_den p" using assms(1) by (simp_all add: fraction_def f64_num_def)
  have "v * f64_num p * 2 ^ k \<le> (v * 2 ^ k) * f64_den p" using num assms(2) by (simp add: mult_left_mono mult_ac)
  then have "R \<le> v * 2 ^ k" unfolding R_def by (rule round_even_le [OF f64_den_pos])
  then have "R div 2 ^ k \<le> v * 2 ^ k div 2 ^ k" by (intro zdiv_mono1) simp_all
  moreover have "0 \<le> R" unfolding R_def using num assms(2) by (intro round_even_nonneg) simp_all
  ultimately show ?thesis unfolding t by (simp add: pos_imp_zdiv_nonneg_iff)
qed

lemma renderProgress_returns:
  assumes "fraction (ve_Progress env (current m) (p_From params) (p_To params))"
  shows "\<exists>s. renderProgress env params m = Ok s"
proof -
  have "0 \<le> bar_width env params m" by (simp add: bar_width_def Let_def)
  from filled_bounds [OF assms this] show ?thesis by (simp add: renderProgress_def Let_def Repeat_def)
qed

definition overlong :: "Model \<Rightarrow> string \<times> string \<Rightarrow> bool" where
  "overlong m l \<longleftrightarrow> width m \<in> {11, 12} \<and> int (length (snd l)) > width m - 10"

lemma render_log_result: "0 \<le> width m \<Longrightarrow> if overlong m l then render_log m l = Panic else (\<exists>s. render_log m l = Ok s)"
  by (cases l) (auto simp: render_log_def overlong_def str_prefix_def Let_def)

lemma styled_lines_result:
  assumes "0 \<le> width m"
  shows "if list_ex (overlong m) ls then styled_lines env m ls = Panic else (\<exists>ss. styled_lines env m ls = Ok ss)"
proof (induction ls)
  case (Cons l ls)
  with render_log_result [OF assms, of l] show ?case by (auto split: if_splits)
qed simp

text \<open>
  C21. Drawing the screen: for a progress between 0 and 1 and a window of any size, the view returns a text,
  except in one case: a window of 11 or 12 columns with a shown log message longer than the width less ten
  makes the program panic.
\<close>

theorem view_panics_iff:
  assumes "fraction (ve_Progress env (current m) (p_From params) (p_To params))" and "0 \<le> width m"
  shows "if width m \<in> {11, 12} \<and> (\<exists>(level, message) \<in> set (shown_logs m). int (length message) > width m - 10)
    then View env params elapsed m = Panic else (\<exists>s. View env params elapsed m = Ok s)"
proof -
  obtain p where p: "renderProgress env params m = Ok p" using renderProgress_returns [OF assms(1)] by blast
  have sep: "renderSeparator env m = Ok (ve_Render env ''separatorStyle'' (concat (replicate (nat (width m)) horizontal)))"
    using assms(2) by (simp add: renderSeparator_def Repeat_def)
  obtain task where "short_task (p_Task params) = Ok task" by (cases "length (p_Task params) > 50") (auto simp: short_task_def str_prefix_def)
  then obtain ps where ps: "renderParams env params = Ok ps" by (simp add: renderParams_def)
  have empty: "logs m = [] \<Longrightarrow> shown_logs m = []" by (simp add: shown_logs_def)
  have "list_ex (overlong m) (shown_logs m) \<longleftrightarrow>
      width m \<in> {11, 12} \<and> (\<exists>(level, message) \<in> set (shown_logs m). int (length message) > width m - 10)"
    by (auto simp: list_ex_iff overlong_def case_prod_unfold)
  with styled_lines_result [OF assms(2), of "shown_logs m" env] empty show ?thesis
    unfolding View_def p sep ps gbind.simps view_logs_def by (auto split: if_splits)
qed

definition plain_env :: view_env where
  "plain_env = \<lparr>ve_Render = (\<lambda>_ s. s), ve_Progress = (\<lambda>c f t. f64_lit 1 (- 1)), ve_String = fmt_d\<rparr>"

definition ex_params :: Params where
  "ex_params = \<lparr>p_Robot = ''arm'', p_Queue = ''q'', p_Task = ''pick'', p_Duration = 45000000000, p_Output = ''out'', p_From = 1, p_To = 9\<rparr>"

theorem view_panics_iff_witness:
  "View plain_env ex_params 0 ((NewModel 1)\<lparr>width := 12, logs := [(''INF'', ''Connected to station'')]\<rparr>) = Panic \<and>
    (\<exists>s. View plain_env ex_params 0 ((NewModel 1)\<lparr>logs := [(''INF'', ''Connected to station'')]\<rparr>) = Ok s)"
proof -
  have "fraction (ve_Progress plain_env (current (NewModel 1)) (p_From ex_params) (p_To ex_params))" by code_simp
  then show ?thesis
    using view_panics_iff [of plain_env "(NewModel 1)\<lparr>width := 12, logs := [(''INF'', ''Connected to station'')]\<rparr>" ex_params 0]
      view_panics_iff [of plain_env "(NewModel 1)\<lparr>logs := [(''INF'', ''Connected to station'')]\<rparr>" ex_params 0]
    by (auto simp: shown_logs_def maxLogLines_def minLogLines_def NewModel_def split: if_splits)
qed


section \<open>The summary is always printed\<close>

definition reasons_paired :: "Model \<Rightarrow> bool" where
  "reasons_paired m \<longleftrightarrow> length (discardedReasons m) = length (discardedFrameIds m)"

lemma Update_paired: "reasons_paired m \<Longrightarrow> reasons_paired (fst (Update msg m))"
  by (cases "(msg, m)" rule: Update.cases) (auto simp: reasons_paired_def Let_def)

lemma reason_lines_returns: "i + length rs \<le> length (discardedFrameIds m) \<Longrightarrow> \<exists>ls. reason_lines m i rs = Ok ls \<and> length ls = length rs"
proof (induction rs arbitrary: i)
  case (Cons r rs)
  from Cons.IH [of "i + 1"] Cons.prems show ?case by (auto simp: str_index_at_def)
qed simp

lemma PrintSummary_returns: "reasons_paired m \<Longrightarrow> \<exists>ls. PrintSummary env params elapsed m = Ok ls"
  using reason_lines_returns [of 0 "discardedReasons m" m] by (auto simp: PrintSummary_def reasons_paired_def split: option.split)
end
