(* ===== verification/Queue_Bounds.thy ===== *)
theory Queue_Bounds
  imports Go_Base
begin

text \<open>
  How the dataset generator finds the range of frames to read,
  \<^verbatim>\<open>dataset-generator/internal/bounds.go\<close>: the pointers of the target queue are looked up in the
  inference states near the given positions, forward for the first and backward for the last.

  The station client, the generated reader of an inference state and the \<^verbatim>\<open>uintn\<close> package are
  parameters: a read returns the entries and whether the stream ended with an error, a
  position is a natural number, and its arithmetic may fail. The two goroutines write
  different variables and share none, so their effects are those of running one after the
  other. The loops take fuel.
\<close>

section \<open>The searches\<close>

type_synonym entry = "nat \<times> bytes"

record bounds_env =
  ReadFromOffset :: "string \<Rightarrow> nat \<Rightarrow> nat \<Rightarrow> entry list \<times> bool"
  rx_entries :: "bytes \<Rightarrow> (string \<times> bytes) list option"
  FromLEBytes :: "bytes \<Rightarrow> nat option"
  uintn_add :: "nat \<Rightarrow> nat \<Rightarrow> nat option"
  uintn_sub :: "nat \<Rightarrow> nat \<Rightarrow> nat option"
  nil_IsZero :: "(unit, bool) gres"

datatype bounds_err = ReadFailed | BadPointer | NotFound | NoEntries | IncrementFailed

definition InferenceStatesQueue :: string where "InferenceStatesQueue = ''inference-states''"

definition searchStep :: nat where "searchStep = 10000"

record QueueBounds =
  qb_From :: nat
  qb_To :: nat

definition queueMatchesByPostfix :: "string \<Rightarrow> string \<Rightarrow> bool" where
  "queueMatchesByPostfix queueName targetQueue =
     (if queueName = targetQueue then True
      else let suffix = ''/'' @ targetQueue in
        if length queueName > length suffix \<and> drop (length queueName - length suffix) queueName = suffix
        then True else False)"

text \<open>The loop over the entries of one inference state: the pointer of the first match.\<close>

fun first_match :: "bounds_env \<Rightarrow> string \<Rightarrow> (string \<times> bytes) list \<Rightarrow> nat option option" where
  "first_match env targetQueue [] = None"
| "first_match env targetQueue ((queueName, p) # es) =
     (if queueMatchesByPostfix queueName targetQueue then Some (FromLEBytes env p)
      else first_match env targetQueue es)"

text \<open>What one entry of the queue contributes: nothing, a pointer, or one that does not parse.\<close>

definition entry_match :: "bounds_env \<Rightarrow> string \<Rightarrow> bytes \<Rightarrow> nat option option" where
  "entry_match env targetQueue d =
     (case rx_entries env d of None \<Rightarrow> None | Some es \<Rightarrow> first_match env targetQueue es)"

definition tryFindQueueAtPtr :: "bounds_env \<Rightarrow> nat \<Rightarrow> string \<Rightarrow> (bounds_err, nat option) gres" where
  "tryFindQueueAtPtr env inferencePtr targetQueue =
     (case ReadFromOffset env InferenceStatesQueue inferencePtr 1 of
        ([], e) \<Rightarrow> if e then Err ReadFailed else Ok None
      | ((i, d) # _, e) \<Rightarrow>
          (case entry_match env targetQueue d of
             None \<Rightarrow> Ok None
           | Some None \<Rightarrow> Err BadPointer
           | Some (Some ptr) \<Rightarrow> Ok (Some ptr)))"

text \<open>The loop over a batch, forward: the first match ends it.\<close>

fun scan_forward :: "bounds_env \<Rightarrow> string \<Rightarrow> entry list \<Rightarrow> nat option option" where
  "scan_forward env targetQueue [] = None"
| "scan_forward env targetQueue ((i, d) # es) =
     (case entry_match env targetQueue d of None \<Rightarrow> scan_forward env targetQueue es | Some r \<Rightarrow> Some r)"

fun searchForwardForQueue :: "nat \<Rightarrow> bounds_env \<Rightarrow> nat \<Rightarrow> nat \<Rightarrow> string \<Rightarrow> (bounds_err, nat) gres" where
  "searchForwardForQueue 0 env currentPtr endPtr targetQueue = OutOfFuel"
| "searchForwardForQueue (Suc fuel) env currentPtr endPtr targetQueue =
     (if currentPtr > endPtr \<or> currentPtr = endPtr then Err NotFound
      else case ReadFromOffset env InferenceStatesQueue currentPtr searchStep of
        (es, e) \<Rightarrow>
          (case scan_forward env targetQueue es of
             Some None \<Rightarrow> Err BadPointer
           | Some (Some ptr) \<Rightarrow> Ok ptr
           | None \<Rightarrow>
               if e then Err ReadFailed
               else if es = [] then Err NoEntries
               else (case uintn_add env (fst (last es)) 1 of
                   None \<Rightarrow> Err IncrementFailed
                 | Some currentPtr \<Rightarrow> searchForwardForQueue fuel env currentPtr endPtr targetQueue)))"

text \<open>The loop over a batch, backward: entries up to the current position, keeping the last match
  whose pointer parses, and the last entry seen.\<close>

fun last_match :: "bounds_env \<Rightarrow> string \<Rightarrow> (string \<times> bytes) list \<Rightarrow> nat option \<Rightarrow> nat option" where
  "last_match env targetQueue [] found = found"
| "last_match env targetQueue ((queueName, p) # es) found =
     (if queueMatchesByPostfix queueName targetQueue
      then (case FromLEBytes env p of
          None \<Rightarrow> last_match env targetQueue es found
        | Some ptr \<Rightarrow> last_match env targetQueue es (Some ptr))
      else last_match env targetQueue es found)"

fun scan_backward ::
    "bounds_env \<Rightarrow> string \<Rightarrow> nat \<Rightarrow> entry list \<Rightarrow> nat option \<Rightarrow> nat option \<Rightarrow> nat option \<times> nat option" where
  "scan_backward env targetQueue currentPtr [] found lastEntryPtr = (found, lastEntryPtr)"
| "scan_backward env targetQueue currentPtr ((i, d) # es) found lastEntryPtr =
     (if i > currentPtr then (found, Some i)
      else scan_backward env targetQueue currentPtr es
        (case rx_entries env d of None \<Rightarrow> found | Some qs \<Rightarrow> last_match env targetQueue qs found) (Some i))"

fun searchBackwardForQueue ::
    "nat \<Rightarrow> bounds_env \<Rightarrow> nat \<Rightarrow> nat \<Rightarrow> string \<Rightarrow> (bounds_err, nat) gres" where
  "searchBackwardForQueue 0 env startPtr currentPtr targetQueue = OutOfFuel"
| "searchBackwardForQueue (Suc fuel) env startPtr currentPtr targetQueue =
     (if currentPtr < startPtr \<or> currentPtr = startPtr then Err NotFound
      else
        let batchStart = (case uintn_sub env currentPtr searchStep of
               Some stepPtr \<Rightarrow> if stepPtr > startPtr then stepPtr else startPtr
             | None \<Rightarrow> startPtr)
        in case ReadFromOffset env InferenceStatesQueue batchStart searchStep of
          (es, e) \<Rightarrow>
            (case scan_backward env targetQueue currentPtr es None None of
              (found, lastEntryPtr) \<Rightarrow>
                if e then Err ReadFailed
                else (case found of
                    Some ptr \<Rightarrow> Ok ptr
                  | None \<Rightarrow>
                      gbind (case lastEntryPtr of
                          None \<Rightarrow> (case nil_IsZero env of Ok True \<Rightarrow> Ok batchStart | _ \<Rightarrow> Panic)
                        | Some l \<Rightarrow> Ok (if l \<noteq> 0 \<and> l < currentPtr then l else batchStart)) (\<lambda>currentPtr.
                      if currentPtr = startPtr then Err NotFound
                      else searchBackwardForQueue fuel env startPtr currentPtr targetQueue))))"

definition FetchQueueBounds ::
    "nat \<Rightarrow> bounds_env \<Rightarrow> nat \<Rightarrow> nat \<Rightarrow> string \<Rightarrow> (bounds_err, QueueBounds) gres" where
  "FetchQueueBounds fuel env fromPtr toPtr targetQueue =
     gbind (gbind (tryFindQueueAtPtr env fromPtr targetQueue) (\<lambda>p. case p of
         Some ptr \<Rightarrow> Ok ptr
       | None \<Rightarrow> searchForwardForQueue fuel env fromPtr toPtr targetQueue)) (\<lambda>fromResult.
     gbind (gbind (tryFindQueueAtPtr env toPtr targetQueue) (\<lambda>p. case p of
         Some ptr \<Rightarrow> Ok ptr
       | None \<Rightarrow> searchBackwardForQueue fuel env fromPtr toPtr targetQueue)) (\<lambda>toResult.
     Ok \<lparr>qb_From = fromResult, qb_To = toResult\<rparr>))"



section \<open>Searching a queue that does not change\<close>

text \<open>
  A station whose queue holds the entries \<open>q\<close> with increasing ids, whose reads return the first
  entries from an offset on, and whose position arithmetic is that of natural numbers.
\<close>

definition serves :: "bounds_env \<Rightarrow> entry list \<Rightarrow> bool" where
  "serves env q \<longleftrightarrow> sorted_wrt (<) (map fst q) \<and>
     (\<forall>off n. ReadFromOffset env InferenceStatesQueue off n = (take n (filter (\<lambda>e. off \<le> fst e) q), False)) \<and>
     (\<forall>a b. uintn_add env a b = Some (a + b)) \<and>
     (\<forall>a b. uintn_sub env a b = (if b \<le> a then Some (a - b) else None)) \<and> nil_IsZero env = Ok True"

fun match_result :: "nat option \<Rightarrow> (bounds_err, nat) gres" where
  "match_result None = Err BadPointer"
| "match_result (Some p) = Ok p"

lemma scan_forward_append:
  "scan_forward env t (xs @ ys) = (case scan_forward env t xs of None \<Rightarrow> scan_forward env t ys | Some r \<Rightarrow> Some r)"
  by (induction env t xs rule: scan_forward.induct) (auto split: option.split)

lemma sorted_fst_less:
  "sorted_wrt (<) (map fst (xs @ ys)) \<Longrightarrow> e \<in> set xs \<Longrightarrow> e' \<in> set ys \<Longrightarrow> fst e < (fst e' :: nat)"
  by (auto simp: sorted_wrt_append)

lemma sorted_last:
  "sorted_wrt (<) (map fst xs) \<Longrightarrow> e \<in> set xs \<Longrightarrow> fst e \<le> (fst (last xs) :: nat)"
  by (induction xs rule: rev_induct) (auto simp: sorted_wrt_append)

lemma batch_ge: "e \<in> set (take n (filter (\<lambda>e. c \<le> fst e) q)) \<Longrightarrow> c \<le> fst e"
  by (metis (mono_tags, lifting) in_set_takeD mem_Collect_eq set_filter)

lemma batch_split:
  assumes q: "sorted_wrt (<) (map fst q)" and es: "es = take n (filter (\<lambda>e. c \<le> fst e) q)" "es \<noteq> []"
  shows "filter (\<lambda>e. c \<le> fst e) q = es @ filter (\<lambda>e. Suc (fst (last es)) \<le> fst e) q"
proof -
  let ?R = "filter (\<lambda>e. c \<le> fst e) q"
  have sR: "sorted_wrt (<) (map fst ?R)" using q by (induction q) auto
  have R: "?R = es @ drop n ?R" using es(1) by simp
  have c: "c \<le> fst (last es)" using es last_in_set [of es] batch_ge by metis
  have "filter (\<lambda>e. Suc (fst (last es)) \<le> fst e) q = filter (\<lambda>e. Suc (fst (last es)) \<le> fst e) ?R"
    using c by (auto intro!: filter_cong)
  also have "\<dots> = filter (\<lambda>e. Suc (fst (last es)) \<le> fst e) es @ filter (\<lambda>e. Suc (fst (last es)) \<le> fst e) (drop n ?R)"
    by (subst R) (rule filter_append)
  also have "filter (\<lambda>e. Suc (fst (last es)) \<le> fst e) es = []"
    using sorted_last [of es] sR R by (metis (no_types, lifting) filter_False not_less_eq_eq sorted_wrt_append map_append)
  also have "filter (\<lambda>e. Suc (fst (last es)) \<le> fst e) (drop n ?R) = drop n ?R"
    using sorted_fst_less [of es "drop n ?R" "last es"] sR R es(2) by (auto simp: filter_id_conv Suc_le_eq)
  finally show ?thesis using R by simp
qed

lemma sorted_from: "sorted_wrt (<) (map fst (q :: entry list)) \<Longrightarrow> sorted_wrt (<) (map fst (filter (\<lambda>e. b \<le> fst e) q))"
  by (induction q) auto

lemma scan_below:
  assumes "sorted_wrt (<) (map fst q)" and "scan_forward env t (filter (\<lambda>e. fst e < b) q) = Some r"
  shows "scan_forward env t q = Some r"
  using assms
proof (induction q)
  case (Cons e q)
  obtain i d where e: "e = (i, d)" by (cases e)
  show ?case
  proof (cases "i < b")
    case True
    with Cons e show ?thesis by (auto split: option.splits)
  next
    case False
    then have "filter (\<lambda>e. fst e < b) (e # q) = []" using Cons.prems(1) e by (auto simp: filter_empty_conv)
    with Cons.prems(2) show ?thesis by simp
  qed
qed simp

text \<open>The forward search over the whole rest of the queue.\<close>

lemma search_forward:
  assumes env: "serves env q" and "endPtr - c < fuel"
  shows "case scan_forward env t (filter (\<lambda>e. c \<le> fst e \<and> fst e < endPtr) q) of
      Some r \<Rightarrow> searchForwardForQueue fuel env c endPtr t = match_result r
    | None \<Rightarrow> searchForwardForQueue fuel env c endPtr t \<in> {Err NotFound, Err NoEntries} \<or>
        (\<exists>r. scan_forward env t (filter (\<lambda>e. c \<le> fst e) q) = Some r \<and>
          searchForwardForQueue fuel env c endPtr t = match_result r)"
  using assms(2)
proof (induction fuel arbitrary: c)
  case (Suc fuel)
  have q: "sorted_wrt (<) (map fst q)" using env by (simp add: serves_def)
  let ?R = "filter (\<lambda>e. c \<le> fst e) q"
  have sR: "sorted_wrt (<) (map fst ?R)" using q by (induction q) auto
  have lt: "filter (\<lambda>e. c \<le> fst e \<and> fst e < endPtr) q = filter (\<lambda>e. fst e < endPtr) ?R"
    by (simp add: conj_commute)
  show ?case
  proof (cases "endPtr \<le> c")
    case True
    then have "filter (\<lambda>e. c \<le> fst e \<and> fst e < endPtr) q = []" by (auto simp: filter_empty_conv)
    with True show ?thesis by auto
  next
    case False
    define es where "es = take searchStep ?R"
    have read: "ReadFromOffset env InferenceStatesQueue c searchStep = (es, False)"
      using env by (simp add: serves_def es_def)
    show ?thesis
    proof (cases "scan_forward env t es")
      case (Some r)
      have "scan_forward env t ?R = Some r"
        using Some scan_forward_append [of env t es "drop searchStep ?R"] by (simp add: es_def)
      moreover have "searchForwardForQueue (Suc fuel) env c endPtr t = match_result r"
        using False read Some by (cases r) simp_all
      ultimately show ?thesis
        using scan_below [OF sR, of env t endPtr] unfolding lt by (auto split: option.split)
    next
      case None
      show ?thesis
      proof (cases "es = []")
        case True
        then have "?R = []" by (auto simp: es_def searchStep_def)
        then have "filter (\<lambda>e. c \<le> fst e \<and> fst e < endPtr) q = []" unfolding lt by simp
        with True None False read show ?thesis by simp
      next
        case ne: False
        let ?c = "Suc (fst (last es))"
        have split: "?R = es @ filter (\<lambda>e. ?c \<le> fst e) q" by (rule batch_split [OF q es_def ne])
        have "c \<le> fst (last es)" using last_in_set [OF ne] batch_ge unfolding es_def by blast
        then have IH: "endPtr - ?c < fuel" using Suc.prems False by linarith
        have step: "searchForwardForQueue (Suc fuel) env c endPtr t = searchForwardForQueue fuel env ?c endPtr t"
          using False read None ne env by (simp add: serves_def)
        have rest: "scan_forward env t ?R = scan_forward env t (filter (\<lambda>e. ?c \<le> fst e) q)"
          by (subst split) (simp add: scan_forward_append None)
        have below: "scan_forward env t (filter (\<lambda>e. c \<le> fst e \<and> fst e < endPtr) q) =
            scan_forward env t (filter (\<lambda>e. ?c \<le> fst e \<and> fst e < endPtr) q)"
        proof -
          have "scan_forward env t (filter P es) = None" for P
            using None by (induction env t es rule: scan_forward.induct) (auto split: option.splits)
          then show ?thesis
            unfolding lt by (subst split) (simp add: scan_forward_append conj_commute)
        qed
        show ?thesis using Suc.IH [OF IH] unfolding step rest below .
      qed
    qed
  qed
qed simp


text \<open>The last match among some entries.\<close>

definition entry_last :: "bounds_env \<Rightarrow> string \<Rightarrow> bytes \<Rightarrow> nat option" where
  "entry_last env t d = (case rx_entries env d of None \<Rightarrow> None | Some qs \<Rightarrow> last_match env t qs None)"

fun last_hit :: "bounds_env \<Rightarrow> string \<Rightarrow> entry list \<Rightarrow> nat option" where
  "last_hit env t [] = None"
| "last_hit env t ((i, d) # es) = (case last_hit env t es of None \<Rightarrow> entry_last env t d | Some p \<Rightarrow> Some p)"

lemma last_match_found:
  "last_match env t qs found = (case last_match env t qs None of None \<Rightarrow> found | Some p \<Rightarrow> Some p)"
proof (induction qs arbitrary: found)
  case (Cons q qs)
  obtain n p where q: "q = (n, p)" by (cases q)
  show ?case
    using Cons.IH [of found] Cons.IH [of "FromLEBytes env p"] Cons.IH [of "Some _"]
    by (auto simp: q split: option.splits)
qed simp

lemma last_hit_append:
  "last_hit env t (xs @ ys) = (case last_hit env t ys of None \<Rightarrow> last_hit env t xs | Some p \<Rightarrow> Some p)"
  by (induction env t xs rule: last_hit.induct) (auto split: option.split)

lemma last_hit_None: "last_hit env t xs = None \<longleftrightarrow> (\<forall>(i, d)\<in>set xs. entry_last env t d = None)"
  by (induction env t xs rule: last_hit.induct) (auto split: option.split)

lemma scan_backward_found:
  "fst (scan_backward env t c es found l) =
    (case last_hit env t (takeWhile (\<lambda>e. fst e \<le> c) es) of None \<Rightarrow> found | Some p \<Rightarrow> Some p)"
proof (induction env t c es found l rule: scan_backward.induct)
  case (2 env t c i d es found l)
  show ?case
  proof (cases "i > c")
    case False
    have "(case rx_entries env d of None \<Rightarrow> found | Some qs \<Rightarrow> last_match env t qs found) =
        (case entry_last env t d of None \<Rightarrow> found | Some p \<Rightarrow> Some p)"
      by (auto simp: entry_last_def last_match_found [of env t _ found] split: option.split)
    with 2 False show ?thesis by (auto split: option.splits)
  qed simp
qed simp

lemma scan_backward_last:
  "es \<noteq> [] \<Longrightarrow> \<exists>e\<in>set es. snd (scan_backward env t c es found l) = Some (fst e)"
proof (induction env t c es found l rule: scan_backward.induct)
  case (2 env t c i d es found l)
  then show ?case by (cases "es = []") auto
qed simp

lemma scan_backward_all:
  "es \<noteq> [] \<Longrightarrow> \<forall>e\<in>set es. fst e \<le> c \<Longrightarrow> snd (scan_backward env t c es found l) = Some (fst (last es))"
proof (induction env t c es found l rule: scan_backward.induct)
  case (2 env t c i d es found l)
  then show ?case by (cases "es = []") auto
qed simp

lemma interval_count:
  assumes "sorted_wrt (<) (map fst (q :: entry list))"
  shows "length (filter (\<lambda>e. a \<le> fst e \<and> fst e < b) q) \<le> b - a"
proof -
  let ?f = "filter (\<lambda>e. a \<le> fst e \<and> fst e < b) q"
  have "sorted_wrt (<) (map fst ?f)" using assms by (induction q) auto
  then have "distinct (map fst ?f)" by (simp add: strict_sorted_iff)
  from distinct_card [OF this] have "length ?f = card (fst ` set ?f)" by simp
  also have "\<dots> \<le> card {a..<b}" by (intro card_mono) auto
  finally show ?thesis by simp
qed

lemma filter_interval:
  assumes "sorted_wrt (<) (map fst (q :: entry list))" and "a \<le> b"
  shows "filter (\<lambda>e. a \<le> fst e) q = filter (\<lambda>e. a \<le> fst e \<and> fst e < b) q @ filter (\<lambda>e. b \<le> fst e) q"
  using assms
proof (induction q)
  case (Cons e q)
  show ?case
  proof (cases "b \<le> fst e")
    case True
    then have "filter (\<lambda>e. a \<le> fst e \<and> fst e < b) q = []" using Cons.prems by (auto simp: filter_empty_conv)
    with Cons True show ?thesis by auto
  qed (use Cons in auto)
qed simp

lemma sorted_below: "sorted_wrt (<) (map fst (q :: entry list)) \<Longrightarrow> sorted_wrt (<) (map fst (filter (\<lambda>e. fst e < b) q))"
  by (induction q) auto

lemma last_hit_interval:
  assumes "sorted_wrt (<) (map fst q)" and "a \<le> b" and "b \<le> c"
    and none: "\<And>i d. (i, d) \<in> set q \<Longrightarrow> b \<le> i \<Longrightarrow> i < c \<Longrightarrow> entry_last env t d = None"
  shows "last_hit env t (filter (\<lambda>e. a \<le> fst e \<and> fst e < c) q) = last_hit env t (filter (\<lambda>e. a \<le> fst e \<and> fst e < b) q)"
  using assms(1) none
proof (induction q)
  case (Cons e q)
  obtain i d where e: "e = (i, d)" by (cases e)
  have IH: "last_hit env t (filter (\<lambda>e. a \<le> fst e \<and> fst e < c) q) = last_hit env t (filter (\<lambda>e. a \<le> fst e \<and> fst e < b) q)"
  proof (rule Cons.IH)
    show "entry_last env t d = None" if "(i, d) \<in> set q" "b \<le> i" "i < c" for i d
      using Cons.prems(2) [of i d] that by simp
  qed (use Cons.prems(1) in simp)
  have "entry_last env t d = None" if "b \<le> i" "i < c" using Cons.prems(2) [of i d] that e by simp
  then show ?case using IH assms(2,3) e by (auto split: option.split)
qed simp

text \<open>One batch: it holds every entry from its start up to the current position.\<close>

lemma batch_hits:
  assumes q: "sorted_wrt (<) (map fst q)" and c: "b \<le> c" "c \<le> b + searchStep"
    and at: "\<And>i d. (i, d) \<in> set q \<Longrightarrow> i = c \<Longrightarrow> entry_last env t d = None"
  shows "last_hit env t (takeWhile (\<lambda>e. fst e \<le> c) (take searchStep (filter (\<lambda>e. b \<le> fst e) q))) =
    last_hit env t (filter (\<lambda>e. b \<le> fst e \<and> fst e < c) q)"
proof -
  let ?I = "filter (\<lambda>e. b \<le> fst e \<and> fst e < c) q"
  have len: "length ?I \<le> searchStep" using interval_count [OF q, of b c] c by linarith
  obtain ys where ys: "take searchStep (filter (\<lambda>e. b \<le> fst e) q) = ?I @ ys" "set ys \<subseteq> {e \<in> set q. c \<le> fst e}"
  proof (rule that [of "take (searchStep - length ?I) (filter (\<lambda>e. c \<le> fst e) q)"])
    show "take searchStep (filter (\<lambda>e. b \<le> fst e) q) = ?I @ take (searchStep - length ?I) (filter (\<lambda>e. c \<le> fst e) q)"
      unfolding filter_interval [OF q c(1)] using len by simp
  qed (auto dest: in_set_takeD)
  have tw: "takeWhile (\<lambda>e. fst e \<le> c) (?I @ ys) = ?I @ takeWhile (\<lambda>e. fst e \<le> c) ys"
    by (subst takeWhile_append2) auto
  have "last_hit env t (takeWhile (\<lambda>e. fst e \<le> c) ys) = None"
    using ys(2) at by (fastforce simp: last_hit_None dest: set_takeWhileD)
  then show ?thesis unfolding ys(1) tw last_hit_append by simp
qed


lemma search_backward:
  assumes env: "serves env q" and "start \<le> c" and "c - start < fuel"
    and at: "\<And>i d. (i, d) \<in> set q \<Longrightarrow> i = c \<Longrightarrow> entry_last env t d = None"
  shows "searchBackwardForQueue fuel env start c t =
    (case last_hit env t (filter (\<lambda>e. start \<le> fst e \<and> fst e < c) q) of Some p \<Rightarrow> Ok p | None \<Rightarrow> Err NotFound)"
  using assms(2-)
proof (induction fuel arbitrary: c)
  case (Suc fuel)
  have q: "sorted_wrt (<) (map fst q)" using env by (simp add: serves_def)
  show ?case
  proof (cases "c = start")
    case True
    then have "filter (\<lambda>e. start \<le> fst e \<and> fst e < c) q = []" by (auto simp: filter_empty_conv)
    with True show ?thesis by simp
  next
    case False
    then have lt: "start < c" using Suc.prems(1) by simp
    define b where "b = (if c - searchStep > start then c - searchStep else start)"
    have b: "start \<le> b" "b < c" "c \<le> b + searchStep"
      using lt by (auto simp: b_def searchStep_def)
    define es where "es = take searchStep (filter (\<lambda>e. b \<le> fst e) q)"
    have bs: "(case uintn_sub env c searchStep of Some stepPtr \<Rightarrow> if stepPtr > start then stepPtr else start | None \<Rightarrow> start) = b"
      using env by (auto simp: serves_def b_def)
    have read: "ReadFromOffset env InferenceStatesQueue b searchStep = (es, False)"
      using env by (simp add: serves_def es_def)
    obtain found l where sc: "scan_backward env t c es None None = (found, l)" by fastforce
    have found: "found = last_hit env t (filter (\<lambda>e. b \<le> fst e \<and> fst e < c) q)"
      using scan_backward_found [of env t c es None None] batch_hits [OF q less_imp_le [OF b(2)] b(3) Suc.prems(3)] sc
      by (simp add: es_def split: option.split)
    define c' where "c' = (case l of None \<Rightarrow> b | Some l \<Rightarrow> if l \<noteq> 0 \<and> l < c then l else b)"
    have "c' = b \<or> (\<exists>e\<in>set es. c' = fst e \<and> fst e < c)"
    proof (cases "es = []")
      case False
      then obtain e where "e \<in> set es" "l = Some (fst e)"
        using scan_backward_last [of es env t c None None] sc by auto
      then show ?thesis by (cases "fst e \<noteq> 0 \<and> fst e < c") (auto simp: c'_def)
    qed (use sc in \<open>simp add: c'_def\<close>)
    moreover have "b \<le> fst e" if "e \<in> set es" for e
      using that batch_ge unfolding es_def by blast
    ultimately have c': "b \<le> c'" "c' < c" using b(2) by auto
    have step: "searchBackwardForQueue (Suc fuel) env start c t =
        (case found of Some p \<Rightarrow> Ok p
         | None \<Rightarrow> if c' = start then Err NotFound else searchBackwardForQueue fuel env start c' t)"
      using lt bs read sc env by (auto simp: serves_def c'_def Let_def split: option.split)
    show ?thesis
    proof (cases found)
      case (Some p)
      have "filter (\<lambda>e. start \<le> fst e \<and> fst e < c) q =
          filter (\<lambda>e. start \<le> fst e \<and> fst e < b) q @ filter (\<lambda>e. b \<le> fst e \<and> fst e < c) q"
        using filter_interval [OF sorted_below [OF q, of c] b(1)] b(2)
        by (simp add: conj_commute conj_left_commute cong: conj_cong)
      with Some found step show ?thesis by (simp add: last_hit_append)
    next
      case None
      have none: "entry_last env t d = None" if "(i, d) \<in> set q" "b \<le> i" "i < c" for i d
        using None found that by (auto simp: last_hit_None)
      have eq: "last_hit env t (filter (\<lambda>e. start \<le> fst e \<and> fst e < c) q) =
          last_hit env t (filter (\<lambda>e. start \<le> fst e \<and> fst e < c') q)"
        using c' b(1) none by (intro last_hit_interval [OF q]) auto
      show ?thesis
      proof (cases "c' = start")
        case True
        then have "filter (\<lambda>e. start \<le> fst e \<and> fst e < c') q = []" by (auto simp: filter_empty_conv)
        with None step True eq show ?thesis by simp
      next
        case False
        have "searchBackwardForQueue fuel env start c' t =
            (case last_hit env t (filter (\<lambda>e. start \<le> fst e \<and> fst e < c') q) of Some p \<Rightarrow> Ok p | None \<Rightarrow> Err NotFound)"
          using b(1) c' Suc.prems(2) none by (intro Suc.IH) auto
        with None step False eq show ?thesis by simp
      qed
    qed
  qed
qed simp


section \<open>An example station\<close>

definition demo_env :: "entry list \<Rightarrow> bounds_env" where
  "demo_env q =
    \<lparr>ReadFromOffset = (\<lambda>_ off n. (take n (filter (\<lambda>e. off \<le> fst e) q), False)),
     rx_entries = (\<lambda>d. Some [(if d = [0] then ''x'' else ''robot/inference/normvla'', d)]),
     FromLEBytes = (\<lambda>b. case b of [] \<Rightarrow> None | x # _ \<Rightarrow> Some (unat x)),
     uintn_add = (\<lambda>a b. Some (a + b)),
     uintn_sub = (\<lambda>a b. if b \<le> a then Some (a - b) else None), nil_IsZero = Ok True\<rparr>"

lemma demo_serves: "sorted_wrt (<) (map fst q) \<Longrightarrow> serves (demo_env q) q"
  by (simp add: serves_def demo_env_def)

definition demo_q :: "entry list" where
  "demo_q = [(5, [0]), (6, [1]), (7, [0]), (8, [2]), (9, [0])]"

lemma demo_q_serves: "serves (demo_env demo_q) demo_q"
  by (rule demo_serves) (simp add: demo_q_def)

lemma demo_matches:
  "entry_match (demo_env q) ''inference/normvla'' [0] = None"
  "entry_match (demo_env q) ''inference/normvla'' [x] = (if x = 0 then None else Some (Some (unat x)))"
  "entry_last (demo_env q) ''inference/normvla'' [x] = (if x = 0 then None else Some (unat x))"
  by (simp_all add: entry_match_def entry_last_def demo_env_def queueMatchesByPostfix_def)


section \<open>What the bounds are\<close>

text \<open>
  A queue name matches the target when it is the target itself or ends with a slash and the
  target behind a non-empty prefix.
\<close>

theorem queue_match_iff:
  "queueMatchesByPostfix queueName targetQueue \<longleftrightarrow>
    queueName = targetQueue \<or> (\<exists>pre. pre \<noteq> [] \<and> queueName = pre @ ''/'' @ targetQueue)"
proof -
  have "length queueName > length (''/'' @ targetQueue) \<and>
      drop (length queueName - length (''/'' @ targetQueue)) queueName = ''/'' @ targetQueue \<longleftrightarrow>
      (\<exists>pre. pre \<noteq> [] \<and> queueName = pre @ ''/'' @ targetQueue)" (is "?l \<longleftrightarrow> ?r")
  proof
    assume l: ?l
    then have "take (length queueName - length (''/'' @ targetQueue)) queueName \<noteq> []" by auto
    with l show ?r by (metis append_take_drop_id)
  qed auto
  then show ?thesis by (auto simp: queueMatchesByPostfix_def Let_def)
qed

text \<open>
  On a queue that does not change, the forward search ends, and it returns the pointer of the
  first entry at or after the start that names the target queue, whenever there is one before
  the given end; without any it reports an error.
\<close>

theorem search_forward_first:
  assumes "serves env q" and "endPtr - startPtr < fuel"
  shows "case scan_forward env t (filter (\<lambda>e. startPtr \<le> fst e \<and> fst e < endPtr) q) of
      Some r \<Rightarrow> searchForwardForQueue fuel env startPtr endPtr t = match_result r
    | None \<Rightarrow> searchForwardForQueue fuel env startPtr endPtr t \<in> {Err NotFound, Err NoEntries} \<or>
        (\<exists>r. scan_forward env t (filter (\<lambda>e. startPtr \<le> fst e) q) = Some r \<and>
          searchForwardForQueue fuel env startPtr endPtr t = match_result r)"
  using search_forward [OF assms] .

theorem search_forward_first_witness:
  "searchForwardForQueue 6 (demo_env demo_q) 5 9 ''inference/normvla'' = Ok 1"
  using search_forward_first [OF demo_q_serves, of 9 5 6 "''inference/normvla''"]
  by (simp add: demo_q_def demo_matches)

text \<open>
  On a queue that does not change, the backward search ends, and it returns the pointer of the last
  match before the end, or reports that there is none; the entry at the end itself has been
  checked before.
\<close>

theorem search_backward_last:
  assumes "serves env q" and "startPtr \<le> endPtr" and "endPtr - startPtr < fuel"
    and "\<And>i d. (i, d) \<in> set q \<Longrightarrow> i = endPtr \<Longrightarrow> entry_last env t d = None"
  shows "searchBackwardForQueue fuel env startPtr endPtr t =
    (case last_hit env t (filter (\<lambda>e. startPtr \<le> fst e \<and> fst e < endPtr) q) of
       Some p \<Rightarrow> Ok p | None \<Rightarrow> Err NotFound)"
  using search_backward [OF assms] .

theorem search_backward_last_witness:
  "searchBackwardForQueue 6 (demo_env demo_q) 5 9 ''inference/normvla'' = Ok 2"
  using search_backward_last [OF demo_q_serves, of 5 9 6 "''inference/normvla''"]
  by (auto simp: demo_q_def demo_matches)

lemma first_None_last_None: "entry_match env t d = None \<Longrightarrow> entry_last env t d = None"
proof -
  have "first_match env t qs = None \<Longrightarrow> last_match env t qs found = found" for qs found
    by (induction env t qs rule: first_match.induct) (auto split: if_splits)
  then show "entry_match env t d = None \<Longrightarrow> entry_last env t d = None"
    by (auto simp: entry_match_def entry_last_def split: option.splits)
qed

lemma head_entry:
  assumes "sorted_wrt (<) (map fst (q :: entry list))" and "(c, d) \<in> set q"
  shows "\<exists>es. filter (\<lambda>e. c \<le> fst e) q = (c, d) # es"
  using assms
proof (induction q)
  case (Cons e q)
  show ?case
  proof (cases "e = (c, d)")
    case False
    then have "(c, d) \<in> set q" using Cons.prems(2) by simp
    moreover from this have "fst e < c" using Cons.prems(1) by auto
    ultimately show ?thesis using Cons by auto
  qed simp
qed simp

lemma tryFind_at:
  assumes "serves env q"
  shows "tryFindQueueAtPtr env c t =
    (case filter (\<lambda>e. c \<le> fst e) q of [] \<Rightarrow> Ok None
     | (i, d) # _ \<Rightarrow> (case entry_match env t d of None \<Rightarrow> Ok None | Some r \<Rightarrow> gmap Some (match_result r)))"
proof -
  have "match_result r = (case r of None \<Rightarrow> Err BadPointer | Some p \<Rightarrow> Ok p)" for r by (cases r) simp_all
  then show ?thesis
    using assms by (auto simp: tryFindQueueAtPtr_def serves_def split: list.split option.split)
qed

lemma bound_from:
  assumes env: "serves env q" and fuel: "toPtr - fromPtr < fuel"
    and r: "r = gbind (tryFindQueueAtPtr env fromPtr t) (\<lambda>p. case p of
         Some ptr \<Rightarrow> Ok ptr | None \<Rightarrow> searchForwardForQueue fuel env fromPtr toPtr t)"
  shows "returns r \<and> (\<forall>p. r = Ok p \<longrightarrow> scan_forward env t (filter (\<lambda>e. fromPtr \<le> fst e) q) = Some (Some p))"
proof -
  let ?s = "searchForwardForQueue fuel env fromPtr toPtr t"
  have s: "?s \<in> {Err NotFound, Err NoEntries} \<or> (\<exists>r. scan_forward env t (filter (\<lambda>e. fromPtr \<le> fst e) q) = Some r \<and>
      ?s = match_result r)"
    using search_forward [OF env fuel, of t] scan_below [of "filter (\<lambda>e. fromPtr \<le> fst e) q" env t toPtr]
      sorted_from [of q fromPtr] env
    by (auto simp: serves_def conj_commute split: option.splits)
  have m: "returns (match_result r)" "Ok p = match_result r \<longleftrightarrow> r = Some p" for r p by (cases r; auto)+
  show ?thesis
  proof (cases "tryFindQueueAtPtr env fromPtr t = Ok None")
    case True
    then show ?thesis using s m by (auto simp: r)
  next
    case False
    then obtain d es i r' where "filter (\<lambda>e. fromPtr \<le> fst e) q = (i, d) # es" "entry_match env t d = Some r'"
        "tryFindQueueAtPtr env fromPtr t = gmap Some (match_result r')"
      using tryFind_at [OF env, of fromPtr t] by (auto split: list.splits option.splits)
    then show ?thesis by (cases r') (auto simp: r)
  qed
qed


lemma demo_bounds: "FetchQueueBounds 6 (demo_env demo_q) 5 9 ''inference/normvla'' = Ok \<lparr>qb_From = 1, qb_To = 2\<rparr>"
proof -
  have "searchForwardForQueue 6 (demo_env demo_q) 5 9 ''inference/normvla'' = Ok 1"
    using search_forward [OF demo_q_serves, of 9 5 6 "''inference/normvla''"] by (simp add: demo_q_def demo_matches)
  moreover have "searchBackwardForQueue 6 (demo_env demo_q) 5 9 ''inference/normvla'' = Ok 2"
    using search_backward [OF demo_q_serves, of 5 9 6 "''inference/normvla''"] by (auto simp: demo_q_def demo_matches)
  moreover have "tryFindQueueAtPtr (demo_env demo_q) 5 ''inference/normvla'' = Ok None"
    "tryFindQueueAtPtr (demo_env demo_q) 9 ''inference/normvla'' = Ok None"
    unfolding tryFind_at [OF demo_q_serves] by (simp_all add: demo_q_def demo_matches)
  ultimately show ?thesis by (simp add: FetchQueueBounds_def)
qed


text \<open>
  The backward search does not step over the batch it has read: after a full batch without a match
  it continues one entry below the current position, not at the start of the batch, and so
  reads nearly the same ten thousand entries again.
\<close>

theorem backward_search_rereads:
  assumes env: "serves env (map (\<lambda>i. (i, d i)) [0..<n])" and "startPtr + searchStep < c" and "c \<le> n"
    and none: "\<And>i. i < c \<Longrightarrow> entry_last env t (d i) = None"
  shows "searchBackwardForQueue (Suc fuel) env startPtr c t =
    searchBackwardForQueue fuel env startPtr (c - 1) t"
proof -
  define b where "b = c - searchStep"
  have b: "startPtr < b" "b + searchStep = c" "b \<le> n" "b < c" "c \<noteq> 0" "c - 1 \<noteq> startPtr"
    using assms(2,3) by (auto simp: b_def searchStep_def)
  let ?e = "\<lambda>i. (i, d i)"
  have "filter (\<lambda>e. b \<le> fst e) (map ?e [0..<n]) = map ?e (filter (\<lambda>i. b \<le> i) ([0..<b] @ [b..<n]))"
    using upt_add_eq_append [of 0 b "n - b"] b(3) by (simp add: filter_map comp_def)
  also have "filter (\<lambda>i. b \<le> i) ([0..<b] @ [b..<n]) = [b..<n]" by (simp add: filter_id_conv)
  finally have "take searchStep (filter (\<lambda>e. b \<le> fst e) (map ?e [0..<n])) = map ?e [b..<c]"
    using b(2) assms(3) by (simp add: take_map)
  then have read: "ReadFromOffset env InferenceStatesQueue b searchStep = (map ?e [b..<c], False)"
    using env by (simp add: serves_def)
  have ne: "map ?e [b..<c] \<noteq> []" using b(4) by simp
  have le: "\<forall>e\<in>set (map ?e [b..<c]). fst e \<le> c" by auto
  have "last (map ?e [b..<c]) = ?e (c - 1)" using b(4) by (simp add: last_map)
  then have l: "snd (scan_backward env t c (map ?e [b..<c]) None None) = Some (c - 1)"
    using scan_backward_all [OF ne le] by simp
  have tw: "takeWhile (\<lambda>e. fst e \<le> c) (map ?e [b..<c]) = map ?e [b..<c]" using le by (simp add: takeWhile_eq_all_conv)
  have "last_hit env t (map ?e [b..<c]) = None" using none by (auto simp: last_hit_None)
  then have "fst (scan_backward env t c (map ?e [b..<c]) None None) = None"
    by (simp add: scan_backward_found tw)
  with l have sc: "scan_backward env t c (map ?e [b..<c]) None None = (None, Some (c - 1))"
    by (simp add: prod_eq_iff)
  have sub: "uintn_sub env c searchStep = Some b" using env b(2) by (auto simp: serves_def)
  show ?thesis using b read sc sub by (simp add: Let_def)
qed


definition quiet_queue :: "entry list" where
  "quiet_queue = map (\<lambda>i. (i, [0])) [0..<10002]"

theorem backward_search_rereads_witness:
  "searchBackwardForQueue (Suc 1) (demo_env quiet_queue) 0 10002 ''inference/normvla'' =
    searchBackwardForQueue 1 (demo_env quiet_queue) 0 10001 ''inference/normvla''"
proof -
  have "sorted_wrt (<) (map fst (map (\<lambda>i. (i, [0 :: u8])) [0..<n]))" for n by (simp add: comp_def)
  then have "serves (demo_env quiet_queue) (map (\<lambda>i. (i, [0])) [0..<10002])"
    unfolding quiet_queue_def by (rule demo_serves)
  from backward_search_rereads [OF this, of 0 10002 "''inference/normvla''" 1] show ?thesis
    by (simp add: searchStep_def demo_matches del: searchBackwardForQueue.simps)
qed

end
