(* ===== verification/Dataset_Run.thy ===== *)
theory Dataset_Run
  imports Ui_Model Queue_Bounds
begin

text \<open>
  The frame stream (\<^verbatim>\<open>dataset-generator/internal/source.go\<close>) and the loop of the generator over it
  (\<^verbatim>\<open>runProcessing\<close> of \<^verbatim>\<open>dataset-generator.go\<close>).

  The goroutine and its channels are a list of frames with the error that ends it: the consumer
  sees the frames in the order they were sent and the error after the last one. The generated
  \<^verbatim>\<open>FrameReader\<close> is a parameter, a partial function from the bytes of an entry to a frame.
\<close>

section \<open>The frame stream\<close>

definition readBatchSize :: nat where "readBatchSize = 10000"

datatype stream_err = StreamReadFailed | CursorFailed

text \<open>One batch: the frames sent, the cursor, and whether an entry beyond the end stopped the stream.\<close>

fun stream_batch ::
    "(bytes \<Rightarrow> FrameReader option) \<Rightarrow> nat \<Rightarrow> entry list \<Rightarrow> nat \<Rightarrow> FrameReader list \<times> nat \<times> bool" where
  "stream_batch parse lim [] cursor = ([], cursor, False)"
| "stream_batch parse lim ((i, d) # es) cursor =
     (if i > lim then ([], cursor, True)
      else case parse d of
          None \<Rightarrow> stream_batch parse lim es cursor
        | Some frame \<Rightarrow> (case stream_batch parse lim es i of (fs, r) \<Rightarrow> (frame # fs, r)))"

fun StreamFrames ::
    "nat \<Rightarrow> bounds_env \<Rightarrow> (bytes \<Rightarrow> FrameReader option) \<Rightarrow> string \<Rightarrow> nat \<Rightarrow> nat
      \<Rightarrow> (unit, FrameReader list \<times> stream_err option) gres" where
  "StreamFrames 0 env parse queue cursor lim = OutOfFuel"
| "StreamFrames (Suc fuel) env parse queue cursor lim =
     (case ReadFromOffset env queue cursor readBatchSize of (es, e) \<Rightarrow>
      case stream_batch parse lim es cursor of (fs, cursor, stopped) \<Rightarrow>
        if stopped then Ok (fs, None)
        else if e then Ok (fs, Some StreamReadFailed)
        else if length es < readBatchSize then Ok (fs, None)
        else if cursor > lim \<or> cursor = lim then Ok (fs, None)
        else (case uintn_add env cursor 1 of
            None \<Rightarrow> Ok (fs, Some CursorFailed)
          | Some cursor \<Rightarrow> gmap (\<lambda>(fs', r). (fs @ fs', r)) (StreamFrames fuel env parse queue cursor lim)))"


section \<open>The processing loop\<close>

text \<open>
  The outcome of a file operation and the clock at each frame are lists of the same length as the
  frames; \<^verbatim>\<open>uintn.FromLEBytes\<close> gives the position of a progress message.
\<close>

definition sends_progress :: "bounds_env \<Rightarrow> nat \<Rightarrow> u64 \<Rightarrow> FrameReader \<Rightarrow> 'f detector \<Rightarrow> 'f detector" where
  "sends_progress env tot count frame ed =
     (if program ed \<and> count mod 500 = 0
      then (case FromLEBytes env (fr_GlobalFrameId frame) of
          None \<Rightarrow> ed
        | Some currentPos \<Rightarrow>
            (case GetSkipInfo ed of (skipCount, skipReason) \<Rightarrow>
              send (ProgressMsg currentPos tot count skipCount skipReason) ed))
      else ed)"

definition loop_step ::
    "(bytes \<Rightarrow> string) \<Rightarrow> (Frame list \<Rightarrow> 'f) \<Rightarrow> bounds_env \<Rightarrow> nat \<Rightarrow> u64 \<times> 'f save_io \<times> FrameReader
      \<Rightarrow> u64 \<times> 'f detector \<Rightarrow> (unit, u64 \<times> 'f detector) gres" where
  "loop_step fid pqw env tot = (\<lambda>(now, io, frame) (count, ed).
     let count = count + 1 in
     gmap (\<lambda>ed. (count, sends_progress env tot count frame ed)) (ProcessFrame fid pqw now io frame ed))"

datatype run_err = ConnectFailed | BoundsFailed bounds_err | RangeFailed stream_err

fun run_result :: "('e \<Rightarrow> run_err) \<Rightarrow> ('e, 'a) gres \<Rightarrow> (run_err, 'a) gres" where
  "run_result f (Ok x) = Ok x"
| "run_result f (Err e) = Err (f e)"
| "run_result f Panic = Panic"
| "run_result f OutOfFuel = OutOfFuel"

text \<open>\<^verbatim>\<open>none\<close> maps the absent error of calls that cannot fail.\<close>

definition cannot_fail :: "unit \<Rightarrow> run_err" where
  "cannot_fail u = ConnectFailed"

text \<open>
  \<^verbatim>\<open>runProcessing\<close>: connect, find the bounds, stream the frames through the detector, finalize.
  \<open>world\<close> gives the clock and the file outcome at the n-th frame, \<open>fin\<close> what \<^verbatim>\<open>Finalize\<close> does.
\<close>

definition runProcessing ::
    "nat \<Rightarrow> bool \<Rightarrow> bounds_env \<Rightarrow> (bytes \<Rightarrow> FrameReader option) \<Rightarrow> (bytes \<Rightarrow> string) \<Rightarrow> (Frame list \<Rightarrow> 'f)
      \<Rightarrow> (nat \<Rightarrow> u64 \<times> 'f save_io) \<Rightarrow> ('f detector \<Rightarrow> (unit, 'f detector) gres) \<Rightarrow> EpisodeDetectorConfig
      \<Rightarrow> string \<Rightarrow> nat \<Rightarrow> nat \<Rightarrow> (run_err, 'f detector) gres" where
  "runProcessing fuel connected env parse fid pqw world fin cfg queue pfrom pto =
     (if \<not> connected then Err ConnectFailed
      else gbind (run_result BoundsFailed (FetchQueueBounds fuel env pfrom pto queue)) (\<lambda>bounds.
        gbind (run_result cannot_fail (StreamFrames fuel env parse queue (qb_From bounds) (qb_To bounds))) (\<lambda>(frames, serr).
        let inputs = map (\<lambda>(n, f). (fst (world n), snd (world n), f)) (zip [0..<length frames] frames) in
        gbind (run_result cannot_fail
          (gfold (loop_step fid pqw env (qb_To bounds)) inputs (0, NewEpisodeDetector cfg))) (\<lambda>(count, ed).
        case serr of
          Some e \<Rightarrow> Err (RangeFailed e)
        | None \<Rightarrow>
            gmap (\<lambda>ed. case GetSkipInfo ed of (skipCount, skipReason) \<Rightarrow>
                send (ProgressMsg pto pto count skipCount skipReason) ed)
              (run_result cannot_fail (fin ed))))))"



section \<open>Every frame of the range, once\<close>

definition serves_queue :: "bounds_env \<Rightarrow> string \<Rightarrow> entry list \<Rightarrow> bool" where
  "serves_queue env queue q \<longleftrightarrow> sorted_wrt (<) (map fst q) \<and>
     (\<forall>off n. ReadFromOffset env queue off n = (take n (filter (\<lambda>e. off \<le> fst e) q), False)) \<and>
     (\<forall>a b. uintn_add env a b = Some (a + b))"

fun frames_of :: "(bytes \<Rightarrow> FrameReader option) \<Rightarrow> entry list \<Rightarrow> FrameReader list" where
  "frames_of parse [] = []"
| "frames_of parse ((i, d) # es) = (case parse d of None \<Rightarrow> frames_of parse es | Some f \<Rightarrow> f # frames_of parse es)"

lemma frames_of_append [simp]: "frames_of parse (xs @ ys) = frames_of parse xs @ frames_of parse ys"
  by (induction parse xs rule: frames_of.induct) (simp_all split: option.split)

text \<open>What one batch sends, and where the cursor stands after it.\<close>

lemma stream_batch_spec:
  assumes "sorted_wrt (<) (map fst es)" and "\<forall>e\<in>set es. c \<le> fst e" and "stream_batch parse lim es c = (fs, c', stopped)"
  shows "fs = frames_of parse (filter (\<lambda>e. fst e \<le> lim) es) \<and> stopped = (\<exists>e\<in>set es. lim < fst e) \<and> c \<le> c' \<and>
    (\<forall>e\<in>set es. fst e \<le> lim \<longrightarrow> c' < fst e \<longrightarrow> parse (snd e) = None) \<and> (c' = c \<or> (\<exists>e\<in>set es. c' = fst e \<and> fst e \<le> lim))"
  using assms
proof (induction parse lim es c arbitrary: fs c' stopped rule: stream_batch.induct)
  case (2 parse lim i d es c)
  show ?case
  proof (cases "i > lim")
    case True
    then have "filter (\<lambda>e. fst e \<le> lim) ((i, d) # es) = []" using 2(3) by (auto simp: filter_empty_conv)
    moreover have "\<forall>e\<in>set ((i, d) # es). lim < fst e" using 2(3) True by auto
    ultimately show ?thesis using 2(5) True by auto
  next
    case False
    show ?thesis
    proof (cases "parse d")
      case None
      have "sorted_wrt (<) (map fst es)" "\<forall>e\<in>set es. c \<le> fst e" "stream_batch parse lim es c = (fs, c', stopped)"
        using 2(3-5) False None by auto
      from 2(1) [OF False None this] None False show ?thesis by auto
    next
      case (Some f)
      obtain fs' where fs': "stream_batch parse lim es i = (fs', c', stopped)" "fs = f # fs'"
        using 2(5) False Some by (auto split: prod.splits)
      have "sorted_wrt (<) (map fst es)" "\<forall>e\<in>set es. i \<le> fst e" using 2(3) by auto
      from 2(2) [OF False Some this fs'(1)] Some False fs'(2) 2(4) show ?thesis by auto
    qed
  qed
qed auto

lemma frames_of_filter:
  "(\<And>e. e \<in> set es \<Longrightarrow> \<not> P e \<Longrightarrow> parse (snd e) = None) \<Longrightarrow> frames_of parse es = frames_of parse (filter P es)"
proof (induction parse es rule: frames_of.induct)
  case (2 parse i d es)
  have "frames_of parse es = frames_of parse (filter P es)" 
    by (cases "parse d") (use 2 in auto)
  moreover have "\<not> P (i, d) \<Longrightarrow> parse d = None" using 2(3) [of "(i, d)"] by simp
  ultimately show ?case by (cases "P (i, d)") (simp_all split: option.split)
qed simp

lemma nonempty_batch: "\<not> length es < readBatchSize \<Longrightarrow> es \<noteq> []"
  by (auto simp: readBatchSize_def)

lemma range_split:
  fixes q :: "entry list"
  assumes "sorted_wrt (<) (map fst q)" and "c \<le> Suc c'" and "c' < lim"
  shows "filter (\<lambda>e. c \<le> fst e \<and> fst e \<le> lim) q =
    filter (\<lambda>e. c \<le> fst e \<and> fst e < Suc c') q @ filter (\<lambda>e. Suc c' \<le> fst e \<and> fst e \<le> lim) q"
proof -
  have "filter (\<lambda>e. fst e < Suc lim \<and> c \<le> fst e \<and> fst e < Suc c') q = filter (\<lambda>e. c \<le> fst e \<and> fst e < Suc c') q"
    using assms(3) by (intro filter_cong) auto
  then show ?thesis
    using filter_interval [OF sorted_below [OF assms(1), of "Suc lim"], of c "Suc c'"] assms(2)
    by (simp add: less_Suc_eq_le conj_commute)
qed

text \<open>
  C19. The frame stream delivers every frame of the range once: on a queue that does not change it ends
  without an error, and the frames are those of the entries from the start to the end inclusive
  that unmarshal, in the order of the queue.
\<close>

theorem stream_frames_exact:
  assumes "serves_queue env queue q" and "lim - c < fuel"
  shows "StreamFrames fuel env parse queue c lim = Ok (frames_of parse (filter (\<lambda>e. c \<le> fst e \<and> fst e \<le> lim) q), None)"
  using assms(2)
proof (induction fuel arbitrary: c)
  case (Suc fuel)
  have q: "sorted_wrt (<) (map fst q)" using assms(1) by (simp add: serves_queue_def)
  let ?R = "filter (\<lambda>e. c \<le> fst e) q"
  define es where "es = take readBatchSize ?R"
  have R: "?R = es @ drop readBatchSize ?R" by (simp add: es_def)
  have sR: "sorted_wrt (<) (map fst ?R)" by (rule sorted_from [OF q])
  have ses: "sorted_wrt (<) (map fst es)" using sorted_wrt_take [OF sR, of readBatchSize] by (simp add: es_def take_map)
  have sR': "sorted_wrt (<) (map fst (es @ drop readBatchSize ?R))" by (subst R [symmetric]) (rule sR)
  have ge: "\<forall>e\<in>set es. c \<le> fst e" using batch_ge unfolding es_def by blast
  have read: "ReadFromOffset env queue c readBatchSize = (es, False)"
    using assms(1) by (simp add: serves_queue_def es_def)
  obtain fs c' stopped where b: "stream_batch parse lim es c = (fs, c', stopped)" by (metis prod_cases3)
  note spec = stream_batch_spec [OF ses ge b]
  have "filter (\<lambda>e. c \<le> fst e \<and> fst e \<le> lim) q = filter (\<lambda>e. fst e \<le> lim) ?R" by simp
  also have "\<dots> = filter (\<lambda>e. fst e \<le> lim) es @ filter (\<lambda>e. fst e \<le> lim) (drop readBatchSize ?R)"
    by (subst R) (rule filter_append)
  finally have all: "filter (\<lambda>e. c \<le> fst e \<and> fst e \<le> lim) q =
      filter (\<lambda>e. fst e \<le> lim) es @ filter (\<lambda>e. fst e \<le> lim) (drop readBatchSize ?R)" .
  have rest: "filter (\<lambda>e. fst e \<le> k) (drop readBatchSize ?R) = []" if "e \<in> set es" "k \<le> fst e" for e k
    using sorted_fst_less [OF sR' that(1)] that(2) by (fastforce simp: filter_empty_conv)
  have step: "StreamFrames (Suc fuel) env parse queue c lim =
      (if stopped \<or> length es < readBatchSize \<or> lim \<le> c' then Ok (fs, None)
       else gmap (\<lambda>(fs', r). (fs @ fs', r)) (StreamFrames fuel env parse queue (Suc c') lim))"
    using read b assms(1) by (auto simp: serves_queue_def)
  consider e where "e \<in> set es" "lim \<le> fst e" "stopped \<or> length es < readBatchSize \<or> lim \<le> c'"
    | "length es < readBatchSize" | "\<not> (stopped \<or> length es < readBatchSize \<or> lim \<le> c')"
    using spec ge nonempty_batch [of es] by (metis last_in_set less_imp_le order_trans)
  then show ?case
  proof cases
    case 1
    then show ?thesis using step spec rest [OF 1(1,2)] by (simp add: all)
  next
    case 2
    then have "drop readBatchSize ?R = []" by (simp add: es_def)
    then show ?thesis using step spec 2 by (simp add: all)
  next
    case 3
    have ne: "es \<noteq> []" using 3 nonempty_batch by auto
    obtain e where e: "e \<in> set es" "c' \<le> fst e"
      using spec ge last_in_set [OF ne] by (metis order_refl)
    have IH: "StreamFrames fuel env parse queue (Suc c') lim =
        Ok (frames_of parse (filter (\<lambda>e. Suc c' \<le> fst e \<and> fst e \<le> lim) q), None)"
      using Suc.prems 3 spec by (intro Suc.IH) linarith
    have le: "filter (\<lambda>e. fst e \<le> lim) es = es" using 3 spec by (auto simp: filter_id_conv not_less)
    have "frames_of parse es = frames_of parse (filter (\<lambda>e. fst e \<le> c') es)"
    proof (rule frames_of_filter)
      show "parse (snd e) = None" if "e \<in> set es" "\<not> fst e \<le> c'" for e
        using spec 3 that by (meson not_le)
    qed
    also have "filter (\<lambda>e. fst e \<le> c') es = filter (\<lambda>e. c \<le> fst e \<and> fst e < Suc c') q"
      using rest [OF e] filter_append [of "\<lambda>e. fst e \<le> c'" es "drop readBatchSize ?R"]
      by (simp add: R [symmetric] less_Suc_eq_le conj_commute)
    finally have fs: "fs = frames_of parse (filter (\<lambda>e. c \<le> fst e \<and> fst e < Suc c') q)" using spec le by simp
    have "filter (\<lambda>e. c \<le> fst e \<and> fst e \<le> lim) q =
        filter (\<lambda>e. c \<le> fst e \<and> fst e < Suc c') q @ filter (\<lambda>e. Suc c' \<le> fst e \<and> fst e \<le> lim) q"
      using range_split [OF q] 3 spec by simp
    then show ?thesis using step 3 IH fs by simp
  qed
qed simp


theorem stream_frames_exact_witness:
  "StreamFrames 6 (demo_env demo_q) (\<lambda>d. if d = [0] then None else Some (demo_frame 5 1)) ''inference/normvla'' 5 8 =
    Ok ([demo_frame 5 1, demo_frame 5 1], None)"
proof -
  have "serves_queue (demo_env demo_q) ''inference/normvla'' demo_q"
    by (simp add: serves_queue_def demo_env_def demo_q_def)
  from stream_frames_exact [OF this, of 8 5 6] show ?thesis by (simp add: demo_q_def)
qed


section \<open>A run of the generator\<close>

lemma send_inv [simp]: "detector_inv pqw cfg (send m ed) = detector_inv pqw cfg ed"
  by (simp add: detector_inv_def buffer_inv_def files_inv_def saved_rows_def)

lemma sends_progress_inv [simp]: "detector_inv pqw cfg (sends_progress env tot count frame ed) = detector_inv pqw cfg ed"
  by (simp add: sends_progress_def split: option.split prod.split)

interpretation gen: invariant_step "loop_step fid pqw env tot" "\<lambda>(count, ed). detector_inv pqw cfg ed"
  for fid pqw env tot cfg
proof
  fix s :: "u64 \<times> 'a detector" and i :: "u64 \<times> 'a save_io \<times> FrameReader"
  assume "case s of (count, ed) \<Rightarrow> detector_inv pqw cfg ed"
  then show "\<exists>s'. loop_step fid pqw env tot i s = Ok s' \<and> (case s' of (count, ed) \<Rightarrow> detector_inv pqw cfg ed)"
    using ProcessFrame_keeps [of pqw cfg "snd s" fid "fst i" "fst (snd i)" "snd (snd i)"]
    by (auto simp: loop_step_def Let_def split: prod.split)
qed


lemma searchForward_no_panic: "searchForwardForQueue fuel env c lim t \<noteq> Panic"
  by (induction fuel arbitrary: c) (auto split: prod.split option.split)

lemma searchBackward_no_panic:
  "nil_IsZero env = Ok True \<Longrightarrow> searchBackwardForQueue fuel env startPtr c t \<noteq> Panic"
  by (induction fuel arbitrary: c) (auto simp: Let_def split: prod.split option.split)

lemma FetchQueueBounds_no_panic:
  assumes "nil_IsZero env = Ok True"
  shows "FetchQueueBounds fuel env fromPtr toPtr t \<noteq> Panic"
proof -
  have t: "tryFindQueueAtPtr env c t \<noteq> Panic" for c
    by (auto simp: tryFindQueueAtPtr_def split: prod.split list.split option.split)
  have b: "gbind m f \<noteq> Panic" if "m \<noteq> Panic" "\<And>x. f x \<noteq> Panic" for m :: "('a, 'b) gres" and f :: "'b \<Rightarrow> ('a, 'c) gres"
    using that by (cases m) auto
  show ?thesis
    unfolding FetchQueueBounds_def
    by (intro b) (simp_all add: t searchForward_no_panic searchBackward_no_panic [OF assms] split: option.split)
qed

lemma StreamFrames_no_panic: "StreamFrames fuel env parse queue c lim \<noteq> Panic"
proof (induction fuel arbitrary: c)
  case (Suc fuel)
  have "gmap f m \<noteq> Panic" if "m \<noteq> Panic" for m :: "('a, 'b) gres" and f :: "'b \<Rightarrow> 'c"
    using that by (cases m) auto
  with Suc show ?case by (auto split: prod.split option.split)
qed simp



end
