(* ===== verification/Dataset_Main.thy ===== *)
theory Dataset_Main
  imports Ui_View Dataset_Run
begin

text \<open>
  The dataset generator as a program, \<^verbatim>\<open>dataset-generator.go\<close>: the flags, the run with and without the terminal
  interface, and how it ends. The terminal library delivers messages to \<^verbatim>\<open>Update\<close> one by one until it
  returns the quit command; the messages are an argument, an interleaving of what the processing goroutine
  sends and what the user does.
\<close>

section \<open>Sizes\<close>

text \<open>A byte count with its unit; below 1 KB it is exact.\<close>

definition formatBytes :: "u64 \<Rightarrow> string" where
  "formatBytes n =
     (if n \<ge> 2 ^ 30 then fmt_f 2 (f64_div (uint n) (f64_lit (2 ^ 30) 0)) @ '' GB''
      else if n \<ge> 2 ^ 20 then fmt_f 2 (f64_div (uint n) (f64_lit (2 ^ 20) 0)) @ '' MB''
      else if n \<ge> 2 ^ 10 then fmt_f 2 (f64_div (uint n) (f64_lit (2 ^ 10) 0)) @ '' KB''
      else fmt_d (unat n) @ '' B'')"


section \<open>The main function\<close>

record gen_flags =
  gf_robot :: string
  gf_queue :: string
  gf_from :: string
  gf_to :: string
  gf_output :: string
  gf_task :: string
  gf_episodeDuration :: u64
  gf_episodeMinCommands :: u64
  gf_noTui :: bool

text \<open>What the run depends on: the arguments of \<open>runProcessing\<close>, the parser of positions and the texts of errors.\<close>

record 'f gen_world =
  gw_fuel :: nat
  gw_connected :: "string \<Rightarrow> bool"
  gw_env :: bounds_env
  gw_parse :: "bytes \<Rightarrow> FrameReader option"
  gw_fid :: "bytes \<Rightarrow> string"
  gw_pqw :: "Frame list \<Rightarrow> 'f"
  gw_world :: "nat \<Rightarrow> u64 \<times> 'f save_io"
  gw_fin :: "'f detector \<Rightarrow> (unit, 'f detector) gres"
  gw_ParseDecimal :: "string \<Rightarrow> nat option"
  gw_errText :: "run_err \<Rightarrow> string"

text \<open>The fields of Params; the duration is a product of int64.\<close>

definition gen_params :: "gen_flags \<Rightarrow> nat \<Rightarrow> nat \<Rightarrow> Params" where
  "gen_params fl fromPtr toPtr =
     \<lparr>p_Robot = gf_robot fl, p_Queue = gf_queue fl, p_Task = gf_task fl,
      p_Duration = sint (gf_episodeDuration fl * 1000000000), p_Output = gf_output fl, p_From = fromPtr, p_To = toPtr\<rparr>"

definition processing :: "'f gen_world \<Rightarrow> gen_flags \<Rightarrow> Params \<Rightarrow> bool \<Rightarrow> (run_err, 'f detector) gres" where
  "processing w fl params tui =
     runProcessing (gw_fuel w) (gw_connected w (p_Robot params)) (gw_env w) (gw_parse w) (gw_fid w) (gw_pqw w) (gw_world w) (gw_fin w)
       \<lparr>cfg_Path = p_Output params, cfg_Duration = word_of_int (p_Duration params), cfg_Task = p_Task params,
        cfg_MinCommands = gf_episodeMinCommands fl, cfg_Program = tui\<rparr>
       (p_Queue params) (p_From params) (p_To params)"

text \<open>The program of the terminal library: the model after the message that quits, or None while it is waiting.\<close>

fun tea_Run :: "tea_msg list \<Rightarrow> Model \<Rightarrow> Model option" where
  "tea_Run [] m = None"
| "tea_Run (msg # msgs) m =
     (case Update msg m of (m, cmd) \<Rightarrow> if cmd = Quit then Some m else tea_Run msgs m)"

text \<open>How main ends: a panic of the flags, a panic below, a fatal error, still running, or success; with the printed summary.\<close>

datatype main_end = FlagPanic string | Crashed | FatalError string | Running | Success

definition gen_main :: "'f gen_world \<Rightarrow> view_env \<Rightarrow> int \<Rightarrow> tea_msg list \<Rightarrow> gen_flags \<Rightarrow> main_end \<times> string list" where
  "gen_main w env elapsed msgs fl =
     (if gf_from fl = [] \<or> gf_to fl = [] then (FlagPanic ''--from and --to are required'', [])
      else if gf_output fl = [] then (FlagPanic ''--output is required'', [])
      else if gf_task fl = [] then (FlagPanic ''--task is required'', [])
      else case gw_ParseDecimal w (gf_from fl) of
        None \<Rightarrow> (FlagPanic ''Failed to parse --from'', [])
      | Some fromPtr \<Rightarrow>
          (case gw_ParseDecimal w (gf_to fl) of
             None \<Rightarrow> (FlagPanic ''Failed to parse --to'', [])
           | Some toPtr \<Rightarrow>
               let params = gen_params fl fromPtr toPtr in
               if gf_noTui fl then
                 (case processing w fl params False of
                    Ok ed \<Rightarrow> (Success, [])
                  | Err e \<Rightarrow> (FatalError (gw_errText w e), [])
                  | Panic \<Rightarrow> (Crashed, [])
                  | OutOfFuel \<Rightarrow> (Running, []))
               else
                 (case tea_Run msgs (NewModel (p_From params)) of
                    None \<Rightarrow> (Running, [])
                  | Some m \<Rightarrow>
                      (case PrintSummary env params elapsed m of
                         Ok out \<Rightarrow> (case err m of Some e \<Rightarrow> FatalError e | None \<Rightarrow> Success, out)
                       | _ \<Rightarrow> (Crashed, [])))))"

text \<open>What the goroutine sends: the messages of the detector, log messages in between, and the result at the end.\<close>

definition done_message :: "'f gen_world \<Rightarrow> (run_err, 'f detector) gres \<Rightarrow> ui_msg" where
  "done_message w r = DoneMsg (case r of Err e \<Rightarrow> Some (gw_errText w e) | _ \<Rightarrow> None)"


section \<open>How the program ends\<close>

text \<open>A message that leaves the interface running.\<close>

fun runs_on :: "tea_msg \<Rightarrow> bool" where
  "runs_on (KeyMsg k) = (k \<noteq> ''ctrl+c'' \<and> k \<noteq> ''q'')"
| "runs_on (WindowSizeMsg w h) = True"
| "runs_on (Internal (DoneMsg e)) = False"
| "runs_on (Internal msg) = True"

lemma Update_runs_on:
  assumes "runs_on msg" and "\<not> ui_done m"
  shows "snd (Update msg m) \<noteq> Quit \<and> \<not> ui_done (fst (Update msg m)) \<and> err (fst (Update msg m)) = err m"
  using assms by (cases "(msg, m)" rule: Update.cases) (auto simp: Let_def)

lemma tea_Run_done:
  assumes "list_all runs_on msgs" and "\<not> ui_done m" and "reasons_paired m"
  shows "\<exists>m'. tea_Run (msgs @ Internal (DoneMsg e) # rest) m = Some m' \<and> err m' = e \<and> reasons_paired m'"
  using assms
proof (induction msgs arbitrary: m)
  case Nil
  then show ?case by (simp add: reasons_paired_def)
next
  case (Cons msg msgs)
  from Update_runs_on [of msg m] Update_paired [of m msg] Cons.prems Cons.IH [of "fst (Update msg m)"] show ?case
    by (auto split: prod.splits)
qed

lemma NewModel_paired: "reasons_paired (NewModel p)" "\<not> ui_done (NewModel p)"
  by (simp_all add: reasons_paired_def NewModel_def)


definition ex_world :: "Frame list gen_world" where
  "ex_world = \<lparr>gw_fuel = 9, gw_connected = (\<lambda>_. False), gw_env = demo_env demo_q, gw_parse = (\<lambda>_. None), gw_fid = (\<lambda>_. []),
    gw_pqw = demo_pqw, gw_world = (\<lambda>_. (0, SaveOk)), gw_fin = Ok, gw_ParseDecimal = (\<lambda>s. Some (length s)), gw_errText = (\<lambda>_. ''no station'')\<rparr>"

definition ex_gen_flags :: gen_flags where
  "ex_gen_flags = \<lparr>gf_robot = ''arm'', gf_queue = ''inference/normvla'', gf_from = ''1'', gf_to = ''22'', gf_output = ''out'', gf_task = ''pick'',
    gf_episodeDuration = 45, gf_episodeMinCommands = 100, gf_noTui = False\<rparr>"


text \<open>
  Quitting is taken for success: after the key q the program prints that the processing is complete and at 100%, whatever
  had been processed, and ends with success.
\<close>

theorem quit_reports_complete:
  assumes "gf_from fl \<noteq> []" "gf_to fl \<noteq> []" "gf_output fl \<noteq> []" "gf_task fl \<noteq> []" "\<not> gf_noTui fl"
    and "gw_ParseDecimal w (gf_from fl) = Some fromPtr" "gw_ParseDecimal w (gf_to fl) = Some toPtr"
  shows "\<exists>out. gen_main w env elapsed (Internal TickMsg # KeyMsg ''q'' # rest) fl = (Success, out) \<and>
    check_mark @ '' Processing complete!'' \<in> set out"
  using assms by (simp add: gen_main_def NewModel_def PrintSummary_def Let_def)

end
