(* ===== verification/Console_Tools.thy ===== *)
theory Console_Tools
  imports Ui_Model
begin

text \<open>
  What the command-line programs do when they start: the limit of open files (\<^verbatim>\<open>shared/ulimits/ulimits.go\<close>)
  and the source position added to log lines (\<^verbatim>\<open>shared/console-tool/console-tool.go\<close>). The system calls are
  arguments.
\<close>

section \<open>The limit of open files\<close>

record Rlimit =
  rl_Cur :: u64
  rl_Max :: u64

datatype 'e limit_msg = GetFailed 'e | Enough Rlimit | SetFailed 'e | CheckFailed 'e | ChangedTo Rlimit

definition wanted :: "Rlimit \<Rightarrow> Rlimit" where
  "wanted l = \<lparr>rl_Cur = (if rl_Cur l < 256000 then 256000 else rl_Cur l), rl_Max = (if rl_Max l < 256000 then 256000 else rl_Max l)\<rparr>"

definition SetupForHighLoad :: "('s \<Rightarrow> 'e + Rlimit) \<Rightarrow> (Rlimit \<Rightarrow> 's \<Rightarrow> 'e option \<times> 's) \<Rightarrow> 's \<Rightarrow> 'e limit_msg \<times> 's" where
  "SetupForHighLoad Getrlimit Setrlimit s =
     (case Getrlimit s of
        Inl e \<Rightarrow> (GetFailed e, s)
      | Inr rLimit \<Rightarrow>
          let changed = (rl_Cur rLimit < 256000 \<or> rl_Max rLimit < 256000); rLimit = wanted rLimit in
          if \<not> changed then (Enough rLimit, s)
          else
            (case Setrlimit rLimit s of
               (Some e, s) \<Rightarrow> (SetFailed e, s)
             | (None, s) \<Rightarrow> (case Getrlimit s of Inl e \<Rightarrow> (CheckFailed e, s) | Inr rLimit \<Rightarrow> (ChangedTo rLimit, s))))"

text \<open>
  The rule of the kernel: a process without privilege may not raise its maximum, and the current limit may not exceed
  the maximum.
\<close>

definition kernel_set :: "bool \<Rightarrow> Rlimit \<Rightarrow> Rlimit \<Rightarrow> string option \<times> Rlimit" where
  "kernel_set privileged new old =
     (if rl_Cur new > rl_Max new then (Some ''EINVAL'', old)
      else if rl_Max new > rl_Max old \<and> \<not> privileged then (Some ''EPERM'', old)
      else (None, new))"

text \<open>
  Under the rule of the kernel the limit is never lowered. A privileged process always gets at least 256000; one without
  privilege gets it exactly when its maximum allows it, and otherwise keeps its limit, because the maximum
  is raised together with the current limit.
\<close>

theorem limits_set:
  assumes "rl_Cur old \<le> rl_Max old" and "SetupForHighLoad Inr (kernel_set privileged) old = (msg, new)"
  shows "rl_Cur old \<le> rl_Cur new \<and> rl_Max old \<le> rl_Max new \<and>
    (if privileged \<or> 256000 \<le> rl_Max old then rl_Cur new = max (rl_Cur old) 256000 else msg = SetFailed ''EPERM'' \<and> new = old)"
  using assms
  by (auto simp: SetupForHighLoad_def kernel_set_def wanted_def Let_def max_def not_less not_le split: if_splits prod.splits)


section \<open>The position in log lines\<close>

text \<open>
  The hook cuts the path behind the place of \<^verbatim>\<open>norma_core/\<close>; \<^verbatim>\<open>strings.Index\<close> gives -1 where there is none. The level
  info is 1; None in place of the position means that nothing is added.
\<close>

definition LineInfoHook_Run :: "int \<Rightarrow> (string \<times> nat) option \<Rightarrow> (unit, string option) gres" where
  "LineInfoHook_Run l caller =
     (if l \<ge> 1 then
        (case caller of
           None \<Rightarrow> Ok None
         | Some (f, line) \<Rightarrow>
             let start = (case str_index f ''norma_core/'' of None \<Rightarrow> 7 | Some i \<Rightarrow> i + 8) in
             if start \<le> length f then Ok (Some (drop start f @ '':'' @ fmt_d line)) else Panic)
      else Ok None)"

lemma is_prefix_of_split: "is_prefix_of xs ys \<Longrightarrow> \<exists>rest. ys = xs @ rest"
  by (induction xs ys rule: is_prefix_of.induct) auto

lemma str_index_split: "str_index s sub = Some i \<Longrightarrow> \<exists>pre rest. s = pre @ sub @ rest \<and> length pre = i"
proof (induction s sub arbitrary: i rule: str_index.induct)
  case (1 s sub)
  show ?case
  proof (cases "is_prefix_of sub s")
    case True
    then have "i = 0" using 1(2) by (simp add: str_index.simps)
    with is_prefix_of_split [OF True] show ?thesis by auto
  next
    case False
    then obtain c s' j where s: "s = c # s'" "str_index s' sub = Some j" "i = Suc j"
      using 1(2) by (subst (asm) str_index.simps) (auto split: list.splits)
    from 1(1) [OF False s(1) s(2)] s show ?thesis by (metis append_Cons length_Cons)
  qed
qed

text \<open>Eight of the eleven characters of the folder are cut, so the position starts with the rest of its name.\<close>

lemma position_keeps_folder_tail:
  assumes "str_index f ''norma_core/'' = Some i"
  shows "\<exists>rest. LineInfoHook_Run 1 (Some (f, line)) = Ok (Some (''re/'' @ rest @ '':'' @ fmt_d line))"
proof -
  obtain pre rest where "f = pre @ ''norma_core/'' @ rest" "length pre = i" using str_index_split [OF assms] by blast
  then show ?thesis using assms by (simp add: LineInfoHook_Run_def)
qed

lemma short_path_panics: "LineInfoHook_Run 1 (Some (''a.go'', 3)) = Panic"
  by code_simp

end
