(* ===== verification/Go_Schedules.thy ===== *)
theory Go_Schedules
  imports Main
begin

text \<open>
  Goroutines as a step relation on a shared state: one step is one operation of one goroutine, so a run is any
  schedule. The locale is the contract of a group of goroutines that finishes: an invariant, a count of what
  is left, and a step that some goroutine can always do until the group has ended. What follows is proved
  once for all groups.
\<close>

locale goroutines =
  fixes step :: "'s \<Rightarrow> 's \<Rightarrow> bool" and invariant :: "'s \<Rightarrow> bool" and remaining :: "'s \<Rightarrow> nat" and ended :: "'s \<Rightarrow> bool"
  assumes invariant_step: "invariant s \<Longrightarrow> step s s' \<Longrightarrow> invariant s'"
    and remaining_less: "invariant s \<Longrightarrow> step s s' \<Longrightarrow> remaining s' < remaining s"
    and progress: "invariant s \<Longrightarrow> \<not> ended s \<Longrightarrow> \<exists>s'. step s s'"
begin

lemma invariant_steps: "invariant s \<Longrightarrow> (step ^^ k) s s' \<Longrightarrow> invariant s'"
  by (induction k arbitrary: s') (auto intro: invariant_step)

lemma steps_bounded: "invariant s \<Longrightarrow> (step ^^ k) s s' \<Longrightarrow> k + remaining s' \<le> remaining s"
proof (induction k arbitrary: s')
  case (Suc k)
  then obtain t where t: "(step ^^ k) s t" "step t s'" by auto
  from remaining_less [OF invariant_steps [OF Suc.prems(1) t(1)] t(2)] Suc.IH [OF Suc.prems(1) t(1)] show ?case by simp
qed simp

lemma run_to_end: "invariant s \<Longrightarrow> \<exists>k s'. (step ^^ k) s s' \<and> ended s'"
proof (induction "remaining s" arbitrary: s rule: less_induct)
  case less
  show ?case
  proof (cases "ended s")
    case True
    then show ?thesis by (intro exI [of _ 0] exI [of _ s]) simp
  next
    case False
    then obtain t where t: "step s t" using progress less.prems by blast
    then show ?thesis
      using less.hyps [OF remaining_less [OF less.prems t] invariant_step [OF less.prems t]] relpowp_Suc_I2 [of step s t] by blast
  qed
qed

end

end
