(* ===== verification/Video_Episodes.thy ===== *)
theory Video_Episodes
  imports Dataset_Frames "HOL-Library.Signed_Division"
begin

text \<open>
  The data side of \<^verbatim>\<open>dataset-mp4.go\<close>: rows are taken out of the Arrow record batches, collected into
  episodes, and the episodes are laid out in grids whose frames become the render jobs.

  The parquet and Arrow packages are not part of the repository. A record batch is a record of what the
  code asks of it: the number of rows, the value of a column at an index, and for the list columns
  whether a row is null and the offsets of its elements. Each of these calls may panic.
\<close>

section \<open>Rows of a record batch\<close>

type_synonym 'a column = "nat \<Rightarrow> (unit, 'a) gres"

record joint_columns =
  jc_RangeMin :: "u32 column"
  jc_RangeMax :: "u32 column"
  jc_Position :: "u32 column"
  jc_PositionNorm :: "u32 column"
  jc_Goal :: "u32 column"
  jc_GoalNorm :: "u32 column"
  jc_CurrentMA :: "u32 column"
  jc_Velocity :: "u32 column"

record arrow_batch =
  ab_NumRows :: nat
  ab_EpisodeStart :: "u64 column"
  ab_Id :: "bytes column"
  ab_Timestamp :: "u64 column"
  ab_JointsNull :: "bool column"
  ab_JointsOffsets :: "(nat \<times> nat) column"
  ab_Joints :: joint_columns
  ab_ImagesNull :: "bool column"
  ab_ImagesOffsets :: "(nat \<times> nat) column"
  ab_JPEG :: "bytes column"
  ab_Task :: "string column"

definition extract_joint :: "joint_columns \<Rightarrow> nat \<Rightarrow> (unit, Joint) gres" where
  "extract_joint c j =
     gbind (jc_RangeMin c j) (\<lambda>rangeMin. gbind (jc_RangeMax c j) (\<lambda>rangeMax.
     gbind (jc_Position c j) (\<lambda>position. gbind (jc_PositionNorm c j) (\<lambda>positionNorm.
     gbind (jc_Goal c j) (\<lambda>goal. gbind (jc_GoalNorm c j) (\<lambda>goalNorm.
     gbind (jc_CurrentMA c j) (\<lambda>currentMA. gbind (jc_Velocity c j) (\<lambda>velocity.
       Ok \<lparr>RangeMin = rangeMin, RangeMax = rangeMax, Position = position, PositionNorm = positionNorm, Goal = goal,
         GoalNorm = goalNorm, CurrentMA = currentMA, Velocity = velocity\<rparr>))))))))"

text \<open>The elements of a list column in a row: none when it is null.\<close>

definition list_elements :: "bool column \<Rightarrow> (nat \<times> nat) column \<Rightarrow> 'a column \<Rightarrow> 'a list column" where
  "list_elements isNull offsets f idx =
     gbind (isNull idx) (\<lambda>null.
       if null then Ok []
       else gbind (offsets idx) (\<lambda>(s, e). gmapM f [s..<e]))"

definition extractFrameFromBatch :: "nat \<Rightarrow> arrow_batch \<Rightarrow> (unit, Frame) gres" where
  "extractFrameFromBatch idx b =
     gbind (ab_EpisodeStart b idx) (\<lambda>episodeStart. gbind (ab_Id b idx) (\<lambda>gid.
     gbind (ab_Timestamp b idx) (\<lambda>timestamp. gbind (ab_Task b idx) (\<lambda>tsk.
     gbind (list_elements (ab_JointsNull b) (ab_JointsOffsets b) (extract_joint (ab_Joints b)) idx) (\<lambda>joints.
     gbind (list_elements (ab_ImagesNull b) (ab_ImagesOffsets b) (\<lambda>j. gbind (ab_JPEG b j) (\<lambda>jpeg. Ok \<lparr>JPEG = jpeg\<rparr>)) idx) (\<lambda>images.
       Ok \<lparr>EpisodeStartNS = episodeStart, GlobalFrameID = gid, TimestampNsSinceEpisodeStart = timestamp,
         Joints = joints, Images = images, Task = tsk\<rparr>))))))"


section \<open>Collecting episodes\<close>

text \<open>The slice of frames is nil when the episode is marked as invalid.\<close>

record Episode =
  ep_frames :: "Frame list option"
  ep_startNS :: u64
  ep_episodeNum :: nat

type_synonym collect_state = "Episode list \<times> Episode option"

definition save_episode :: "collect_state \<Rightarrow> Episode list" where
  "save_episode st =
     (case st of (episodes, cur) \<Rightarrow>
        (case cur of
           Some ep \<Rightarrow> (case ep_frames ep of Some (f # fs) \<Rightarrow> episodes @ [ep] | _ \<Rightarrow> episodes)
         | None \<Rightarrow> episodes))"

definition change_episode :: "u64 \<Rightarrow> collect_state \<Rightarrow> collect_state" where
  "change_episode episodeStart st =
     (case snd st of
        Some ep \<Rightarrow> if episodeStart \<noteq> ep_startNS ep
          then let episodes = save_episode st in
            (episodes, Some \<lparr>ep_frames = Some [], ep_startNS = episodeStart, ep_episodeNum = length episodes + 1\<rparr>)
          else st
      | None \<Rightarrow> (fst st, Some \<lparr>ep_frames = Some [], ep_startNS = episodeStart, ep_episodeNum = length (fst st) + 1\<rparr>))"

definition add_frame :: "Frame \<Rightarrow> collect_state \<Rightarrow> collect_state" where
  "add_frame frame st =
     (fst st, map_option (\<lambda>ep.
        if length (Images frame) \<noteq> 2 then ep\<lparr>ep_frames := None\<rparr>
        else case ep_frames ep of None \<Rightarrow> ep | Some fs \<Rightarrow> ep\<lparr>ep_frames := Some (fs @ [frame])\<rparr>) (snd st))"

definition collect_row :: "arrow_batch \<Rightarrow> nat \<Rightarrow> collect_state \<Rightarrow> (unit, collect_state) gres" where
  "collect_row b i st =
     gbind (ab_EpisodeStart b i) (\<lambda>episodeStart.
       let st = change_episode episodeStart st in
       gbind (extractFrameFromBatch i b) (\<lambda>frame. Ok (add_frame frame st)))"

text \<open>The batches the reader delivers, and whether it ends with an error, which ends the process.\<close>

definition collectEpisodes :: "arrow_batch list \<Rightarrow> bool \<Rightarrow> (unit, Episode list) gres" where
  "collectEpisodes batches failed =
     gbind (gfold (\<lambda>b. gfold (collect_row b) [0..<ab_NumRows b]) batches ([], None)) (\<lambda>st.
       if failed then Err () else Ok (save_episode st))"


section \<open>Laying out the grids\<close>

definition empty_frame :: Frame where
  "empty_frame = \<lparr>EpisodeStartNS = 0, GlobalFrameID = [], TimestampNsSinceEpisodeStart = 0, Joints = [], Images = [], Task = []\<rparr>"

record renderJob =
  rj_frames :: "Frame list"
  rj_episodeNums :: "nat list"
  rj_frameIndex :: nat

definition frames_of_episode :: "Episode \<Rightarrow> Frame list" where
  "frames_of_episode ep = (case ep_frames ep of None \<Rightarrow> [] | Some fs \<Rightarrow> fs)"

definition grid_slice :: "Episode list \<Rightarrow> int \<Rightarrow> int \<Rightarrow> (unit, Episode list) gres" where
  "grid_slice episodes gridSize gridIdx =
     (let startEp = gridIdx * gridSize; endEp = min (startEp + gridSize) (int (length episodes)) in
      if 0 \<le> startEp \<and> startEp \<le> endEp then Ok (take (nat (endEp - startEp)) (drop (nat startEp) episodes)) else Panic)"

definition max_frames :: "Episode list \<Rightarrow> nat" where
  "max_frames gridEpisodes = fold (\<lambda>ep m. if length (frames_of_episode ep) > m then length (frames_of_episode ep) else m) gridEpisodes 0"

definition grid_job :: "Episode list \<Rightarrow> nat \<Rightarrow> nat \<Rightarrow> nat \<Rightarrow> renderJob" where
  "grid_job gridEpisodes gridSize frameIndex frameIdx =
     (let has = (\<lambda>i. i < length gridEpisodes \<and> frameIdx < length (frames_of_episode (gridEpisodes ! i))) in
      \<lparr>rj_frames = map (\<lambda>i. if has i then frames_of_episode (gridEpisodes ! i) ! frameIdx else empty_frame) [0..<gridSize],
       rj_episodeNums = map (\<lambda>i. if has i then ep_episodeNum (gridEpisodes ! i) else 0) [0..<gridSize],
       rj_frameIndex = frameIndex\<rparr>)"

text \<open>A negative grid size makes the allocation of the job panic.\<close>

definition grid_step :: "Episode list \<Rightarrow> int \<Rightarrow> nat \<Rightarrow> renderJob list \<Rightarrow> (unit, renderJob list) gres" where
  "grid_step episodes gridSize gridIdx jobs =
     gbind (grid_slice episodes gridSize (int gridIdx)) (\<lambda>gridEpisodes.
       let maxFrames = max_frames gridEpisodes in
       if maxFrames > 0 \<and> gridSize < 0 then Panic
       else Ok (jobs @ map (\<lambda>frameIdx. grid_job gridEpisodes (nat gridSize) (length jobs + frameIdx) frameIdx) [0..<maxFrames]))"

definition grid_jobs :: "int \<Rightarrow> int \<Rightarrow> Episode list \<Rightarrow> (unit, renderJob list) gres" where
  "grid_jobs gridCols gridRows episodes =
     (let gridSize = go_int (gridCols * gridRows) in
      if gridSize = 0 then Panic
      else let numGrids = go_int (int (length episodes) + gridSize - 1) sdiv gridSize in
        gfold (grid_step episodes gridSize) [0..<nat numGrids] [])"


section \<open>The episodes are the runs of rows\<close>

text \<open>
  The specification: rows with the same start time that follow each other belong together, and of these
  runs the ones whose frames all have two images are the episodes, numbered from 1.
\<close>

fun runs :: "Frame list \<Rightarrow> Frame list list" where
  "runs [] = []"
| "runs (f # fs) =
     (case runs fs of
        [] \<Rightarrow> [[f]]
      | r # rs \<Rightarrow> if EpisodeStartNS f = EpisodeStartNS (hd r) then (f # r) # rs else [f] # r # rs)"

definition two_images :: "Frame list \<Rightarrow> bool" where
  "two_images r \<longleftrightarrow> list_all (\<lambda>f. length (Images f) = 2) r"

definition numbered :: "Frame list list \<Rightarrow> Episode list" where
  "numbered rs = map (\<lambda>(k, r). \<lparr>ep_frames = Some r, ep_startNS = EpisodeStartNS (hd r), ep_episodeNum = k\<rparr>) (enumerate 1 rs)"

lemma runs_concat: "concat (runs fs) = fs"
  by (induction fs) (auto split: list.split)

lemma runs_nonempty: "[] \<notin> set (runs fs)"
  by (induction fs) (auto split: list.split)

lemma runs_Nil_iff [simp]: "runs fs = [] \<longleftrightarrow> fs = []"
  by (cases fs) (auto split: list.split)

lemma runs_last: "fs \<noteq> [] \<Longrightarrow> last (runs fs) \<noteq> []"
  by (metis last_in_set runs_Nil_iff runs_nonempty)

lemma runs_snoc:
  "runs (fs @ [f]) =
     (if fs = [] then [[f]]
      else if EpisodeStartNS (hd (last (runs fs))) = EpisodeStartNS f then butlast (runs fs) @ [last (runs fs) @ [f]]
      else runs fs @ [[f]])"
proof (induction fs)
  case (Cons g fs)
  show ?case
  proof (cases "runs fs")
    case Nil
    then show ?thesis by simp
  next
    case (Cons r rs)
    then have "fs \<noteq> []" "r \<noteq> []" using runs_nonempty [of fs] by auto
    then show ?thesis using Cons.IH Cons by (cases rs rule: rev_cases) (auto split: list.split)
  qed
qed simp

lemma numbered_snoc: "numbered (rs @ [r]) =
    numbered rs @ [\<lparr>ep_frames = Some r, ep_startNS = EpisodeStartNS (hd r), ep_episodeNum = length rs + 1\<rparr>]"
  by (simp add: numbered_def enumerate_append_eq)

lemma length_numbered [simp]: "length (numbered rs) = length rs"
  by (simp add: numbered_def)

text \<open>The state of the loop after some rows: all runs but the last are saved, the last one is open.\<close>

definition loop_state :: "Frame list list \<Rightarrow> collect_state" where
  "loop_state rs =
     (if rs = [] then ([], None)
      else let done = filter two_images (butlast rs) in
        (numbered done, Some \<lparr>ep_frames = (if two_images (last rs) then Some (last rs) else None),
           ep_startNS = EpisodeStartNS (hd (last rs)), ep_episodeNum = length done + 1\<rparr>))"

definition row_step :: "Frame \<Rightarrow> collect_state \<Rightarrow> collect_state" where
  "row_step f st = add_frame f (change_episode (EpisodeStartNS f) st)"

lemma save_loop_state:
  assumes "rs \<noteq> []" and "last rs \<noteq> []"
  shows "save_episode (loop_state rs) = numbered (filter two_images rs)"
proof -
  have "filter two_images rs = filter two_images (butlast rs) @ (if two_images (last rs) then [last rs] else [])"
    by (subst append_butlast_last_id [OF assms(1), symmetric]) simp
  then show ?thesis using assms
    by (cases "last rs") (auto simp: loop_state_def save_episode_def Let_def numbered_snoc)
qed

lemma row_step_new:
  "change_episode t st = (eps, Some \<lparr>ep_frames = Some [], ep_startNS = t, ep_episodeNum = k\<rparr>) \<Longrightarrow>
    EpisodeStartNS f = t \<Longrightarrow> row_step f st =
      (eps, Some \<lparr>ep_frames = (if two_images [f] then Some [f] else None), ep_startNS = t, ep_episodeNum = k\<rparr>)"
  by (simp add: row_step_def add_frame_def two_images_def)

lemma row_step_state: "row_step f (loop_state (runs fs)) = loop_state (runs (fs @ [f]))"
proof (cases "fs = []")
  case True
  then show ?thesis by (simp add: loop_state_def row_step_def change_episode_def add_frame_def two_images_def numbered_def)
next
  case False
  let ?rs = "runs fs"
  have ne: "?rs \<noteq> []" "last ?rs \<noteq> []" using False runs_last [of fs] by auto
  show ?thesis
  proof (cases "EpisodeStartNS (hd (last ?rs)) = EpisodeStartNS f")
    case True
    then show ?thesis using False ne
      by (auto simp: runs_snoc loop_state_def row_step_def change_episode_def add_frame_def two_images_def Let_def)
  next
    case other: False
    have "change_episode (EpisodeStartNS f) (loop_state ?rs) = (numbered (filter two_images ?rs),
        Some \<lparr>ep_frames = Some [], ep_startNS = EpisodeStartNS f, ep_episodeNum = length (filter two_images ?rs) + 1\<rparr>)"
      using other ne save_loop_state [OF ne] by (auto simp: change_episode_def loop_state_def Let_def)
    from row_step_new [OF this refl] show ?thesis using False other by (simp add: runs_snoc loop_state_def Let_def)
  qed
qed

lemma fold_row_step: "fold row_step fs (loop_state []) = loop_state (runs fs)"
  by (induction fs rule: rev_induct) (simp_all add: row_step_state)

lemma extract_start: "extractFrameFromBatch i b = Ok f \<Longrightarrow> ab_EpisodeStart b i = Ok (EpisodeStartNS f)"
  by (auto simp: extractFrameFromBatch_def gbind_Ok_iff)

lemma collect_batch:
  "gmapM (\<lambda>i. extractFrameFromBatch i b) is = Ok fs \<Longrightarrow> gfold (collect_row b) is st = Ok (fold row_step fs st)"
proof (induction "is" arbitrary: fs st)
  case (Cons i "is")
  from Cons.prems obtain f fs' where f: "extractFrameFromBatch i b = Ok f" "gmapM (\<lambda>i. extractFrameFromBatch i b) is = Ok fs'" "fs = f # fs'"
    by (auto simp: gbind_Ok_iff gmap_Ok_iff)
  have "collect_row b i st = Ok (row_step f st)" using f(1) extract_start [OF f(1)] by (simp add: collect_row_def row_step_def)
  then show ?case using Cons.IH [OF f(2)] f(3) by simp
qed simp

lemma collect_batches:
  "list_all2 (\<lambda>b fs. gmapM (\<lambda>i. extractFrameFromBatch i b) [0..<ab_NumRows b] = Ok fs) batches fss \<Longrightarrow>
    gfold (\<lambda>b. gfold (collect_row b) [0..<ab_NumRows b]) batches st = Ok (fold row_step (concat fss) st)"
  by (induction arbitrary: st rule: list_all2_induct) (simp_all add: collect_batch)

text \<open>
  C23. The collected episodes are the runs of rows with the same start time in which every frame has
  two images, numbered from 1 in their order, however the rows are spread over the batches.
\<close>

theorem collect_episodes_runs:
  assumes "list_all2 (\<lambda>b fs. gmapM (\<lambda>i. extractFrameFromBatch i b) [0..<ab_NumRows b] = Ok fs) batches fss"
  shows "collectEpisodes batches False = Ok (numbered (filter two_images (runs (concat fss))))"
proof -
  have "save_episode (loop_state (runs fs)) = numbered (filter two_images (runs fs))" for fs
  proof (cases "fs = []")
    case False
    then show ?thesis using runs_last [of fs] by (intro save_loop_state) auto
  qed (simp add: loop_state_def save_episode_def numbered_def)
  moreover have "loop_state [] = ([], None)" by (simp add: loop_state_def)
  ultimately show ?thesis
    using collect_batches [OF assms, of "loop_state []"] fold_row_step [of "concat fss"] by (simp add: collectEpisodes_def)
qed

definition ex_batch :: arrow_batch where
  "ex_batch = \<lparr>ab_NumRows = 3, ab_EpisodeStart = (\<lambda>i. Ok ([7, 7, 9] ! i)), ab_Id = (\<lambda>i. Ok [of_nat i]), ab_Timestamp = (\<lambda>i. Ok 0),
     ab_JointsNull = (\<lambda>i. Ok True), ab_JointsOffsets = (\<lambda>i. Panic),
     ab_Joints = \<lparr>jc_RangeMin = (\<lambda>i. Panic), jc_RangeMax = (\<lambda>i. Panic), jc_Position = (\<lambda>i. Panic), jc_PositionNorm = (\<lambda>i. Panic),
       jc_Goal = (\<lambda>i. Panic), jc_GoalNorm = (\<lambda>i. Panic), jc_CurrentMA = (\<lambda>i. Panic), jc_Velocity = (\<lambda>i. Panic)\<rparr>,
     ab_ImagesNull = (\<lambda>i. Ok False), ab_ImagesOffsets = (\<lambda>i. Ok ([(0, 2), (2, 3), (3, 5)] ! i)),
     ab_JPEG = (\<lambda>i. Ok [of_nat i]), ab_Task = (\<lambda>i. Ok ''t'')\<rparr>"

definition ex_rows :: "Frame list" where
  "ex_rows = (case gmapM (\<lambda>i. extractFrameFromBatch i ex_batch) [0..<3] of Ok fs \<Rightarrow> fs | _ \<Rightarrow> [])"

theorem collect_episodes_runs_witness:
  "collectEpisodes [ex_batch] False = Ok [\<lparr>ep_frames = Some [ex_rows ! 2], ep_startNS = 9, ep_episodeNum = 1\<rparr>]"
proof -
  have "list_all2 (\<lambda>b fs. gmapM (\<lambda>i. extractFrameFromBatch i b) [0..<ab_NumRows b] = Ok fs) [ex_batch] [ex_rows]"
    by code_simp
  moreover have "numbered (filter two_images (runs (concat [ex_rows]))) =
      [\<lparr>ep_frames = Some [ex_rows ! 2], ep_startNS = 9, ep_episodeNum = 1\<rparr>]" by code_simp
  ultimately show ?thesis using collect_episodes_runs [of "[ex_batch]" "[ex_rows]"] by simp
qed


section \<open>Every frame has its place in a grid\<close>

definition grid_of :: "nat \<Rightarrow> Episode list \<Rightarrow> nat \<Rightarrow> Episode list" where
  "grid_of gs episodes g = take gs (drop (g * gs) episodes)"

text \<open>The number of jobs before a grid.\<close>

definition job_base :: "nat \<Rightarrow> Episode list \<Rightarrow> nat \<Rightarrow> nat" where
  "job_base gs episodes g = sum_list (map (\<lambda>g. max_frames (grid_of gs episodes g)) [0..<g])"

lemma fold_max: "fold (\<lambda>ep m. if length (frames_of_episode ep) > m then length (frames_of_episode ep) else m) eps m =
    fold max (map (\<lambda>ep. length (frames_of_episode ep)) eps) m"
  by (induction eps arbitrary: m) (auto simp: max_def)

lemma max_frames_ge: "ep \<in> set eps \<Longrightarrow> length (frames_of_episode ep) \<le> max_frames eps"
  unfolding max_frames_def fold_max Max.set_eq_fold [symmetric] by (rule Max_ge) auto

lemma grid_slice_ok:
  assumes "g * gs \<le> length episodes"
  shows "grid_slice episodes (int gs) (int g) = Ok (grid_of gs episodes g)"
proof -
  define s where "s = g * gs"
  have "nat (min (int s + int gs) (int (length episodes)) - int s) = min gs (length episodes - s)"
    using assms unfolding s_def [symmetric] by auto
  moreover have "int g * int gs = int s" by (simp add: s_def)
  ultimately show ?thesis using assms
    unfolding grid_slice_def Let_def grid_of_def s_def [symmetric] by (auto simp: min_def)
qed

definition jobs_upto :: "nat \<Rightarrow> Episode list \<Rightarrow> nat \<Rightarrow> renderJob list" where
  "jobs_upto gs episodes n = concat (map (\<lambda>g. map (\<lambda>j. grid_job (grid_of gs episodes g) gs (job_base gs episodes g + j) j)
     [0..<max_frames (grid_of gs episodes g)]) [0..<n])"

lemma length_jobs_upto: "length (jobs_upto gs episodes n) = job_base gs episodes n"
  by (simp add: jobs_upto_def job_base_def length_concat comp_def)

lemma jobs_upto_Suc: "jobs_upto gs episodes (Suc n) = jobs_upto gs episodes n @
    map (\<lambda>j. grid_job (grid_of gs episodes n) gs (job_base gs episodes n + j) j) [0..<max_frames (grid_of gs episodes n)]"
  by (simp add: jobs_upto_def)

lemma gfold_snoc: "gfold step (is @ [i]) s = gbind (gfold step is s) (step i)"
proof (induction "is" arbitrary: s)
  case Nil
  show ?case by (cases "step i s") simp_all
next
  case (Cons j "is")
  then show ?case by (cases "step j s") simp_all
qed

lemma gfold_jobs:
  "(\<And>g. g < n \<Longrightarrow> g * gs \<le> length episodes) \<Longrightarrow> gfold (grid_step episodes (int gs)) [0..<n] [] = Ok (jobs_upto gs episodes n)"
proof (induction n)
  case (Suc n)
  then show ?case
    by (simp add: gfold_snoc grid_step_def grid_slice_ok jobs_upto_Suc length_jobs_upto)
qed (simp add: jobs_upto_def)

lemma nth_jobs_upto:
  "g < n \<Longrightarrow> j < max_frames (grid_of gs episodes g) \<Longrightarrow>
    job_base gs episodes g + j < job_base gs episodes n \<and>
    jobs_upto gs episodes n ! (job_base gs episodes g + j) = grid_job (grid_of gs episodes g) gs (job_base gs episodes g + j) j"
proof (induction n)
  case (Suc n)
  have base: "job_base gs episodes (Suc n) = job_base gs episodes n + max_frames (grid_of gs episodes n)"
    by (simp add: job_base_def)
  show ?case
  proof (cases "g = n")
    case True
    then show ?thesis using Suc.prems base by (simp add: jobs_upto_Suc nth_append length_jobs_upto)
  next
    case False
    with Suc show ?thesis using base by (auto simp: jobs_upto_Suc nth_append length_jobs_upto)
  qed
qed simp

lemma job_indices: "map (\<lambda>j. b + j) [0..<m] = [b..<b + m]"
  using map_add_upt [of b m] by (simp add: add.commute)

lemma jobs_indices: "map rj_frameIndex (jobs_upto gs episodes n) = [0..<job_base gs episodes n]"
proof (induction n)
  case (Suc n)
  have "job_base gs episodes (Suc n) = job_base gs episodes n + max_frames (grid_of gs episodes n)"
    by (simp add: job_base_def)
  then have "[0..<job_base gs episodes (Suc n)] = [0..<job_base gs episodes n] @
      map (\<lambda>j. job_base gs episodes n + j) [0..<max_frames (grid_of gs episodes n)]"
    unfolding job_indices by (simp only: upt_add_eq_append [OF le0])
  moreover have "rj_frameIndex (grid_job eps m i j) = i" for eps m i j by (simp add: grid_job_def Let_def)
  ultimately show ?case using Suc by (simp add: jobs_upto_Suc comp_def)
qed (simp add: jobs_upto_def job_base_def)

lemma grid_jobs_layout:
  assumes "0 < gridCols" and "0 < gridRows" and "gridCols * gridRows < 2 ^ 62" and "int (length episodes) < 2 ^ 62"
    and "gs = nat (gridCols * gridRows)" and n_def: "n = (length episodes + gs - 1) div gs"
  shows "grid_jobs gridCols gridRows episodes = Ok (jobs_upto gs episodes n)"
proof -
  have gs: "0 < gs" "gridCols * gridRows = int gs" using assms by auto
  have "int (length episodes) + int gs - 1 = int (length episodes + gs - 1)" using gs(1) by simp
  then have num: "go_int (int (length episodes) + int gs - 1) sdiv int gs = int n"
    using assms(3,4) gs by (simp add: signed_divide_int_def n_def sgn_if zdiv_int)
  have below: "g * gs \<le> length episodes" if "g < n" for g
  proof -
    have "Suc g * gs \<le> length episodes + gs - 1" 
      using that gs(1) less_eq_div_iff_mult_less_eq [of gs "Suc g" "length episodes + gs - 1"] by (simp add: n_def Suc_le_eq)
    then show ?thesis using gs(1) by simp
  qed
  show ?thesis
    using gs assms(3) num gfold_jobs [of n gs episodes, OF below] by (simp add: grid_jobs_def)
qed

text \<open>
  C24. The jobs of the grids show every frame of every episode exactly where it belongs: for positive
  numbers of columns and rows the layout returns, the jobs are numbered from 0 on, the frames with
  index j of the episodes of a grid share the job number of the grid's base plus j, and in it the
  episode k has the cell k mod the grid size with its frame and its number.
\<close>

theorem grid_jobs_cover:
  assumes "0 < gridCols" and "0 < gridRows" and "gridCols * gridRows < 2 ^ 62" and "int (length episodes) < 2 ^ 62"
    and "gs = nat (gridCols * gridRows)"
  shows "\<exists>jobs. grid_jobs gridCols gridRows episodes = Ok jobs \<and> map rj_frameIndex jobs = [0..<length jobs] \<and>
    (\<forall>k < length episodes. \<forall>j < length (frames_of_episode (episodes ! k)).
       let i = job_base gs episodes (k div gs) + j in
       i < length jobs \<and> rj_frames (jobs ! i) ! (k mod gs) = frames_of_episode (episodes ! k) ! j \<and>
       rj_episodeNums (jobs ! i) ! (k mod gs) = ep_episodeNum (episodes ! k))"
proof -
  have gs: "0 < gs" "gridCols * gridRows = int gs" using assms by auto
  define n where "n = (length episodes + gs - 1) div gs"
  have jobs: "grid_jobs gridCols gridRows episodes = Ok (jobs_upto gs episodes n)" by (rule grid_jobs_layout [OF assms n_def])
  have "let i = job_base gs episodes (k div gs) + j in
       i < length (jobs_upto gs episodes n) \<and> rj_frames (jobs_upto gs episodes n ! i) ! (k mod gs) = frames_of_episode (episodes ! k) ! j \<and>
       rj_episodeNums (jobs_upto gs episodes n ! i) ! (k mod gs) = ep_episodeNum (episodes ! k)"
    if k: "k < length episodes" and j: "j < length (frames_of_episode (episodes ! k))" for k j
  proof -
    let ?g = "grid_of gs episodes (k div gs)"
    have "k div gs * gs \<le> length episodes" using k div_times_less_eq_dividend [of k gs] by linarith
    then have "drop (k div gs * gs) episodes ! (k mod gs) = episodes ! k" by (subst nth_drop) simp_all
    then have cell: "k mod gs < length ?g" "?g ! (k mod gs) = episodes ! k"
      using k gs(1) by (simp_all add: grid_of_def less_diff_conv)
    have "k div gs < n"
    proof -
      have "Suc (k div gs) * gs \<le> k + gs" using gs(1) by simp
      then have "Suc (k div gs) * gs \<le> length episodes + gs - 1" using k by linarith
      then show ?thesis
        using gs(1) less_eq_div_iff_mult_less_eq [of gs "Suc (k div gs)" "length episodes + gs - 1"] by (simp add: n_def Suc_le_eq)
    qed
    moreover have "j < max_frames ?g" using max_frames_ge [of "episodes ! k" ?g] cell j by (metis nth_mem less_le_trans)
    ultimately show ?thesis using nth_jobs_upto [of "k div gs" n j gs episodes] cell j gs(1)
      by (simp add: length_jobs_upto grid_job_def Let_def)
  qed
  then show ?thesis using jobs jobs_indices [of gs episodes n] by (auto simp: length_jobs_upto)
qed

theorem grid_jobs_cover_witness:
  "\<exists>jobs. grid_jobs 2 1 (numbered [[empty_frame], [empty_frame, empty_frame\<lparr>Task := ''x''\<rparr>]]) = Ok jobs \<and>
    map rj_frameIndex jobs = [0..<length jobs] \<and> 1 < length jobs \<and>
    rj_frames (jobs ! 1) ! 1 = empty_frame\<lparr>Task := ''x''\<rparr> \<and> rj_episodeNums (jobs ! 1) ! 1 = 2"
proof -
  let ?eps = "numbered [[empty_frame], [empty_frame, empty_frame\<lparr>Task := ''x''\<rparr>]]"
  from grid_jobs_cover [of 2 1 ?eps 2] obtain jobs where jobs: "grid_jobs 2 1 ?eps = Ok jobs" "map rj_frameIndex jobs = [0..<length jobs]"
    and all: "\<forall>k < length ?eps. \<forall>j < length (frames_of_episode (?eps ! k)).
       let i = job_base 2 ?eps (k div 2) + j in
       i < length jobs \<and> rj_frames (jobs ! i) ! (k mod 2) = frames_of_episode (?eps ! k) ! j \<and>
       rj_episodeNums (jobs ! i) ! (k mod 2) = ep_episodeNum (?eps ! k)" by auto
  have "length (frames_of_episode (?eps ! 1)) = 2" "job_base 2 ?eps 0 = 0" "frames_of_episode (?eps ! 1) ! 1 = empty_frame\<lparr>Task := ''x''\<rparr>"
    "ep_episodeNum (?eps ! 1) = 2" by code_simp+
  with jobs all [rule_format, of 1 1] show ?thesis by (auto simp: Let_def)
qed

end
