(* ===== verification/Video_Render.thy ===== *)
theory Video_Render
  imports Video_Episodes Complex_Main
begin

text \<open>
  The drawing side of \<^verbatim>\<open>dataset-mp4.go\<close>: a grid frame is the sequence of calls of the drawing package,
  which is not part of the repository. Decoding of images, fonts, the width of texts, the text of a
  frame id, the formatting of a joint angle and the requests of the network are functions of an
  environment. The numbers of columns and rows are the positive ones of the render jobs.
\<close>

section \<open>Drawing calls\<close>

datatype 'img draw =
    SetRGB rat rat rat
  | Clear
  | SetLineWidth rat
  | DrawLine rat rat rat rat
  | Stroke
  | DrawImage 'img int int
  | DrawRectangle rat rat rat rat
  | Fill
  | DrawString string rat rat
  | LoadFontFace rat

record 'img render_env =
  jpeg_Decode :: "bytes \<Rightarrow> 'img option"
  font_loads :: "rat \<Rightarrow> bool"
  MeasureString :: "string \<Rightarrow> rat \<times> rat"
  id_String :: "bytes \<Rightarrow> string"
  angle_String :: "u32 \<Rightarrow> string"
  http_Get :: "string \<Rightarrow> (nat \<times> bytes) option"

definition go_trunc :: "rat \<Rightarrow> int" where
  "go_trunc r = (if r \<ge> 0 then \<lfloor>r\<rfloor> else \<lceil>r\<rceil>)"

text \<open>Geometry of the grid.\<close>

definition singleWidth :: int where "singleWidth = 448"
definition singleHeight :: int where "singleHeight = 448"
definition borderWidth :: int where "borderWidth = 2"

definition canvasWidth :: "nat \<Rightarrow> int" where
  "canvasWidth cols = singleWidth * int cols + borderWidth * (int cols + 1)"

definition canvasHeight :: "nat \<Rightarrow> int" where
  "canvasHeight rows = singleHeight * int rows + borderWidth * (int rows + 1)"

definition offsetX :: "nat \<Rightarrow> nat \<Rightarrow> int" where
  "offsetX cols i = int (i mod cols) * (singleWidth + borderWidth) + borderWidth"

definition offsetY :: "nat \<Rightarrow> nat \<Rightarrow> int" where
  "offsetY cols i = int (i div cols) * (singleHeight + borderWidth) + borderWidth"


section \<open>The render service\<close>

datatype fetch_error = TooFewJoints nat | RequestFailed | BadStatus nat | BadImage

definition render_url :: "'img render_env \<Rightarrow> string \<Rightarrow> Joint list \<Rightarrow> nat \<Rightarrow> string" where
  "render_url env host joints port =
     ''http://'' @ host @ '':'' @ fmt_d port @ ''/render?angles='' @
     join_on CHR '','' (map (\<lambda>i. angle_String env (PositionNorm (joints ! i))) [0..<8]) @ ''&view=perspective''"

definition fetch3DRender :: "'img render_env \<Rightarrow> string \<Rightarrow> Joint list \<Rightarrow> nat \<Rightarrow> (fetch_error, 'img) gres" where
  "fetch3DRender env host joints port =
     (if length joints < 8 then Err (TooFewJoints (length joints))
      else case http_Get env (render_url env host joints port) of
        None \<Rightarrow> Err RequestFailed
      | Some (status, body) \<Rightarrow>
          if status \<noteq> 200 then Err (BadStatus status)
          else case jpeg_Decode env body of None \<Rightarrow> Err BadImage | Some img \<Rightarrow> Ok img)"


section \<open>A grid frame\<close>

definition draw_images :: "'img render_env \<Rightarrow> int \<Rightarrow> int \<Rightarrow> Frame \<Rightarrow> 'img draw list" where
  "draw_images env ox oy frame =
     concat (map (\<lambda>imgIdx.
       if JPEG (Images frame ! imgIdx) = [] then []
       else case jpeg_Decode env (JPEG (Images frame ! imgIdx)) of
         None \<Rightarrow> []
       | Some img \<Rightarrow> [DrawImage img (ox + int imgIdx * 224) oy]) [0, 1])"

definition draw_number :: "'img render_env \<Rightarrow> int \<Rightarrow> int \<Rightarrow> nat \<Rightarrow> 'img draw list" where
  "draw_number env ox oy num =
     (if num = 0 then []
      else [SetRGB 1 1 1, LoadFontFace 11] @
        (if font_loads env 11 then
           let episodeText = ''Ep'' @ fmt_d num; (textWidth, textHeight) = MeasureString env episodeText;
               rectX = of_int (ox + 448 - go_trunc textWidth - 8); rectY = of_int (oy + 5) in
           [SetRGB 0 0 (8 / 10), DrawRectangle (rectX - 3) (rectY - 3) (textWidth + 2 * 3) (textHeight + 2 * 3), Fill,
            SetRGB 1 1 1, DrawString episodeText rectX (of_int (oy + go_trunc textHeight))]
         else []))"

text \<open>Two lines of text for each joint, from a number and a height on.\<close>

fun joint_lines :: "rat \<Rightarrow> rat \<Rightarrow> nat \<Rightarrow> Joint list \<Rightarrow> 'img draw list" where
  "joint_lines textX y j [] = []"
| "joint_lines textX y j (joint # joints) =
     [DrawString (''M'' @ fmt_d j @ '' P:'' @ fmt_d (unat (Position joint)) @ '' G:'' @ fmt_d (unat (Goal joint))) textX y,
      DrawString (''   C:'' @ fmt_d (unat (CurrentMA joint)) @ ''mA V:'' @ fmt_d (unat (Velocity joint))) textX (y + 13)] @
     joint_lines textX (y + 13 + 14) (Suc j) joints"

definition draw_left :: "'img render_env \<Rightarrow> bool \<Rightarrow> 'img option \<Rightarrow> int \<Rightarrow> int \<Rightarrow> Frame \<Rightarrow> 'img draw list" where
  "draw_left env enableRendering render ox oy frame =
     (if enableRendering then
        (case render of
           Some img \<Rightarrow> [DrawImage img ox (oy + 224)]
         | None \<Rightarrow> if length (Joints frame) \<ge> 8
             then [SetRGB (2 / 10) 0 0, DrawRectangle (of_int ox) (of_int (oy + 224)) 224 224, Fill] else [])
      else if length (Joints frame) > 0 then
        [SetRGB 1 1 1, LoadFontFace 11] @
        (if font_loads env 11
         then joint_lines (of_int (ox + 5)) (of_int (oy + 224 + 15)) 0 (take ((length (Joints frame) + 1) div 2) (Joints frame))
         else [])
      else [])"

fun motor_lines :: "rat \<Rightarrow> rat \<Rightarrow> nat \<Rightarrow> Joint list \<Rightarrow> 'img draw list" where
  "motor_lines textX y i [] = []"
| "motor_lines textX y i (joint # joints) =
     (if i \<ge> 8 then []
      else DrawString (''M'' @ fmt_d i @ '':P'' @ fmt_d (unat (Position joint)) @ '' C'' @ fmt_d (unat (CurrentMA joint)))
          textX (y + of_nat i * (10 + 2)) # motor_lines textX y (Suc i) joints)"

definition draw_right :: "'img render_env \<Rightarrow> bool \<Rightarrow> int \<Rightarrow> int \<Rightarrow> Frame \<Rightarrow> 'img draw list" where
  "draw_right env enableRendering ox oy frame =
     [SetRGB 1 1 1, LoadFontFace 11] @
     (if \<not> font_loads env 11 then []
      else let textX = of_int (ox + 224 + 5); y = of_int (oy + 224 + 15) in
        if enableRendering then
          [DrawString (''ID:'' @ id_String env (GlobalFrameID frame)) textX y,
           DrawString (''T:'' @ fmt_d (unat (TimestampNsSinceEpisodeStart frame div 1000000)) @ ''ms'') textX (y + 13)] @
          (if Task frame \<noteq> [] then [DrawString (''Task:'' @ Task frame) textX (y + 28)] else []) @
          [LoadFontFace 10] @ motor_lines textX (if Task frame \<noteq> [] then y + 43 else y + 28) 0 (Joints frame)
        else
          let numJointsLeft = (length (Joints frame) + 1) div 2 in
          joint_lines textX y numJointsLeft (drop numJointsLeft (Joints frame)))"

definition draw_cell :: "'img render_env \<Rightarrow> bool \<Rightarrow> 'img option \<Rightarrow> nat \<Rightarrow> nat \<Rightarrow> nat \<Rightarrow> Frame \<Rightarrow> 'img draw list" where
  "draw_cell env enableRendering render cols num i frame =
     (if length (Images frame) = 2 then
        let ox = offsetX cols i; oy = offsetY cols i in
        draw_images env ox oy frame @ draw_number env ox oy num @
        draw_left env enableRendering render ox oy frame @ draw_right env enableRendering ox oy frame
      else [])"

definition grid_lines :: "nat \<Rightarrow> nat \<Rightarrow> 'img draw list" where
  "grid_lines cols rows =
     [SetRGB 0 0 0, Clear, SetRGB (3 / 10) (3 / 10) (3 / 10), SetLineWidth (of_int borderWidth)] @
     concat (map (\<lambda>col. let x = of_int (int col * (singleWidth + borderWidth) + borderWidth div 2) in
       [DrawLine x 0 x (of_int (canvasHeight rows)), Stroke]) [0..<Suc cols]) @
     concat (map (\<lambda>row. let y = of_int (int row * (singleHeight + borderWidth) + borderWidth div 2) in
       [DrawLine 0 y (of_int (canvasWidth cols)) y, Stroke]) [0..<Suc rows])"

text \<open>The cells for which the render service is asked. \<open>renders i\<close> is what it answered for the cell \<open>i\<close>.\<close>

definition wants_render :: "Frame \<Rightarrow> bool" where
  "wants_render frame \<longleftrightarrow> length (Joints frame) \<ge> 8 \<and> length (Images frame) = 2"

definition renderGridFrame ::
    "'img render_env \<Rightarrow> (nat \<Rightarrow> 'img option) \<Rightarrow> bool \<Rightarrow> nat \<Rightarrow> nat \<Rightarrow> Frame list \<Rightarrow> nat list \<Rightarrow> 'img draw list" where
  "renderGridFrame env renders enableRendering cols rows frames episodeNums =
     grid_lines cols rows @
     concat (map (\<lambda>(i, frame). draw_cell env enableRendering
         (if enableRendering \<and> wants_render frame then renders i else None)
         cols (if i < length episodeNums then episodeNums ! i else 0) i frame)
       (enumerate 0 (take (cols * rows) frames)))"

text \<open>The frame of one episode and the separator between episodes. The text is drawn even if the font does not load.\<close>

fun motor_rows :: "rat \<Rightarrow> nat \<Rightarrow> Joint list \<Rightarrow> 'img draw list" where
  "motor_rows y i [] = []"
| "motor_rows y i (joint # joints) =
     DrawString (''  Motor '' @ fmt_d i @ '': Pos='' @ fmt_d (unat (Position joint)) @ '' Goal='' @ fmt_d (unat (Goal joint)) @
       '' Curr='' @ fmt_d (unat (CurrentMA joint)) @ ''mA Vel='' @ fmt_d (unat (Velocity joint))) 10 y #
     motor_rows (y + 14 + 3) (Suc i) joints"

definition renderFrame :: "'img render_env \<Rightarrow> Frame \<Rightarrow> nat \<Rightarrow> 'img draw list" where
  "renderFrame env frame frameIndex =
     [SetRGB 0 0 0, Clear] @
     concat (map (\<lambda>i.
       if JPEG (Images frame ! i) = [] then []
       else case jpeg_Decode env (JPEG (Images frame ! i)) of None \<Rightarrow> [] | Some img \<Rightarrow> [DrawImage img (int i * 224) 0])
       [0..<min 2 (length (Images frame))]) @
     [SetRGB 1 1 1, LoadFontFace 14,
      DrawString (''Frame: '' @ fmt_d frameIndex) 10 (224 + 20),
      DrawString (''Global Frame ID: '' @ id_String env (GlobalFrameID frame)) 10 (224 + 20 + 19),
      DrawString (''Time: '' @ fmt_d (unat (TimestampNsSinceEpisodeStart frame div 1000000)) @ '' ms'') 10 (224 + 20 + 19 + 19),
      DrawString ''Motors:'' 10 (224 + 20 + 19 + 19 + 24)] @
     motor_rows (224 + 20 + 19 + 19 + 24 + 19) 0 (Joints frame)"

definition renderEpisodeSeparator :: "'img render_env \<Rightarrow> nat \<Rightarrow> 'img draw list" where
  "renderEpisodeSeparator env episodeNumber =
     (let txt = ''Episode '' @ fmt_d episodeNumber; (w, h) = MeasureString env txt in
      [SetRGB 0 0 0, Clear, SetRGB 1 1 1, LoadFontFace 32, DrawString txt ((448 - w) / 2) ((524 - h) / 2)])"


section \<open>Cells lie in the canvas and do not overlap\<close>

definition in_cell :: "nat \<Rightarrow> nat \<Rightarrow> int \<Rightarrow> int \<Rightarrow> bool" where
  "in_cell cols i x y \<longleftrightarrow> offsetX cols i \<le> x \<and> x < offsetX cols i + singleWidth \<and>
     offsetY cols i \<le> y \<and> y < offsetY cols i + singleHeight"

lemmas geometry = offsetX_def offsetY_def canvasWidth_def canvasHeight_def singleWidth_def singleHeight_def borderWidth_def

lemma cell_in_canvas:
  assumes "i < cols * rows" and "in_cell cols i x y"
  shows "0 \<le> x \<and> x < canvasWidth cols \<and> 0 \<le> y \<and> y < canvasHeight rows"
proof -
  have "0 < cols" using assms(1) by (cases cols) auto
  then have "i mod cols < cols" "i div cols < rows" using assms(1) by (auto simp: less_mult_imp_div_less mult.commute)
  moreover define a b where "a = i mod cols" and "b = i div cols"
  ultimately have "int a \<le> int cols - 1" "int b \<le> int rows - 1" by linarith+
  then show ?thesis using assms(2) unfolding in_cell_def geometry a_def [symmetric] b_def [symmetric] by auto
qed

lemma cells_disjoint:
  assumes "in_cell cols i x y" and "in_cell cols j x y"
  shows "i = j"
proof -
  have same: "a = b" if "int a * 450 + 2 \<le> z" "z < int a * 450 + 450" "int b * 450 + 2 \<le> z" "z < int b * 450 + 450" for a b z
    using that by linarith
  have "i mod cols = j mod cols" "i div cols = j div cols"
    using assms same [of "i mod cols" x "j mod cols"] same [of "i div cols" y "j div cols"]
    unfolding in_cell_def geometry by simp_all
  then show ?thesis by (metis div_mult_mod_eq)
qed


section \<open>Which images are drawn where\<close>

lemma no_images [simp]:
  "DrawImage img x y \<notin> set (joint_lines textX h j joints)" "DrawImage img x y \<notin> set (motor_lines textX h j joints)"
  "DrawImage img x y \<notin> set (grid_lines cols rows)" "DrawImage img x y \<notin> set (draw_number env ox oy num)"
  "DrawImage img x y \<notin> set (draw_right env enableRendering ox oy frame)"
proof -
  show lines: "DrawImage img x y \<notin> set (joint_lines textX h j joints)" for textX h j joints
    by (induction textX h j joints rule: joint_lines.induct) simp_all
  show motors: "DrawImage img x y \<notin> set (motor_lines textX h j joints)" for textX h j joints
    by (induction textX h j joints rule: motor_lines.induct) simp_all
  show "DrawImage img x y \<notin> set (grid_lines cols rows)" by (auto simp: grid_lines_def Let_def)
  show "DrawImage img x y \<notin> set (draw_number env ox oy num)" by (auto simp: draw_number_def Let_def split: prod.splits)
  show "DrawImage img x y \<notin> set (draw_right env enableRendering ox oy frame)"
    using lines motors by (auto simp: draw_right_def Let_def)
qed

text \<open>The image of a cell at a place: one of the two camera images above, the render below.\<close>

definition cell_image :: "'img render_env \<Rightarrow> 'img option \<Rightarrow> bool \<Rightarrow> Frame \<Rightarrow> int \<Rightarrow> int \<Rightarrow> 'img option" where
  "cell_image env render enableRendering f dx dy =
     (let camera = (\<lambda>k. if JPEG (Images f ! k) = [] then None else jpeg_Decode env (JPEG (Images f ! k))) in
      if length (Images f) \<noteq> 2 then None
      else if (dx, dy) = (0, 0) then camera 0
      else if (dx, dy) = (224, 0) then camera 1
      else if (dx, dy) = (0, 224) \<and> enableRendering \<and> length (Joints f) \<ge> 8 then render
      else None)"

lemma draw_cell_images:
  "DrawImage img x y \<in> set (draw_cell env enableRendering
      (if enableRendering \<and> wants_render f then render else None) cols num i f) \<longleftrightarrow>
    cell_image env render enableRendering f (x - offsetX cols i) (y - offsetY cols i) = Some img"
  by (auto simp: draw_cell_def draw_images_def draw_left_def cell_image_def wants_render_def Let_def split: option.splits if_splits)

lemma grid_images:
  "DrawImage img x y \<in> set (renderGridFrame env renders enableRendering cols rows frames episodeNums) \<longleftrightarrow>
    (\<exists>i < min (length frames) (cols * rows).
       cell_image env (renders i) enableRendering (frames ! i) (x - offsetX cols i) (y - offsetY cols i) = Some img)"
proof -
  have "DrawImage img x y \<in> set (renderGridFrame env renders enableRendering cols rows frames episodeNums) \<longleftrightarrow>
      (\<exists>(i, f) \<in> set (enumerate 0 (take (cols * rows) frames)).
        cell_image env (renders i) enableRendering f (x - offsetX cols i) (y - offsetY cols i) = Some img)"
    by (auto simp: renderGridFrame_def draw_cell_images)
  also have "\<dots> \<longleftrightarrow> (\<exists>i < min (length frames) (cols * rows).
       cell_image env (renders i) enableRendering (frames ! i) (x - offsetX cols i) (y - offsetY cols i) = Some img)"
    by (auto simp: in_set_enumerate_eq)
  finally show ?thesis .
qed

lemma cell_image_place:
  "cell_image env render enableRendering f dx dy = Some img \<Longrightarrow> (dx, dy) \<in> {(0, 0), (224, 0), (0, 224)}"
  by (auto simp: cell_image_def Let_def split: if_splits)


definition ex_env :: "nat render_env" where
  "ex_env = \<lparr>jpeg_Decode = (\<lambda>bs. Some (length bs)), font_loads = (\<lambda>_. False), MeasureString = (\<lambda>_. (0, 0)),
     id_String = (\<lambda>_. []), angle_String = (\<lambda>_. []), http_Get = (\<lambda>_. None)\<rparr>"


end
