(* ===== verification/Video_Pool.thy ===== *)
theory Video_Pool
  imports Go_Schedules Video_Render Go_Fmt Go_Filepath "HOL-Library.Multiset"
begin

text \<open>
  The worker pool of \<^verbatim>\<open>dataset-mp4.go\<close>: the main goroutine sends the render jobs through a bounded channel to
  the workers, these render a frame and send the result through a second bounded channel to the
  collector, and the channels are closed in turn. The state is what the channels hold and where each goroutine
  stands; a step is one operation of one goroutine, so a run is any schedule.
\<close>

section \<open>The state and its steps\<close>

datatype worker = Idle | Rendering renderJob | Sending nat bool | Exited

record pool =
  vp_todo :: "renderJob list"
  vp_closed :: bool
  vp_jobs :: "renderJob list"
  vp_workers :: "worker list"
  vp_results :: "(nat \<times> bool) list"
  vp_resultsClosed :: bool
  vp_collecting :: bool
  vp_renderErrors :: nat
  vp_renderedCount :: nat
  vp_calls :: "renderJob list"

text \<open>
  The start: the jobs of the layout are still to be sent. The last field records the calls of \<^verbatim>\<open>renderGridFrame\<close>.
\<close>

definition pool_start :: "nat \<Rightarrow> renderJob list \<Rightarrow> pool" where
  "pool_start numWorkers js =
     \<lparr>vp_todo = js, vp_closed = False, vp_jobs = [], vp_workers = replicate numWorkers Idle, vp_results = [],
      vp_resultsClosed = False, vp_collecting = True, vp_renderErrors = 0, vp_renderedCount = 0, vp_calls = []\<rparr>"

text \<open>The number of workers: zero stands for the number of processors. A channel has room for two entries per worker.\<close>

definition numWorkers :: "int \<Rightarrow> nat \<Rightarrow> int" where
  "numWorkers flag cpus = (if flag = 0 then int cpus else flag)"

definition collect :: "nat \<times> bool \<Rightarrow> pool \<Rightarrow> pool" where
  "collect r s =
     (if snd r then s\<lparr>vp_renderedCount := vp_renderedCount s + 1\<rparr> else s\<lparr>vp_renderErrors := vp_renderErrors s + 1\<rparr>)"

text \<open>\<open>render\<close> says whether rendering and saving the frame of a job succeeds.\<close>

inductive pool_step :: "(renderJob \<Rightarrow> bool) \<Rightarrow> nat \<Rightarrow> pool \<Rightarrow> pool \<Rightarrow> bool" for render :: "renderJob \<Rightarrow> bool" and room :: nat where
  send_job: "vp_todo s = j # js \<Longrightarrow> length (vp_jobs s) < room \<Longrightarrow>
    pool_step render room s (s\<lparr>vp_todo := js, vp_jobs := vp_jobs s @ [j]\<rparr>)"
| close_jobs: "vp_todo s = [] \<Longrightarrow> \<not> vp_closed s \<Longrightarrow> pool_step render room s (s\<lparr>vp_closed := True\<rparr>)"
| take_job: "i < length (vp_workers s) \<Longrightarrow> vp_workers s ! i = Idle \<Longrightarrow> vp_jobs s = j # js \<Longrightarrow>
    pool_step render room s (s\<lparr>vp_jobs := js, vp_workers := (vp_workers s)[i := Rendering j]\<rparr>)"
| render_job: "i < length (vp_workers s) \<Longrightarrow> vp_workers s ! i = Rendering j \<Longrightarrow>
    pool_step render room s (s\<lparr>vp_workers := (vp_workers s)[i := Sending (rj_frameIndex j) (render j)], vp_calls := vp_calls s @ [j]\<rparr>)"
| send_result: "i < length (vp_workers s) \<Longrightarrow> vp_workers s ! i = Sending n b \<Longrightarrow> length (vp_results s) < room \<Longrightarrow>
    pool_step render room s (s\<lparr>vp_results := vp_results s @ [(n, b)], vp_workers := (vp_workers s)[i := Idle]\<rparr>)"
| worker_exits: "i < length (vp_workers s) \<Longrightarrow> vp_workers s ! i = Idle \<Longrightarrow> vp_jobs s = [] \<Longrightarrow> vp_closed s \<Longrightarrow>
    pool_step render room s (s\<lparr>vp_workers := (vp_workers s)[i := Exited]\<rparr>)"
| close_results: "vp_closed s \<Longrightarrow> list_all (\<lambda>w. w = Exited) (vp_workers s) \<Longrightarrow> \<not> vp_resultsClosed s \<Longrightarrow>
    pool_step render room s (s\<lparr>vp_resultsClosed := True\<rparr>)"
| collect_result: "vp_collecting s \<Longrightarrow> vp_results s = r # rs \<Longrightarrow> pool_step render room s (collect r (s\<lparr>vp_results := rs\<rparr>))"
| collector_ends: "vp_collecting s \<Longrightarrow> vp_results s = [] \<Longrightarrow> vp_resultsClosed s \<Longrightarrow>
    pool_step render room s (s\<lparr>vp_collecting := False\<rparr>)"


section \<open>The invariant\<close>

text \<open>Where the jobs are, and which results are on their way.\<close>

fun worker_job :: "worker \<Rightarrow> renderJob list" where
  "worker_job (Rendering j) = [j]"
| "worker_job _ = []"

fun worker_result :: "worker \<Rightarrow> bool list" where
  "worker_result (Sending n b) = [b]"
| "worker_result _ = []"

definition pending_results :: "pool \<Rightarrow> bool multiset" where
  "pending_results s = mset (map snd (vp_results s)) + sum_list (map (\<lambda>w. mset (worker_result w)) (vp_workers s))"

definition pool_inv :: "(renderJob \<Rightarrow> bool) \<Rightarrow> nat \<Rightarrow> renderJob list \<Rightarrow> pool \<Rightarrow> bool" where
  "pool_inv render n js s \<longleftrightarrow>
     length (vp_workers s) = n \<and>
     mset js = mset (vp_todo s) + mset (vp_jobs s) + sum_list (map (\<lambda>w. mset (worker_job w)) (vp_workers s)) + mset (vp_calls s) \<and>
     image_mset render (mset (vp_calls s)) =
       pending_results s + replicate_mset (vp_renderErrors s) False + replicate_mset (vp_renderedCount s) True \<and>
     (vp_closed s \<longrightarrow> vp_todo s = []) \<and>
     (Exited \<in> set (vp_workers s) \<longrightarrow> vp_closed s \<and> vp_jobs s = []) \<and>
     (vp_resultsClosed s \<longrightarrow> vp_closed s \<and> list_all (\<lambda>w. w = Exited) (vp_workers s)) \<and>
     (\<not> vp_collecting s \<longrightarrow> vp_resultsClosed s \<and> vp_results s = [])"

lemma sum_list_update:
  fixes f :: "'a \<Rightarrow> 'b multiset"
  shows "i < length xs \<Longrightarrow> sum_list (map f (xs[i := x])) + f (xs ! i) = sum_list (map f xs) + f x"
proof (induction xs arbitrary: i)
  case (Cons y ys)
  then show ?case by (cases i) (auto simp: ac_simps)
qed simp

lemma sum_list_empties: "sum_list (replicate n ({#} :: 'a multiset)) = {#}"
  by (induction n) simp_all

lemma inv_start: "pool_inv render n js (pool_start n js)"
  by (auto simp: pool_inv_def pool_start_def pending_results_def sum_list_empties map_replicate_const)

lemma not_all_exited: "i < length ws \<Longrightarrow> ws ! i \<noteq> Exited \<Longrightarrow> \<not> list_all (\<lambda>w. w = Exited) ws"
  by (auto simp: list_all_length)

lemma inv_step:
  assumes "pool_step render room s s'" and "pool_inv render n js s"
  shows "pool_inv render n js s'"
  using assms
proof (induction rule: pool_step.induct)
  case (send_job s j js')
  then show ?case by (auto simp: pool_inv_def pending_results_def)
next
  case (close_jobs s)
  then show ?case by (auto simp: pool_inv_def pending_results_def)
next
  case (take_job i s j js')
  then show ?case
    using not_all_exited [OF take_job(1)] sum_list_update [OF take_job(1), of "\<lambda>w. mset (worker_job w)" "Rendering j"]
      sum_list_update [OF take_job(1), of "\<lambda>w. mset (worker_result w)" "Rendering j"]
    by (auto simp: pool_inv_def pending_results_def dest!: set_update_subset_insert [THEN subsetD])
next
  case (render_job i s j)
  then show ?case
    using not_all_exited [OF render_job(1)] sum_list_update [OF render_job(1), of "\<lambda>w. mset (worker_job w)" "Sending (rj_frameIndex j) (render j)"]
      sum_list_update [OF render_job(1), of "\<lambda>w. mset (worker_result w)" "Sending (rj_frameIndex j) (render j)"]
    by (auto simp: pool_inv_def pending_results_def dest!: set_update_subset_insert [THEN subsetD])
next
  case (send_result i s n b)
  then show ?case
    using not_all_exited [OF send_result(1)] sum_list_update [OF send_result(1), of "\<lambda>w. mset (worker_job w)" Idle]
      sum_list_update [OF send_result(1), of "\<lambda>w. mset (worker_result w)" Idle]
    by (auto simp: pool_inv_def pending_results_def dest!: set_update_subset_insert [THEN subsetD])
next
  case (worker_exits i s)
  then show ?case
    using sum_list_update [OF worker_exits(1), of "\<lambda>w. mset (worker_job w)" Exited]
      sum_list_update [OF worker_exits(1), of "\<lambda>w. mset (worker_result w)" Exited]
    by (auto simp: pool_inv_def pending_results_def list_all_iff dest!: set_update_subset_insert [THEN subsetD])
next
  case (close_results s)
  then show ?case by (auto simp: pool_inv_def pending_results_def)
next
  case (collect_result s r rs)
  then show ?case by (auto simp: pool_inv_def pending_results_def collect_def)
next
  case (collector_ends s)
  then show ?case by (auto simp: pool_inv_def pending_results_def)
qed


section \<open>Every schedule ends\<close>

text \<open>What is still to be done, counted so that every step takes one.\<close>

fun worker_weight :: "worker \<Rightarrow> nat" where
  "worker_weight Idle = 1"
| "worker_weight (Rendering j) = 4"
| "worker_weight (Sending n b) = 3"
| "worker_weight Exited = 0"

definition remaining :: "pool \<Rightarrow> nat" where
  "remaining s =
     5 * length (vp_todo s) + 4 * length (vp_jobs s) + sum_list (map worker_weight (vp_workers s)) + length (vp_results s) +
     of_bool (\<not> vp_closed s) + of_bool (\<not> vp_resultsClosed s) + of_bool (vp_collecting s)"

lemma weight_update:
  "i < length ws \<Longrightarrow> sum_list (map worker_weight (ws[i := w])) + worker_weight (ws ! i) = sum_list (map worker_weight ws) + worker_weight w"
proof (induction ws arbitrary: i)
  case (Cons v ws)
  then show ?case by (cases i) auto
qed simp

lemma remaining_step: "pool_step render room s s' \<Longrightarrow> remaining s = Suc (remaining s')"
proof (induction rule: pool_step.induct)
  case (take_job i s j js)
  then show ?case using weight_update [of i "vp_workers s" "Rendering j"] by (simp add: remaining_def)
next
  case (render_job i s j)
  then show ?case using weight_update [of i "vp_workers s" "Sending (rj_frameIndex j) (render j)"] by (simp add: remaining_def)
next
  case (send_result i s n b)
  then show ?case using weight_update [of i "vp_workers s" Idle] by (simp add: remaining_def)
next
  case (worker_exits i s)
  then show ?case using weight_update [of i "vp_workers s" Exited] by (simp add: remaining_def)
qed (simp_all add: remaining_def collect_def)

lemma remaining_start: "remaining (pool_start n js) = 5 * length js + n + 3"
  by (simp add: remaining_def pool_start_def sum_list_replicate)

text \<open>No schedule is stuck before the collector has ended.\<close>

lemma pool_progress:
  assumes inv: "pool_inv render n js s" and "0 < n" and "0 < room" and collecting: "vp_collecting s"
  shows "\<exists>s'. pool_step render room s s'"
proof (cases "vp_results s")
  case (Cons r rs)
  then show ?thesis using collecting pool_step.collect_result by blast
next
  case no_results: Nil
  show ?thesis
  proof (cases "\<exists>i < length (vp_workers s). vp_workers s ! i \<noteq> Idle \<and> vp_workers s ! i \<noteq> Exited")
    case True
    then obtain i where i: "i < length (vp_workers s)" "vp_workers s ! i \<noteq> Idle" "vp_workers s ! i \<noteq> Exited" by blast
    show ?thesis
    proof (cases "vp_workers s ! i")
      case (Rendering j)
      with i(1) show ?thesis by (blast intro: pool_step.render_job)
    next
      case (Sending m b)
      moreover have "length (vp_results s) < room" using no_results assms(3) by simp
      ultimately show ?thesis using i(1) by (blast intro: pool_step.send_result)
    qed (use i in simp_all)
  next
    case waiting: False
    show ?thesis
    proof (cases "list_all (\<lambda>w. w = Exited) (vp_workers s)")
      case True
      moreover have "vp_closed s" using True inv assms(2) by (cases "vp_workers s") (auto simp: pool_inv_def)
      ultimately show ?thesis
        using pool_step.close_results [of s] pool_step.collector_ends [of s] no_results collecting by blast
    next
      case False
      with waiting obtain i where i: "i < length (vp_workers s)" "vp_workers s ! i = Idle" by (auto simp: list_all_length)
      show ?thesis
      proof (cases "vp_jobs s")
        case (Cons j js')
        with i show ?thesis by (blast intro: pool_step.take_job)
      next
        case no_jobs: Nil
        then have "length (vp_jobs s) < room" using assms(3) by simp
        then show ?thesis
          using pool_step.send_job [of s] pool_step.close_jobs [of s] pool_step.worker_exits [of i s] i no_jobs
          by (cases "vp_todo s") blast+
      qed
    qed
  qed
qed

text \<open>So the pool is a group of goroutines that finishes.\<close>

interpretation pool: goroutines "pool_step render room" "\<lambda>s. pool_inv render n js s \<and> 0 < n \<and> 0 < room" remaining "\<lambda>s. \<not> vp_collecting s"
  for render room n js
proof unfold_locales
  fix s s'
  assume "pool_inv render n js s \<and> 0 < n \<and> 0 < room" and step: "pool_step render room s s'"
  then show "pool_inv render n js s' \<and> 0 < n \<and> 0 < room" by (blast intro: inv_step)
  show "remaining s' < remaining s" using remaining_step [OF step] by simp
next
  fix s
  assume "pool_inv render n js s \<and> 0 < n \<and> 0 < room" and "\<not> \<not> vp_collecting s"
  then show "\<exists>s'. pool_step render room s s'" by (blast intro: pool_progress)
qed

text \<open>What holds when the collector has ended.\<close>

lemma all_exited: "list_all (\<lambda>w. w = Exited) ws \<Longrightarrow> (\<And>w. w = Exited \<Longrightarrow> f w = ({#} :: 'a multiset)) \<Longrightarrow> sum_list (map f ws) = {#}"
  by (induction ws) auto

lemma counted:
  assumes "image_mset render (mset js) = replicate_mset a False + replicate_mset b True"
  shows "a = length (filter (\<lambda>j. \<not> render j) js)" and "b = length (filter render js)"
proof -
  have "count (image_mset render (mset js)) v = length (filter (\<lambda>j. render j = v) js)" for v
    by (induction js) auto
  from this [of False] this [of True] assms show "a = length (filter (\<lambda>j. \<not> render j) js)" "b = length (filter render js)"
    by simp_all
qed

lemma pool_end:
  assumes inv: "pool_inv render n js s" and "0 < n" and ended: "\<not> vp_collecting s"
  shows "mset (vp_calls s) = mset js" and "vp_renderErrors s = length (filter (\<lambda>j. \<not> render j) js)"
    and "vp_renderedCount s = length (filter render js)"
proof -
  have exited: "list_all (\<lambda>w. w = Exited) (vp_workers s)" using inv ended by (auto simp: pool_inv_def)
  moreover from this have "vp_jobs s = []" "vp_todo s = []"
    using inv assms(2) by (cases "vp_workers s"; auto simp: pool_inv_def)+
  ultimately show calls: "mset (vp_calls s) = mset js"
    using inv by (simp add: pool_inv_def all_exited)
  have "image_mset render (mset (vp_calls s)) = replicate_mset (vp_renderErrors s) False + replicate_mset (vp_renderedCount s) True"
    using inv ended exited by (simp add: pool_inv_def pending_results_def all_exited)
  from counted [OF this [unfolded calls]]
  show "vp_renderErrors s = length (filter (\<lambda>j. \<not> render j) js)" "vp_renderedCount s = length (filter render js)" .
qed


section \<open>The files of the frames\<close>

definition frame_name :: "nat \<Rightarrow> string" where
  "frame_name frameIndex = ''frame_'' @ pad_zero 6 (fmt_d frameIndex) @ ''.png''"

lemma frame_name_inj: "inj frame_name"
proof (rule injI)
  fix i j
  assume "frame_name i = frame_name j"
  then have "pad_zero 6 (fmt_d i) = pad_zero 6 (fmt_d j)" by (simp add: frame_name_def)
  then have "read_digits 0 (pad_zero 6 (fmt_d i)) = read_digits 0 (pad_zero 6 (fmt_d j))" by simp
  then show "i = j" by (simp add: pad_zero_def read_zeros read_fmt_d)
qed

lemma distinct_names:
  assumes "distinct (map rj_frameIndex js)" and "mset cs = mset js"
  shows "distinct (map (\<lambda>j. frame_name (rj_frameIndex j)) cs)"
proof -
  have "mset (map rj_frameIndex cs) = mset (map rj_frameIndex js)" using assms(2) by simp
  then have "distinct (map rj_frameIndex cs)" using assms(1) mset_eq_imp_distinct_iff by blast
  then have "distinct (map frame_name (map rj_frameIndex cs))"
    using frame_name_inj by (simp add: distinct_map inj_on_subset [OF _ subset_UNIV] del: map_map)
  then show ?thesis by (simp add: comp_def)
qed

text \<open>The arguments of \<^verbatim>\<open>ffmpeg\<close>; the frame rate is already printed.\<close>

definition ffmpeg_args :: "string \<Rightarrow> string \<Rightarrow> string \<Rightarrow> string list" where
  "ffmpeg_args inputDir outputPath fps =
     [''-framerate'', fps, ''-i'', Join inputDir ''frame_%06d.png'', ''-c:v'', ''libx264'', ''-pix_fmt'', ''yuv420p'', ''-y'', outputPath]"


section \<open>The pool renders every job once\<close>

text \<open>
  C26. The worker pool neither deadlocks nor loses a frame, whatever the schedule of its goroutines: with n workers
  and the channels of the code (room for 2 n entries) a run has at most 5 steps per job, one per worker and three more,
  and a run that has not ended can go on. No result is sent after its channel is closed. When the collector has ended, the
  frames rendered are exactly the jobs, each once and each into a file of its own, and the counts of the errors and of the
  frames are those of the jobs whose rendering fails and succeeds.
\<close>

theorem pool_complete:
  assumes "0 < n" and "distinct (map rj_frameIndex js)" and "(pool_step render (2 * n) ^^ k) (pool_start n js) s"
  shows "k \<le> 5 * length js + n + 3 \<and>
    (vp_collecting s \<longrightarrow> (\<exists>s'. pool_step render (2 * n) s s')) \<and>
    (vp_resultsClosed s \<longrightarrow> list_all (\<lambda>w. w = Exited) (vp_workers s)) \<and>
    (\<not> vp_collecting s \<longrightarrow> mset (vp_calls s) = mset js \<and> distinct (map (\<lambda>j. frame_name (rj_frameIndex j)) (vp_calls s)) \<and>
       vp_renderErrors s = length (filter (\<lambda>j. \<not> render j) js) \<and> vp_renderedCount s = length (filter render js))"
proof -
  have start: "pool_inv render n js (pool_start n js) \<and> 0 < n \<and> 0 < 2 * n" using assms(1) inv_start by simp
  have inv: "pool_inv render n js s" using pool.invariant_steps [OF start assms(3)] by simp
  have "k \<le> 5 * length js + n + 3" using pool.steps_bounded [OF start assms(3)] by (simp add: remaining_start)
  moreover have "vp_resultsClosed s \<longrightarrow> list_all (\<lambda>w. w = Exited) (vp_workers s)" using inv by (simp add: pool_inv_def)
  ultimately show ?thesis
    using pool_progress [OF inv assms(1)] pool_end [OF inv assms(1)] distinct_names [OF assms(2)] assms(1) by simp
qed

definition ex_job :: "nat \<Rightarrow> renderJob" where
  "ex_job i = \<lparr>rj_frames = [empty_frame], rj_episodeNums = [0], rj_frameIndex = i\<rparr>"

theorem pool_complete_witness:
  "\<exists>s. (pool_step (\<lambda>j. rj_frameIndex j \<noteq> 1) 4)\<^sup>*\<^sup>* (pool_start 2 (map ex_job [0..<3])) s \<and>
    mset (vp_calls s) = mset (map ex_job [0..<3]) \<and> vp_renderErrors s = 1 \<and> vp_renderedCount s = 2"
proof -
  obtain k s where run: "(pool_step (\<lambda>j. rj_frameIndex j \<noteq> 1) 4 ^^ k) (pool_start 2 (map ex_job [0..<3])) s" and ended: "\<not> vp_collecting s"
    using pool.run_to_end [of "\<lambda>j. rj_frameIndex j \<noteq> 1" 2 "map ex_job [0..<3]" "pool_start 2 (map ex_job [0..<3])" 4] inv_start by auto
  have "distinct (map rj_frameIndex (map ex_job [0..<3]))" by (simp add: ex_job_def upt_rec)
  from pool_complete [OF _ this, of 2 k "\<lambda>j. rj_frameIndex j \<noteq> 1" s] run ended
  have "mset (vp_calls s) = mset (map ex_job [0..<3])" "vp_renderErrors s = 1" "vp_renderedCount s = 2"
    by (simp_all add: ex_job_def upt_rec)
  with run show ?thesis using relpowp_imp_rtranclp by fast
qed

end
