(* ===== verification/Video_Main.thy ===== *)
theory Video_Main
  imports Video_Pool
begin

text \<open>
  The program \<^verbatim>\<open>dataset-mp4\<close>: the flags, the steps of \<^verbatim>\<open>main\<close> in order with every way it ends, and what is left of
  the temporary directory. The parquet reader, the disk and \<^verbatim>\<open>ffmpeg\<close> are arguments, and so is the schedule of the
  worker pool, as the state in which the collector ends.
\<close>

section \<open>The main function\<close>

record mp4_flags =
  mf_input :: string
  mf_output :: string
  mf_frameDuration :: int
  mf_workers :: int
  mf_gridCols :: int
  mf_gridRows :: int

text \<open>
  What the run finds: whether the file opens and the Arrow reader is created, the temporary directory, the record
  batches and whether they end with an error, whether a picture can be saved, the number of processors, and whether
  \<^verbatim>\<open>ffmpeg\<close> succeeds with its arguments on the pictures that were saved.
\<close>

record mp4_world =
  mw_OpenParquetFile :: "string \<Rightarrow> bool"
  mw_NewFileReader :: bool
  mw_MkdirTemp :: "string option"
  mw_batches :: "(arrow_batch list \<times> bool) option"
  mw_SavePNG :: "string \<Rightarrow> bool"
  mw_NumCPU :: nat
  mw_ffmpeg :: "string list \<Rightarrow> string list \<Rightarrow> bool"

datatype mp4_end = MainFatal string | MainPanic | MainDone

text \<open>How the run ends, whether the temporary directory is left, the pictures saved, the errors counted and the arguments of \<^verbatim>\<open>ffmpeg\<close>.\<close>

record mp4_result =
  mr_end :: mp4_end
  mr_tmpLeft :: bool
  mr_saved :: "string list"
  mr_renderErrors :: nat
  mr_args :: "string list option"

text \<open>A run that ends before the pool; a fatal error exits without the deferred removal of the directory, a panic runs it.\<close>

definition ended :: "mp4_end \<Rightarrow> bool \<Rightarrow> mp4_result" where
  "ended e tmpLeft = \<lparr>mr_end = e, mr_tmpLeft = tmpLeft, mr_saved = [], mr_renderErrors = 0, mr_args = None\<rparr>"

text \<open>The frame rate with two decimals; a duration of zero gives infinity.\<close>

definition fps_text :: "int \<Rightarrow> string" where
  "fps_text frameDuration =
     (if frameDuration = 0 then ''+Inf''
      else fmt_f 2 ((f64_div 1000 (f64_lit \<bar>frameDuration\<bar> 0))\<lparr>fneg := frameDuration < 0\<rparr>))"

definition frame_path :: "string \<Rightarrow> renderJob \<Rightarrow> string" where
  "frame_path tmpDir j = Join tmpDir (frame_name (rj_frameIndex j))"

definition saves :: "mp4_world \<Rightarrow> string \<Rightarrow> renderJob \<Rightarrow> bool" where
  "saves w tmpDir j = mw_SavePNG w (frame_path tmpDir j)"

text \<open>From the end of the pool on.\<close>

definition encode :: "mp4_world \<Rightarrow> mp4_flags \<Rightarrow> string \<Rightarrow> pool \<Rightarrow> mp4_result" where
  "encode w fl tmpDir s =
     (let pictures = map (frame_path tmpDir) (filter (saves w tmpDir) (vp_calls s));
          args = ffmpeg_args tmpDir (mf_output fl) (fps_text (mf_frameDuration fl));
          ok = mw_ffmpeg w args pictures in
      \<lparr>mr_end = if ok then MainDone else MainFatal ''failed to generate video'', mr_tmpLeft = \<not> ok,
       mr_saved = pictures, mr_renderErrors = vp_renderErrors s, mr_args = Some args\<rparr>)"

definition mp4_main :: "mp4_world \<Rightarrow> (nat \<Rightarrow> renderJob list \<Rightarrow> pool) \<Rightarrow> mp4_flags \<Rightarrow> mp4_result" where
  "mp4_main w schedule fl =
     (if mf_input fl = [] then ended (MainFatal ''input parquet file is required'') False
      else if \<not> mw_OpenParquetFile w (mf_input fl) then ended (MainFatal ''failed to open parquet file'') False
      else if \<not> mw_NewFileReader w then ended (MainFatal ''failed to create arrow reader'') False
      else case mw_MkdirTemp w of
        None \<Rightarrow> ended (MainFatal ''failed to create temp directory'') False
      | Some tmpDir \<Rightarrow>
          (case mw_batches w of
             None \<Rightarrow> ended (MainFatal ''failed to create record batch reader'') True
           | Some (batches, failed) \<Rightarrow>
               (case collectEpisodes batches failed of
                  Err e \<Rightarrow> ended (MainFatal ''error reading batches'') True
                | Ok episodes \<Rightarrow>
                    let n = numWorkers (mf_workers fl) (mw_NumCPU w) in
                    if n < 0 then ended MainPanic False
                    else
                      (case grid_jobs (mf_gridCols fl) (mf_gridRows fl) episodes of
                         Ok jobs \<Rightarrow> encode w fl tmpDir (schedule (nat n) jobs)
                       | _ \<Rightarrow> ended MainPanic False)
                | _ \<Rightarrow> ended MainPanic False)))"

text \<open>A schedule is one that the goroutines can follow until the collector ends.\<close>

definition pool_schedule :: "(renderJob \<Rightarrow> bool) \<Rightarrow> (nat \<Rightarrow> renderJob list \<Rightarrow> pool) \<Rightarrow> bool" where
  "pool_schedule render schedule \<longleftrightarrow>
     (\<forall>n js. 0 < n \<longrightarrow> \<not> vp_collecting (schedule n js) \<and> (\<exists>k. (pool_step render (2 * n) ^^ k) (pool_start n js) (schedule n js)))"


section \<open>What a run leaves\<close>

lemma pool_schedule_end:
  assumes "pool_schedule render schedule" and "0 < n"
  shows "mset (vp_calls (schedule n js)) = mset js" and "vp_renderErrors (schedule n js) = length (filter (\<lambda>j. \<not> render j) js)"
proof -
  have "pool_inv render n js (schedule n js)" and "\<not> vp_collecting (schedule n js)"
    using assms pool.invariant_steps [of render n js "pool_start n js" "2 * n"] inv_start unfolding pool_schedule_def by auto
  from pool_end [OF this(1) assms(2) this(2)]
  show "mset (vp_calls (schedule n js)) = mset js" "vp_renderErrors (schedule n js) = length (filter (\<lambda>j. \<not> render j) js)"
    by simp_all
qed

text \<open>
  C28. What \<^verbatim>\<open>dataset-mp4\<close> makes of a readable file, whatever the schedule of its workers: for a positive grid and a
  positive number of workers the jobs are laid out, the pictures on the disk when \<^verbatim>\<open>ffmpeg\<close> starts are those of
  the jobs whose saving succeeds, each once, all other jobs are counted as errors, and the frame number i is the
  picture with that number. The run succeeds exactly when \<^verbatim>\<open>ffmpeg\<close> does, even if frames are missing, and
  otherwise leaves the temporary directory behind.
\<close>

theorem video_complete:
  assumes "mf_input fl \<noteq> []" "mw_OpenParquetFile w (mf_input fl)" "mw_NewFileReader w" "mw_MkdirTemp w = Some tmpDir"
    and "mw_batches w = Some (batches, failed)" "collectEpisodes batches failed = Ok episodes"
    and "0 < mf_gridCols fl" "0 < mf_gridRows fl" "mf_gridCols fl * mf_gridRows fl < 2 ^ 62" "int (length episodes) < 2 ^ 62"
    and "0 < numWorkers (mf_workers fl) (mw_NumCPU w)" and "pool_schedule (saves w tmpDir) schedule"
  shows "\<exists>jobs. grid_jobs (mf_gridCols fl) (mf_gridRows fl) episodes = Ok jobs \<and>
    (let r = mp4_main w schedule fl; ok = (\<lambda>i. mw_SavePNG w (Join tmpDir (frame_name i)));
         args = ffmpeg_args tmpDir (mf_output fl) (fps_text (mf_frameDuration fl)) in
     mset (mr_saved r) = mset (map (\<lambda>i. Join tmpDir (frame_name i)) (filter ok [0..<length jobs])) \<and>
     mr_renderErrors r + length (mr_saved r) = length jobs \<and> mr_args r = Some args \<and>
     mr_end r = (if mw_ffmpeg w args (mr_saved r) then MainDone else MainFatal ''failed to generate video'') \<and>
     (mr_tmpLeft r \<longleftrightarrow> mr_end r \<noteq> MainDone))"
proof -
  let ?n = "nat (numWorkers (mf_workers fl) (mw_NumCPU w))"
  define gs where "gs = nat (mf_gridCols fl * mf_gridRows fl)"
  define jobs where "jobs = jobs_upto gs episodes ((length episodes + gs - 1) div gs)"
  have layout: "grid_jobs (mf_gridCols fl) (mf_gridRows fl) episodes = Ok jobs"
    unfolding jobs_def using grid_jobs_layout [OF assms(7-10) gs_def refl] .
  have indices: "map rj_frameIndex jobs = [0..<length jobs]"
    unfolding jobs_def using jobs_indices by (simp add: length_jobs_upto)
  define s where "s = schedule ?n jobs"
  have pool: "mset (vp_calls s) = mset jobs" "vp_renderErrors s = length (filter (\<lambda>j. \<not> saves w tmpDir j) jobs)"
    unfolding s_def using pool_schedule_end [OF assms(12)] assms(11) by simp_all
  have main: "mp4_main w schedule fl = encode w fl tmpDir s"
    using assms(1-6,11) layout by (simp add: mp4_main_def s_def Let_def)
  have saved: "mset (mr_saved (encode w fl tmpDir s)) = mset (map (frame_path tmpDir) (filter (saves w tmpDir) jobs))"
    using pool(1) by (simp add: encode_def Let_def mset_filter)
  have "map (frame_path tmpDir) (filter (saves w tmpDir) jobs) =
      map (\<lambda>i. Join tmpDir (frame_name i)) (filter (\<lambda>i. mw_SavePNG w (Join tmpDir (frame_name i))) (map rj_frameIndex jobs))"
    by (simp add: filter_map comp_def frame_path_def [abs_def] saves_def [abs_def])
  with saved indices
  have "mset (mr_saved (encode w fl tmpDir s)) =
      mset (map (\<lambda>i. Join tmpDir (frame_name i)) (filter (\<lambda>i. mw_SavePNG w (Join tmpDir (frame_name i))) [0..<length jobs]))"
    by simp
  moreover have "length (mr_saved (encode w fl tmpDir s)) = length (filter (saves w tmpDir) jobs)"
    using saved by (metis size_mset length_map)
  then have "mr_renderErrors (encode w fl tmpDir s) + length (mr_saved (encode w fl tmpDir s)) = length jobs"
    using sum_length_filter_compl [of "saves w tmpDir" jobs] pool(2) by (simp add: encode_def Let_def)
  ultimately show ?thesis
    using layout main by (intro exI [of _ jobs]) (simp add: Let_def encode_def)
qed

text \<open>There is a schedule for every outcome of the saves.\<close>

lemma schedule_exists: "\<exists>schedule. pool_schedule render schedule"
proof -
  have "\<exists>s. \<not> vp_collecting s \<and> (\<exists>k. (pool_step render (2 * n) ^^ k) (pool_start n js) s)" if "0 < n" for n js
    using pool.run_to_end [of render n js "pool_start n js" "2 * n"] inv_start that by auto
  then show ?thesis unfolding pool_schedule_def by metis
qed

definition ex_mp4 :: mp4_world where
  "ex_mp4 = \<lparr>mw_OpenParquetFile = (\<lambda>_. True), mw_NewFileReader = True, mw_MkdirTemp = Some ''/tmp/d'', mw_batches = Some ([ex_batch, ex_batch], False),
    mw_SavePNG = (\<lambda>p. p \<noteq> Join ''/tmp/d'' (frame_name 1)), mw_NumCPU = 4, mw_ffmpeg = (\<lambda>_ _. True)\<rparr>"

definition ex_mp4_flags :: mp4_flags where
  "ex_mp4_flags = \<lparr>mf_input = ''in.parquet'', mf_output = ''output.mp4'', mf_frameDuration = 100, mf_workers = 0, mf_gridCols = 1, mf_gridRows = 1\<rparr>"

theorem video_complete_witness:
  "\<exists>schedule. pool_schedule (saves ex_mp4 ''/tmp/d'') schedule \<and> mr_end (mp4_main ex_mp4 schedule ex_mp4_flags) = MainDone \<and>
    mr_renderErrors (mp4_main ex_mp4 schedule ex_mp4_flags) = 1 \<and>
    mr_saved (mp4_main ex_mp4 schedule ex_mp4_flags) = [Join ''/tmp/d'' (frame_name 0)]"
proof -
  obtain schedule where sched: "pool_schedule (saves ex_mp4 ''/tmp/d'') schedule" using schedule_exists by blast
  let ?collected = "collectEpisodes [ex_batch, ex_batch] False"
  define eps where "eps = (case ?collected of Ok es \<Rightarrow> es | _ \<Rightarrow> [])"
  have eps: "?collected = Ok eps" "length eps = 2" unfolding eps_def by code_simp+
  have num: "map_option length (case grid_jobs 1 1 eps of Ok js \<Rightarrow> Some js | _ \<Rightarrow> None) = Some 2" unfolding eps_def by code_simp
  have names: "Join ''/tmp/d'' (frame_name 0) \<noteq> Join ''/tmp/d'' (frame_name 1)" by code_simp
  from video_complete [of ex_mp4_flags ex_mp4 "''/tmp/d''" "[ex_batch, ex_batch]" False eps schedule] sched eps
  obtain jobs where jobs: "grid_jobs 1 1 eps = Ok jobs" and r:
    "mset (mr_saved (mp4_main ex_mp4 schedule ex_mp4_flags)) = mset (map (\<lambda>i. Join ''/tmp/d'' (frame_name i)) (filter (\<lambda>i. mw_SavePNG ex_mp4 (Join ''/tmp/d'' (frame_name i))) [0..<length jobs]))"
    "mr_renderErrors (mp4_main ex_mp4 schedule ex_mp4_flags) + length (mr_saved (mp4_main ex_mp4 schedule ex_mp4_flags)) = length jobs"
    "mr_end (mp4_main ex_mp4 schedule ex_mp4_flags) = MainDone"
    by (auto simp: Let_def ex_mp4_def ex_mp4_flags_def numWorkers_def)
  have "length jobs = 2" using num jobs by simp
  moreover have "filter (\<lambda>i. mw_SavePNG ex_mp4 (Join ''/tmp/d'' (frame_name i))) [0..<2] = [0]"
    using names by (simp add: ex_mp4_def upt_rec)
  ultimately show ?thesis using r sched by (intro exI [of _ schedule]) simp
qed

text \<open>A fatal error skips the deferred removal, so every failure after the directory is made leaves it behind.\<close>

lemma fatal_leaves_directory:
  assumes "mw_MkdirTemp w = Some tmpDir" "mf_input fl \<noteq> []" "mw_OpenParquetFile w (mf_input fl)" "mw_NewFileReader w"
    and "mr_end (mp4_main w schedule fl) = MainFatal e"
  shows "mr_tmpLeft (mp4_main w schedule fl)"
  using assms by (auto simp: mp4_main_def ended_def encode_def Let_def split: option.splits gres.splits if_splits)

end
