(* ===== verification/Video_Service.thy ===== *)
theory Video_Service
  imports Go_Schedules Video_Pool
begin

text \<open>
  The render service of \<^verbatim>\<open>dataset-mp4.go\<close>: the calls of \<^verbatim>\<open>renderGridFrame\<close> send one request per cell through a bounded
  channel and then wait for the answers, each on a channel of its own with room for one image; the goroutines of the service fetch
  an image for a request, send it if there is one and close the channel of the answer. The response channels are a store
  that maps the place of a cell (caller, call, cell) to what the channel holds and whether it is closed. The callers are the workers of
  the pool; \<open>calls ! w\<close> are the calls that the worker \<open>w\<close> comes to make, each with the frames of its grid.
\<close>

section \<open>The state and its steps\<close>

type_synonym cell_key = "nat \<times> nat \<times> nat"

text \<open>A caller asks for the cells of a call, collects the answers in the same order, and goes on to its next call.\<close>

datatype caller = Ask nat nat | Await nat nat | CallsDone

datatype renderer = Ready | Got cell_key "Joint list" | Answered cell_key | Stopped

record 'img render_service =
  rs_chan :: "cell_key \<Rightarrow> ('img option \<times> bool) option"
  rs_queue :: "(cell_key \<times> Joint list) list"
  rs_workers :: "renderer list"
  rs_callers :: "caller list"
  rs_renders :: "cell_key \<Rightarrow> 'img option"
  rs_closed :: bool

definition next_call :: "Frame list list list \<Rightarrow> nat \<Rightarrow> nat \<Rightarrow> caller" where
  "next_call calls w c = (if c < length (calls ! w) then Ask c 0 else CallsDone)"

definition workersPerPort :: nat where "workersPerPort = 32"
definition renderPortStart :: nat where "renderPortStart = 8000"
definition renderPortEnd :: nat where "renderPortEnd = 8008"

definition renderPort :: "nat \<Rightarrow> nat" where
  "renderPort j = renderPortStart + j div workersPerPort"

definition totalWorkers :: nat where
  "totalWorkers = (renderPortEnd - renderPortStart + 1) * workersPerPort"

definition service_start :: "nat \<Rightarrow> Frame list list list \<Rightarrow> 'img render_service" where
  "service_start n calls =
     \<lparr>rs_chan = (\<lambda>_. None), rs_queue = [], rs_workers = replicate n Ready,
      rs_callers = map (\<lambda>w. next_call calls w 0) [0..<length calls], rs_renders = (\<lambda>_. None), rs_closed = False\<rparr>"

inductive service_step ::
    "(Joint list \<Rightarrow> nat \<Rightarrow> 'img option) \<Rightarrow> nat \<Rightarrow> Frame list list list \<Rightarrow> 'img render_service \<Rightarrow> 'img render_service \<Rightarrow> bool"
  for fetch :: "Joint list \<Rightarrow> nat \<Rightarrow> 'img option" and room :: nat and calls :: "Frame list list list" where
  ask: "w < length (rs_callers s) \<Longrightarrow> rs_callers s ! w = Ask c i \<Longrightarrow> i < length (calls ! w ! c) \<Longrightarrow> wants_render (calls ! w ! c ! i) \<Longrightarrow>
    length (rs_queue s) < room \<Longrightarrow>
    service_step fetch room calls s (s\<lparr>rs_chan := (rs_chan s)((w, c, i) := Some (None, False)),
      rs_queue := rs_queue s @ [((w, c, i), Joints (calls ! w ! c ! i))], rs_callers := (rs_callers s)[w := Ask c (Suc i)]\<rparr>)"
| ask_skip: "w < length (rs_callers s) \<Longrightarrow> rs_callers s ! w = Ask c i \<Longrightarrow> i < length (calls ! w ! c) \<Longrightarrow> \<not> wants_render (calls ! w ! c ! i) \<Longrightarrow>
    service_step fetch room calls s (s\<lparr>rs_callers := (rs_callers s)[w := Ask c (Suc i)]\<rparr>)"
| ask_end: "w < length (rs_callers s) \<Longrightarrow> rs_callers s ! w = Ask c (length (calls ! w ! c)) \<Longrightarrow>
    service_step fetch room calls s (s\<lparr>rs_callers := (rs_callers s)[w := Await c 0]\<rparr>)"
| receive: "w < length (rs_callers s) \<Longrightarrow> rs_callers s ! w = Await c i \<Longrightarrow> i < length (calls ! w ! c) \<Longrightarrow> rs_chan s (w, c, i) = Some (Some img, cl) \<Longrightarrow>
    service_step fetch room calls s (s\<lparr>rs_chan := (rs_chan s)((w, c, i) := Some (None, cl)),
      rs_renders := (rs_renders s)((w, c, i) := Some img), rs_callers := (rs_callers s)[w := Await c (Suc i)]\<rparr>)"
| receive_closed: "w < length (rs_callers s) \<Longrightarrow> rs_callers s ! w = Await c i \<Longrightarrow> i < length (calls ! w ! c) \<Longrightarrow> rs_chan s (w, c, i) = Some (None, True) \<Longrightarrow>
    service_step fetch room calls s (s\<lparr>rs_callers := (rs_callers s)[w := Await c (Suc i)]\<rparr>)"
| receive_skip: "w < length (rs_callers s) \<Longrightarrow> rs_callers s ! w = Await c i \<Longrightarrow> i < length (calls ! w ! c) \<Longrightarrow> rs_chan s (w, c, i) = None \<Longrightarrow>
    service_step fetch room calls s (s\<lparr>rs_callers := (rs_callers s)[w := Await c (Suc i)]\<rparr>)"
| call_end: "w < length (rs_callers s) \<Longrightarrow> rs_callers s ! w = Await c (length (calls ! w ! c)) \<Longrightarrow>
    service_step fetch room calls s (s\<lparr>rs_callers := (rs_callers s)[w := next_call calls w (Suc c)]\<rparr>)"
| take: "j < length (rs_workers s) \<Longrightarrow> rs_workers s ! j = Ready \<Longrightarrow> rs_queue s = (k, joints) # qs \<Longrightarrow>
    service_step fetch room calls s (s\<lparr>rs_queue := qs, rs_workers := (rs_workers s)[j := Got k joints]\<rparr>)"
| answer: "j < length (rs_workers s) \<Longrightarrow> rs_workers s ! j = Got k joints \<Longrightarrow> fetch joints (renderPort j) = Some img \<Longrightarrow> rs_chan s k = Some (None, False) \<Longrightarrow>
    service_step fetch room calls s (s\<lparr>rs_chan := (rs_chan s)(k := Some (Some img, False)), rs_workers := (rs_workers s)[j := Answered k]\<rparr>)"
| no_answer: "j < length (rs_workers s) \<Longrightarrow> rs_workers s ! j = Got k joints \<Longrightarrow> fetch joints (renderPort j) = None \<Longrightarrow>
    service_step fetch room calls s (s\<lparr>rs_workers := (rs_workers s)[j := Answered k]\<rparr>)"
| close_answer: "j < length (rs_workers s) \<Longrightarrow> rs_workers s ! j = Answered k \<Longrightarrow> rs_chan s k = Some (b, False) \<Longrightarrow>
    service_step fetch room calls s (s\<lparr>rs_chan := (rs_chan s)(k := Some (b, True)), rs_workers := (rs_workers s)[j := Ready]\<rparr>)"
| close_service: "list_all (\<lambda>c. c = CallsDone) (rs_callers s) \<Longrightarrow> \<not> rs_closed s \<Longrightarrow> service_step fetch room calls s (s\<lparr>rs_closed := True\<rparr>)"
| stop: "j < length (rs_workers s) \<Longrightarrow> rs_workers s ! j = Ready \<Longrightarrow> rs_queue s = [] \<Longrightarrow> rs_closed s \<Longrightarrow>
    service_step fetch room calls s (s\<lparr>rs_workers := (rs_workers s)[j := Stopped]\<rparr>)"


section \<open>The invariant\<close>

definition is_cell :: "Frame list list list \<Rightarrow> cell_key \<Rightarrow> bool" where
  "is_cell calls k \<longleftrightarrow> (case k of (w, c, i) \<Rightarrow> w < length calls \<and> c < length (calls ! w) \<and> i < length (calls ! w ! c))"

definition cell_at :: "Frame list list list \<Rightarrow> cell_key \<Rightarrow> Frame" where
  "cell_at calls k = (case k of (w, c, i) \<Rightarrow> calls ! w ! c ! i)"

text \<open>What a caller has done at a cell, by where it stands.\<close>

fun asked :: "caller \<Rightarrow> nat \<Rightarrow> nat \<Rightarrow> bool" where
  "asked (Ask c i) c' i' \<longleftrightarrow> c' < c \<or> c' = c \<and> i' < i"
| "asked (Await c i) c' i' \<longleftrightarrow> c' \<le> c"
| "asked CallsDone c' i' \<longleftrightarrow> True"

fun received :: "caller \<Rightarrow> nat \<Rightarrow> nat \<Rightarrow> bool" where
  "received (Ask c i) c' i' \<longleftrightarrow> c' < c"
| "received (Await c i) c' i' \<longleftrightarrow> c' < c \<or> c' = c \<and> i' < i"
| "received CallsDone c' i' \<longleftrightarrow> True"

fun place_ok :: "Frame list list \<Rightarrow> caller \<Rightarrow> bool" where
  "place_ok fss (Ask c i) \<longleftrightarrow> c < length fss \<and> i \<le> length (fss ! c)"
| "place_ok fss (Await c i) \<longleftrightarrow> c < length fss \<and> i \<le> length (fss ! c)"
| "place_ok fss CallsDone \<longleftrightarrow> True"

text \<open>The requests that are not finished, and an answer that some port gives.\<close>

fun renderer_keys :: "renderer \<Rightarrow> cell_key list" where
  "renderer_keys (Got k joints) = [k]"
| "renderer_keys (Answered k) = [k]"
| "renderer_keys _ = []"

definition in_flight :: "'img render_service \<Rightarrow> cell_key multiset" where
  "in_flight s = mset (map fst (rs_queue s)) + sum_list (map (\<lambda>v. mset (renderer_keys v)) (rs_workers s))"

definition port_answer :: "(Joint list \<Rightarrow> nat \<Rightarrow> 'img option) \<Rightarrow> nat \<Rightarrow> Frame \<Rightarrow> 'img option \<Rightarrow> bool" where
  "port_answer fetch n frame r \<longleftrightarrow> (\<exists>j < n. r = fetch (Joints frame) (renderPort j))"

text \<open>
  The parts of the invariant: the channels are those of the cells asked for; a request is in flight exactly while its channel is open, and
  only once; a request without answer has an empty channel; what a channel or the result holds comes from some port; and
  the order in which the service ends.
\<close>

definition chans_ok :: "Frame list list list \<Rightarrow> 'img render_service \<Rightarrow> bool" where
  "chans_ok calls s \<longleftrightarrow> (\<forall>w c i. rs_chan s (w, c, i) \<noteq> None \<longleftrightarrow>
     is_cell calls (w, c, i) \<and> wants_render (calls ! w ! c ! i) \<and> asked (rs_callers s ! w) c i)"

definition flight_ok :: "'img render_service \<Rightarrow> bool" where
  "flight_ok s \<longleftrightarrow> (\<forall>k. count (in_flight s) k = of_bool (\<exists>b. rs_chan s k = Some (b, False)))"

definition requests_ok :: "Frame list list list \<Rightarrow> 'img render_service \<Rightarrow> bool" where
  "requests_ok calls s \<longleftrightarrow> (\<forall>k joints. (k, joints) \<in> set (rs_queue s) \<or> Got k joints \<in> set (rs_workers s) \<longrightarrow>
     rs_chan s k = Some (None, False) \<and> joints = Joints (cell_at calls k))"

definition cell_answer :: "(Joint list \<Rightarrow> nat \<Rightarrow> 'img option) \<Rightarrow> nat \<Rightarrow> Frame \<Rightarrow> bool \<Rightarrow> ('img option \<times> bool) option \<Rightarrow> bool \<Rightarrow> 'img option \<Rightarrow> bool" where
  "cell_answer fetch n f rc ch answered r \<longleftrightarrow>
     (if rc then (if wants_render f then port_answer fetch n f r else r = None)
      else r = None \<and> (\<forall>img cl. ch = Some (Some img, cl) \<longrightarrow> port_answer fetch n f (Some img)) \<and>
        (\<forall>cl. ch = Some (None, cl) \<longrightarrow> cl \<or> answered \<longrightarrow> port_answer fetch n f None))"

definition answers_ok :: "(Joint list \<Rightarrow> nat \<Rightarrow> 'img option) \<Rightarrow> nat \<Rightarrow> Frame list list list \<Rightarrow> 'img render_service \<Rightarrow> bool" where
  "answers_ok fetch n calls s \<longleftrightarrow> (\<forall>w c i. is_cell calls (w, c, i) \<longrightarrow>
     cell_answer fetch n (calls ! w ! c ! i) (received (rs_callers s ! w) c i) (rs_chan s (w, c, i))
       (Answered (w, c, i) \<in> set (rs_workers s)) (rs_renders s (w, c, i)))"

definition service_inv :: "(Joint list \<Rightarrow> nat \<Rightarrow> 'img option) \<Rightarrow> nat \<Rightarrow> Frame list list list \<Rightarrow> 'img render_service \<Rightarrow> bool" where
  "service_inv fetch n calls s \<longleftrightarrow>
     length (rs_callers s) = length calls \<and> length (rs_workers s) = n \<and>
     (\<forall>w < length calls. place_ok (calls ! w) (rs_callers s ! w)) \<and>
     chans_ok calls s \<and> flight_ok s \<and> requests_ok calls s \<and> answers_ok fetch n calls s \<and>
     (rs_closed s \<longrightarrow> list_all (\<lambda>c. c = CallsDone) (rs_callers s)) \<and>
     (Stopped \<in> set (rs_workers s) \<longrightarrow> rs_queue s = [] \<and> rs_closed s)"

lemma asked_received: "place_ok fss p \<Longrightarrow> received p c i \<Longrightarrow> asked p c i"
  by (cases p) auto

lemma place_next: "place_ok (calls ! w) (next_call calls w c)"
  by (simp add: next_call_def)

lemma asked_next: "c' < length (calls ! w) \<Longrightarrow> asked (next_call calls w (Suc c)) c' i' \<longleftrightarrow> c' \<le> c"
  by (auto simp: next_call_def less_Suc_eq_le)

lemma received_next: "c' < length (calls ! w) \<Longrightarrow> received (next_call calls w (Suc c)) c' i' \<longleftrightarrow> c' \<le> c"
  by (auto simp: next_call_def less_Suc_eq_le)

lemma in_flight_update:
  "j < length ws \<Longrightarrow> sum_list (map (\<lambda>v. mset (renderer_keys v)) (ws[j := v])) + mset (renderer_keys (ws ! j)) =
    sum_list (map (\<lambda>v. mset (renderer_keys v)) ws) + mset (renderer_keys v)"
  by (rule sum_list_update)


lemma rest_step:
  assumes "service_step fetch room calls s s'" and "service_inv fetch n calls s"
  shows "length (rs_callers s') = length calls \<and> length (rs_workers s') = n \<and>
     (\<forall>w < length calls. place_ok (calls ! w) (rs_callers s' ! w)) \<and>
     (rs_closed s' \<longrightarrow> list_all (\<lambda>c. c = CallsDone) (rs_callers s')) \<and>
     (Stopped \<in> set (rs_workers s') \<longrightarrow> rs_queue s' = [] \<and> rs_closed s')"
  using assms
proof (induction rule: service_step.induct)
  case (call_end w s c)
  then show ?case using place_next [of calls] by (auto simp: service_inv_def nth_list_update list_all_length)
qed (force simp: service_inv_def nth_list_update list_all_length dest!: set_update_subset_insert [THEN subsetD])+

lemma chans_step:
  assumes "service_step fetch room calls s s'" and "service_inv fetch n calls s"
  shows "chans_ok calls s'"
  using assms
proof (induction rule: service_step.induct)
  case (ask w s c i)
  then have "c < length (calls ! w)" by (auto simp: service_inv_def)
  with ask show ?case by (auto simp: service_inv_def chans_ok_def nth_list_update is_cell_def less_Suc_eq)
next
  case (ask_skip w s c i)
  then show ?case by (auto simp: service_inv_def chans_ok_def nth_list_update is_cell_def less_Suc_eq)
next
  case (ask_end w s c)
  then show ?case by (auto simp: service_inv_def chans_ok_def nth_list_update is_cell_def)
next
  case (receive w s c i img cl)
  have "asked (Await c (Suc i)) = asked (Await c i)" by (intro ext) simp
  with receive show ?case by (simp add: service_inv_def chans_ok_def nth_list_update) (metis option.distinct(1))
next
  case (call_end w s c)
  then show ?case by (auto simp: service_inv_def chans_ok_def nth_list_update is_cell_def asked_next)
next
  case (answer j s k joints img)
  then show ?case by (simp add: service_inv_def chans_ok_def) (metis option.distinct(1))
next
  case (close_answer j s k b)
  then show ?case by (simp add: service_inv_def chans_ok_def) (metis option.distinct(1))
qed (auto simp: service_inv_def chans_ok_def nth_list_update)

lemma fresh_chan: "chans_ok calls s \<Longrightarrow> \<not> asked (rs_callers s ! w) c i \<Longrightarrow> rs_chan s (w, c, i) = None"
  by (metis chans_ok_def)

lemma flight_step:
  assumes "service_step fetch room calls s s'" and "service_inv fetch n calls s"
  shows "flight_ok s'"
  using assms
proof (induction rule: service_step.induct)
  case (ask w s c i)
  then have "rs_chan s (w, c, i) = None" using fresh_chan [of calls s w c i] by (simp add: service_inv_def)
  with ask show ?case by (auto simp: service_inv_def flight_ok_def in_flight_def)
next
  case (take j s k joints qs)
  then show ?case
    using in_flight_update [OF take(1), of "Got k joints"] by (simp add: service_inv_def flight_ok_def in_flight_def)
next
  case (answer j s k joints img)
  then show ?case
    using in_flight_update [OF answer(1), of "Answered k"] by (auto simp: service_inv_def flight_ok_def in_flight_def)
next
  case (no_answer j s k joints)
  then show ?case
    using in_flight_update [OF no_answer(1), of "Answered k"] by (auto simp: service_inv_def flight_ok_def in_flight_def)
next
  case (close_answer j s k b)
  have "in_flight s = add_mset k (in_flight (s\<lparr>rs_workers := (rs_workers s)[j := Ready]\<rparr>))"
    using in_flight_update [OF close_answer(1), of Ready] close_answer(2) by (simp add: in_flight_def)
  then have "count (in_flight s) k' = count (in_flight (s\<lparr>rs_workers := (rs_workers s)[j := Ready]\<rparr>)) k' + of_bool (k = k')" for k' by simp
  moreover have "count (in_flight s) k' = of_bool (\<exists>b. rs_chan s k' = Some (b, False))" for k'
    using close_answer(4) unfolding service_inv_def flight_ok_def by blast
  ultimately have count: "count (in_flight (s\<lparr>rs_workers := (rs_workers s)[j := Ready]\<rparr>)) k' + of_bool (k = k') =
      of_bool (\<exists>b. rs_chan s k' = Some (b, False))" for k' by metis
  show ?case unfolding flight_ok_def
  proof
    fix k'
    show "count (in_flight (s\<lparr>rs_chan := (rs_chan s)(k := Some (b, True)), rs_workers := (rs_workers s)[j := Ready]\<rparr>)) k' =
        of_bool (\<exists>b'. rs_chan (s\<lparr>rs_chan := (rs_chan s)(k := Some (b, True)), rs_workers := (rs_workers s)[j := Ready]\<rparr>) k' = Some (b', False))"
      using count [of k'] close_answer(3) by (cases "k = k'") (simp_all add: in_flight_def)
  qed
next
  case (stop j s)
  then show ?case
    using in_flight_update [OF stop(1), of Stopped] by (auto simp: service_inv_def flight_ok_def in_flight_def)
qed (auto simp: service_inv_def flight_ok_def in_flight_def)


lemma flight_once:
  assumes "flight_ok s" and "j < length (rs_workers s)" and "renderer_keys (rs_workers s ! j) = [k]"
  shows "k \<notin> fst ` set (rs_queue s)" and "v \<in> set ((rs_workers s)[j := Ready]) \<Longrightarrow> k \<notin> set (renderer_keys v)"
    and "\<exists>b. rs_chan s k = Some (b, False)"
proof -
  let ?rest = "mset (map fst (rs_queue s)) + sum_list (map (\<lambda>v. mset (renderer_keys v)) ((rs_workers s)[j := Ready]))"
  have flight: "in_flight s = add_mset k ?rest"
    using in_flight_update [OF assms(2), of Ready] assms(3) by (simp add: in_flight_def)
  then have "count (in_flight s) k = Suc (count ?rest k)" by simp
  moreover have "count (in_flight s) k = of_bool (\<exists>b. rs_chan s k = Some (b, False))" using assms(1) unfolding flight_ok_def by blast
  ultimately have none: "count ?rest k = 0" "\<exists>b. rs_chan s k = Some (b, False)" by (cases "\<exists>b. rs_chan s k = Some (b, False)"; simp)+
  then have rest: "k \<notin># mset (map fst (rs_queue s))" "k \<notin># sum_list (map (\<lambda>v. mset (renderer_keys v)) ((rs_workers s)[j := Ready]))"
    by (simp_all only: not_in_iff count_union add_is_0)
  then show "k \<notin> fst ` set (rs_queue s)" by simp
  show "k \<notin> set (renderer_keys v)" if "v \<in> set ((rs_workers s)[j := Ready])"
    using that rest(2) by simp
  show "\<exists>b. rs_chan s k = Some (b, False)" by fact
qed

lemma answered_open: "flight_ok s \<Longrightarrow> Answered k \<in> set (rs_workers s) \<Longrightarrow> \<exists>b. rs_chan s k = Some (b, False)"
  using flight_once(3) [of s _ k] by (auto simp: in_set_conv_nth)

lemma in_update: "v \<in> set (ws[j := x]) \<Longrightarrow> v = x \<or> v \<in> set (ws[j := y])"
proof -
  assume "v \<in> set (ws[j := x])"
  then obtain i where "i < length ws" "v = ws[j := x] ! i" by (auto simp: in_set_conv_nth)
  then show ?thesis using nth_mem [of i "ws[j := y]"] by (cases "i = j") auto
qed

lemma requests_update:
  assumes "requests_ok calls s" and "flight_ok s" and "j < length (rs_workers s)" and "renderer_keys (rs_workers s ! j) = [k]"
    and "\<And>k' joints. v \<noteq> Got k' joints"
  shows "requests_ok calls (s\<lparr>rs_chan := (rs_chan s)(k := x), rs_workers := (rs_workers s)[j := v]\<rparr>)"
  unfolding requests_ok_def
proof (intro allI impI)
  fix k' joints
  assume "(k', joints) \<in> set (rs_queue (s\<lparr>rs_chan := (rs_chan s)(k := x), rs_workers := (rs_workers s)[j := v]\<rparr>)) \<or>
    Got k' joints \<in> set (rs_workers (s\<lparr>rs_chan := (rs_chan s)(k := x), rs_workers := (rs_workers s)[j := v]\<rparr>))"
  then consider "(k', joints) \<in> set (rs_queue s)" | "Got k' joints \<in> set ((rs_workers s)[j := v])" by auto
  then have "k' \<noteq> k \<and> ((k', joints) \<in> set (rs_queue s) \<or> Got k' joints \<in> set (rs_workers s))"
  proof cases
    case 1
    then show ?thesis using flight_once(1) [OF assms(2-4)] by force
  next
    case 2
    then have ready: "Got k' joints \<in> set ((rs_workers s)[j := Ready])" using in_update [OF 2, of Ready] assms(5) by metis
    then have "Got k' joints \<in> set (rs_workers s)" by (auto dest!: set_update_subset_insert [THEN subsetD])
    then show ?thesis using flight_once(2) [OF assms(2-4) ready] by auto
  qed
  then show "rs_chan (s\<lparr>rs_chan := (rs_chan s)(k := x), rs_workers := (rs_workers s)[j := v]\<rparr>) k' = Some (None, False) \<and>
      joints = Joints (cell_at calls k')"
    using assms(1) [unfolded requests_ok_def, rule_format, of k' joints] by simp
qed

lemma requests_step:
  assumes "service_step fetch room calls s s'" and "service_inv fetch n calls s"
  shows "requests_ok calls s'"
  using assms
proof (induction rule: service_step.induct)
  case (ask w s c i)
  then have "rs_chan s (w, c, i) = None" using fresh_chan [of calls s w c i] by (simp add: service_inv_def)
  with ask show ?case by (auto simp: service_inv_def requests_ok_def cell_at_def)
next
  case (take j s k joints qs)
  then show ?case by (auto simp: service_inv_def requests_ok_def dest!: set_update_subset_insert [THEN subsetD])
next
  case (answer j s k joints img)
  have keys: "renderer_keys (rs_workers s ! j) = [k]" and flight: "flight_ok s" and req: "requests_ok calls s"
    using answer by (simp_all add: service_inv_def)
  show ?case by (rule requests_update [OF req flight answer(1) keys]) auto
next
  case (no_answer j s k joints)
  then show ?case by (auto simp: service_inv_def requests_ok_def dest!: set_update_subset_insert [THEN subsetD])
next
  case (close_answer j s k b)
  have keys: "renderer_keys (rs_workers s ! j) = [k]" and flight: "flight_ok s" and req: "requests_ok calls s"
    using close_answer by (simp_all add: service_inv_def)
  show ?case by (rule requests_update [OF req flight close_answer(1) keys]) auto
next
  case (stop j s)
  then show ?case by (auto simp: service_inv_def requests_ok_def dest!: set_update_subset_insert [THEN subsetD])
qed (auto simp: service_inv_def requests_ok_def)


lemma answers_cellI:
  assumes "service_inv fetch n calls s"
    and "\<And>w c i. is_cell calls (w, c, i) \<Longrightarrow>
      cell_answer fetch n (calls ! w ! c ! i) (received (rs_callers s ! w) c i) (rs_chan s (w, c, i))
        (Answered (w, c, i) \<in> set (rs_workers s)) (rs_renders s (w, c, i)) \<Longrightarrow>
      cell_answer fetch n (calls ! w ! c ! i) (received (rs_callers s' ! w) c i) (rs_chan s' (w, c, i))
        (Answered (w, c, i) \<in> set (rs_workers s')) (rs_renders s' (w, c, i))"
  shows "answers_ok fetch n calls s'"
  using assms unfolding service_inv_def answers_ok_def by blast

lemma answered_update: "Answered k \<in> set (ws[j := v]) \<Longrightarrow> v \<noteq> Answered k \<Longrightarrow> Answered k \<in> set ws"
  by (auto dest!: set_update_subset_insert [THEN subsetD])

lemma answers_step:
  assumes "service_step fetch room calls s s'" and "service_inv fetch n calls s"
  shows "answers_ok fetch n calls s'"
  using assms
proof (induction rule: service_step.induct)
  case (ask w s c i)
  then have fresh: "rs_chan s (w, c, i) = None" "Answered (w, c, i) \<notin> set (rs_workers s)"
    using fresh_chan [of calls s w c i] answered_open [of s "(w, c, i)"] by (auto simp: service_inv_def)
  show ?case by (rule answers_cellI [OF ask(6)]) (use ask fresh in \<open>auto simp: cell_answer_def nth_list_update\<close>)
next
  case (ask_skip w s c i)
  show ?case by (rule answers_cellI [OF ask_skip(5)]) (use ask_skip in \<open>auto simp: nth_list_update\<close>)
next
  case (ask_end w s c)
  show ?case by (rule answers_cellI [OF ask_end(3)]) (use ask_end in \<open>auto simp: nth_list_update\<close>)
next
  case (receive w s c i img cl)
  then have "wants_render (calls ! w ! c ! i)"
    unfolding service_inv_def chans_ok_def by (metis option.distinct(1))
  then show ?case using receive
    by (intro answers_cellI [OF receive(5)]) (auto simp: cell_answer_def nth_list_update less_Suc_eq)
next
  case (receive_closed w s c i)
  then have "wants_render (calls ! w ! c ! i)"
    unfolding service_inv_def chans_ok_def by (metis option.distinct(1))
  then show ?case using receive_closed
    by (intro answers_cellI [OF receive_closed(5)]) (auto simp: cell_answer_def nth_list_update less_Suc_eq)
next
  case (receive_skip w s c i)
  then have "\<not> wants_render (calls ! w ! c ! i)" if "is_cell calls (w, c, i)"
    using that unfolding service_inv_def chans_ok_def by (metis asked.simps(2) order_refl)
  then show ?case using receive_skip
    by (intro answers_cellI [OF receive_skip(5)]) (auto simp: cell_answer_def nth_list_update less_Suc_eq)
next
  case (call_end w s c)
  have same: "received (next_call calls w (Suc c)) c' i' \<longleftrightarrow> received (Await c (length (calls ! w ! c))) c' i'"
    if "is_cell calls (w, c', i')" for c' i'
    using that by (cases "c' = c") (auto simp: is_cell_def received_next)
  show ?case by (rule answers_cellI [OF call_end(3)]) (use call_end same in \<open>auto simp: nth_list_update simp del: received.simps\<close>)
next
  case (take j s k joints qs)
  show ?case by (rule answers_cellI [OF take(4)]) (auto simp: cell_answer_def dest: answered_update)
next
  case (answer j s k joints img)
  have "port_answer fetch n (cell_at calls k) (Some img)"
    using answer unfolding service_inv_def requests_ok_def port_answer_def by (metis nth_mem)
  then show ?case
    by (intro answers_cellI [OF answer(5)]) (auto simp: cell_answer_def cell_at_def dest: answered_update)
next
  case (no_answer j s k joints)
  have "port_answer fetch n (cell_at calls k) None"
    using no_answer unfolding service_inv_def requests_ok_def port_answer_def by (metis nth_mem)
  then show ?case
    by (intro answers_cellI [OF no_answer(4)]) (auto simp: cell_answer_def cell_at_def dest: answered_update)
next
  case (close_answer j s k b)
  have "Answered k \<in> set (rs_workers s)" using close_answer(1,2) nth_mem by metis
  then show ?case using close_answer(3)
    by (intro answers_cellI [OF close_answer(4)]) (auto simp: cell_answer_def dest: answered_update)
next
  case (close_service s)
  show ?case by (rule answers_cellI [OF close_service(3)]) simp
next
  case (stop j s)
  show ?case by (rule answers_cellI [OF stop(5)]) (auto simp: cell_answer_def dest: answered_update)
qed


lemma service_inv_step: "service_step fetch room calls s s' \<Longrightarrow> service_inv fetch n calls s \<Longrightarrow> service_inv fetch n calls s'"
proof -
  assume "service_step fetch room calls s s'" and "service_inv fetch n calls s"
  from rest_step [OF this] chans_step [OF this] flight_step [OF this] requests_step [OF this] answers_step [OF this]
  show ?thesis by (simp add: service_inv_def)
qed

lemma service_inv_start: "service_inv fetch n calls (service_start n calls)"
proof -
  have first: "\<not> asked (next_call calls w 0) c i" "\<not> received (next_call calls w 0) c i" if "is_cell calls (w, c, i)" for w c i
    using that by (auto simp: next_call_def is_cell_def)
  have "w < length calls" if "is_cell calls (w, c, i)" for w c i using that by (simp add: is_cell_def)
  with first have "chans_ok calls (service_start n calls)" "answers_ok fetch n calls (service_start n calls)"
    by (auto simp: service_start_def chans_ok_def answers_ok_def cell_answer_def)
  moreover have "flight_ok (service_start n calls)" "requests_ok calls (service_start n calls)"
    by (simp_all add: service_start_def flight_ok_def requests_ok_def in_flight_def map_replicate_const sum_list_empties)
  ultimately show ?thesis by (simp add: service_inv_def service_start_def place_next)
qed


section \<open>Every schedule ends\<close>

text \<open>What is left, counted so that every step takes at least one.\<close>

definition later_calls :: "Frame list list \<Rightarrow> nat \<Rightarrow> nat" where
  "later_calls fss c = sum_list (map (\<lambda>fs. 5 * length fs + 2) (drop c fss))"

fun caller_weight :: "Frame list list \<Rightarrow> caller \<Rightarrow> nat" where
  "caller_weight fss (Ask c i) = 4 * (length (fss ! c) - i) + length (fss ! c) + 2 + later_calls fss (Suc c)"
| "caller_weight fss (Await c i) = (length (fss ! c) - i) + 1 + later_calls fss (Suc c)"
| "caller_weight fss CallsDone = 0"

fun renderer_weight :: "renderer \<Rightarrow> nat" where
  "renderer_weight Ready = 1"
| "renderer_weight (Got k joints) = 3"
| "renderer_weight (Answered k) = 2"
| "renderer_weight Stopped = 0"

definition service_left :: "Frame list list list \<Rightarrow> 'img render_service \<Rightarrow> nat" where
  "service_left calls s =
     (\<Sum>w < length (rs_callers s). caller_weight (calls ! w) (rs_callers s ! w)) + 3 * length (rs_queue s) +
     (\<Sum>j < length (rs_workers s). renderer_weight (rs_workers s ! j)) + of_bool (\<not> rs_closed s)"

lemma later_Suc: "c < length fss \<Longrightarrow> later_calls fss c = 5 * length (fss ! c) + 2 + later_calls fss (Suc c)"
  by (simp add: later_calls_def Cons_nth_drop_Suc [symmetric])

lemma weight_next: "caller_weight (calls ! w) (next_call calls w c) = later_calls (calls ! w) c"
  by (auto simp: next_call_def later_Suc) (simp add: later_calls_def)

lemma sum_update:
  fixes f :: "nat \<Rightarrow> 'a \<Rightarrow> nat"
  assumes "w < length xs"
  shows "(\<Sum>v < length xs. f v (xs[w := x] ! v)) + f w (xs ! w) = (\<Sum>v < length xs. f v (xs ! v)) + f w x"
proof -
  have "(\<Sum>v < length xs. g v) = g w + (\<Sum>v \<in> {..<length xs} - {w}. g v)" for g :: "nat \<Rightarrow> nat"
    using assms by (intro sum.remove) auto
  note split = this
  have "(\<Sum>v \<in> {..<length xs} - {w}. f v (xs[w := x] ! v)) = (\<Sum>v \<in> {..<length xs} - {w}. f v (xs ! v))"
    by (intro sum.cong) auto
  with split [of "\<lambda>v. f v (xs[w := x] ! v)"] split [of "\<lambda>v. f v (xs ! v)"] assms show ?thesis by simp
qed

lemmas caller_moves = sum_update [where f = "\<lambda>w. caller_weight (calls ! w)" for calls]
lemmas renderer_moves = sum_update [where f = "\<lambda>_. renderer_weight"]

lemma service_left_less: "service_step fetch room calls s s' \<Longrightarrow> service_left calls s' < service_left calls s"
proof (induction rule: service_step.induct)
  case (ask w s c i)
  then show ?case using caller_moves [OF ask(1), of calls "Ask c (Suc i)"] by (simp add: service_left_def)
next
  case (ask_skip w s c i)
  then show ?case using caller_moves [OF ask_skip(1), of calls "Ask c (Suc i)"] by (simp add: service_left_def)
next
  case (ask_end w s c)
  then show ?case using caller_moves [OF ask_end(1), of calls "Await c 0"] by (simp add: service_left_def)
next
  case (receive w s c i img cl)
  then show ?case using caller_moves [OF receive(1), of calls "Await c (Suc i)"] by (simp add: service_left_def)
next
  case (receive_closed w s c i)
  then show ?case using caller_moves [OF receive_closed(1), of calls "Await c (Suc i)"] by (simp add: service_left_def)
next
  case (receive_skip w s c i)
  then show ?case using caller_moves [OF receive_skip(1), of calls "Await c (Suc i)"] by (simp add: service_left_def)
next
  case (call_end w s c)
  then show ?case using caller_moves [OF call_end(1), of calls "next_call calls w (Suc c)"] by (simp add: service_left_def weight_next)
next
  case (take j s k joints qs)
  then show ?case using renderer_moves [OF take(1), of "Got k joints"] by (simp add: service_left_def)
next
  case (answer j s k joints img)
  then show ?case using renderer_moves [OF answer(1), of "Answered k"] by (simp add: service_left_def)
next
  case (no_answer j s k joints)
  then show ?case using renderer_moves [OF no_answer(1), of "Answered k"] by (simp add: service_left_def)
next
  case (close_answer j s k b)
  then show ?case using renderer_moves [OF close_answer(1), of Ready] by (simp add: service_left_def)
next
  case (stop j s)
  then show ?case using renderer_moves [OF stop(1), of Stopped] by (simp add: service_left_def)
qed (simp add: service_left_def)

lemma service_left_start:
  "service_left calls (service_start n calls) = (\<Sum>fss \<leftarrow> calls. \<Sum>fs \<leftarrow> fss. 5 * length fs + 2) + n + 1"
proof -
  have "(\<Sum>w < length calls. later_calls (calls ! w) 0) = (\<Sum>fss \<leftarrow> calls. later_calls fss 0)"
    by (simp add: sum_list_sum_nth atLeast0LessThan)
  then show ?thesis by (simp add: service_left_def service_start_def weight_next later_calls_def)
qed

text \<open>Until all goroutines of the service have stopped, one of them or a caller can go on.\<close>

lemma await_progress:
  assumes w: "w < length (rs_callers s)" and await: "rs_callers s ! w = Await c i" and place: "place_ok (calls ! w) (Await c i)"
    and closed: "rs_chan s (w, c, i) \<noteq> Some (None, False)"
  shows "\<exists>s'. service_step fetch room calls s s'"
proof (cases "i = length (calls ! w ! c)")
  case True
  then show ?thesis using service_step.call_end [OF w, of c] await by blast
next
  case False
  then have i: "i < length (calls ! w ! c)" using place by simp
  show ?thesis
  proof (cases "rs_chan s (w, c, i)")
    case None
    then show ?thesis using service_step.receive_skip [OF w await i] by blast
  next
    case (Some bc)
    show ?thesis
    proof (cases "fst bc")
      case None
      with Some closed have "rs_chan s (w, c, i) = Some (None, True)" by (cases bc) auto
      then show ?thesis using service_step.receive_closed [OF w await i] by blast
    next
      case (Some img)
      with \<open>rs_chan s (w, c, i) = Some bc\<close> have "rs_chan s (w, c, i) = Some (Some img, snd bc)" by (cases bc) auto
      then show ?thesis using service_step.receive [OF w await i] by blast
    qed
  qed
qed

lemma caller_progress:
  assumes inv: "service_inv fetch n calls s" and "0 < room" and "rs_queue s = []" and idle: "\<forall>v \<in> set (rs_workers s). renderer_keys v = []"
    and w: "w < length (rs_callers s)" "rs_callers s ! w \<noteq> CallsDone"
  shows "\<exists>s'. service_step fetch room calls s s'"
proof -
  have "sum_list (map (\<lambda>v. mset (renderer_keys v)) ws) = {#}" if "\<forall>v \<in> set ws. renderer_keys v = []" for ws using that by (induction ws) auto
  then have "in_flight s = {#}" using idle assms(3) by (simp add: in_flight_def)
  moreover have "count (in_flight s) k = of_bool (\<exists>b. rs_chan s k = Some (b, False))" for k
    using inv unfolding service_inv_def flight_ok_def by blast
  ultimately have "\<not> (\<exists>b. rs_chan s k = Some (b, False))" for k by simp
  then have closed: "rs_chan s k \<noteq> Some (b, False)" for k b by blast
  have place: "place_ok (calls ! w) (rs_callers s ! w)" using inv w(1) by (simp add: service_inv_def)
  show ?thesis
  proof (cases "rs_callers s ! w")
    case (Ask c i)
    have room: "length (rs_queue s) < room" using assms(2,3) by simp
    show ?thesis
    proof (cases "i < length (calls ! w ! c)")
      case True
      show ?thesis
      proof (cases "wants_render (calls ! w ! c ! i)")
        case wants: True
        show ?thesis using service_step.ask [OF w(1) Ask True wants room] by blast
      next
        case False
        show ?thesis using service_step.ask_skip [OF w(1) Ask True False] by blast
      qed
    next
      case False
      then have "rs_callers s ! w = Ask c (length (calls ! w ! c))" using place Ask by simp
      from service_step.ask_end [OF w(1) this] show ?thesis by blast
    qed
  next
    case (Await c i)
    then show ?thesis using await_progress [OF w(1)] place closed [of "(w, c, i)" None] by simp
  qed (use w in simp)
qed

lemma service_progress:
  assumes inv: "service_inv fetch n calls s" and "0 < n" and "0 < room" and "\<not> list_all (\<lambda>v. v = Stopped) (rs_workers s)"
  shows "\<exists>s'. service_step fetch room calls s s'"
proof -
  obtain j where j: "j < length (rs_workers s)" "rs_workers s ! j \<noteq> Stopped" using assms(4) by (auto simp: list_all_length)
  show ?thesis
  proof (cases "\<forall>v \<in> set (rs_workers s). renderer_keys v = []")
    case False
    then obtain j where j: "j < length (rs_workers s)" "renderer_keys (rs_workers s ! j) \<noteq> []" by (auto simp: in_set_conv_nth)
    show ?thesis
    proof (cases "rs_workers s ! j")
      case (Got k joints)
      then have "Got k joints \<in> set (rs_workers s)" using j(1) nth_mem by metis
      then have "rs_chan s k = Some (None, False)" using inv unfolding service_inv_def requests_ok_def by blast
      then show ?thesis
        using service_step.answer [OF j(1) Got] service_step.no_answer [OF j(1) Got] by (cases "fetch joints (renderPort j)") blast+
    next
      case (Answered k)
      then have "\<exists>b. rs_chan s k = Some (b, False)" using inv flight_once(3) [of s j k] j(1) by (simp add: service_inv_def)
      then show ?thesis using service_step.close_answer [OF j(1) Answered] by blast
    qed (use j in simp_all)
  next
    case idle: True
    then have "rs_workers s ! j = Ready" using j nth_mem [OF j(1)] by (cases "rs_workers s ! j") auto
    show ?thesis
    proof (cases "rs_queue s")
      case (Cons q qs)
      then show ?thesis using service_step.take [OF j(1) \<open>rs_workers s ! j = Ready\<close>] by (metis surj_pair)
    next
      case queue: Nil
      show ?thesis
      proof (cases "list_all (\<lambda>c. c = CallsDone) (rs_callers s)")
        case True
        then show ?thesis
          using service_step.close_service [OF True] service_step.stop [OF j(1) \<open>rs_workers s ! j = Ready\<close> queue] by blast
      next
        case False
        then obtain w where "w < length (rs_callers s)" "rs_callers s ! w \<noteq> CallsDone" by (auto simp: list_all_length)
        then show ?thesis using caller_progress [OF inv assms(3) queue idle] by blast
      qed
    qed
  qed
qed

interpretation service: goroutines "service_step fetch room calls" "\<lambda>s. service_inv fetch n calls s \<and> 0 < n \<and> 0 < room"
    "service_left calls" "\<lambda>s. list_all (\<lambda>v. v = Stopped) (rs_workers s)"
  for fetch room calls n
proof unfold_locales
  fix s s'
  assume "service_inv fetch n calls s \<and> 0 < n \<and> 0 < room" and step: "service_step fetch room calls s s'"
  then show "service_inv fetch n calls s' \<and> 0 < n \<and> 0 < room" by (blast intro: service_inv_step)
  show "service_left calls s' < service_left calls s" by (rule service_left_less [OF step])
next
  fix s
  assume "service_inv fetch n calls s \<and> 0 < n \<and> 0 < room" and "\<not> list_all (\<lambda>v. v = Stopped) (rs_workers s)"
  then show "\<exists>s'. service_step fetch room calls s s'" by (blast intro: service_progress)
qed


section \<open>Every request is answered\<close>

definition fetch_image :: "'img render_env \<Rightarrow> string \<Rightarrow> Joint list \<Rightarrow> nat \<Rightarrow> 'img option" where
  "fetch_image env host joints port = (case fetch3DRender env host joints port of Ok img \<Rightarrow> Some img | _ \<Rightarrow> None)"

lemma port_answer_ports:
  assumes "port_answer fetch totalWorkers f r"
  shows "\<exists>port \<in> {renderPortStart..renderPortEnd}. r = fetch (Joints f) port"
proof -
  obtain j where j: "j < 288" "r = fetch (Joints f) (renderPort j)"
    using assms by (auto simp: port_answer_def totalWorkers_def renderPortStart_def renderPortEnd_def workersPerPort_def)
  then have "j div 32 \<le> 8" by (simp add: less_mult_imp_div_less div_le_mono [of j 287 32, simplified])
  with j show ?thesis by (auto simp: renderPort_def renderPortStart_def renderPortEnd_def workersPerPort_def)
qed

lemma service_workers: "0 < totalWorkers"
  by (simp add: totalWorkers_def workersPerPort_def)

lemma service_begins: "service_inv fetch totalWorkers calls (service_start totalWorkers calls) \<and> 0 < totalWorkers \<and> 0 < 2 * totalWorkers"
  using service_inv_start service_workers by simp

text \<open>
  C27. The render service answers every request, whatever the schedule of the callers and of its 288 goroutines: a run has
  at most five steps per cell, two per call, one per goroutine and one more, and can go on until all goroutines have stopped; no
  request is sent after the service is closed, and the goroutines stop only when all calls are done. A caller that is done has for
  every cell that asked for a render what one of the nine ports answered for its joints, and nothing for
  every other cell.
\<close>

theorem service_complete:
  assumes "(service_step (fetch_image env host) (2 * totalWorkers) calls ^^ k) (service_start totalWorkers calls) s"
  shows "k \<le> (\<Sum>fss \<leftarrow> calls. \<Sum>fs \<leftarrow> fss. 5 * length fs + 2) + totalWorkers + 1 \<and>
    (\<not> list_all (\<lambda>v. v = Stopped) (rs_workers s) \<longrightarrow> (\<exists>s'. service_step (fetch_image env host) (2 * totalWorkers) calls s s')) \<and>
    (rs_closed s \<or> Stopped \<in> set (rs_workers s) \<longrightarrow> list_all (\<lambda>c. c = CallsDone) (rs_callers s)) \<and>
    (\<forall>w < length calls. rs_callers s ! w = CallsDone \<longrightarrow>
      (\<forall>c < length (calls ! w). \<forall>i < length (calls ! w ! c).
        if wants_render (calls ! w ! c ! i)
        then \<exists>port \<in> {renderPortStart..renderPortEnd}. rs_renders s (w, c, i) = fetch_image env host (Joints (calls ! w ! c ! i)) port
        else rs_renders s (w, c, i) = None))"
proof -
  have inv: "service_inv (fetch_image env host) totalWorkers calls s"
    using service.invariant_steps [OF service_begins assms] by simp
  have "k \<le> (\<Sum>fss \<leftarrow> calls. \<Sum>fs \<leftarrow> fss. 5 * length fs + 2) + totalWorkers + 1"
    using service.steps_bounded [OF service_begins assms] by (simp add: service_left_start)
  moreover have "\<not> list_all (\<lambda>v. v = Stopped) (rs_workers s) \<longrightarrow> (\<exists>s'. service_step (fetch_image env host) (2 * totalWorkers) calls s s')"
    using service_progress [OF inv] service_workers by simp
  moreover have "rs_closed s \<or> Stopped \<in> set (rs_workers s) \<longrightarrow> list_all (\<lambda>c. c = CallsDone) (rs_callers s)"
    using inv by (auto simp: service_inv_def)
  moreover have "if wants_render (calls ! w ! c ! i)
      then \<exists>port \<in> {renderPortStart..renderPortEnd}. rs_renders s (w, c, i) = fetch_image env host (Joints (calls ! w ! c ! i)) port
      else rs_renders s (w, c, i) = None"
    if "w < length calls" "rs_callers s ! w = CallsDone" "c < length (calls ! w)" "i < length (calls ! w ! c)" for w c i
  proof -
    have "is_cell calls (w, c, i)" using that by (simp add: is_cell_def)
    then have "cell_answer (fetch_image env host) totalWorkers (calls ! w ! c ! i) True (rs_chan s (w, c, i))
        (Answered (w, c, i) \<in> set (rs_workers s)) (rs_renders s (w, c, i))"
      using inv that(2) unfolding service_inv_def answers_ok_def by (metis received.simps(3))
    then show ?thesis using port_answer_ports by (auto simp: cell_answer_def)
  qed
  ultimately show ?thesis by blast
qed

definition ex_cell :: Frame where
  "ex_cell = empty_frame\<lparr>Joints := replicate 8 \<lparr>RangeMin = 0, RangeMax = 0, Position = 1, PositionNorm = 0, Goal = 1, GoalNorm = 0, CurrentMA = 0, Velocity = 0\<rparr>,
    Images := [\<lparr>JPEG = []\<rparr>, \<lparr>JPEG = []\<rparr>]\<rparr>"

definition ex_renderer :: "nat render_env" where
  "ex_renderer = ex_env\<lparr>http_Get := (\<lambda>_. Some (200, [1, 2, 3]))\<rparr>"

theorem service_complete_witness:
  "\<exists>s. (service_step (fetch_image ex_renderer ''localhost'') (2 * totalWorkers) [[[ex_cell, empty_frame]]])\<^sup>*\<^sup>* (service_start totalWorkers [[[ex_cell, empty_frame]]]) s \<and>
    rs_renders s (0, 0, 0) = Some 3 \<and> rs_renders s (0, 0, 1) = None"
proof -
  let ?calls = "[[[ex_cell, empty_frame]]]"
  obtain k s where run: "(service_step (fetch_image ex_renderer ''localhost'') (2 * totalWorkers) ?calls ^^ k) (service_start totalWorkers ?calls) s"
    and ended: "list_all (\<lambda>v. v = Stopped) (rs_workers s)" using service.run_to_end [OF service_begins] by blast
  have inv: "service_inv (fetch_image ex_renderer ''localhost'') totalWorkers ?calls s" using service.invariant_steps [OF service_begins run] by simp
  then have "Stopped \<in> set (rs_workers s)" "length (rs_callers s) = 1"
    using ended service_workers by (cases "rs_workers s"; auto simp: service_inv_def)+
  with service_complete [OF run] have finished: "rs_callers s ! 0 = CallsDone" by (auto simp: list_all_length)
  have wants: "wants_render ex_cell" "\<not> wants_render empty_frame" by (simp_all add: wants_render_def ex_cell_def empty_frame_def)
  have fetched: "fetch_image ex_renderer ''localhost'' (Joints ex_cell) port = Some 3" for port
    by (simp add: fetch_image_def fetch3DRender_def ex_renderer_def ex_env_def ex_cell_def)
  from service_complete [OF run] finished wants fetched have "rs_renders s (0, 0, 0) = Some 3" "rs_renders s (0, 0, 1) = None"
    by (auto simp: less_Suc_eq split: if_splits)
  with run show ?thesis using relpowp_imp_rtranclp by fast
qed

end
