(* ===== verification/Spec2Isabelle.thy ===== *)
theory Spec2Isabelle
  imports Codec_Theorems Gremlinc St3215_Memory Vesc_Rates Dataset_Main Console_Tools Video_Main Video_Service
begin

text \<open>
  A verification library for the Go code of norma-core.

  \<^bold>\<open>The program.\<close> Norma-core records what robots do. Its Go part has six parts that build on each
  other. The compiler \<^verbatim>\<open>gremlinc\<close> reads proto files, resolves imports, extensions, references and
  options, and maps every message to a Go struct. The code it emits for a struct (size, marshal,
  unmarshal, getters) calls the runtime \<^verbatim>\<open>shared/gremlin_go\<close>, which writes and reads the protobuf wire
  format. The drivers \<^verbatim>\<open>software/drivers/st3215\<close> and \<^verbatim>\<open>software/drivers/vesc-trampa\<close> decode motor
  registers and controller packets, the latter from messages of the generated code. The dataset
  generator \<^verbatim>\<open>software/station/bin/dataset-generator\<close> finds the bounds of a recording in a queue,
  streams its frames, cuts them into episodes and shows the progress in a terminal interface; \<^verbatim>\<open>dataset-mp4\<close> draws them.

  \<^bold>\<open>Shared theories.\<close> \<open>Go_Base\<close> has results with errors and panics (\<open>gres\<close>), byte slices with length and
  capacity, the wrap-around of \<^verbatim>\<open>int\<close> and the lemma collections. \<open>Go_Strings\<close> and \<open>Go_Filepath\<close> model what
  the sources use of \<^verbatim>\<open>strings\<close>, \<^verbatim>\<open>strconv\<close> and \<^verbatim>\<open>path/filepath\<close>, \<open>Go_Float\<close> rounded float64 quotients,
  \<open>Go_Fmt\<close> the number formats of \<^verbatim>\<open>fmt\<close> and \<open>Go_Time\<close> durations. \<open>Go_Schedules\<close> is the contract of a group of goroutines
  that finishes, a locale with an invariant, a measure and progress, which the worker pool and the render service interpret.

  \<^bold>\<open>Wire runtime.\<close> \<open>Wire_Writer\<close> models every function of \<^verbatim>\<open>writer.go\<close> on a buffer with a fixed capacity,
  \<open>Wire_Reader\<close> every method of \<^verbatim>\<open>reader.go\<close> and \<^verbatim>\<open>reading.go\<close> with the panics of Go's indexing.
  The lemmas show that the unrolled varint code is the base-128 encoding, that what is written is read
  back, and when a read panics.

  \<^bold>\<open>Generated code.\<close> The templates of \<^verbatim>\<open>gremlinc/internal/generators/golang\<close> (\<^verbatim>\<open>fields\<close>, \<^verbatim>\<open>types\<close>) are
  modelled by the meaning of the code they emit, for any schema: \<open>Proto_Fields\<close> has the value and field
  types with emptiness test, size and writer, \<open>Message_Codec\<close> size, marshal, unmarshal, getters with
  their cache and \<^verbatim>\<open>ToStruct\<close>, \<open>Message_Write\<close>, \<open>Message_Read\<close> and \<open>Message_Getters\<close> the proofs;
  \<open>Message_Copy\<close> models the copies and \<open>Message_Canonical\<close> says what a round trip keeps without the generated code. \<open>Codec_Theorems\<close>
  states the round trip, the exactness of the size, and the malformed inputs on which the code
  diverges or panics. Nested messages, maps and packed lists are in; the order of a map is the order
  of its list.

  \<^bold>\<open>Compiler.\<close> \<open>Proto_Scopes\<close> models \<^verbatim>\<open>types/scopes.go\<close>, \<open>Proto_Parse\<close> the data model (\<^verbatim>\<open>types/struct.go\<close>,
  \<^verbatim>\<open>types/types.go\<close>), the file search (\<^verbatim>\<open>paths.go\<close>, \<^verbatim>\<open>reader.go\<close>) and the walk (\<^verbatim>\<open>parser.go\<close>), \<open>Proto_Resolve\<close>
  the passes of \<^verbatim>\<open>resolving.go\<close> and the imports, \<open>Proto_Imports\<close> the base folders and
  \<^verbatim>\<open>ResolveImportsAndReferences\<close>. Their theorems: the names of definitions, references go to the innermost
  scope, base folders are what the paths determine. \<open>Proto_Complete\<close> shows that a resolution without
  errors is complete. \<open>Go_Files\<close> models the generated files and the field types (\<^verbatim>\<open>core/files.go\<close>,
  \<^verbatim>\<open>fields/types.go\<close>, \<^verbatim>\<open>mapper\<close>), \<open>Go_Compile\<close> shows that the generator accepts what the resolution
  accepts, and \<open>Go_Schema\<close> gives the schema that the generated structs stand for. The theorem below
  joins all of it with the round trip of the generated code.

  \<^bold>\<open>Printed code.\<close> \<open>Go_Text\<close> has the indentation of \<^verbatim>\<open>formatting/tabs.go\<close> and a scanner for the brackets, literals
  and comments of Go, \<open>Go_Templates\<close> the text that every method of the field types emits (\<^verbatim>\<open>fields\<close>),
  \<open>Go_Print\<close> the text of enums, structs and files (\<^verbatim>\<open>types\<close>, \<^verbatim>\<open>core/files.go\<close>). \<open>Go_Imports\<close> shows that the
  printed imports are the ones the types need, \<open>Go_Lexical\<close> that every printed file is closed.
  \<open>Gremlinc\<close> models \<^verbatim>\<open>gremlinc/main.go\<close> and \<^verbatim>\<open>golang.go\<close> on a disk, and \<^verbatim>\<open>internal/pathutils\<close>: what a run that
  succeeds leaves on the disk, and that nothing is written before everything is resolved.

  \<^bold>\<open>Drivers.\<close> \<open>St3215_Memory\<close> models \<^verbatim>\<open>st3215/memory.go\<close>. \<open>Vesc_Buffer\<close>, \<open>Vesc_Values\<close>, \<open>Vesc_Config\<close> and
  \<open>Vesc_Commands\<close> model \<^verbatim>\<open>buffer.go\<close>, \<^verbatim>\<open>values.go\<close>, \<^verbatim>\<open>config.go\<close> and \<^verbatim>\<open>command.go\<close> with \<^verbatim>\<open>display.go\<close>:
  which packets parse, correct rounding of scaled readings, and the commands through the
  generated code of \<^verbatim>\<open>vesc_trampa.proto\<close>. \<open>Vesc_Display\<close> models the texts that show what was received;
  its theorem reads the numbers back. \<open>Station_Streams\<close> models \<^verbatim>\<open>station/streams.go\<close>, and \<open>Vesc_Monitor\<close> the program
  \<^verbatim>\<open>vesc-trampa-rx-go\<close>, which follows a queue of envelopes: its recorded times refine the history of
  the received envelopes, and \<open>Vesc_Rates\<close> bounds the error of the rates it shows.

  \<^bold>\<open>Dataset generator.\<close> \<open>Dataset_Frames\<close> has frames and interface messages, \<open>Episodes\<close> the state machine of
  \<^verbatim>\<open>episodes.go\<close>, \<open>Ui_Model\<close> the interface of \<^verbatim>\<open>ui/model.go\<close>, \<open>Queue_Bounds\<close> the searches of \<^verbatim>\<open>bounds.go\<close>,
  \<open>Dataset_Run\<close> the streaming of \<^verbatim>\<open>source.go\<close> and the main loop, \<open>Ui_View\<close> the screen and the summary, and
  \<open>Dataset_Main\<close> the main function of \<^verbatim>\<open>dataset-generator.go\<close>. The theorems: no run panics, saved
  episodes meet the requirements, the counters add up, the searches end with the right bounds,
  the interface shows the counters of the detector, which screens make it panic, and the program ends with the
  error of the processing. \<open>Console_Tools\<close> models what the command-line programs do when they start, the limit of open
  files (\<^verbatim>\<open>ulimits.go\<close>) and the position in log lines (\<^verbatim>\<open>console-tool.go\<close>).

  \<^bold>\<open>Dataset video.\<close> \<open>Video_Episodes\<close> models how \<^verbatim>\<open>dataset-mp4.go\<close> takes rows out of the record batches,
  collects them into episodes and lays these out in grids of render jobs; \<open>Video_Render\<close> models a grid frame
  as the sequence of its drawing calls. \<open>Video_Pool\<close> is the worker pool: the channels, the workers and the collector as
  an inductive step relation, one step per operation of a goroutine, so that a run is any schedule; \<open>Video_Service\<close> does the
  same for the render service, whose response channels are an explicit store; \<open>Video_Main\<close> is
  the main function with every way it ends. The theorems: the episodes are the runs of valid rows, every frame has its job and cell, every image lies in its own cell, every schedule ends with every job rendered
  once and every request of the render service answered, and what is on the disk when \<^verbatim>\<open>ffmpeg\<close> starts.

  \<^bold>\<open>What is outside.\<close> Packages that are not in the repository are arguments: the proto parser and its walk
  (a list of visited elements), the station queue, the parquet reader and writer, the drawing package, the network and the
  file system (functions that may fail), the printing of \<^verbatim>\<open>%q\<close> and of times, and the value the Go compiler gives a default literal.

  \<^bold>\<open>Fuel.\<close> Loops that may run forever (\<^verbatim>\<open>Unmarshal\<close>, group skipping, packed getters, the queue searches)
  take fuel, and running out of it is a value of its own, \<open>OutOfFuel\<close>. The round trips hold for any fuel
  above the size of the message, and the searches for fuel above the length of the queue; the
  theorems on divergence hold for every fuel.

  \<^bold>\<open>Not modelled.\<close> The connection between the text of the emitted Go code and its meaning, which would need
  a semantics of Go; the generated files under \<^verbatim>\<open>testpb\<close> and \<^verbatim>\<open>bench\<close>, which are outputs of the modelled
  printer; benchmarks and the example of \<^verbatim>\<open>gremlin_go\<close>, which only call it; the
  video encoder, the logger, and styles and colours of the terminal interface. Code in other languages is not
  part of this development.
\<close>

section \<open>The compiler from the proto file to the bytes\<close>

text \<open>A file as the search creates it and the walk fills it.\<close>

definition read_proto :: "string \<Rightarrow> string \<Rightarrow> visitee list \<Rightarrow> ProtoFile" where
  "read_proto p rel vs = fst (extractProtoStruct vs ((new_file p)\<lparr>f_RelativePath := rel\<rparr>))"

lemma read_proto_parsed:
  assumes "m \<in> set (f_Messages (read_proto p rel vs))" and "list_all (\<lambda>field. fd_Map field \<longrightarrow> fd_MapKeyType field \<noteq> []) (md_Fields m)"
  shows "list_all parsed_field (md_Fields m)" 
  using walk_sat [of "(new_file p)\<lparr>f_RelativePath := rel\<rparr>" vs "[]"] assms
  by (auto simp: read_proto_def extractProtoStruct_def file_sat_def new_file_def list_all_iff parsed_field_def extracted_field_def known_types_def)

lemma read_proto_no_target: "list_all no_target (f_Imports (read_proto p rel vs))"
  using walk_sat [of "(new_file p)\<lparr>f_RelativePath := rel\<rparr>" vs "[]"]
  by (simp add: read_proto_def extractProtoStruct_def file_sat_def new_file_def)


text \<open>The two files of the example, from their elements to the bytes of a message.\<close>

definition ex_sources :: "(string \<times> string \<times> visitee list) list" where
  "ex_sources =
     [(''/w/geo.proto'', ''geo.proto'', [VPackage ''geo'',
        VMessage \<lparr>pm_Name = ''Point'', pm_IsExtend = False, pm_Parent = OtherParent,
          pm_Elements = [NormalField \<lparr>pf_Name = ''x'', pf_Type = ''sint32'', pf_Sequence = 1, pf_Options = []\<rparr> False False]\<rparr>]),
      (''/w/app.proto'', ''app.proto'', [VPackage ''app'', VImport ''geo.proto'' [],
        VMessage \<lparr>pm_Name = ''Route'', pm_IsExtend = False, pm_Parent = OtherParent,
          pm_Elements = [NormalField \<lparr>pf_Name = ''at'', pf_Type = ''geo.Point'', pf_Sequence = 1, pf_Options = []\<rparr> True False,
            MapField \<lparr>pf_Name = ''tags'', pf_Type = ''bool'', pf_Sequence = 7, pf_Options = []\<rparr> ''string'']\<rparr>])]"


end
